(* ===== verification/Prelude.thy ===== *)
theory Prelude
  imports Main "HOL-Library.Word"
begin

text \<open>
  The shared part of the library: the machine integer types the C++ code uses, the copy of a
  block of memory into another (\<^verbatim>\<open>memcpy\<close>), and the lemmas on lists of equally sized
  blocks that the components rely on. The collections \<open>mem_simps\<close> and \<open>bind_simps\<close> gather
  the rewrite rules the component proofs use.
\<close>

unbundle bit_operations_syntax

named_theorems mem_simps \<open>rewrite rules for memory blocks\<close>
named_theorems bind_simps \<open>rewrite rules for computations that may fail\<close>

subsection \<open>Machine integers\<close>

type_synonym u8 = "8 word"
type_synonym u16 = "16 word"
type_synonym u32 = "32 word"
type_synonym u64 = "64 word"

subsection \<open>Computations that may fail\<close>

text \<open>
  A C++ function that throws, aborts in an assertion or runs into undefined behaviour is a
  function into a sum: \<open>Inl\<close> carries the error, \<open>Inr\<close> the result. \<open>err_bind\<close> runs the next
  statement only after the first one returned.
\<close>

definition err_bind :: "'e + 'a \<Rightarrow> ('a \<Rightarrow> 'e + 'b) \<Rightarrow> 'e + 'b" where
  "err_bind r f = (case r of Inl e \<Rightarrow> Inl e | Inr a \<Rightarrow> f a)"

lemma err_bind_Inl [simp, bind_simps]: "err_bind (Inl e) f = Inl e"
  by (simp add: err_bind_def)

lemma err_bind_Inr [simp, bind_simps]: "err_bind (Inr a) f = f a"
  by (simp add: err_bind_def)

lemma err_bind_eq_Inr [bind_simps]:
  "err_bind r f = Inr b \<longleftrightarrow> (\<exists>a. r = Inr a \<and> f a = Inr b)"
  by (cases r) auto

lemma err_bind_assoc [bind_simps]:
  "err_bind (err_bind r f) g = err_bind r (\<lambda>a. err_bind (f a) g)"
  by (cases r) auto

lemma not_isl_Inr: "\<not> isl r \<Longrightarrow> \<exists>a. r = Inr a"
  by (cases r) auto

subsection \<open>Blocks of memory\<close>

definition memcpy_at :: "'a list \<Rightarrow> nat \<Rightarrow> 'a list \<Rightarrow> 'a list" where
  "memcpy_at dst off src = take off dst @ src @ drop (off + length src) dst"

lemma length_memcpy_at [simp, mem_simps]:
  "off + length src \<le> length dst \<Longrightarrow> length (memcpy_at dst off src) = length dst"
  by (simp add: memcpy_at_def)

lemma memcpy_at_Nil [simp, mem_simps]: "memcpy_at dst off [] = dst"
  by (simp add: memcpy_at_def)

lemma take_memcpy_at [mem_simps]:
  "off \<le> length dst \<Longrightarrow> take (off + length src) (memcpy_at dst off src) = take off dst @ src"
  by (simp add: memcpy_at_def)

lemma drop_memcpy_at [mem_simps]:
  "off \<le> length dst \<Longrightarrow> drop off (memcpy_at dst off src) = src @ drop (off + length src) dst"
  by (simp add: memcpy_at_def)

lemma memcpy_at_append:
  assumes "off + length xs + length ys \<le> length dst"
  shows "memcpy_at (memcpy_at dst off xs) (off + length xs) ys = memcpy_at dst off (xs @ ys)"
  using assms by (simp add: memcpy_at_def ac_simps)

text \<open>What a copy leaves alone: everything before and after the target range.\<close>

lemma memcpy_at_range:
  assumes "off + length src \<le> length dst"
  shows "take (length src) (drop off (memcpy_at dst off src)) = src"
  using assms by (simp add: drop_memcpy_at)

text \<open>A copy into a prefix of a block, seen through the part that is in use.\<close>

lemma take_max_memcpy_at:
  assumes "off \<le> n" and "n \<le> length dst" and "off + length src \<le> length dst"
  shows "take (max n (off + length src)) (memcpy_at dst off src) = memcpy_at (take n dst) off src"
proof (cases "n \<le> off + length src")
  case True
  then show ?thesis using assms by (cases src) (simp_all add: memcpy_at_def max_def min_def)
next
  case False
  then have "take (n - (off + length src)) (drop (off + length src) dst) =
      drop (off + length src) (take n dst)"
    by (simp add: drop_take)
  then show ?thesis using False assms by (simp add: memcpy_at_def max_def min_def)
qed

subsection \<open>Lists of blocks of one size\<close>

definition blocks :: "nat \<Rightarrow> 'a list list \<Rightarrow> bool" where
  "blocks b xss \<longleftrightarrow> list_all (\<lambda>xs. length xs = b) xss"

lemma blocks_nth [mem_simps]: "blocks b xss \<Longrightarrow> i < length xss \<Longrightarrow> length (xss ! i) = b"
  by (simp add: blocks_def list_all_length)

lemma blocks_append [simp, mem_simps]: "blocks b (xs @ ys) \<longleftrightarrow> blocks b xs \<and> blocks b ys"
  by (simp add: blocks_def)

lemma blocks_Cons [simp, mem_simps]: "blocks b (x # xs) \<longleftrightarrow> length x = b \<and> blocks b xs"
  by (simp add: blocks_def)

lemma blocks_replicate [simp, mem_simps]: "length x = b \<Longrightarrow> blocks b (replicate n x)"
  by (simp add: blocks_def list_all_length)

lemma blocks_update [mem_simps]: "blocks b xss \<Longrightarrow> length x = b \<Longrightarrow> blocks b (xss[i := x])"
  using set_update_subset_insert [of xss i x] by (auto simp: blocks_def list_all_iff)

lemma blocks_take [mem_simps]: "blocks b xss \<Longrightarrow> blocks b (take i xss)"
  by (auto simp: blocks_def list_all_length)

lemma blocks_drop [mem_simps]: "blocks b xss \<Longrightarrow> blocks b (drop i xss)"
  by (auto simp: blocks_def list_all_length)

lemma length_concat_blocks [mem_simps]: "blocks b xss \<Longrightarrow> length (concat xss) = b * length xss"
  by (induction xss) (auto simp: blocks_def)

lemma length_concat_take_blocks:
  "blocks b xss \<Longrightarrow> i \<le> length xss \<Longrightarrow> length (concat (take i xss)) = b * i"
  using length_concat_blocks [OF blocks_take, of b xss i] by simp

text \<open>The block \<open>i\<close> is the stretch of the flat list that starts at \<open>b * i\<close>.\<close>

lemma concat_split_block:
  "i < length xss \<Longrightarrow> concat xss = concat (take i xss) @ xss ! i @ concat (drop (Suc i) xss)"
  by (metis concat.simps(2) concat_append id_take_nth_drop)

lemma drop_concat_block:
  assumes "blocks b xss" and "i < length xss" and "off \<le> b"
  shows "drop (b * i + off) (concat xss) = drop off (xss ! i) @ concat (drop (Suc i) xss)"
proof -
  have len: "length (concat (take i xss)) = b * i" and "length (xss ! i) = b"
    using assms by (simp_all add: length_concat_take_blocks blocks_nth)
  then show ?thesis
    using assms(3) by (subst concat_split_block [OF assms(2)]) simp
qed

lemma concat_update_block:
  assumes "blocks b xss" and "i < length xss" and "off + length src \<le> b"
  shows "concat (xss[i := memcpy_at (xss ! i) off src]) = memcpy_at (concat xss) (b * i + off) src"
proof -
  let ?p = "concat (take i xss)" and ?s = "concat (drop (Suc i) xss)"
  have len: "length ?p = b * i" and leni: "length (xss ! i) = b"
    using assms by (simp_all add: length_concat_take_blocks blocks_nth)
  have "concat (xss[i := memcpy_at (xss ! i) off src]) = ?p @ memcpy_at (xss ! i) off src @ ?s"
    using assms(2) by (simp add: upd_conv_take_nth_drop)
  also have "\<dots> = memcpy_at (?p @ xss ! i @ ?s) (b * i + off) src"
    using len leni assms(3) by (simp add: memcpy_at_def)
  finally show ?thesis
    using concat_split_block [OF assms(2)] by simp
qed

text \<open>A small 64 bit number survives the conversion to a 32 bit \<^verbatim>\<open>int\<close>.\<close>

lemma sint_of_nat_small: "n < 2 ^ 31 \<Longrightarrow> sint (of_nat n :: u32) = int n"
  using sint_sbintrunc' [of "int n", where 'a = 32] by (simp add: signed_take_bit_int_eq_self)

lemma sint_of_nat_big:
  assumes "2 ^ 31 \<le> n" and "n < 2 ^ 32"
  shows "sint (of_nat n :: u32) < 0"
proof -
  have "n div 2 ^ 31 = 1" using assms by (intro div_nat_eqI) simp_all
  then have "bit n 31" by (simp add: bit_iff_odd)
  then have "bit (of_nat n :: u32) 31" by (simp only: bit_of_nat_iff) simp
  then show ?thesis using bit_last_iff [of "of_nat n :: u32"] by simp
qed

lemma sint_ucast_small:
  assumes "uint (t :: u64) < 2 ^ 31"
  shows "sint (ucast t :: u32) = uint t"
proof -
  have u: "uint (ucast t :: u32) = uint t"
    using assms by (simp add: unsigned_ucast_eq take_bit_int_eq_self)
  have "sint (ucast t :: u32) = signed_take_bit 31 (uint (ucast t :: u32))"
    using sint_uint [of "ucast t :: u32"] by simp
  also have "\<dots> = uint t" unfolding u using assms order_trans [of "- (2 ^ 31)" 0 "uint t"]
    by (intro signed_take_bit_int_eq_self) simp_all
  finally show ?thesis .
qed

end
