(* ===== verification/Endian.thy ===== *)
theory Endian
  imports Prelude
begin

text \<open>
  \<^verbatim>\<open>code/endian.h\<close>: the byte order constants and the byte swap templates. The byte order of
  the machine the code is compiled for (\<^verbatim>\<open>CXS_BYTE_ORDER\<close>) is a parameter \<open>bo\<close> of every
  definition that depends on it. \<open>mem_bytes bo w\<close> are the bytes of the object representation
  of \<open>w\<close> in ascending address order, what \<^verbatim>\<open>memcpy\<close> from an integer variable copies.
\<close>

definition CXS_LITTLE_ENDIAN :: nat where
  "CXS_LITTLE_ENDIAN = 1"

definition CXS_BIG_ENDIAN :: nat where
  "CXS_BIG_ENDIAN = 2"

subsection \<open>Object representations\<close>

definition le_bytes :: "'a::len word \<Rightarrow> u8 list" where
  "le_bytes w = map (\<lambda>i. ucast (drop_bit (8 * i) w)) [0..<LENGTH('a) div 8]"

fun of_le_bytes :: "u8 list \<Rightarrow> 'a::len word" where
  "of_le_bytes [] = 0"
| "of_le_bytes (b # bs) = ucast b OR push_bit 8 (of_le_bytes bs)"

definition mem_bytes :: "nat \<Rightarrow> 'a::len word \<Rightarrow> u8 list" where
  "mem_bytes bo w = (if bo = CXS_LITTLE_ENDIAN then le_bytes w else rev (le_bytes w))"

definition of_mem_bytes :: "nat \<Rightarrow> u8 list \<Rightarrow> 'a::len word" where
  "of_mem_bytes bo bs = (if bo = CXS_LITTLE_ENDIAN then of_le_bytes bs else of_le_bytes (rev bs))"

text \<open>The three overloads of \<^verbatim>\<open>byteswap\<close> differ in the width only.\<close>

definition byteswap :: "'a::len word \<Rightarrow> 'a word" where
  "byteswap w = of_le_bytes (rev (le_bytes w))"

definition byteswapOnLittleEndian :: "nat \<Rightarrow> 'a::len word \<Rightarrow> 'a word" where
  "byteswapOnLittleEndian bo t = (if bo = CXS_BIG_ENDIAN then t else byteswap t)"

definition byteswapOnBigEndian :: "nat \<Rightarrow> 'a::len word \<Rightarrow> 'a word" where
  "byteswapOnBigEndian bo t = (if bo = CXS_BIG_ENDIAN then byteswap t else t)"

subsection \<open>Round trips\<close>

lemma length_le_bytes [simp]: "length (le_bytes (w :: 'a::len word)) = LENGTH('a) div 8"
  by (simp add: le_bytes_def)

lemma length_mem_bytes [simp]: "length (mem_bytes bo (w :: 'a::len word)) = LENGTH('a) div 8"
  by (simp add: mem_bytes_def)

lemma bit_of_le_bytes:
  "bit (of_le_bytes bs :: 'a::len word) k \<longleftrightarrow>
     k < LENGTH('a) \<and> k div 8 < length bs \<and> bit (bs ! (k div 8)) (k mod 8)"
proof (induction bs arbitrary: k)
  case Nil
  then show ?case by simp
next
  case (Cons b bs)
  show ?case
  proof (cases "k < 8")
    case True
    then show ?thesis by (auto simp: bit_simps)
  next
    case False
    then have "k div 8 = Suc ((k - 8) div 8)" and "k mod 8 = (k - 8) mod 8"
      by (simp_all add: le_div_geq le_mod_geq)
    then show ?thesis
      using False Cons.IH [of "k - 8"] by (auto simp: bit_simps dest: bit_imp_le_length)
  qed
qed

lemma of_le_bytes_le_bytes:
  assumes "8 dvd LENGTH('a)"
  shows "of_le_bytes (le_bytes w) = (w :: 'a::len word)"
proof (rule bit_word_eqI)
  fix k assume k: "k < LENGTH('a)"
  then have "k div 8 < LENGTH('a) div 8"
    using assms by (auto elim!: dvdE simp: less_mult_imp_div_less mult.commute)
  moreover have "8 * (k div 8) + k mod 8 = k" by simp
  ultimately show "bit (of_le_bytes (le_bytes w) :: 'a word) k \<longleftrightarrow> bit w k"
    using k by (simp add: bit_of_le_bytes) (simp add: le_bytes_def bit_simps)
qed

lemma le_bytes_of_le_bytes:
  assumes "8 * length bs = LENGTH('a)"
  shows "le_bytes (of_le_bytes bs :: 'a::len word) = bs"
proof (rule nth_equalityI)
  have len: "LENGTH('a) div 8 = length bs" using assms by linarith
  then show "length (le_bytes (of_le_bytes bs :: 'a word)) = length bs" by simp
  fix i assume "i < length (le_bytes (of_le_bytes bs :: 'a word))"
  then have i: "i < length bs" using len by simp
  show "le_bytes (of_le_bytes bs :: 'a word) ! i = bs ! i"
  proof (rule bit_word_eqI)
    fix k assume "k < LENGTH(8)"
    then have k: "k < 8" by simp
    then have "(8 * i + k) div 8 = i" and "(8 * i + k) mod 8 = k" by simp_all
    then show "bit (le_bytes (of_le_bytes bs :: 'a word) ! i) k \<longleftrightarrow> bit (bs ! i) k"
      using i k len assms by (simp add: le_bytes_def bit_simps bit_of_le_bytes)
  qed
qed

lemma of_mem_bytes_mem_bytes:
  "8 dvd LENGTH('a) \<Longrightarrow> of_mem_bytes bo (mem_bytes bo w) = (w :: 'a::len word)"
  by (simp add: of_mem_bytes_def mem_bytes_def of_le_bytes_le_bytes)

lemma le_bytes_byteswap:
  assumes "8 dvd LENGTH('a)"
  shows "le_bytes (byteswap w) = rev (le_bytes (w :: 'a::len word))"
proof -
  have "8 * length (rev (le_bytes w)) = LENGTH('a)" using assms by simp
  then show ?thesis
    unfolding byteswap_def by (rule le_bytes_of_le_bytes)
qed

lemma byteswap_byteswap:
  assumes "8 dvd LENGTH('a)"
  shows "byteswap (byteswap w) = (w :: 'a::len word)"
proof -
  have "byteswap (byteswap w) = of_le_bytes (rev (le_bytes (byteswap w)))"
    by (simp add: byteswap_def)
  then show ?thesis
    using assms by (simp add: le_bytes_byteswap of_le_bytes_le_bytes)
qed

lemma byteswapOnLittleEndian_involution:
  "8 dvd LENGTH('a) \<Longrightarrow>
     byteswapOnLittleEndian bo (byteswapOnLittleEndian bo w) = (w :: 'a::len word)"
  by (simp add: byteswapOnLittleEndian_def byteswap_byteswap)

lemma byteswapOnBigEndian_involution:
  "8 dvd LENGTH('a) \<Longrightarrow>
     byteswapOnBigEndian bo (byteswapOnBigEndian bo w) = (w :: 'a::len word)"
  by (simp add: byteswapOnBigEndian_def byteswap_byteswap)

text \<open>
  Swapping before the store lays the most significant byte first on a little endian machine:
  the network order that the socket addresses rely on, whatever the machine.
\<close>

lemma mem_bytes_byteswap:
  "8 dvd LENGTH('a) \<Longrightarrow> mem_bytes bo (byteswap (w :: 'a::len word)) = rev (mem_bytes bo w)"
  by (simp add: mem_bytes_def le_bytes_byteswap)

lemma network_order:
  assumes "8 dvd LENGTH('a)" and "bo = CXS_LITTLE_ENDIAN \<or> bo = CXS_BIG_ENDIAN"
  shows "mem_bytes bo (byteswapOnLittleEndian bo (w :: 'a::len word)) = rev (le_bytes w)"
  using assms
  by (auto simp: byteswapOnLittleEndian_def le_bytes_byteswap mem_bytes_def
      CXS_LITTLE_ENDIAN_def CXS_BIG_ENDIAN_def)

end
