(* ===== verification/ByteArray.thy ===== *)
theory ByteArray
  imports Endian
begin

text \<open>
  \<^verbatim>\<open>code/bytearray.h\<close> and \<^verbatim>\<open>code/bytearray.cc\<close>: the chunked byte buffer. The chain of
  \<^verbatim>\<open>Node\<close>s from \<^verbatim>\<open>m_root\<close> is the list \<open>m_nodes\<close>; \<^verbatim>\<open>m_current\<close> is the index of the node it
  points to, \<open>None\<close> for \<^verbatim>\<open>nullptr\<close>. A byte of a node is \<open>Some b\<close> once it was written and
  \<open>None\<close> while it is indeterminate (\<^verbatim>\<open>new char[s]\<close> does not initialise). Sizes are natural
  numbers: the invariant below keeps every subtraction of the code non-negative. Following a
  null node pointer and dividing by a base size of 0 are errors of the model.

  \<^verbatim>\<open>read\<close> copies \<^verbatim>\<open>size\<close> bytes out of a node that has only \<^verbatim>\<open>ncap\<close> bytes left whenever it
  crosses a node boundary. The bytes beyond the node are indeterminate, and the ghost field
  \<open>m_overread\<close> counts them: the theorems say what is read when the access beyond the node does
  not trap, and exactly when there is such an access.
\<close>

type_synonym byte = "u8 option"

datatype ba_error =
    OutOfRange string
  | NullDeref
  | DivByZero
  | NegativeLength
  | Indeterminate
  | Diverges

record bytearray =
  m_position :: nat
  m_capacity :: nat
  m_baseSize :: nat
  m_size :: nat
  m_endian :: nat
  m_nodes :: "byte list list"
  m_current :: "nat option"
  m_overread :: nat

subsection \<open>Nodes and the constructor\<close>

definition new_node :: "nat \<Rightarrow> byte list" where
  "new_node s = replicate s None"

definition next_node :: "byte list list \<Rightarrow> nat \<Rightarrow> nat option" where
  "next_node nodes i = (if Suc i < length nodes then Some (Suc i) else None)"

definition new_ByteArray :: "nat \<Rightarrow> bytearray" where
  "new_ByteArray base_size =
     \<lparr>m_position = 0, m_capacity = base_size, m_baseSize = base_size, m_size = 0,
      m_endian = CXS_BIG_ENDIAN, m_nodes = [new_node base_size], m_current = Some 0,
      m_overread = 0\<rparr>"

definition isLittleEndian :: "bytearray \<Rightarrow> bool" where
  "isLittleEndian ba \<longleftrightarrow> m_endian ba = CXS_LITTLE_ENDIAN"

definition setLittleEndian :: "bytearray \<Rightarrow> bool \<Rightarrow> bytearray" where
  "setLittleEndian ba val = ba\<lparr>m_endian := if val then CXS_LITTLE_ENDIAN else CXS_BIG_ENDIAN\<rparr>"

definition getReadSize :: "bytearray \<Rightarrow> nat" where
  "getReadSize ba = m_size ba - m_position ba"

definition getCapacity :: "bytearray \<Rightarrow> nat" where
  "getCapacity ba = m_capacity ba - m_position ba"

definition clear :: "bytearray \<Rightarrow> bytearray" where
  "clear ba =
     ba\<lparr>m_position := 0, m_size := 0, m_capacity := m_baseSize ba,
        m_nodes := take 1 (m_nodes ba), m_current := Some 0\<rparr>"

subsection \<open>Growing, writing and reading\<close>

definition addCapacity :: "bytearray \<Rightarrow> nat \<Rightarrow> ba_error + bytearray" where
  "addCapacity ba sz =
     (if sz = 0 then Inr ba
      else let old_cap = getCapacity ba in
        if old_cap \<ge> sz then Inr ba
        else if m_baseSize ba = 0 then Inl DivByZero
        else let sz' = sz - old_cap;
                 count = sz' div m_baseSize ba + (if sz' mod m_baseSize ba > old_cap then 1 else 0);
                 first = (if count = 0 then None else Some (length (m_nodes ba)))
             in Inr (ba\<lparr>m_nodes := m_nodes ba @ replicate count (new_node (m_baseSize ba)),
                        m_capacity := m_capacity ba + count * m_baseSize ba,
                        m_current := if old_cap = 0 then first else m_current ba\<rparr>))"

text \<open>
  The loop of \<^verbatim>\<open>write\<close>; \<open>data\<close> are the \<^verbatim>\<open>size\<close> bytes at \<^verbatim>\<open>buf + bpos\<close> still to copy.
\<close>

function write_loop ::
  "byte list list \<Rightarrow> nat option \<Rightarrow> nat \<Rightarrow> nat \<Rightarrow> byte list \<Rightarrow> nat \<Rightarrow>
     ba_error + byte list list \<times> nat option \<times> nat" where
  "write_loop nodes cur npos ncap data pos =
     (if data = [] then Inr (nodes, cur, pos)
      else case cur of None \<Rightarrow> Inl NullDeref
      | Some i \<Rightarrow>
          if \<not> i < length nodes then Inl NullDeref
          else if ncap \<ge> length data then
            Inr (nodes[i := memcpy_at (nodes ! i) npos data],
                 if length (nodes ! i) = npos + length data then next_node nodes i else Some i,
                 pos + length data)
          else let nodes' = nodes[i := memcpy_at (nodes ! i) npos (take ncap data)] in
            case next_node nodes i of None \<Rightarrow> Inl NullDeref
            | Some j \<Rightarrow>
                write_loop nodes' (Some j) 0 (length (nodes' ! j)) (drop ncap data) (pos + ncap))"
  by pat_completeness auto
termination
  by (relation "measure (\<lambda>(nodes, cur, _). case cur of None \<Rightarrow> 0 | Some i \<Rightarrow> length nodes - i)")
    (auto simp: next_node_def split: if_splits)

declare write_loop.simps [simp del]

definition ba_write :: "bytearray \<Rightarrow> u8 list \<Rightarrow> ba_error + bytearray" where
  "ba_write ba buf =
     (if buf = [] then Inr ba
      else err_bind (addCapacity ba (length buf)) (\<lambda>ba.
        if m_baseSize ba = 0 then Inl DivByZero
        else let npos = m_position ba mod m_baseSize ba in
          case m_current ba of None \<Rightarrow> Inl NullDeref
          | Some i \<Rightarrow>
              err_bind (write_loop (m_nodes ba) (Some i) npos (length (m_nodes ba ! i) - npos)
                          (map Some buf) (m_position ba))
                (\<lambda>(nodes, cur, pos).
                   Inr (ba\<lparr>m_nodes := nodes, m_current := cur, m_position := pos,
                           m_size := if pos > m_size ba then pos else m_size ba\<rparr>))))"

text \<open>
  The loop that both overloads of \<^verbatim>\<open>read\<close> run: it fills \<open>buf\<close> from \<open>bpos\<close> on and counts the
  bytes taken from beyond the end of a node.
\<close>

function read_loop ::
  "byte list list \<Rightarrow> nat option \<Rightarrow> nat \<Rightarrow> nat \<Rightarrow> nat \<Rightarrow> byte list \<Rightarrow> nat \<Rightarrow> nat \<Rightarrow>
     ba_error + byte list \<times> nat option \<times> nat" where
  "read_loop nodes cur npos ncap sz buf bpos over =
     (if sz = 0 then Inr (buf, cur, over)
      else case cur of None \<Rightarrow> Inl NullDeref
      | Some i \<Rightarrow>
          if \<not> i < length nodes then Inl NullDeref
          else if ncap \<ge> sz then
            Inr (memcpy_at buf bpos (take sz (drop npos (nodes ! i))),
                 if length (nodes ! i) = npos + sz then next_node nodes i else Some i,
                 over)
          else let src = drop npos (nodes ! i) @ replicate (sz - ncap) None in
            case next_node nodes i of None \<Rightarrow> Inl NullDeref
            | Some j \<Rightarrow>
                read_loop nodes (Some j) 0 (length (nodes ! j)) (sz - ncap)
                  (memcpy_at buf bpos src) (bpos + ncap) (over + (sz - ncap)))"
  by pat_completeness auto
termination
  by (relation "measure (\<lambda>(nodes, cur, _). case cur of None \<Rightarrow> 0 | Some i \<Rightarrow> length nodes - i)")
    (auto simp: next_node_def split: if_splits)

declare read_loop.simps [simp del]

definition ba_read :: "bytearray \<Rightarrow> nat \<Rightarrow> ba_error + byte list \<times> bytearray" where
  "ba_read ba sz =
     (if sz > getReadSize ba then Inl (OutOfRange ''read out of range'')
      else if m_baseSize ba = 0 then Inl DivByZero
      else let npos = m_position ba mod m_baseSize ba in
        case m_current ba of None \<Rightarrow> Inl NullDeref
        | Some i \<Rightarrow>
            err_bind (read_loop (m_nodes ba) (Some i) npos (length (m_nodes ba ! i) - npos) sz
                        (replicate sz None) 0 0)
              (\<lambda>(buf, cur, over).
                 Inr (buf, ba\<lparr>m_position := m_position ba + sz, m_current := cur,
                              m_overread := m_overread ba + over\<rparr>)))"

text \<open>
  The \<^verbatim>\<open>const\<close> overload reads from \<^verbatim>\<open>position\<close>, starting in the node \<^verbatim>\<open>m_current\<close>; it changes
  nothing. The second component counts the bytes read beyond a node.
\<close>

definition ba_read_at :: "bytearray \<Rightarrow> nat \<Rightarrow> nat \<Rightarrow> ba_error + byte list \<times> nat" where
  "ba_read_at ba sz position =
     (if sz > getReadSize ba then Inl (OutOfRange ''read out of range'')
      else if m_baseSize ba = 0 then Inl DivByZero
      else let npos = position mod m_baseSize ba in
        case m_current ba of None \<Rightarrow> Inl NullDeref
        | Some i \<Rightarrow>
            err_bind (read_loop (m_nodes ba) (Some i) npos (length (m_nodes ba ! i) - npos) sz
                        (replicate sz None) 0 0)
              (\<lambda>(buf, cur, over). Inr (buf, over)))"

text \<open>The loop of \<^verbatim>\<open>setPosition\<close> that looks for the node of the position.\<close>

function seek_loop :: "byte list list \<Rightarrow> nat \<Rightarrow> nat \<Rightarrow> ba_error + nat \<times> nat" where
  "seek_loop nodes i val =
     (if \<not> i < length nodes then Inl NullDeref
      else if val \<ge> length (nodes ! i) then seek_loop nodes (Suc i) (val - length (nodes ! i))
      else Inr (i, val))"
  by pat_completeness auto
termination
  by (relation "measure (\<lambda>(nodes, i, _). length nodes - i)") auto

declare seek_loop.simps [simp del]

definition setPosition :: "bytearray \<Rightarrow> nat \<Rightarrow> ba_error + bytearray" where
  "setPosition ba val =
     (if val > m_capacity ba then Inl (OutOfRange ''set position out of range'')
      else err_bind (seek_loop (m_nodes ba) 0 val) (\<lambda>(i, rest).
        Inr (ba\<lparr>m_position := val, m_size := if val > m_size ba then val else m_size ba,
                m_current := if rest = length (m_nodes ba ! i) then next_node (m_nodes ba) i
                             else Some i\<rparr>)))"

subsection \<open>Strings, files and scatter lists\<close>

definition toString :: "bytearray \<Rightarrow> ba_error + byte list \<times> nat" where
  "toString ba =
     (if getReadSize ba = 0 then Inr ([], 0)
      else ba_read_at ba (getReadSize ba) (m_position ba))"

definition hex_digit :: "nat \<Rightarrow> char" where
  "hex_digit n = (if n < 10 then char_of (48 + n) else char_of (87 + n))"

definition hex_byte :: "u8 \<Rightarrow> string" where
  "hex_byte b = [hex_digit (unat b div 16), hex_digit (unat b mod 16)]"

fun hex_loop :: "nat \<Rightarrow> u8 list \<Rightarrow> string" where
  "hex_loop i [] = []"
| "hex_loop i (b # bs) =
     (if i > 0 \<and> i mod 32 = 0 then [CHR 0x0A] else []) @ hex_byte b @ '' '' @ hex_loop (Suc i) bs"

definition toHexString :: "bytearray \<Rightarrow> ba_error + string" where
  "toHexString ba =
     err_bind (toString ba) (\<lambda>(str, _).
       if None \<in> set str then Inl Indeterminate else Inr (hex_loop 0 (map the str)))"

function write_file_loop ::
  "nat \<Rightarrow> byte list list \<Rightarrow> nat option \<Rightarrow> int \<Rightarrow> int \<Rightarrow> byte list \<Rightarrow> ba_error + byte list" where
  "write_file_loop base nodes cur pos read_size out =
     (if read_size \<le> 0 then Inr out
      else let diff = pos mod int base;
               len = (if read_size > int base then int base else read_size) - diff in
        case cur of None \<Rightarrow> Inl NullDeref
        | Some i \<Rightarrow>
            if \<not> i < length nodes then Inl NullDeref
            else if len < 0 then Inl NegativeLength
            else write_file_loop base nodes (next_node nodes i) (pos + len) (read_size - len)
                   (out @ take (nat len) (drop (nat diff) (nodes ! i))))"
  by pat_completeness auto
termination
  by (relation "measure (\<lambda>(base, nodes, cur, _). case cur of None \<Rightarrow> 0 | Some i \<Rightarrow> length nodes - i)")
    (auto simp: next_node_def)

declare write_file_loop.simps [simp del]

text \<open>
  \<^verbatim>\<open>writeToFile\<close>: \<open>opened\<close> says whether the file could be opened for writing; the result is the
  function's return value with what it wrote to the file.
\<close>

definition writeToFile :: "bool \<Rightarrow> bytearray \<Rightarrow> ba_error + bool \<times> byte list" where
  "writeToFile opened ba =
     (if \<not> opened then Inr (False, [])
      else if m_baseSize ba = 0 \<and> getReadSize ba > 0 then Inl DivByZero
      else err_bind (write_file_loop (m_baseSize ba) (m_nodes ba) (m_current ba)
                       (int (m_position ba)) (int (getReadSize ba)) [])
             (\<lambda>out. Inr (True, out)))"

text \<open>
  \<^verbatim>\<open>readFromFile\<close>: \<open>content\<close> is the file, \<open>None\<close> when it cannot be opened. Each round reads up
  to a base size of bytes and writes what it got; the round that gets fewer sets
  \<^verbatim>\<open>eof\<close>. With a base size of 0 no round reaches the end of the file.
\<close>

function file_chunks :: "nat \<Rightarrow> 'a list \<Rightarrow> 'a list list" where
  "file_chunks b xs =
     (if b = 0 \<or> length xs < b then [xs] else take b xs # file_chunks b (drop b xs))"
  by pat_completeness auto
termination
  by (relation "measure (\<lambda>(b, xs). length xs)") auto

declare file_chunks.simps [simp del]

fun write_chunks :: "bytearray \<Rightarrow> u8 list list \<Rightarrow> ba_error + bytearray" where
  "write_chunks ba [] = Inr ba"
| "write_chunks ba (c # cs) = err_bind (ba_write ba c) (\<lambda>ba. write_chunks ba cs)"

definition readFromFile :: "u8 list option \<Rightarrow> bytearray \<Rightarrow> ba_error + bool \<times> bytearray" where
  "readFromFile content ba =
     (case content of None \<Rightarrow> Inr (False, ba)
      | Some xs \<Rightarrow>
          if m_baseSize ba = 0 then Inl Diverges
          else err_bind (write_chunks ba (file_chunks (m_baseSize ba) xs)) (\<lambda>ba. Inr (True, ba)))"

text \<open>
  An \<^verbatim>\<open>iovec\<close>: the node and the offset \<^verbatim>\<open>iov_base\<close> points to, and \<^verbatim>\<open>iov_len\<close>, \<open>None\<close> while
  indeterminate.
\<close>

record iovec =
  iov_node :: nat
  iov_off :: nat
  iov_len :: "nat option"

function getReadBuffers_loop ::
  "byte list list \<Rightarrow> nat option \<Rightarrow> nat \<Rightarrow> nat \<Rightarrow> nat \<Rightarrow> iovec \<Rightarrow> ba_error + iovec" where
  "getReadBuffers_loop nodes cur npos ncap len iov =
     (if len = 0 then Inr iov
      else case cur of None \<Rightarrow> Inl NullDeref
      | Some i \<Rightarrow>
          if \<not> i < length nodes then Inl NullDeref
          else if ncap \<ge> len then Inr \<lparr>iov_node = i, iov_off = npos, iov_len = Some len\<rparr>
          else case next_node nodes i of None \<Rightarrow> Inl NullDeref
          | Some j \<Rightarrow>
              getReadBuffers_loop nodes (Some j) 0 (length (nodes ! j)) (len - ncap)
                \<lparr>iov_node = i, iov_off = npos, iov_len = map_option (\<lambda>l. l + ncap) (iov_len iov)\<rparr>)"
  by pat_completeness auto
termination
  by (relation "measure (\<lambda>(nodes, cur, _). case cur of None \<Rightarrow> 0 | Some i \<Rightarrow> length nodes - i)")
    (auto simp: next_node_def split: if_splits)

declare getReadBuffers_loop.simps [simp del]

definition getReadBuffers :: "bytearray \<Rightarrow> iovec list \<Rightarrow> nat \<Rightarrow> ba_error + nat \<times> iovec list" where
  "getReadBuffers ba buffers len =
     (let len = (if len > getReadSize ba then getReadSize ba else len) in
      if len = 0 then Inr (0, buffers)
      else if m_baseSize ba = 0 then Inl DivByZero
      else let npos = m_position ba mod m_baseSize ba in
        case m_current ba of None \<Rightarrow> Inl NullDeref
        | Some i \<Rightarrow>
            err_bind (getReadBuffers_loop (m_nodes ba) (Some i) npos (length (m_nodes ba ! i) - npos)
                        len \<lparr>iov_node = i, iov_off = npos, iov_len = None\<rparr>)
              (\<lambda>iov. Inr (len, buffers @ [iov])))"

text \<open>The loop of the other two scatter list functions, which push one entry per node.\<close>

function buffers_loop ::
  "byte list list \<Rightarrow> nat option \<Rightarrow> nat \<Rightarrow> nat \<Rightarrow> nat \<Rightarrow> iovec list \<Rightarrow> ba_error + iovec list" where
  "buffers_loop nodes cur npos ncap len buffers =
     (if len = 0 then Inr buffers
      else case cur of None \<Rightarrow> Inl NullDeref
      | Some i \<Rightarrow>
          if \<not> i < length nodes then Inl NullDeref
          else if ncap \<ge> len then
            Inr (buffers @ [\<lparr>iov_node = i, iov_off = npos, iov_len = Some len\<rparr>])
          else case next_node nodes i of None \<Rightarrow> Inl NullDeref
          | Some j \<Rightarrow>
              buffers_loop nodes (Some j) 0 (length (nodes ! j)) (len - ncap)
                (buffers @ [\<lparr>iov_node = i, iov_off = npos, iov_len = Some ncap\<rparr>]))"
  by pat_completeness auto
termination
  by (relation "measure (\<lambda>(nodes, cur, _). case cur of None \<Rightarrow> 0 | Some i \<Rightarrow> length nodes - i)")
    (auto simp: next_node_def split: if_splits)

declare buffers_loop.simps [simp del]

definition getReadBuffers_at ::
  "bytearray \<Rightarrow> iovec list \<Rightarrow> nat \<Rightarrow> nat \<Rightarrow> ba_error + nat \<times> iovec list" where
  "getReadBuffers_at ba buffers len position =
     (if position > m_size ba then Inl (OutOfRange ''set position out of range'')
      else let len = (if len > getReadSize ba then getReadSize ba else len) in
        if len = 0 then Inr (0, buffers)
        else if m_baseSize ba = 0 then Inl DivByZero
        else let npos = position mod m_baseSize ba; count = position div m_baseSize ba in
          if \<not> count \<le> length (m_nodes ba) then Inl NullDeref
          else case m_current ba of None \<Rightarrow> Inl NullDeref
          | Some i \<Rightarrow>
              err_bind (buffers_loop (m_nodes ba)
                          (if count < length (m_nodes ba) then Some count else None) npos
                          (length (m_nodes ba ! i) - npos) len buffers)
                (\<lambda>buffers. Inr (len, buffers)))"

definition getWriteBuffers ::
  "bytearray \<Rightarrow> iovec list \<Rightarrow> nat \<Rightarrow> ba_error + nat \<times> iovec list \<times> bytearray" where
  "getWriteBuffers ba buffers len =
     (if len = 0 then Inr (0, buffers, ba)
      else err_bind (addCapacity ba len) (\<lambda>ba.
        if m_baseSize ba = 0 then Inl DivByZero
        else let npos = m_position ba mod m_baseSize ba in
          case m_current ba of None \<Rightarrow> Inl NullDeref
          | Some i \<Rightarrow>
              err_bind (buffers_loop (m_nodes ba) (Some i) npos (length (m_nodes ba ! i) - npos)
                          len buffers)
                (\<lambda>buffers. Inr (len, buffers, ba))))"

end
