(* ===== verification/ByteArray_Props.thy ===== *)
theory ByteArray_Props
  imports ByteArray
begin

text \<open>
  The correctness of the buffer primitives of \<^verbatim>\<open>code/bytearray.cc\<close>: the invariant of the chunk
  chain, the abstract buffer (a flat byte list with a position) and the proofs that
  \<^verbatim>\<open>write\<close>, \<^verbatim>\<open>read\<close>, \<^verbatim>\<open>setPosition\<close> and their companions implement the operations of the
  abstract buffer, with the exact condition under which each of them fails.
\<close>

subsection \<open>Invariant and abstraction\<close>

definition cursor :: "nat \<Rightarrow> nat \<Rightarrow> nat \<Rightarrow> nat option" where
  "cursor b cap p = (if p < cap then Some (p div b) else None)"

definition ba_inv :: "bytearray \<Rightarrow> bool" where
  "ba_inv ba \<longleftrightarrow>
     0 < m_baseSize ba \<and> m_nodes ba \<noteq> [] \<and> blocks (m_baseSize ba) (m_nodes ba) \<and>
     m_capacity ba = m_baseSize ba * length (m_nodes ba) \<and>
     m_position ba \<le> m_size ba \<and> m_size ba \<le> m_capacity ba \<and>
     m_current ba = cursor (m_baseSize ba) (m_capacity ba) (m_position ba)"

definition flat :: "bytearray \<Rightarrow> byte list" where
  "flat ba = concat (m_nodes ba)"

definition content :: "bytearray \<Rightarrow> byte list" where
  "content ba = take (m_size ba) (flat ba)"

text \<open>The abstract buffer: its bytes and the position.\<close>

type_synonym buffer = "byte list \<times> nat"

definition abs_ba :: "bytearray \<Rightarrow> buffer" where
  "abs_ba ba = (content ba, m_position ba)"

definition buf_write :: "buffer \<Rightarrow> byte list \<Rightarrow> buffer" where
  "buf_write = (\<lambda>(c, p) d. (memcpy_at c p d, p + length d))"

definition buf_read :: "buffer \<Rightarrow> nat \<Rightarrow> byte list \<times> buffer" where
  "buf_read = (\<lambda>(c, p) n. (take n (drop p c), (c, p + n)))"

lemma ba_invD:
  assumes "ba_inv ba"
  shows "0 < m_baseSize ba" and "m_nodes ba \<noteq> []" and "blocks (m_baseSize ba) (m_nodes ba)"
    and "m_capacity ba = m_baseSize ba * length (m_nodes ba)"
    and "m_position ba \<le> m_size ba" and "m_size ba \<le> m_capacity ba"
    and "m_current ba = cursor (m_baseSize ba) (m_capacity ba) (m_position ba)"
  using assms by (simp_all add: ba_inv_def)

lemma length_flat: "ba_inv ba \<Longrightarrow> length (flat ba) = m_capacity ba"
  by (simp add: flat_def ba_invD length_concat_blocks)

lemma length_content: "ba_inv ba \<Longrightarrow> length (content ba) = m_size ba"
  using ba_invD(6) length_flat by (simp add: content_def)

lemma new_ByteArray_inv: "0 < n \<Longrightarrow> ba_inv (new_ByteArray n)"
  by (simp add: ba_inv_def new_ByteArray_def cursor_def new_node_def blocks_def)

lemma clear_inv: "ba_inv ba \<Longrightarrow> ba_inv (clear ba)"
  by (auto simp: ba_inv_def clear_def cursor_def blocks_take neq_Nil_conv)

lemma content_clear: "content (clear ba) = []"
  by (simp add: content_def clear_def)

lemma setLittleEndian_inv: "ba_inv ba \<Longrightarrow> ba_inv (setLittleEndian ba v)"
  by (simp add: ba_inv_def setLittleEndian_def)

lemma div_less_blocks: "0 < b \<Longrightarrow> p < b * n \<Longrightarrow> p div b < (n::nat)"
  by (simp add: less_mult_imp_div_less mult.commute)

lemma length_new_node [simp]: "length (new_node b) = b"
  by (simp add: new_node_def)

subsection \<open>The loops against the flat buffer\<close>

lemma cursor_in_block:
  "0 < b \<Longrightarrow> i < n \<Longrightarrow> off < b \<Longrightarrow> cursor b (b * n) (b * i + off) = Some i"
proof -
  assume "0 < b" "i < n" "off < b"
  then have "b * i + off < b * Suc i" by simp
  also have "\<dots> \<le> b * n" using \<open>i < n\<close> by (intro mult_le_mono2) simp
  finally show ?thesis using \<open>off < b\<close> by (simp add: cursor_def)
qed

lemma next_cursor:
  assumes "0 < b" and "i < length nodes"
  shows "next_node nodes i = cursor b (b * length nodes) (b * Suc i)"
proof -
  have "b * Suc i < b * length nodes \<longleftrightarrow> Suc i < length nodes"
    using assms(1) by (simp only: mult_less_cancel1 simp_thms)
  then show ?thesis using assms(1) by (simp add: next_node_def cursor_def del: mult_Suc_right)
qed

text \<open>Both loops leave \<^verbatim>\<open>m_current\<close> at the node of the new position.\<close>

lemma cursor_step:
  assumes "0 < b" and "i < length nodes" and "off \<le> b" and "length (nodes ! i) = b"
  shows "(if length (nodes ! i) = off then next_node nodes i else Some i) =
           cursor b (b * length nodes) (b * i + off)"
proof (cases "off = b")
  case True
  then show ?thesis using assms next_cursor [of b i nodes] by (simp add: add.commute)
next
  case False
  then show ?thesis using assms by (simp add: cursor_in_block)
qed

lemma next_node_exists:
  assumes "0 < b" and "i < length nodes" and "npos < b" and "ncap = b - npos" and "ncap < n"
    and "b * i + npos + n \<le> b * length nodes"
  shows "next_node nodes i = Some (Suc i)" and "Suc i < length nodes"
    and "b * Suc i + (n - ncap) = b * i + npos + n"
proof -
  have "b * i + b < b * length nodes" using assms by linarith
  then have "b * Suc i < b * length nodes" by simp
  then show "Suc i < length nodes" by (simp only: mult_less_cancel1)
  then show "next_node nodes i = Some (Suc i)" by (simp add: next_node_def)
  show "b * Suc i + (n - ncap) = b * i + npos + n" using assms by simp
qed

lemma write_loop_ok:
  assumes "blocks b nodes" and "0 < b" and "i < length nodes" and "npos < b" and "ncap = b - npos"
    and "b * i + npos + length data \<le> b * length nodes"
  shows "\<exists>nodes'. write_loop nodes (Some i) npos ncap data pos =
           Inr (nodes', cursor b (b * length nodes) (b * i + npos + length data), pos + length data) \<and>
         blocks b nodes' \<and> length nodes' = length nodes \<and>
         concat nodes' = memcpy_at (concat nodes) (b * i + npos) data"
  using assms
proof (induction nodes "Some i" npos ncap data pos arbitrary: i rule: write_loop.induct)
  case (1 nodes npos ncap data pos)
  note pre = "1.prems"
  have leni: "length (nodes ! i) = b" using pre by (simp add: blocks_nth)
  consider "data = []" | (fits) "data \<noteq> []" "ncap \<ge> length data" | (cross) "\<not> ncap \<ge> length data"
    by blast
  then show ?case
  proof cases
    case 1
    then show ?thesis using pre by (simp add: write_loop.simps cursor_in_block)
  next
    case fits
    then have nb: "npos + length data \<le> b" using pre by simp
    have cur: "(if length (nodes ! i) = npos + length data then next_node nodes i else Some i) =
        cursor b (b * length nodes) (b * i + npos + length data)"
      using cursor_step [OF pre(2) pre(3) nb leni] by (simp add: add.assoc)
    have "blocks b (nodes[i := memcpy_at (nodes ! i) npos data])"
      using pre(1) nb leni by (simp add: blocks_update)
    moreover have "concat (nodes[i := memcpy_at (nodes ! i) npos data]) =
        memcpy_at (concat nodes) (b * i + npos) data"
      using pre nb by (simp add: concat_update_block)
    ultimately show ?thesis
      using fits pre cur by (simp add: write_loop.simps)
  next
    case cross
    let ?d1 = "take ncap data" and ?d2 = "drop ncap data"
    let ?nodes = "nodes[i := memcpy_at (nodes ! i) npos ?d1]"
    have ne: "data \<noteq> []" and l1: "length ?d1 = ncap" and nn: "npos + ncap = b"
      using cross pre by auto
    note nx = next_node_exists [OF pre(2,3,4,5) _ pre(6)]
    have bl: "blocks b ?nodes" using pre(1) l1 nn leni by (simp add: blocks_update)
    have lenj: "length (?nodes ! Suc i) = b" using blocks_nth [OF bl, of "Suc i"] nx(2) cross by simp
    have fit: "b * Suc i + 0 + length ?d2 \<le> b * length ?nodes"
      using nx(3) cross pre(6) by simp
    obtain nodes' where w:
        "write_loop ?nodes (Some (Suc i)) 0 (length (?nodes ! Suc i)) ?d2 (pos + ncap) =
           Inr (nodes', cursor b (b * length nodes) (b * Suc i + length ?d2), pos + length data)"
      and bl': "blocks b nodes'" and ln': "length nodes' = length nodes"
      and cc': "concat nodes' = memcpy_at (concat ?nodes) (b * Suc i) ?d2"
      using "1.hyps" [OF ne refl _ cross refl _ bl pre(2) _ pre(2) _ fit] cross nx(1,2) pre(3) lenj
      by auto
    have cc: "concat ?nodes = memcpy_at (concat nodes) (b * i + npos) ?d1"
      using pre l1 nn by (simp add: concat_update_block)
    have off: "b * Suc i = b * i + npos + length ?d1" using l1 nn by simp
    have "concat nodes' = memcpy_at (concat nodes) (b * i + npos) (?d1 @ ?d2)"
      unfolding cc' cc off
      by (rule memcpy_at_append) (use pre(1,6) in \<open>simp add: length_concat_blocks\<close>)
    then show ?thesis
      using w bl' ln' ne cross pre(3) nx
      by (simp add: write_loop.simps [of nodes "Some i" npos ncap data pos] Let_def)
  qed
qed

lemma write_loop_overrun:
  assumes "blocks b nodes" and "0 < b" and "i < length nodes" and "npos < b" and "ncap = b - npos"
    and "b * i + npos + length data > b * length nodes"
  shows "write_loop nodes (Some i) npos ncap data pos = Inl NullDeref"
  using assms
proof (induction nodes "Some i" npos ncap data pos arbitrary: i rule: write_loop.induct)
  case (1 nodes npos ncap data pos)
  note pre = "1.prems"
  have "b * Suc i \<le> b * length nodes" using pre(3) by (intro mult_le_mono2) simp
  then have lt: "\<not> ncap \<ge> length data" using pre by simp
  let ?nodes = "nodes[i := memcpy_at (nodes ! i) npos (take ncap data)]"
  have "write_loop ?nodes (Some (Suc i)) 0 (length (?nodes ! Suc i)) (drop ncap data) (pos + ncap) =
      Inl NullDeref" if suc: "Suc i < length nodes"
  proof -
    have bl: "blocks b ?nodes" using pre lt by (simp add: blocks_update blocks_nth)
    have lenj: "length (?nodes ! Suc i) = b - 0" using blocks_nth [OF bl, of "Suc i"] suc by simp
    have over: "b * length ?nodes < b * Suc i + 0 + length (drop ncap data)" using pre lt by simp
    have "data \<noteq> []" and "next_node nodes i = Some (Suc i)" and "Suc i < length ?nodes"
      using lt suc by (auto simp: next_node_def)
    then show ?thesis
      using "1.hyps" [OF _ refl _ lt refl _ bl pre(2) _ pre(2) lenj over] pre(3) by simp
  qed
  then show ?case
    using lt pre(3)
    by (auto simp: write_loop.simps [of nodes "Some i" npos ncap data pos] next_node_def Let_def)
qed

text \<open>The bytes \<^verbatim>\<open>read\<close> takes from beyond a node when it reads \<open>n\<close> bytes from offset \<open>npos\<close>.\<close>

function crossing :: "nat \<Rightarrow> nat \<Rightarrow> nat \<Rightarrow> nat" where
  "crossing b npos n =
     (if b \<le> npos \<or> npos + n \<le> b then 0
      else (n - (b - npos)) + crossing b 0 (n - (b - npos)))"
  by pat_completeness auto
termination
  by (relation "measure (\<lambda>(b, npos, n). n)") auto

declare crossing.simps [simp del]

lemma crossing_eq_0: "npos < b \<Longrightarrow> crossing b npos n = 0 \<longleftrightarrow> npos + n \<le> b"
  by (subst crossing.simps) auto

lemma read_loop_ok:
  assumes "blocks b nodes" and "0 < b" and "i < length nodes" and "npos < b" and "ncap = b - npos"
    and "b * i + npos + n \<le> b * length nodes" and "length buf = bpos + n"
  shows "read_loop nodes (Some i) npos ncap n buf bpos over =
           Inr (take bpos buf @ take n (drop (b * i + npos) (concat nodes)),
                cursor b (b * length nodes) (b * i + npos + n), over + crossing b npos n)"
  using assms
proof (induction nodes "Some i" npos ncap n buf bpos over arbitrary: i rule: read_loop.induct)
  case (1 nodes npos ncap n buf bpos over)
  note pre = "1.prems"
  have leni: "length (nodes ! i) = b" using pre by (simp add: blocks_nth)
  have dr: "drop (b * i + npos) (concat nodes) = drop npos (nodes ! i) @ concat (drop (Suc i) nodes)"
    using pre by (simp add: drop_concat_block)
  consider "n = 0" | (fits) "n \<noteq> 0" "ncap \<ge> n" | (cross) "\<not> ncap \<ge> n" by blast
  then show ?case
  proof cases
    case 1
    then show ?thesis using pre by (simp add: read_loop.simps cursor_in_block crossing.simps)
  next
    case fits
    then have nb: "npos + n \<le> b" using pre by simp
    have "(if length (nodes ! i) = npos + n then next_node nodes i else Some i) =
        cursor b (b * length nodes) (b * i + npos + n)"
      using cursor_step [OF pre(2) pre(3) nb leni] by (simp add: add.assoc)
    then show ?thesis
      using fits pre nb leni dr
      by (simp add: read_loop.simps memcpy_at_def crossing.simps)
  next
    case cross
    let ?src = "drop npos (nodes ! i) @ replicate (n - ncap) None"
    have ne: "n \<noteq> 0" and nn: "npos + ncap = b" using cross pre by auto
    note nx = next_node_exists [OF pre(2,3,4,5) _ pre(6)]
    have lsrc: "length ?src = n" using leni nn cross by simp
    have bf: "memcpy_at buf bpos ?src = take bpos buf @ ?src"
      using lsrc pre(7) by (simp add: memcpy_at_def)
    have lenj: "length (nodes ! Suc i) = b - 0" using pre(1) nx(2) cross by (simp add: blocks_nth)
    have fit: "b * Suc i + 0 + (n - ncap) \<le> b * length nodes" using nx(3) cross pre(6) by simp
    have lb: "length (memcpy_at buf bpos ?src) = bpos + ncap + (n - ncap)"
      using bf lsrc pre(7) cross by simp
    have rec: "read_loop nodes (Some (Suc i)) 0 (length (nodes ! Suc i)) (n - ncap)
        (memcpy_at buf bpos ?src) (bpos + ncap) (over + (n - ncap)) =
      Inr (take (bpos + ncap) (memcpy_at buf bpos ?src) @
             take (n - ncap) (drop (b * Suc i) (concat nodes)),
           cursor b (b * length nodes) (b * Suc i + (n - ncap)),
           over + (n - ncap) + crossing b 0 (n - ncap))"
      using "1.hyps" [OF ne refl _ cross refl _ pre(1,2) _ pre(2) lenj fit lb] cross nx(1,2) pre(3)
      by simp
    have "drop (b * Suc i) (concat nodes) = concat (drop (Suc i) nodes)"
      using drop_concat_block [OF pre(1) pre(3), of b] leni by (simp add: add.commute)
    moreover have "take (bpos + ncap) (memcpy_at buf bpos ?src) = take bpos buf @ drop npos (nodes ! i)"
      using bf pre(7) leni nn by simp
    moreover have "take n (drop npos (nodes ! i) @ concat (drop (Suc i) nodes)) =
        drop npos (nodes ! i) @ take (n - ncap) (concat (drop (Suc i) nodes))"
      using leni cross pre(5) by simp
    moreover have "crossing b npos n = n - ncap + crossing b 0 (n - ncap)"
      using cross pre(4,5) by (subst crossing.simps) simp
    ultimately show ?thesis
      using rec ne cross pre(3) nx dr
      by (simp add: read_loop.simps [of nodes "Some i" npos ncap n buf bpos over] Let_def)
  qed
qed

subsection \<open>Writing\<close>

text \<open>
  What \<^verbatim>\<open>addCapacity\<close> really provides: the room for \<open>n\<close> bytes is there afterwards exactly when
  \<open>n\<close> bytes fit already, or the part that does not fit is a whole number of nodes, or the rest
  of that part is larger than the room that was left.
\<close>

definition write_fits :: "bytearray \<Rightarrow> nat \<Rightarrow> bool" where
  "write_fits ba n \<longleftrightarrow>
     (let old_cap = getCapacity ba; rest = (n - old_cap) mod m_baseSize ba in
      n \<le> old_cap \<or> rest = 0 \<or> old_cap < rest)"

lemma addCapacity_inv:
  assumes "ba_inv ba" and "addCapacity ba n = Inr ba'"
  shows "ba_inv ba'" and "content ba' = content ba" and "m_position ba' = m_position ba"
    and "m_size ba' = m_size ba" and "m_endian ba' = m_endian ba" and "m_overread ba' = m_overread ba"
    and "m_baseSize ba' = m_baseSize ba"
proof -
  note inv = ba_invD [OF assms(1)]
  have "m_capacity ba = m_position ba \<Longrightarrow> m_position ba div m_baseSize ba = length (m_nodes ba)"
    using inv by (metis nonzero_mult_div_cancel_left less_numeral_extra(3))
  then show "ba_inv ba'"
    using assms(2) inv
    by (auto simp: addCapacity_def ba_inv_def Let_def getCapacity_def cursor_def
        algebra_simps split: if_splits)
  have "m_size ba \<le> length (concat (m_nodes ba))" using inv by (simp add: length_concat_blocks)
  then show "content ba' = content ba"
    using assms(2) by (auto simp: addCapacity_def content_def flat_def Let_def split: if_splits)
qed (use assms(2) in \<open>auto simp: addCapacity_def Let_def split: if_splits\<close>)

lemma addCapacity_ok: "ba_inv ba \<Longrightarrow> \<exists>ba'. addCapacity ba n = Inr ba'"
  by (auto simp: addCapacity_def Let_def ba_inv_def)

lemma addCapacity_room:
  assumes inv: "ba_inv ba" and add: "addCapacity ba n = Inr ba'"
  shows "m_position ba + n \<le> m_capacity ba' \<longleftrightarrow> write_fits ba n"
proof -
  let ?b = "m_baseSize ba" and ?old = "getCapacity ba"
  let ?s = "n - ?old"
  define q where "q = ?s div ?b"
  define r where "r = ?s mod ?b"
  have cap: "m_capacity ba = m_position ba + ?old"
    using ba_invD(5,6) [OF inv] by (simp add: getCapacity_def)
  have dm: "?s = q * ?b + r" by (simp add: q_def r_def)
  have lt: "r < ?b" using ba_invD(1) [OF inv] by (simp add: r_def)
  show ?thesis
  proof (cases "n \<le> ?old")
    case True
    then show ?thesis using add cap by (auto simp: addCapacity_def write_fits_def split: if_splits)
  next
    case False
    then have "m_capacity ba' = m_capacity ba + (q + (if r > ?old then 1 else 0)) * ?b"
      using add ba_invD(1) [OF inv]
      by (auto simp: addCapacity_def Let_def q_def r_def split: if_splits)
    moreover have "write_fits ba n \<longleftrightarrow> r = 0 \<or> ?old < r"
      using False by (simp add: write_fits_def Let_def r_def)
    ultimately show ?thesis
      using False cap dm lt by (auto simp: add_mult_distrib)
  qed
qed

lemma addCapacity_current:
  assumes inv: "ba_inv ba" and add: "addCapacity ba n = Inr ba'" and "0 < n"
  shows "m_current ba' = (if m_position ba < m_capacity ba' then Some (m_position ba div m_baseSize ba) else None)"
  using ba_invD(7) [OF addCapacity_inv(1) [OF inv add]] addCapacity_inv [OF inv add]
  by (simp add: cursor_def)

lemma ba_write_cases:
  assumes inv: "ba_inv ba"
  shows "case ba_write ba data of
           Inr ba' \<Rightarrow> write_fits ba (length data) \<and> ba_inv ba' \<and>
             abs_ba ba' = buf_write (abs_ba ba) (map Some data) \<and>
             m_size ba' = max (m_size ba) (m_position ba + length data) \<and>
             m_baseSize ba' = m_baseSize ba \<and> m_endian ba' = m_endian ba \<and>
             m_overread ba' = m_overread ba
         | Inl e \<Rightarrow> \<not> write_fits ba (length data) \<and> e = NullDeref"
proof (cases "data = []")
  case True
  then show ?thesis
    using inv ba_invD(5) [OF inv] by (simp add: ba_write_def write_fits_def abs_ba_def buf_write_def max_def)
next
  case False
  obtain ba1 where add: "addCapacity ba (length data) = Inr ba1" using addCapacity_ok [OF inv] by blast
  note a = addCapacity_inv [OF inv add]
  note room = addCapacity_room [OF inv add]
  note i1 = ba_invD [OF a(1)]
  let ?b = "m_baseSize ba1" and ?p = "m_position ba1" and ?nodes = "m_nodes ba1"
  show ?thesis
  proof (cases "?p < m_capacity ba1")
    case False
    then have "\<not> write_fits ba (length data)" using room \<open>data \<noteq> []\<close> a(3) by (cases data) auto
    moreover have "m_current ba1 = None" using False i1 by (simp add: cursor_def)
    ultimately show ?thesis using \<open>data \<noteq> []\<close> add i1(1) by (simp add: ba_write_def)
  next
    case True
    let ?i = "?p div ?b" and ?n = "?p mod ?b"
    have cur: "m_current ba1 = Some ?i" using True i1 by (simp add: cursor_def)
    have il: "?i < length ?nodes" using True i1(1,4) by (simp add: div_less_blocks)
    have nb: "?n < ?b" using i1(1) by simp
    have pe: "?b * ?i + ?n = ?p" by simp
    have leni: "length (?nodes ! ?i) - ?n = ?b - ?n" using il i1(3) by (simp add: blocks_nth)
    show ?thesis
    proof (cases "write_fits ba (length data)")
      case True
      then have fit: "?b * ?i + ?n + length (map Some data) \<le> ?b * length ?nodes"
        using room a(3) i1(4) by simp
      from write_loop_ok [OF i1(3,1) il nb leni fit, of ?p]
      obtain nodes' where w: "write_loop ?nodes (Some ?i) ?n (length (?nodes ! ?i) - ?n) (map Some data) ?p =
           Inr (nodes', cursor ?b (m_capacity ba1) (?p + length data), ?p + length data)"
        and bl: "blocks ?b nodes'" and ln: "length nodes' = length ?nodes"
        and cc: "concat nodes' = memcpy_at (flat ba1) ?p (map Some data)"
        using i1(4) by (auto simp: flat_def)
      let ?m = "max (m_size ba1) (?p + length data)"
      let ?ba2 = "ba1\<lparr>m_nodes := nodes', m_current := cursor ?b (m_capacity ba1) (?p + length data),
                      m_position := ?p + length data, m_size := ?m\<rparr>"
      have res: "ba_write ba data = Inr ?ba2"
        using \<open>data \<noteq> []\<close> add i1(1) cur w by (simp add: ba_write_def Let_def max_def)
      have inv2: "ba_inv ?ba2"
        using i1 bl ln fit by (auto simp: ba_inv_def)
      have "content ?ba2 = memcpy_at (content ba1) ?p (map Some data)"
        using take_max_memcpy_at [OF i1(5), of "flat ba1" "map Some data"] cc i1(4,6) fit
          length_flat [OF a(1)]
        by (simp add: content_def flat_def)
      then show ?thesis
        using res inv2 True a by (simp add: abs_ba_def buf_write_def)
    next
      case False
      then have "?b * ?i + ?n + length (map Some data) > ?b * length ?nodes"
        using room a(3) i1(4) by simp
      then have "write_loop ?nodes (Some ?i) ?n (length (?nodes ! ?i) - ?n) (map Some data) ?p = Inl NullDeref"
        using write_loop_overrun [OF i1(3,1) il nb leni] by simp
      then show ?thesis
        using False \<open>data \<noteq> []\<close> add i1(1) cur by (simp add: ba_write_def Let_def)
    qed
  qed
qed

subsection \<open>Reading\<close>

text \<open>
  Both overloads of \<^verbatim>\<open>read\<close> start at the node of \<^verbatim>\<open>m_current\<close>; here the bytes and the cursor they
  produce when the position is the buffer's own.
\<close>

lemma read_loop_at_position:
  assumes inv: "ba_inv ba" and n: "n \<le> getReadSize ba" and lt: "m_position ba < m_capacity ba"
  shows "m_current ba = Some (m_position ba div m_baseSize ba)"
    and "read_loop (m_nodes ba) (Some (m_position ba div m_baseSize ba)) (m_position ba mod m_baseSize ba)
           (length (m_nodes ba ! (m_position ba div m_baseSize ba)) - m_position ba mod m_baseSize ba) n
           (replicate n None) 0 0 =
         Inr (take n (drop (m_position ba) (content ba)),
              cursor (m_baseSize ba) (m_capacity ba) (m_position ba + n),
              crossing (m_baseSize ba) (m_position ba mod m_baseSize ba) n)"
proof -
  note i = ba_invD [OF inv]
  let ?b = "m_baseSize ba" and ?p = "m_position ba"
  show "m_current ba = Some (?p div ?b)" using lt i by (simp add: cursor_def)
  have il: "?p div ?b < length (m_nodes ba)" using lt i(1,4) by (simp add: div_less_blocks)
  have leni: "length (m_nodes ba ! (?p div ?b)) - ?p mod ?b = ?b - ?p mod ?b"
    using il i(3) by (simp add: blocks_nth)
  have pn: "?p + n \<le> m_size ba" using n i(5) by (simp add: getReadSize_def)
  then have fit: "?b * (?p div ?b) + ?p mod ?b + n \<le> ?b * length (m_nodes ba)"
    using i(4,6) by simp
  have "take n (drop ?p (flat ba)) = take n (drop ?p (content ba))"
    using pn by (simp add: content_def drop_take min_def)
  then show "read_loop (m_nodes ba) (Some (?p div ?b)) (?p mod ?b)
           (length (m_nodes ba ! (?p div ?b)) - ?p mod ?b) n (replicate n None) 0 0 =
         Inr (take n (drop ?p (content ba)), cursor ?b (m_capacity ba) (?p + n), crossing ?b (?p mod ?b) n)"
    using read_loop_ok [OF i(3,1) il _ leni fit, of "replicate n None" 0 0] i(1,4)
    by (simp add: flat_def)
qed

lemma ba_read_cases:
  assumes inv: "ba_inv ba"
  shows "case ba_read ba n of
           Inr (bs, ba') \<Rightarrow>
             n \<le> getReadSize ba \<and> m_position ba < m_capacity ba \<and> ba_inv ba' \<and>
             (bs, abs_ba ba') = buf_read (abs_ba ba) n \<and>
             ba' = ba\<lparr>m_position := m_position ba', m_current := m_current ba', m_overread := m_overread ba'\<rparr> \<and>
             m_overread ba' = m_overread ba + crossing (m_baseSize ba) (m_position ba mod m_baseSize ba) n
         | Inl e \<Rightarrow>
             e = OutOfRange ''read out of range'' \<and> n > getReadSize ba \<or>
             e = NullDeref \<and> n = 0 \<and> m_position ba = m_capacity ba"
proof -
  note i = ba_invD [OF inv]
  consider "n > getReadSize ba" | "n \<le> getReadSize ba" "m_position ba = m_capacity ba"
    | (ok) "n \<le> getReadSize ba" "m_position ba < m_capacity ba"
    using i(5,6) by linarith
  then show ?thesis
  proof cases
    case 1
    then show ?thesis by (simp add: ba_read_def)
  next
    case 2
    then have "n = 0" using i(6) by (simp add: getReadSize_def)
    then show ?thesis using 2 i by (simp add: ba_read_def Let_def cursor_def)
  next
    case ok
    have pn: "m_position ba + n \<le> m_size ba" using ok i(5) by (simp add: getReadSize_def)
    let ?x = "crossing (m_baseSize ba) (m_position ba mod m_baseSize ba) n"
    have r: "ba_read ba n = Inr (take n (drop (m_position ba) (content ba)),
        ba\<lparr>m_position := m_position ba + n,
           m_current := cursor (m_baseSize ba) (m_capacity ba) (m_position ba + n),
           m_overread := m_overread ba + ?x\<rparr>)"
      using read_loop_at_position [OF inv ok] ok(1) i(1) by (simp add: ba_read_def Let_def)
    have "ba_inv (ba\<lparr>m_position := m_position ba + n,
           m_current := cursor (m_baseSize ba) (m_capacity ba) (m_position ba + n),
           m_overread := m_overread ba + ?x\<rparr>)"
      using inv pn by (simp add: ba_inv_def)
    then show ?thesis
      using ok by (simp add: r abs_ba_def buf_read_def content_def flat_def)
  qed
qed

lemma ba_read_ok:
  assumes "ba_inv ba" and "n \<le> getReadSize ba" and "m_position ba < m_capacity ba"
  obtains ba' where "ba_read ba n = Inr (take n (drop (m_position ba) (content ba)), ba')"
    and "ba_inv ba'" and "content ba' = content ba" and "m_position ba' = m_position ba + n"
    and "m_endian ba' = m_endian ba" and "m_size ba' = m_size ba" and "m_capacity ba' = m_capacity ba"
    and "m_baseSize ba' = m_baseSize ba" and "flat ba' = flat ba"
    and "m_overread ba' = m_overread ba + crossing (m_baseSize ba) (m_position ba mod m_baseSize ba) n"
proof (cases "ba_read ba n")
  case (Inl e)
  then show ?thesis using ba_read_cases [OF assms(1), of n] assms(2,3) by auto
next
  case (Inr r)
  obtain bs ba' where r: "r = (bs, ba')" by (cases r)
  have c: "n \<le> getReadSize ba \<and> m_position ba < m_capacity ba \<and> ba_inv ba' \<and>
      (bs, abs_ba ba') = buf_read (abs_ba ba) n \<and>
      ba' = ba\<lparr>m_position := m_position ba', m_current := m_current ba', m_overread := m_overread ba'\<rparr> \<and>
      m_overread ba' = m_overread ba + crossing (m_baseSize ba) (m_position ba mod m_baseSize ba) n"
    using ba_read_cases [OF assms(1), of n] unfolding Inr r sum.case prod.case .
  then have e: "ba' = ba\<lparr>m_position := m_position ba', m_current := m_current ba',
      m_overread := m_overread ba'\<rparr>" by blast
  have same: "m_endian ba' = m_endian ba" "m_size ba' = m_size ba" "m_capacity ba' = m_capacity ba"
      "m_baseSize ba' = m_baseSize ba" "flat ba' = flat ba"
    by (subst e, simp add: flat_def)+
  show ?thesis
    using that [of ba'] Inr r c same by (auto simp: abs_ba_def buf_read_def)
qed

subsection \<open>Positioning\<close>

lemma seek_loop_eq:
  assumes "blocks b nodes" and "0 < b" and "i \<le> length nodes"
  shows "seek_loop nodes i val =
           (if val < b * (length nodes - i) then Inr (i + val div b, val mod b) else Inl NullDeref)"
  using assms
proof (induction nodes i val rule: seek_loop.induct)
  case (1 nodes i val)
  show ?case
  proof (cases "i < length nodes \<and> b \<le> val")
    case True
    have len: "length (nodes ! i) = b" using True 1 by (simp add: blocks_nth)
    have d: "val div b = Suc ((val - b) div b)" and m: "val mod b = (val - b) mod b"
      using True 1 by (simp_all add: le_div_geq le_mod_geq)
    have "b * (length nodes - i) = b + b * (length nodes - Suc i)"
      using True by (metis Suc_diff_Suc mult_Suc_right)
    then have "val - b < b * (length nodes - Suc i) \<longleftrightarrow> val < b * (length nodes - i)"
      using True by linarith
    then show ?thesis
      using 1 True len d m by (simp add: seek_loop.simps [of nodes i val])
  next
    case False
    show ?thesis
    proof (cases "i < length nodes")
      case True
      then have v: "val < b" and len: "length (nodes ! i) = b" and "b \<le> b * (length nodes - i)"
        using False 1 by (simp_all add: blocks_nth)
      then have "val < b * (length nodes - i)" by linarith
      then show ?thesis using True v len by (simp add: seek_loop.simps [of nodes i val])
    next
      case False
      then show ?thesis using 1 by (subst seek_loop.simps) simp
    qed
  qed
qed

lemma setPosition_eq:
  assumes "ba_inv ba"
  shows "setPosition ba val =
           (if val > m_capacity ba then Inl (OutOfRange ''set position out of range'')
            else if val = m_capacity ba then Inl NullDeref
            else Inr (ba\<lparr>m_position := val, m_size := max (m_size ba) val,
                         m_current := Some (val div m_baseSize ba)\<rparr>))"
proof -
  note i = ba_invD [OF assms]
  have "length (m_nodes ba ! (val div m_baseSize ba)) = m_baseSize ba" if "val < m_capacity ba"
    using that i by (simp add: blocks_nth div_less_blocks)
  moreover have "val mod m_baseSize ba \<noteq> m_baseSize ba"
    using mod_less_divisor [OF i(1), of val] by linarith
  ultimately show ?thesis
    using i seek_loop_eq [OF i(3,1), of 0 val] by (auto simp: setPosition_def max_def)
qed

lemma setPosition_ok:
  assumes "ba_inv ba" and "val \<le> m_size ba" and "val < m_capacity ba"
  obtains ba' where "setPosition ba val = Inr ba'" and "ba_inv ba'" and "content ba' = content ba"
    and "m_position ba' = val" and "m_endian ba' = m_endian ba" and "m_size ba' = m_size ba"
    and "m_capacity ba' = m_capacity ba"
  using assms setPosition_eq [OF assms(1), of val] that
  by (auto simp: ba_inv_def content_def flat_def cursor_def max_def)

lemma setPosition_inv:
  "ba_inv ba \<Longrightarrow> setPosition ba val = Inr ba' \<Longrightarrow> ba_inv ba'"
  using setPosition_eq [of ba val] by (auto simp: ba_inv_def cursor_def split: if_splits)

subsection \<open>Strings, files and scatter lists\<close>

lemma toString_ok:
  assumes "ba_inv ba"
  shows "toString ba =
           Inr (drop (m_position ba) (content ba),
                if getReadSize ba = 0 then 0
                else crossing (m_baseSize ba) (m_position ba mod m_baseSize ba) (getReadSize ba))"
proof (cases "getReadSize ba = 0")
  case True
  then show ?thesis
    using length_content [OF assms] by (simp add: toString_def getReadSize_def)
next
  case False
  then have "m_position ba < m_capacity ba"
    using ba_invD(6) [OF assms] by (simp add: getReadSize_def)
  then show ?thesis
    using False read_loop_at_position [OF assms le_refl] ba_invD(1) [OF assms] length_content [OF assms]
    by (simp add: toString_def ba_read_at_def Let_def getReadSize_def)
qed

text \<open>The bytes that a scatter list names, in order.\<close>

definition iov_bytes :: "byte list list \<Rightarrow> iovec list \<Rightarrow> byte list" where
  "iov_bytes nodes iovs =
     concat (map (\<lambda>v. take (the (iov_len v)) (drop (iov_off v) (nodes ! iov_node v))) iovs)"

definition iov_total :: "iovec list \<Rightarrow> nat" where
  "iov_total iovs = sum_list (map (\<lambda>v. the (iov_len v)) iovs)"

lemma buffers_loop_ok:
  assumes "blocks b nodes" and "0 < b" and "i < length nodes" and "npos < b" and "ncap = b - npos"
    and "b * i + npos + n \<le> b * length nodes"
  shows "\<exists>iovs. buffers_loop nodes (Some i) npos ncap n buffers = Inr (buffers @ iovs) \<and>
           iov_bytes nodes iovs = take n (drop (b * i + npos) (concat nodes)) \<and>
           list_all (\<lambda>v. iov_len v \<noteq> None \<and> iov_node v < length nodes \<and> iov_off v + the (iov_len v) \<le> b) iovs \<and>
           iov_total iovs = n"
  using assms
proof (induction nodes "Some i" npos ncap n buffers arbitrary: i rule: buffers_loop.induct)
  case (1 nodes npos ncap n buffers)
  note pre = "1.prems"
  have leni: "length (nodes ! i) = b" using pre by (simp add: blocks_nth)
  have dr: "drop (b * i + npos) (concat nodes) = drop npos (nodes ! i) @ concat (drop (Suc i) nodes)"
    using pre by (simp add: drop_concat_block)
  consider "n = 0" | (fits) "n \<noteq> 0" "ncap \<ge> n" | (cross) "\<not> ncap \<ge> n" by blast
  then show ?case
  proof cases
    case 1
    then show ?thesis by (simp add: buffers_loop.simps iov_bytes_def iov_total_def)
  next
    case fits
    then show ?thesis
      using pre leni dr by (simp add: buffers_loop.simps iov_bytes_def iov_total_def)
  next
    case cross
    let ?v = "\<lparr>iov_node = i, iov_off = npos, iov_len = Some ncap\<rparr>"
    note nx = next_node_exists [OF pre(2,3,4,5) _ pre(6)]
    have ne: "n \<noteq> 0" and lenj: "length (nodes ! Suc i) = b - 0"
      using cross pre(1) nx(2) by (simp_all add: blocks_nth)
    have fit: "b * Suc i + 0 + (n - ncap) \<le> b * length nodes" using nx(3) cross pre(6) by simp
    obtain iovs where rec: "buffers_loop nodes (Some (Suc i)) 0 (length (nodes ! Suc i)) (n - ncap)
          (buffers @ [?v]) = Inr ((buffers @ [?v]) @ iovs)"
      and by': "iov_bytes nodes iovs = take (n - ncap) (drop (b * Suc i) (concat nodes))"
      and va: "list_all (\<lambda>v. iov_len v \<noteq> None \<and> iov_node v < length nodes \<and> iov_off v + the (iov_len v) \<le> b) iovs"
      and tot: "iov_total iovs = n - ncap"
      using "1.hyps" [OF ne refl _ cross _ pre(1,2) _ pre(2) lenj fit] cross nx(1,2) pre(3) by auto
    have "drop (b * Suc i) (concat nodes) = concat (drop (Suc i) nodes)"
      using drop_concat_block [OF pre(1) pre(3), of b] leni by (simp add: add.commute)
    moreover have "iov_bytes nodes (?v # iovs) = drop npos (nodes ! i) @ iov_bytes nodes iovs"
      using leni pre(5) by (simp add: iov_bytes_def)
    moreover have "iov_total (?v # iovs) = n" using tot cross by (simp add: iov_total_def)
    ultimately show ?thesis
      using rec by' va ne cross pre(3,4,5) nx dr leni
      by (intro exI [of _ "?v # iovs"])
        (simp add: buffers_loop.simps [of nodes "Some i" npos "b - npos" n buffers])
  qed
qed

lemma getWriteBuffers_ok:
  assumes inv: "ba_inv ba" and fits: "write_fits ba n" and n: "0 < n"
  obtains iovs ba' where "getWriteBuffers ba buffers n = Inr (n, buffers @ iovs, ba')"
    and "ba_inv ba'" and "abs_ba ba' = abs_ba ba" and "iov_total iovs = n"
    and "iov_bytes (m_nodes ba') iovs = take n (drop (m_position ba) (flat ba'))"
    and "list_all (\<lambda>v. iov_len v \<noteq> None \<and> iov_node v < length (m_nodes ba') \<and>
           iov_off v + the (iov_len v) \<le> m_baseSize ba) iovs"
proof -
  obtain ba1 where add: "addCapacity ba n = Inr ba1" using addCapacity_ok [OF inv] by blast
  note a = addCapacity_inv [OF inv add]
  note i1 = ba_invD [OF a(1)]
  let ?b = "m_baseSize ba1" and ?p = "m_position ba1"
  have room: "?p + n \<le> m_capacity ba1" using addCapacity_room [OF inv add] fits a(3) by simp
  then have lt: "?p < m_capacity ba1" using n by simp
  have cur: "m_current ba1 = Some (?p div ?b)" using lt i1 by (simp add: cursor_def)
  have il: "?p div ?b < length (m_nodes ba1)" using lt i1(1,4) by (simp add: div_less_blocks)
  have leni: "length (m_nodes ba1 ! (?p div ?b)) - ?p mod ?b = ?b - ?p mod ?b"
    using il i1(3) by (simp add: blocks_nth)
  have fit: "?b * (?p div ?b) + ?p mod ?b + n \<le> ?b * length (m_nodes ba1)" using room i1(4) by simp
  obtain iovs where "buffers_loop (m_nodes ba1) (Some (?p div ?b)) (?p mod ?b)
      (length (m_nodes ba1 ! (?p div ?b)) - ?p mod ?b) n buffers = Inr (buffers @ iovs)"
    and "iov_bytes (m_nodes ba1) iovs = take n (drop ?p (flat ba1))"
    and "list_all (\<lambda>v. iov_len v \<noteq> None \<and> iov_node v < length (m_nodes ba1) \<and> iov_off v + the (iov_len v) \<le> ?b) iovs"
    and "iov_total iovs = n"
    using buffers_loop_ok [OF i1(3,1) il _ leni fit, of buffers] i1(1) by (auto simp: flat_def)
  then show ?thesis
    using that [of iovs ba1] n add cur i1(1) a by (simp add: getWriteBuffers_def Let_def abs_ba_def)
qed

end
