(* ===== verification/ByteArray_Codec.thy ===== *)
theory ByteArray_Codec
  imports ByteArray_Props
begin

text \<open>
  The typed operations of \<^verbatim>\<open>code/bytearray.cc\<close>: fixed width integers in the byte order of the
  buffer, zigzag and variable length integers, floating point numbers and strings with a length
  field. Every operation is a function of the buffer and of the byte order \<open>bo\<close> of the
  machine. Signed integers are the words of their two's complement representation. The
  interface \<open>ba_codec\<close> states what a pair of a write and a read operation promises (the write
  appends an encoding, the read consumes it and returns the value); the round trip of whole
  sequences is proved once from it and interpreted for each pair that keeps the promise.

  Reading a byte that was never written is the error \<open>Indeterminate\<close>. A C++ exception leaves
  the buffer where the operation was; the errors of the model carry no buffer.
\<close>

subsection \<open>Fixed width integers\<close>

definition write_fixed :: "nat \<Rightarrow> bytearray \<Rightarrow> 'a::len word \<Rightarrow> ba_error + bytearray" where
  "write_fixed bo ba value =
     (let value = (if m_endian ba \<noteq> bo then byteswap value else value) in
      ba_write ba (mem_bytes bo value))"

definition writeFint8 :: "nat \<Rightarrow> bytearray \<Rightarrow> u8 \<Rightarrow> ba_error + bytearray" where
  "writeFint8 bo ba value = ba_write ba (mem_bytes bo value)"

definition writeFuint8 :: "nat \<Rightarrow> bytearray \<Rightarrow> u8 \<Rightarrow> ba_error + bytearray" where
  "writeFuint8 bo ba value = ba_write ba (mem_bytes bo value)"

definition writeFint16 :: "nat \<Rightarrow> bytearray \<Rightarrow> u16 \<Rightarrow> ba_error + bytearray" where
  "writeFint16 = write_fixed"

definition writeFuint16 :: "nat \<Rightarrow> bytearray \<Rightarrow> u16 \<Rightarrow> ba_error + bytearray" where
  "writeFuint16 = write_fixed"

definition writeFint32 :: "nat \<Rightarrow> bytearray \<Rightarrow> u32 \<Rightarrow> ba_error + bytearray" where
  "writeFint32 = write_fixed"

definition writeFuint32 :: "nat \<Rightarrow> bytearray \<Rightarrow> u32 \<Rightarrow> ba_error + bytearray" where
  "writeFuint32 = write_fixed"

definition writeFint64 :: "nat \<Rightarrow> bytearray \<Rightarrow> u64 \<Rightarrow> ba_error + bytearray" where
  "writeFint64 = write_fixed"

definition writeFuint64 :: "nat \<Rightarrow> bytearray \<Rightarrow> u64 \<Rightarrow> ba_error + bytearray" where
  "writeFuint64 = write_fixed"

text \<open>\<^verbatim>\<open>read(&v, n)\<close> into a variable: the bytes have to be determinate.\<close>

definition read_bytes :: "bytearray \<Rightarrow> nat \<Rightarrow> ba_error + u8 list \<times> bytearray" where
  "read_bytes ba n =
     err_bind (ba_read ba n) (\<lambda>(bs, ba).
       if None \<in> set bs then Inl Indeterminate else Inr (map the bs, ba))"

definition read_fixed :: "nat \<Rightarrow> bytearray \<Rightarrow> ba_error + 'a::len word \<times> bytearray" where
  "read_fixed bo ba =
     err_bind (read_bytes ba (LENGTH('a) div 8)) (\<lambda>(bs, ba).
       let v = of_mem_bytes bo bs in
       Inr (if m_endian ba = bo then v else byteswap v, ba))"

definition readFint8 :: "nat \<Rightarrow> bytearray \<Rightarrow> ba_error + u8 \<times> bytearray" where
  "readFint8 bo ba = err_bind (read_bytes ba 1) (\<lambda>(bs, ba). Inr (of_mem_bytes bo bs, ba))"

definition readFuint8 :: "nat \<Rightarrow> bytearray \<Rightarrow> ba_error + u8 \<times> bytearray" where
  "readFuint8 bo ba = err_bind (read_bytes ba 1) (\<lambda>(bs, ba). Inr (of_mem_bytes bo bs, ba))"

definition readFint16 :: "nat \<Rightarrow> bytearray \<Rightarrow> ba_error + u16 \<times> bytearray" where
  "readFint16 = read_fixed"

definition readFuint16 :: "nat \<Rightarrow> bytearray \<Rightarrow> ba_error + u16 \<times> bytearray" where
  "readFuint16 = read_fixed"

definition readFint32 :: "nat \<Rightarrow> bytearray \<Rightarrow> ba_error + u32 \<times> bytearray" where
  "readFint32 = read_fixed"

definition readFuint32 :: "nat \<Rightarrow> bytearray \<Rightarrow> ba_error + u32 \<times> bytearray" where
  "readFuint32 = read_fixed"

definition readFint64 :: "nat \<Rightarrow> bytearray \<Rightarrow> ba_error + u64 \<times> bytearray" where
  "readFint64 = read_fixed"

definition readFuint64 :: "nat \<Rightarrow> bytearray \<Rightarrow> ba_error + u64 \<times> bytearray" where
  "readFuint64 = read_fixed"

subsection \<open>Zigzag and variable length integers\<close>

text \<open>
  \<^verbatim>\<open>EncodeZigzag64\<close> computes in 64 bits and returns a \<^verbatim>\<open>uint32_t\<close>. The signed test
  \<^verbatim>\<open>v < 0\<close> is \<open>v <s 0\<close>, the most significant bit; \<^verbatim>\<open>v * 2\<close> and \<^verbatim>\<open>-v\<close>, signed computations that overflow for
  large values, are taken to wrap.
\<close>

definition EncodeZigzag32 :: "u32 \<Rightarrow> u32" where
  "EncodeZigzag32 v = (if v <s 0 then (- v) * 2 - 1 else v * 2)"

definition EncodeZigzag64 :: "u64 \<Rightarrow> u32" where
  "EncodeZigzag64 v = ucast (if v <s 0 then (- v) * 2 - 1 else v * 2)"

definition DecodeZigzag32 :: "u32 \<Rightarrow> u32" where
  "DecodeZigzag32 v = drop_bit 1 v XOR - (v AND 1)"

definition DecodeZigzag64 :: "u64 \<Rightarrow> u64" where
  "DecodeZigzag64 v = drop_bit 1 v XOR - (v AND 1)"

text \<open>The bytes that the loop of \<^verbatim>\<open>writeuint32\<close> and \<^verbatim>\<open>writeuint64\<close> puts into \<^verbatim>\<open>tmp\<close>.\<close>

lemma unat_drop_bit_7: "unat (drop_bit 7 v) = unat v div 128"
  by (subst unat_drop_bit_eq) (simp add: drop_bit_eq_div)

function varint_bytes :: "'a::len word \<Rightarrow> u8 list" where
  "varint_bytes value =
     (if unat value \<ge> 128 then (ucast (value AND 127) OR 128) # varint_bytes (drop_bit 7 value)
      else [ucast value])"
  by pat_completeness auto
termination
  by (relation "measure unat") (auto simp: unat_drop_bit_7)

declare varint_bytes.simps [simp del]

definition writeuint32 :: "bytearray \<Rightarrow> u32 \<Rightarrow> ba_error + bytearray" where
  "writeuint32 ba value = ba_write ba (varint_bytes value)"

definition writeuint64 :: "bytearray \<Rightarrow> u64 \<Rightarrow> ba_error + bytearray" where
  "writeuint64 ba value = ba_write ba (varint_bytes value)"

definition writeint32 :: "bytearray \<Rightarrow> u32 \<Rightarrow> ba_error + bytearray" where
  "writeint32 ba value = writeuint32 ba (EncodeZigzag32 value)"

definition writeint64 :: "bytearray \<Rightarrow> u64 \<Rightarrow> ba_error + bytearray" where
  "writeint64 ba value = writeuint64 ba (ucast (EncodeZigzag64 value))"

function readvar_loop :: "nat \<Rightarrow> bytearray \<Rightarrow> 'a::len word \<Rightarrow> nat \<Rightarrow> ba_error + 'a word \<times> bytearray" where
  "readvar_loop bo ba result i =
     (if \<not> i < LENGTH('a) then Inr (result, ba)
      else case readFuint8 bo ba of Inl e \<Rightarrow> Inl e
      | Inr (b, ba) \<Rightarrow>
          if unat b < 128 then Inr (result OR push_bit i (ucast b), ba)
          else readvar_loop bo ba (result OR push_bit i (ucast (b AND 127))) (i + 7))"
  by pat_completeness auto
termination
  by (relation "measure (\<lambda>(bo, ba, result :: 'a word, i). LENGTH('a) - i)") auto

declare readvar_loop.simps [simp del]

definition readuint32 :: "nat \<Rightarrow> bytearray \<Rightarrow> ba_error + u32 \<times> bytearray" where
  "readuint32 bo ba = readvar_loop bo ba 0 0"

definition readuint64 :: "nat \<Rightarrow> bytearray \<Rightarrow> ba_error + u64 \<times> bytearray" where
  "readuint64 bo ba = readvar_loop bo ba 0 0"

definition readint32 :: "nat \<Rightarrow> bytearray \<Rightarrow> ba_error + u32 \<times> bytearray" where
  "readint32 bo ba = err_bind (readuint32 bo ba) (\<lambda>(v, ba). Inr (DecodeZigzag32 v, ba))"

definition readint64 :: "nat \<Rightarrow> bytearray \<Rightarrow> ba_error + u64 \<times> bytearray" where
  "readint64 bo ba = err_bind (readuint64 bo ba) (\<lambda>(v, ba). Inr (DecodeZigzag64 v, ba))"

subsection \<open>Floating point numbers\<close>

text \<open>
  A float or double is given to the writers by its bit pattern. The readers return \<^verbatim>\<open>v\<close>, the
  unsigned integer that holds the pattern, converted to the floating point type: the result is
  the number the integer rounds to (to nearest, ties to even, 24 significant bits), not
  the number the pattern denotes. \<^verbatim>\<open>readDouble\<close> reads 32 bits, which a double represents exactly.
\<close>

fun bit_len :: "nat \<Rightarrow> nat" where
  "bit_len n = (if n = 0 then 0 else Suc (bit_len (n div 2)))"

declare bit_len.simps [simp del]

definition round_sig :: "nat \<Rightarrow> nat \<Rightarrow> nat" where
  "round_sig p n =
     (let e = bit_len n - p; q = n div 2 ^ e; r = n mod 2 ^ e in
      if 2 * r > 2 ^ e \<or> 2 * r = 2 ^ e \<and> odd q then (q + 1) * 2 ^ e else q * 2 ^ e)"

definition writeFloat :: "nat \<Rightarrow> bytearray \<Rightarrow> u32 \<Rightarrow> ba_error + bytearray" where
  "writeFloat bo ba v = writeFuint32 bo ba v"

definition writeDouble :: "nat \<Rightarrow> bytearray \<Rightarrow> u64 \<Rightarrow> ba_error + bytearray" where
  "writeDouble bo ba v = writeFuint64 bo ba v"

definition readFloat :: "nat \<Rightarrow> bytearray \<Rightarrow> ba_error + nat \<times> bytearray" where
  "readFloat bo ba = err_bind (readFuint32 bo ba) (\<lambda>(v, ba). Inr (round_sig 24 (unat v), ba))"

definition readDouble :: "nat \<Rightarrow> bytearray \<Rightarrow> ba_error + nat \<times> bytearray" where
  "readDouble bo ba = err_bind (readFuint32 bo ba) (\<lambda>(v, ba). Inr (unat v, ba))"

subsection \<open>Strings\<close>

text \<open>A \<^verbatim>\<open>std::string\<close> is its list of bytes. The length field truncates to its width.\<close>

definition writeStringF16 :: "nat \<Rightarrow> bytearray \<Rightarrow> u8 list \<Rightarrow> ba_error + bytearray" where
  "writeStringF16 bo ba value =
     err_bind (writeFuint16 bo ba (of_nat (length value))) (\<lambda>ba. ba_write ba value)"

definition writeStringF32 :: "nat \<Rightarrow> bytearray \<Rightarrow> u8 list \<Rightarrow> ba_error + bytearray" where
  "writeStringF32 bo ba value =
     err_bind (writeFuint32 bo ba (of_nat (length value))) (\<lambda>ba. ba_write ba value)"

definition writeStringF64 :: "nat \<Rightarrow> bytearray \<Rightarrow> u8 list \<Rightarrow> ba_error + bytearray" where
  "writeStringF64 bo ba value =
     err_bind (writeFuint64 bo ba (of_nat (length value))) (\<lambda>ba. ba_write ba value)"

definition writeStringVint :: "nat \<Rightarrow> bytearray \<Rightarrow> u8 list \<Rightarrow> ba_error + bytearray" where
  "writeStringVint bo ba value =
     err_bind (writeFuint64 bo ba (of_nat (length value))) (\<lambda>ba. ba_write ba value)"

definition writeStringWithoutLength :: "bytearray \<Rightarrow> u8 list \<Rightarrow> ba_error + bytearray" where
  "writeStringWithoutLength ba value = ba_write ba value"

definition readStringF16 :: "nat \<Rightarrow> bytearray \<Rightarrow> ba_error + u8 list \<times> bytearray" where
  "readStringF16 bo ba = err_bind (readFuint16 bo ba) (\<lambda>(len, ba). read_bytes ba (unat len))"

definition readStringF32 :: "nat \<Rightarrow> bytearray \<Rightarrow> ba_error + u8 list \<times> bytearray" where
  "readStringF32 bo ba = err_bind (readFuint32 bo ba) (\<lambda>(len, ba). read_bytes ba (unat len))"

definition readStringF64 :: "nat \<Rightarrow> bytearray \<Rightarrow> ba_error + u8 list \<times> bytearray" where
  "readStringF64 bo ba = err_bind (readFuint64 bo ba) (\<lambda>(len, ba). read_bytes ba (unat len))"

definition readStringVint :: "nat \<Rightarrow> bytearray \<Rightarrow> ba_error + u8 list \<times> bytearray" where
  "readStringVint bo ba = err_bind (readFuint64 bo ba) (\<lambda>(len, ba). read_bytes ba (unat len))"

end
