(* ===== verification/ByteArray_RoundTrip.thy ===== *)
theory ByteArray_RoundTrip
  imports ByteArray_Codec
begin

text \<open>
  Round trips of the typed operations of \<^verbatim>\<open>code/bytearray.cc\<close>. \<open>ba_codec\<close> is the interface
  between the typed operations and their users: the laws of a write and of the read that
  undoes it. The lemmas of the interface lift one pair to sequences, and every pair of the
  code that satisfies the laws is an interpretation.
\<close>

subsection \<open>What a read sees\<close>

definition has_bytes :: "bytearray \<Rightarrow> u8 list \<Rightarrow> bool" where
  "has_bytes ba bs \<longleftrightarrow> take (length bs) (drop (m_position ba) (content ba)) = map Some bs"

definition advanced :: "bytearray \<Rightarrow> nat \<Rightarrow> bytearray \<Rightarrow> bool" where
  "advanced ba n ba' \<longleftrightarrow>
     ba_inv ba' \<and> content ba' = content ba \<and> m_position ba' = m_position ba + n \<and>
     m_endian ba' = m_endian ba"

lemma advanced_refl: "ba_inv ba \<Longrightarrow> advanced ba 0 ba"
  by (simp add: advanced_def)

lemma advanced_trans: "advanced a m b \<Longrightarrow> advanced b n c \<Longrightarrow> advanced a (m + n) c"
  by (simp add: advanced_def)

lemma has_bytes_append:
  "has_bytes ba (xs @ ys) \<longleftrightarrow>
     has_bytes ba xs \<and>
     take (length ys) (drop (m_position ba + length xs) (content ba)) = map Some ys"
proof -
  let ?r = "drop (m_position ba) (content ba)"
  have "take (length xs + length ys) ?r = take (length xs) ?r @ take (length ys) (drop (length xs) ?r)"
    by (rule take_add)
  moreover have "length (take (length xs) ?r) = length (map Some xs)"
    if "take (length xs) ?r @ take (length ys) (drop (length xs) ?r) = map Some xs @ map Some ys"
  proof -
    have "length ?r \<ge> length xs" using arg_cong [OF that, of length] by (simp split: if_splits)
    then show ?thesis by simp
  qed
  ultimately show ?thesis
    by (auto simp: has_bytes_def add.commute append_eq_append_conv)
qed

lemma has_bytes_rest:
  "has_bytes ba (xs @ ys) \<Longrightarrow> advanced ba (length xs) ba' \<Longrightarrow> has_bytes ba' ys"
  by (simp add: has_bytes_append advanced_def) (simp add: has_bytes_def)

lemma has_bytes_prefix: "has_bytes ba (xs @ ys) \<Longrightarrow> has_bytes ba xs"
  by (simp add: has_bytes_append)

lemma read_bytes_ok:
  assumes inv: "ba_inv ba" and hb: "has_bytes ba bs" and ne: "bs \<noteq> []"
  shows "\<exists>ba'. read_bytes ba (length bs) = Inr (bs, ba') \<and> advanced ba (length bs) ba'"
proof -
  have "length (take (length bs) (drop (m_position ba) (content ba))) = length bs"
    using hb by (simp add: has_bytes_def)
  then have n: "length bs \<le> getReadSize ba"
    using length_content [OF inv] by (simp add: getReadSize_def)
  then have "m_position ba < m_capacity ba"
    using ne ba_invD(6) [OF inv] by (cases bs) (auto simp: getReadSize_def)
  with inv n obtain ba' where "ba_read ba (length bs) = Inr (take (length bs) (drop (m_position ba) (content ba)), ba')"
    and "advanced ba (length bs) ba'"
    by (rule ba_read_ok) (auto simp: advanced_def)
  then show ?thesis
    using hb by (auto simp: read_bytes_def has_bytes_def)
qed


lemma write_ok:
  assumes "ba_inv ba" and "ba_write ba data = Inr ba'"
  shows "ba_inv ba' \<and> abs_ba ba' = buf_write (abs_ba ba) (map Some data) \<and> m_endian ba' = m_endian ba"
  using ba_write_cases [OF assms(1), of data] assms(2) by simp

lemma buf_write_append:
  assumes "p \<le> length c"
  shows "buf_write (buf_write (c, p) xs) ys = buf_write (c, p) (xs @ ys)"
  using assms by (auto simp: buf_write_def memcpy_at_def ac_simps)

lemma abs_ba_pos: "ba_inv ba \<Longrightarrow> abs_ba ba = (c, p) \<Longrightarrow> p \<le> length c"
  using length_content ba_invD(5) by (auto simp: abs_ba_def)

subsection \<open>The interface of a codec\<close>

text \<open>
  \<open>enc e v\<close> is the encoding of \<open>v\<close> in a buffer of byte order \<open>e\<close>; \<open>kind v\<close> selects the read
  operation that undoes the write; \<open>good\<close> restricts the values for which the code keeps the
  contract.
\<close>

fun write_seq :: "(bytearray \<Rightarrow> 'v \<Rightarrow> ba_error + bytearray) \<Rightarrow> bytearray \<Rightarrow> 'v list \<Rightarrow> ba_error + bytearray" where
  "write_seq wr ba [] = Inr ba"
| "write_seq wr ba (v # vs) = err_bind (wr ba v) (\<lambda>ba. write_seq wr ba vs)"

fun read_seq ::
  "('k \<Rightarrow> bytearray \<Rightarrow> ba_error + 'v \<times> bytearray) \<Rightarrow> bytearray \<Rightarrow> 'k list \<Rightarrow> ba_error + 'v list \<times> bytearray" where
  "read_seq rd ba [] = Inr ([], ba)"
| "read_seq rd ba (k # ks) =
     err_bind (rd k ba) (\<lambda>(v, ba). err_bind (read_seq rd ba ks) (\<lambda>(vs, ba). Inr (v # vs, ba)))"

locale ba_codec =
  fixes enc :: "nat \<Rightarrow> 'v \<Rightarrow> u8 list"
    and kind :: "'v \<Rightarrow> 'k"
    and good :: "'v \<Rightarrow> bool"
    and wr :: "bytearray \<Rightarrow> 'v \<Rightarrow> ba_error + bytearray"
    and rd :: "'k \<Rightarrow> bytearray \<Rightarrow> ba_error + 'v \<times> bytearray"
  assumes wr_ok: "ba_inv ba \<Longrightarrow> wr ba v = Inr ba' \<Longrightarrow>
      ba_inv ba' \<and> abs_ba ba' = buf_write (abs_ba ba) (map Some (enc (m_endian ba) v)) \<and>
      m_endian ba' = m_endian ba"
    and rd_ok: "ba_inv ba \<Longrightarrow> good v \<Longrightarrow> has_bytes ba (enc (m_endian ba) v) \<Longrightarrow>
      \<exists>ba'. rd (kind v) ba = Inr (v, ba') \<and> advanced ba (length (enc (m_endian ba) v)) ba'"
begin

lemma write_seq_ok:
  assumes "ba_inv ba" and "write_seq wr ba vs = Inr ba'"
  shows "ba_inv ba' \<and>
         abs_ba ba' = buf_write (abs_ba ba) (map Some (concat (map (enc (m_endian ba)) vs))) \<and>
         m_endian ba' = m_endian ba"
  using assms
proof (induction vs arbitrary: ba)
  case Nil
  then show ?case by (simp add: buf_write_def split: prod.split)
next
  case (Cons v vs)
  obtain ba1 where w: "wr ba v = Inr ba1" and rest: "write_seq wr ba1 vs = Inr ba'"
    using Cons.prems(2) by (auto simp: err_bind_eq_Inr)
  have a: "ba_inv ba1" "abs_ba ba1 = buf_write (abs_ba ba) (map Some (enc (m_endian ba) v))"
      "m_endian ba1 = m_endian ba"
    using wr_ok [OF Cons.prems(1) w] by simp_all
  obtain c p where cp: "abs_ba ba = (c, p)" by (cases "abs_ba ba")
  have "p \<le> length c" using Cons.prems(1) cp by (rule abs_ba_pos)
  then show ?case
    using Cons.IH [OF a(1) rest] a(2,3) cp by (simp add: buf_write_append)
qed

lemma read_seq_ok:
  assumes "ba_inv ba" and "list_all good vs" and "has_bytes ba (concat (map (enc (m_endian ba)) vs))"
  shows "\<exists>ba'. read_seq rd ba (map kind vs) = Inr (vs, ba') \<and>
           advanced ba (length (concat (map (enc (m_endian ba)) vs))) ba'"
  using assms
proof (induction vs arbitrary: ba)
  case Nil
  then show ?case by (simp add: advanced_refl)
next
  case (Cons v vs)
  let ?e = "m_endian ba"
  have hb: "has_bytes ba (enc ?e v @ concat (map (enc ?e) vs))" using Cons.prems(3) by simp
  obtain ba1 where r: "rd (kind v) ba = Inr (v, ba1)" and a: "advanced ba (length (enc ?e v)) ba1"
    using rd_ok [OF Cons.prems(1) _ has_bytes_prefix [OF hb]] Cons.prems(2) by auto
  have "ba_inv ba1" and "m_endian ba1 = ?e" using a by (simp_all add: advanced_def)
  then show ?case
    using Cons.IH [of ba1] Cons.prems(2) has_bytes_rest [OF hb a] r advanced_trans [OF a] by auto
qed

text \<open>
  Writing a sequence, seeking back to where it began and reading the same kinds returns the
  sequence and leaves the position behind it.
\<close>

lemma write_seek_read:
  assumes inv: "ba_inv ba" and good: "list_all good vs" and w: "write_seq wr ba vs = Inr ba1"
    and s: "setPosition ba1 (m_position ba) = Inr ba2"
  shows "\<exists>ba3. read_seq rd ba2 (map kind vs) = Inr (vs, ba3) \<and> ba_inv ba3 \<and>
           abs_ba ba3 = abs_ba ba1"
proof -
  let ?bs = "concat (map (enc (m_endian ba)) vs)" and ?p = "m_position ba"
  have b1: "ba_inv ba1" "abs_ba ba1 = buf_write (abs_ba ba) (map Some ?bs)" "m_endian ba1 = m_endian ba"
    using write_seq_ok [OF inv w] by simp_all
  have c1: "content ba1 = memcpy_at (content ba) ?p (map Some ?bs)" "m_position ba1 = ?p + length ?bs"
    using b1(2) by (simp_all add: abs_ba_def buf_write_def)
  have le: "?p \<le> m_size ba1" using ba_invD(5) [OF b1(1)] c1(2) by simp
  have lt: "?p < m_capacity ba1" using setPosition_eq [OF b1(1), of ?p] s by (auto split: if_splits)
  have b2: "ba_inv ba2" "content ba2 = content ba1" "m_position ba2 = ?p" "m_endian ba2 = m_endian ba"
    using setPosition_ok [OF b1(1) le lt] s b1(3) by auto
  have "?p \<le> length (content ba)" using length_content [OF inv] ba_invD(5) [OF inv] by simp
  then have "has_bytes ba2 ?bs"
    by (simp add: has_bytes_def b2 c1 drop_memcpy_at)
  then obtain ba3 where "read_seq rd ba2 (map kind vs) = Inr (vs, ba3)" "advanced ba2 (length ?bs) ba3"
    using read_seq_ok [OF b2(1) good] b2(4) by auto
  then show ?thesis
    using b2 c1(2) by (auto simp: advanced_def abs_ba_def)
qed

end


subsection \<open>Fixed width integers\<close>

definition fixed_bytes :: "nat \<Rightarrow> nat \<Rightarrow> 'a::len word \<Rightarrow> u8 list" where
  "fixed_bytes bo e w = mem_bytes bo (if e \<noteq> bo then byteswap w else w)"

lemma length_fixed_bytes [simp]: "length (fixed_bytes bo e (w :: 'a::len word)) = LENGTH('a) div 8"
  by (simp add: fixed_bytes_def)

lemma write_fixed_ok:
  assumes "ba_inv ba" and "write_fixed bo ba w = Inr ba'"
  shows "ba_inv ba' \<and> abs_ba ba' = buf_write (abs_ba ba) (map Some (fixed_bytes bo (m_endian ba) w)) \<and>
         m_endian ba' = m_endian ba"
  using assms write_ok [of ba _ ba'] by (simp add: write_fixed_def fixed_bytes_def Let_def)

lemma read_fixed_ok:
  assumes "8 dvd LENGTH('a)" and "ba_inv ba" and "has_bytes ba (fixed_bytes bo (m_endian ba) (w :: 'a::len word))"
  shows "\<exists>ba'. read_fixed bo ba = Inr (w, ba') \<and> advanced ba (LENGTH('a) div 8) ba'"
proof -
  have "0 < LENGTH('a) div 8" using assms(1) len_gt_0 [where 'a = 'a] by (auto elim!: dvdE simp del: len_gt_0)
  then have "fixed_bytes bo (m_endian ba) w \<noteq> []" by (metis length_fixed_bytes length_0_conv less_numeral_extra(3))
  then obtain ba' where "read_bytes ba (LENGTH('a) div 8) = Inr (fixed_bytes bo (m_endian ba) w, ba')"
    and a: "advanced ba (LENGTH('a) div 8) ba'"
    using read_bytes_ok [OF assms(2,3)] by auto
  moreover have "m_endian ba' = m_endian ba" using a by (simp add: advanced_def)
  ultimately show ?thesis
    using assms(1)
    by (auto simp: read_fixed_def fixed_bytes_def Let_def of_mem_bytes_mem_bytes byteswap_byteswap)
qed

lemma fixed_codec:
  assumes "8 dvd LENGTH('a)"
  shows "ba_codec (fixed_bytes bo) (\<lambda>_. ()) (\<lambda>_. True) (write_fixed bo)
           (\<lambda>_. read_fixed bo :: bytearray \<Rightarrow> ba_error + 'a::len word \<times> bytearray)"
  using write_fixed_ok read_fixed_ok [OF assms] by unfold_locales simp_all

lemma byte_ok:
  assumes "ba_inv ba" and "has_bytes ba [b]"
  shows "\<exists>ba'. readFuint8 bo ba = Inr (b, ba') \<and> readFint8 bo ba = Inr (b, ba') \<and> advanced ba 1 ba'"
proof -
  obtain ba' where "read_bytes ba 1 = Inr ([b], ba')" "advanced ba 1 ba'"
    using read_bytes_ok [OF assms] by auto
  moreover have "of_mem_bytes bo [b] = b" by (simp add: of_mem_bytes_def)
  ultimately show ?thesis by (simp add: readFuint8_def readFint8_def)
qed

lemma mem_bytes_byte [simp]: "mem_bytes bo (b :: u8) = [b]"
  by (simp add: mem_bytes_def le_bytes_def)

interpretation fint8: ba_codec "\<lambda>_ b. [b]" "\<lambda>_. ()" "\<lambda>_. True" "writeFint8 bo" "\<lambda>_. readFint8 bo" for bo
  using write_ok byte_ok by unfold_locales (fastforce simp: writeFint8_def)+

interpretation fuint8: ba_codec "\<lambda>_ b. [b]" "\<lambda>_. ()" "\<lambda>_. True" "writeFuint8 bo" "\<lambda>_. readFuint8 bo" for bo
  using write_ok byte_ok by unfold_locales (fastforce simp: writeFuint8_def)+

interpretation fint16: ba_codec "fixed_bytes bo" "\<lambda>_. ()" "\<lambda>_. True" "writeFint16 bo" "\<lambda>_. readFint16 bo" for bo
  unfolding writeFint16_def readFint16_def by (rule fixed_codec) simp

interpretation fuint16: ba_codec "fixed_bytes bo" "\<lambda>_. ()" "\<lambda>_. True" "writeFuint16 bo" "\<lambda>_. readFuint16 bo" for bo
  unfolding writeFuint16_def readFuint16_def by (rule fixed_codec) simp

interpretation fint32: ba_codec "fixed_bytes bo" "\<lambda>_. ()" "\<lambda>_. True" "writeFint32 bo" "\<lambda>_. readFint32 bo" for bo
  unfolding writeFint32_def readFint32_def by (rule fixed_codec) simp

interpretation fuint32: ba_codec "fixed_bytes bo" "\<lambda>_. ()" "\<lambda>_. True" "writeFuint32 bo" "\<lambda>_. readFuint32 bo" for bo
  unfolding writeFuint32_def readFuint32_def by (rule fixed_codec) simp

interpretation fint64: ba_codec "fixed_bytes bo" "\<lambda>_. ()" "\<lambda>_. True" "writeFint64 bo" "\<lambda>_. readFint64 bo" for bo
  unfolding writeFint64_def readFint64_def by (rule fixed_codec) simp

interpretation fuint64: ba_codec "fixed_bytes bo" "\<lambda>_. ()" "\<lambda>_. True" "writeFuint64 bo" "\<lambda>_. readFuint64 bo" for bo
  unfolding writeFuint64_def readFuint64_def by (rule fixed_codec) simp

subsection \<open>Variable length integers\<close>

lemma bit_127: "bit (127 :: int) j \<longleftrightarrow> j < 7"
  using bit_mask_iff [of 7 j, where 'a = int] by (simp add: mask_eq_exp_minus_1)

lemma bit_128: "bit (128 :: int) j \<longleftrightarrow> j = 7"
  using bit_exp_iff [of 7 j, where 'a = int] by auto

lemma bit_7_unat: "bit (b :: u8) 7 \<Longrightarrow> 128 \<le> unat b"
proof (rule ccontr)
  assume "bit b 7" and "\<not> 128 \<le> unat b"
  then have "unat b div 2 ^ 7 = 0" and "bit (unat b) 7" by (simp_all add: bit_unsigned_iff)
  then show False by (simp only: bit_iff_odd) simp
qed

lemma varint_split: "push_bit i (v AND 127) OR push_bit (i + 7) (drop_bit 7 v) = push_bit i (v :: 'a::len word)"
proof (rule bit_word_eqI)
  fix k assume k: "k < LENGTH('a)"
  show "bit (push_bit i (v AND 127) OR push_bit (i + 7) (drop_bit 7 v)) k \<longleftrightarrow> bit (push_bit i v) k"
    using k by (cases "i + 7 \<le> k") (auto simp: bit_simps bit_127)
qed

lemma varint_byte:
  assumes "8 \<le> LENGTH('a)"
  shows "ucast ((ucast ((v :: 'a::len word) AND 127) OR 128 :: u8) AND 127) = v AND 127"
    and "\<not> unat (ucast (v AND 127) OR 128 :: u8) < 128"
proof -
  show "ucast ((ucast (v AND 127) OR 128 :: u8) AND 127) = v AND 127"
    using assms by (intro bit_word_eqI) (auto simp: bit_simps bit_127 bit_128)
  have "bit (ucast (v AND 127) OR 128 :: u8) 7" by (simp add: bit_simps bit_128)
  then show "\<not> unat (ucast (v AND 127) OR 128 :: u8) < 128"
    by (simp only: bit_7_unat not_less)
qed

lemma varint_bytes_ne: "varint_bytes v \<noteq> []"
  by (subst varint_bytes.simps) simp

lemma length_varint_bytes: "unat v < 128 ^ n \<Longrightarrow> 0 < n \<Longrightarrow> length (varint_bytes v) \<le> n"
proof (induction v arbitrary: n rule: varint_bytes.induct)
  case (1 v)
  show ?case
  proof (cases "unat v \<ge> 128")
    case True
    with "1.prems" have "n \<noteq> 1" by (intro notI) simp
    with "1.prems"(2) obtain m where m: "n = Suc m" "0 < m" by (cases n) auto
    then have "unat (drop_bit 7 v) < 128 ^ m"
      using "1.prems"(1) by (simp add: unat_drop_bit_7 less_mult_imp_div_less mult.commute)
    then show ?thesis using "1.IH" [OF True] m True by (subst varint_bytes.simps) simp
  next
    case False
    then show ?thesis using "1.prems"(2) by (subst varint_bytes.simps) simp
  qed
qed

lemma readvar_loop_ok:
  assumes "8 \<le> LENGTH('a)" and "ba_inv ba" and "has_bytes ba (varint_bytes (v :: 'a::len word))"
    and "i < LENGTH('a)" and "unat v < 2 ^ (LENGTH('a) - i)"
  shows "\<exists>ba'. readvar_loop bo ba result i = Inr (result OR push_bit i v, ba') \<and>
           advanced ba (length (varint_bytes v)) ba'"
  using assms(2-5)
proof (induction v arbitrary: ba result i rule: varint_bytes.induct)
  case (1 v)
  show ?case
  proof (cases "unat v \<ge> 128")
    case True
    let ?b = "ucast (v AND 127) OR 128 :: u8"
    have vb: "varint_bytes v = [?b] @ varint_bytes (drop_bit 7 v)" using True by (subst varint_bytes.simps) simp
    obtain ba1 where r: "readFuint8 bo ba = Inr (?b, ba1)" and a: "advanced ba 1 ba1"
      using byte_ok [OF "1.prems"(1), of ?b] has_bytes_prefix "1.prems"(2) vb by metis
    have hb: "has_bytes ba1 (varint_bytes (drop_bit 7 v))"
      using has_bytes_rest [of ba "[?b]"] "1.prems"(2) vb a by simp
    have "(2::nat) ^ 7 < 2 ^ (LENGTH('a) - i)" using True "1.prems"(4) by simp
    then have i7: "7 < LENGTH('a) - i" by (rule power_less_imp_less_exp [rotated]) simp
    then have "LENGTH('a) - i = (LENGTH('a) - (i + 7)) + 7" by simp
    then have "(2::nat) ^ (LENGTH('a) - i) = 2 ^ (LENGTH('a) - (i + 7)) * 128"
      by (simp only: power_add) simp
    then have "unat (drop_bit 7 v) < 2 ^ (LENGTH('a) - (i + 7))"
      using "1.prems"(4) by (simp add: unat_drop_bit_7 less_mult_imp_div_less)
    moreover have "i + 7 < LENGTH('a)" using i7 by linarith
    ultimately obtain ba' where
      "readvar_loop bo ba1 (result OR push_bit i (v AND 127)) (i + 7) =
         Inr ((result OR push_bit i (v AND 127)) OR push_bit (i + 7) (drop_bit 7 v), ba')"
      and "advanced ba1 (length (varint_bytes (drop_bit 7 v))) ba'"
      using "1.IH" [OF True _ hb, of "i + 7" "result OR push_bit i (v AND 127)"] a
      by (auto simp: advanced_def)
    then show ?thesis
      using r advanced_trans [OF a] "1.prems"(3) varint_byte [OF assms(1), of v] varint_split [of i v] vb
      by (auto simp: readvar_loop.simps [of bo ba result i] or.assoc)
  next
    case False
    then have vb: "varint_bytes v = [ucast v]" by (subst varint_bytes.simps) simp
    obtain ba1 where r: "readFuint8 bo ba = Inr (ucast v, ba1)" and a: "advanced ba 1 ba1"
      using byte_ok [OF "1.prems"(1)] "1.prems"(2) vb by metis
    have "unat (ucast v :: u8) = unat v"
      using False by (simp add: unsigned_ucast_eq take_bit_nat_eq_self)
    moreover have "unat (ucast (ucast v :: u8) :: 'a word) = unat v"
      using False by (simp add: unsigned_ucast_eq unsigned_take_bit_eq take_bit_nat_eq_self)
    then have "ucast (ucast v :: u8) = v" by (simp only: word_unat_eq_iff)
    ultimately show ?thesis
      using r a False "1.prems"(3) vb by (auto simp: readvar_loop.simps [of bo ba result i])
  qed
qed


interpretation vuint32: ba_codec "\<lambda>_. varint_bytes" "\<lambda>_. ()" "\<lambda>_. True" writeuint32 "\<lambda>_. readuint32 bo" for bo
proof unfold_locales
  fix ba and v :: u32
  assume "ba_inv ba" and "has_bytes ba (varint_bytes v)"
  then show "\<exists>ba'. readuint32 bo ba = Inr (v, ba') \<and> advanced ba (length (varint_bytes v)) ba'"
    using readvar_loop_ok [of ba v 0 bo 0] unsigned_less [of v, where 'a = nat] by (simp add: readuint32_def)
qed (use write_ok in \<open>simp add: writeuint32_def\<close>)

interpretation vuint64: ba_codec "\<lambda>_. varint_bytes" "\<lambda>_. ()" "\<lambda>_. True" writeuint64 "\<lambda>_. readuint64 bo" for bo
proof unfold_locales
  fix ba and v :: u64
  assume "ba_inv ba" and "has_bytes ba (varint_bytes v)"
  then show "\<exists>ba'. readuint64 bo ba = Inr (v, ba') \<and> advanced ba (length (varint_bytes v)) ba'"
    using readvar_loop_ok [of ba v 0 bo 0] unsigned_less [of v, where 'a = nat] by (simp add: readuint64_def)
qed (use write_ok in \<open>simp add: writeuint64_def\<close>)

subsection \<open>Zigzag\<close>

text \<open>The zigzag code at any width, and the integer it stands for.\<close>

definition zz_enc :: "'a::len word \<Rightarrow> 'a word" where
  "zz_enc v = (if v <s 0 then (- v) * 2 - 1 else v * 2)"

definition zz_dec :: "'a::len word \<Rightarrow> 'a word" where
  "zz_dec v = drop_bit 1 v XOR - (v AND 1)"

definition zz_int :: "int \<Rightarrow> int" where
  "zz_int s = (if s < 0 then - 2 * s - 1 else 2 * s)"

lemma double_push_bit: "(v :: 'a::len word) * 2 = push_bit 1 v"
  by (simp add: push_bit_eq_mult)

lemma sless_0_bit: "(v :: 'a::len word) <s 0 \<longleftrightarrow> bit v (LENGTH('a) - Suc 0)"
  by (simp add: word_sless_alt bit_last_iff)

lemma zz_dec_enc: "zz_dec (zz_enc v) = (v :: 'a::len word)"
proof (rule bit_word_eqI)
  fix k assume k: "k < LENGTH('a)"
  show "bit (zz_dec (zz_enc v)) k \<longleftrightarrow> bit v k"
  proof (cases "v <s 0")
    case True
    have n: "zz_enc v = NOT (push_bit 1 v)"
      using True by (simp add: zz_enc_def not_eq_complement flip: double_push_bit)
    have o: "NOT (push_bit 1 v) AND 1 = 1" by (rule bit_word_eqI) (auto simp: bit_simps bit_0)
    show ?thesis
      using True k unfolding zz_dec_def n o sless_0_bit
      by (cases "k = LENGTH('a) - Suc 0") (auto simp: bit_simps simp del: push_bit_Suc)
  next
    case False
    have n: "zz_enc v = push_bit 1 v" using False by (simp only: zz_enc_def double_push_bit if_False)
    have o: "push_bit 1 v AND 1 = 0" by (rule bit_word_eqI) (auto simp: bit_simps bit_0 intro!: gr0I)
    show ?thesis
      using False k unfolding zz_dec_def n o sless_0_bit
      by (cases "k = LENGTH('a) - Suc 0") (auto simp: bit_simps simp del: push_bit_Suc)
  qed
qed

lemma zz_int_bounds: "- (2 ^ (n - 1)) \<le> s \<Longrightarrow> s < 2 ^ (n - 1) \<Longrightarrow> 0 < n \<Longrightarrow> 0 \<le> zz_int s \<and> zz_int s < 2 ^ n"
  by (cases n) (auto simp: zz_int_def)

lemma uint_zz_enc: "uint (zz_enc v) = zz_int (sint (v :: 'a::len word))"
proof -
  have "zz_enc v = word_of_int (zz_int (sint v))"
    by (simp add: zz_enc_def zz_int_def word_sless_alt)
  moreover have "0 \<le> zz_int (sint v) \<and> zz_int (sint v) < 2 ^ LENGTH('a)"
    using zz_int_bounds [of "LENGTH('a)" "sint v"] sint_ge [of v] sint_less [of v] by simp
  ultimately show ?thesis by (simp add: uint_word_of_int_eq take_bit_int_eq_self)
qed

lemma zz_enc_dec: "zz_enc (zz_dec v) = (v :: 'a::len word)"
  using zz_dec_enc
  by (metis (no_types, lifting) finite_UNIV_inj_surj inj_def surj_def finite)

lemma DecodeZigzag32_eq: "DecodeZigzag32 = zz_dec"
  by (simp add: fun_eq_iff DecodeZigzag32_def zz_dec_def)

lemma DecodeZigzag64_eq: "DecodeZigzag64 = zz_dec"
  by (simp add: fun_eq_iff DecodeZigzag64_def zz_dec_def)

lemma EncodeZigzag32_eq: "EncodeZigzag32 = zz_enc"
  by (simp add: fun_eq_iff EncodeZigzag32_def zz_enc_def)

lemma EncodeZigzag64_eq: "EncodeZigzag64 v = ucast (zz_enc v)"
  by (simp add: EncodeZigzag64_def zz_enc_def)

text \<open>The 64 bit encoder loses the upper half: it is faithful on the integers of 32 bits only.\<close>

definition zz64_ok :: "u64 \<Rightarrow> bool" where
  "zz64_ok v \<longleftrightarrow> - (2 ^ 31) \<le> sint v \<and> sint v < 2 ^ 31"

lemma zz64_trunc: "ucast (ucast (w :: u64) :: u32) = w \<longleftrightarrow> uint w < 2 ^ 32"
proof -
  have "ucast (ucast w :: u32) = w \<longleftrightarrow> take_bit 32 (uint w) = uint w"
    by (simp add: word_uint_eq_iff unsigned_ucast_eq unsigned_take_bit_eq)
  then show ?thesis by (simp add: take_bit_int_eq_self_iff)
qed

lemma zz64_roundtrip_iff: "DecodeZigzag64 (ucast (EncodeZigzag64 v)) = v \<longleftrightarrow> zz64_ok v"
proof -
  have "DecodeZigzag64 (ucast (EncodeZigzag64 v)) = v \<longleftrightarrow> ucast (ucast (zz_enc v) :: u32) = zz_enc v"
    unfolding DecodeZigzag64_eq EncodeZigzag64_eq by (metis zz_dec_enc zz_enc_dec)
  also have "\<dots> \<longleftrightarrow> zz_int (sint v) < 2 ^ 32" by (simp add: zz64_trunc uint_zz_enc)
  also have "\<dots> \<longleftrightarrow> zz64_ok v" by (auto simp: zz_int_def zz64_ok_def)
  finally show ?thesis .
qed

interpretation vint32: ba_codec "\<lambda>_ v. varint_bytes (EncodeZigzag32 v)" "\<lambda>_. ()" "\<lambda>_. True"
    writeint32 "\<lambda>_. readint32 bo" for bo
proof unfold_locales
  fix ba v assume "ba_inv ba" and "has_bytes ba (varint_bytes (EncodeZigzag32 v))"
  then show "\<exists>ba'. readint32 bo ba = Inr (v, ba') \<and> advanced ba (length (varint_bytes (EncodeZigzag32 v))) ba'"
    using vuint32.rd_ok [of ba "EncodeZigzag32 v" bo]
    by (auto simp: readint32_def DecodeZigzag32_eq EncodeZigzag32_eq zz_dec_enc)
qed (use vuint32.wr_ok in \<open>simp add: writeint32_def\<close>)

interpretation vint64: ba_codec "\<lambda>_ v. varint_bytes (ucast (EncodeZigzag64 v) :: u64)" "\<lambda>_. ()" zz64_ok
    writeint64 "\<lambda>_. readint64 bo" for bo
proof unfold_locales
  fix ba v assume "ba_inv ba" and "zz64_ok v" and "has_bytes ba (varint_bytes (ucast (EncodeZigzag64 v) :: u64))"
  then show "\<exists>ba'. readint64 bo ba = Inr (v, ba') \<and>
      advanced ba (length (varint_bytes (ucast (EncodeZigzag64 v) :: u64))) ba'"
    using vuint64.rd_ok [of ba "ucast (EncodeZigzag64 v)" bo] zz64_roundtrip_iff
    by (auto simp: readint64_def)
qed (use vuint64.wr_ok in \<open>simp add: writeint64_def\<close>)

subsection \<open>Strings with a length field\<close>

text \<open>
  The empty string is left out: \<^verbatim>\<open>read\<close> of no bytes follows \<^verbatim>\<open>m_current\<close> even when the length
  field was the last thing in the last node.
\<close>

lemma string_codec:
  assumes "8 dvd LENGTH('a)"
  shows "ba_codec (\<lambda>e s. fixed_bytes bo e (of_nat (length s) :: 'a::len word) @ s) (\<lambda>_. ())
           (\<lambda>s. s \<noteq> [] \<and> length s < 2 ^ LENGTH('a))
           (\<lambda>ba s. err_bind (write_fixed bo ba (of_nat (length s) :: 'a word)) (\<lambda>ba. ba_write ba s))
           (\<lambda>_ ba. err_bind (read_fixed bo ba) (\<lambda>(len :: 'a word, ba). read_bytes ba (unat len)))"
proof unfold_locales
  fix ba ba' s
  assume inv: "ba_inv ba"
    and "err_bind (write_fixed bo ba (of_nat (length s) :: 'a word)) (\<lambda>ba. ba_write ba s) = Inr ba'"
  then obtain ba1 where w1: "write_fixed bo ba (of_nat (length s) :: 'a word) = Inr ba1" and w2: "ba_write ba1 s = Inr ba'"
    by (auto simp: err_bind_eq_Inr)
  obtain c p where cp: "abs_ba ba = (c, p)" by (cases "abs_ba ba")
  have "p \<le> length c" using inv cp by (rule abs_ba_pos)
  then show "ba_inv ba' \<and>
      abs_ba ba' = buf_write (abs_ba ba) (map Some (fixed_bytes bo (m_endian ba) (of_nat (length s) :: 'a word) @ s)) \<and>
      m_endian ba' = m_endian ba"
    using write_fixed_ok [OF inv w1] write_ok [of ba1 s ba'] w2 cp by (simp add: buf_write_append)
next
  fix ba and s :: "u8 list"
  let ?l = "of_nat (length s) :: 'a word"
  assume inv: "ba_inv ba" and good: "s \<noteq> [] \<and> length s < 2 ^ LENGTH('a)"
    and hb: "has_bytes ba (fixed_bytes bo (m_endian ba) ?l @ s)"
  obtain ba1 where r: "read_fixed bo ba = Inr (?l, ba1)" and a: "advanced ba (LENGTH('a) div 8) ba1"
    using read_fixed_ok [OF assms inv has_bytes_prefix [OF hb]] by blast
  have "has_bytes ba1 s" using has_bytes_rest [OF hb] a by simp
  then obtain ba' where "read_bytes ba1 (length s) = Inr (s, ba')" and "advanced ba1 (length s) ba'"
    using read_bytes_ok [of ba1 s] good a by (auto simp: advanced_def)
  moreover have "unat ?l = length s" using good by (simp add: unsigned_of_nat take_bit_nat_eq_self)
  ultimately show "\<exists>ba'. err_bind (read_fixed bo ba) (\<lambda>(len :: 'a word, ba). read_bytes ba (unat len)) = Inr (s, ba') \<and>
      advanced ba (length (fixed_bytes bo (m_endian ba) ?l @ s)) ba'"
    using r advanced_trans [OF a] by auto
qed

definition str_good :: "nat \<Rightarrow> u8 list \<Rightarrow> bool" where
  "str_good w s \<longleftrightarrow> s \<noteq> [] \<and> length s < 2 ^ w"

interpretation strF16: ba_codec "\<lambda>e s. fixed_bytes bo e (of_nat (length s) :: u16) @ s" "\<lambda>_. ()" "str_good 16"
    "writeStringF16 bo" "\<lambda>_. readStringF16 bo" for bo
  using string_codec [where 'a = 16, of bo]
  by (simp add: writeStringF16_def [abs_def] readStringF16_def [abs_def] writeFuint16_def readFuint16_def
      str_good_def [abs_def])

interpretation strF32: ba_codec "\<lambda>e s. fixed_bytes bo e (of_nat (length s) :: u32) @ s" "\<lambda>_. ()" "str_good 32"
    "writeStringF32 bo" "\<lambda>_. readStringF32 bo" for bo
  using string_codec [where 'a = 32, of bo]
  by (simp add: writeStringF32_def [abs_def] readStringF32_def [abs_def] writeFuint32_def readFuint32_def
      str_good_def [abs_def])

interpretation strF64: ba_codec "\<lambda>e s. fixed_bytes bo e (of_nat (length s) :: u64) @ s" "\<lambda>_. ()" "str_good 64"
    "writeStringF64 bo" "\<lambda>_. readStringF64 bo" for bo
  using string_codec [where 'a = 64, of bo]
  by (simp add: writeStringF64_def [abs_def] readStringF64_def [abs_def] writeFuint64_def readFuint64_def
      str_good_def [abs_def])

interpretation strVint: ba_codec "\<lambda>e s. fixed_bytes bo e (of_nat (length s) :: u64) @ s" "\<lambda>_. ()" "str_good 64"
    "writeStringVint bo" "\<lambda>_. readStringVint bo" for bo
  using string_codec [where 'a = 64, of bo]
  by (simp add: writeStringVint_def [abs_def] readStringVint_def [abs_def] writeFuint64_def readFuint64_def
      str_good_def [abs_def])


subsection \<open>Records of mixed types\<close>

text \<open>
  A program writes values of several types one after the other and reads them back in the same
  order. An item is a value with the operation it is written with.
\<close>

datatype item_kind =
    KFint8 | KFuint8 | KFint16 | KFuint16 | KFint32 | KFuint32 | KFint64 | KFuint64
  | Kint32 | Kuint32 | Kint64 | Kuint64
  | KStringF16 | KStringF32 | KStringF64 | KStringVint

datatype item =
    Fint8 u8 | Fuint8 u8 | Fint16 u16 | Fuint16 u16 | Fint32 u32 | Fuint32 u32 | Fint64 u64 | Fuint64 u64
  | Vint32 u32 | Vuint32 u32 | Vint64 u64 | Vuint64 u64
  | StringF16 "u8 list" | StringF32 "u8 list" | StringF64 "u8 list" | StringVint "u8 list"

fun kind_of :: "item \<Rightarrow> item_kind" where
  "kind_of (Fint8 _) = KFint8" | "kind_of (Fuint8 _) = KFuint8"
| "kind_of (Fint16 _) = KFint16" | "kind_of (Fuint16 _) = KFuint16"
| "kind_of (Fint32 _) = KFint32" | "kind_of (Fuint32 _) = KFuint32"
| "kind_of (Fint64 _) = KFint64" | "kind_of (Fuint64 _) = KFuint64"
| "kind_of (Vint32 _) = Kint32" | "kind_of (Vuint32 _) = Kuint32"
| "kind_of (Vint64 _) = Kint64" | "kind_of (Vuint64 _) = Kuint64"
| "kind_of (StringF16 _) = KStringF16" | "kind_of (StringF32 _) = KStringF32"
| "kind_of (StringF64 _) = KStringF64" | "kind_of (StringVint _) = KStringVint"

fun item_good :: "item \<Rightarrow> bool" where
  "item_good (Vint64 v) = zz64_ok v"
| "item_good (StringF16 s) = str_good 16 s"
| "item_good (StringF32 s) = str_good 32 s"
| "item_good (StringF64 s) = str_good 64 s"
| "item_good (StringVint s) = str_good 64 s"
| "item_good _ = True"

fun item_bytes :: "nat \<Rightarrow> nat \<Rightarrow> item \<Rightarrow> u8 list" where
  "item_bytes bo e (Fint8 v) = [v]" | "item_bytes bo e (Fuint8 v) = [v]"
| "item_bytes bo e (Fint16 v) = fixed_bytes bo e v" | "item_bytes bo e (Fuint16 v) = fixed_bytes bo e v"
| "item_bytes bo e (Fint32 v) = fixed_bytes bo e v" | "item_bytes bo e (Fuint32 v) = fixed_bytes bo e v"
| "item_bytes bo e (Fint64 v) = fixed_bytes bo e v" | "item_bytes bo e (Fuint64 v) = fixed_bytes bo e v"
| "item_bytes bo e (Vint32 v) = varint_bytes (EncodeZigzag32 v)"
| "item_bytes bo e (Vuint32 v) = varint_bytes v"
| "item_bytes bo e (Vint64 v) = varint_bytes (ucast (EncodeZigzag64 v) :: u64)"
| "item_bytes bo e (Vuint64 v) = varint_bytes v"
| "item_bytes bo e (StringF16 s) = fixed_bytes bo e (of_nat (length s) :: u16) @ s"
| "item_bytes bo e (StringF32 s) = fixed_bytes bo e (of_nat (length s) :: u32) @ s"
| "item_bytes bo e (StringF64 s) = fixed_bytes bo e (of_nat (length s) :: u64) @ s"
| "item_bytes bo e (StringVint s) = fixed_bytes bo e (of_nat (length s) :: u64) @ s"

fun write_item :: "nat \<Rightarrow> bytearray \<Rightarrow> item \<Rightarrow> ba_error + bytearray" where
  "write_item bo ba (Fint8 v) = writeFint8 bo ba v" | "write_item bo ba (Fuint8 v) = writeFuint8 bo ba v"
| "write_item bo ba (Fint16 v) = writeFint16 bo ba v" | "write_item bo ba (Fuint16 v) = writeFuint16 bo ba v"
| "write_item bo ba (Fint32 v) = writeFint32 bo ba v" | "write_item bo ba (Fuint32 v) = writeFuint32 bo ba v"
| "write_item bo ba (Fint64 v) = writeFint64 bo ba v" | "write_item bo ba (Fuint64 v) = writeFuint64 bo ba v"
| "write_item bo ba (Vint32 v) = writeint32 ba v" | "write_item bo ba (Vuint32 v) = writeuint32 ba v"
| "write_item bo ba (Vint64 v) = writeint64 ba v" | "write_item bo ba (Vuint64 v) = writeuint64 ba v"
| "write_item bo ba (StringF16 s) = writeStringF16 bo ba s" | "write_item bo ba (StringF32 s) = writeStringF32 bo ba s"
| "write_item bo ba (StringF64 s) = writeStringF64 bo ba s" | "write_item bo ba (StringVint s) = writeStringVint bo ba s"

definition as_item :: "('v \<Rightarrow> item) \<Rightarrow> ba_error + 'v \<times> bytearray \<Rightarrow> ba_error + item \<times> bytearray" where
  "as_item f r = err_bind r (\<lambda>(v, ba). Inr (f v, ba))"

fun read_item :: "nat \<Rightarrow> item_kind \<Rightarrow> bytearray \<Rightarrow> ba_error + item \<times> bytearray" where
  "read_item bo KFint8 ba = as_item Fint8 (readFint8 bo ba)" | "read_item bo KFuint8 ba = as_item Fuint8 (readFuint8 bo ba)"
| "read_item bo KFint16 ba = as_item Fint16 (readFint16 bo ba)" | "read_item bo KFuint16 ba = as_item Fuint16 (readFuint16 bo ba)"
| "read_item bo KFint32 ba = as_item Fint32 (readFint32 bo ba)" | "read_item bo KFuint32 ba = as_item Fuint32 (readFuint32 bo ba)"
| "read_item bo KFint64 ba = as_item Fint64 (readFint64 bo ba)" | "read_item bo KFuint64 ba = as_item Fuint64 (readFuint64 bo ba)"
| "read_item bo Kint32 ba = as_item Vint32 (readint32 bo ba)" | "read_item bo Kuint32 ba = as_item Vuint32 (readuint32 bo ba)"
| "read_item bo Kint64 ba = as_item Vint64 (readint64 bo ba)" | "read_item bo Kuint64 ba = as_item Vuint64 (readuint64 bo ba)"
| "read_item bo KStringF16 ba = as_item StringF16 (readStringF16 bo ba)" | "read_item bo KStringF32 ba = as_item StringF32 (readStringF32 bo ba)"
| "read_item bo KStringF64 ba = as_item StringF64 (readStringF64 bo ba)" | "read_item bo KStringVint ba = as_item StringVint (readStringVint bo ba)"

lemmas item_wr =
  fint8.wr_ok fuint8.wr_ok fint16.wr_ok fuint16.wr_ok fint32.wr_ok fuint32.wr_ok fint64.wr_ok fuint64.wr_ok
  vint32.wr_ok vuint32.wr_ok vint64.wr_ok vuint64.wr_ok strF16.wr_ok strF32.wr_ok strF64.wr_ok strVint.wr_ok

lemmas item_rd =
  fint8.rd_ok fuint8.rd_ok fint16.rd_ok fuint16.rd_ok fint32.rd_ok fuint32.rd_ok fint64.rd_ok fuint64.rd_ok
  vint32.rd_ok vuint32.rd_ok vint64.rd_ok vuint64.rd_ok strF16.rd_ok strF32.rd_ok strF64.rd_ok strVint.rd_ok

lemma as_item_ok:
  assumes "f v = i" and "\<exists>ba'. r = Inr (v, ba') \<and> P ba'"
  shows "\<exists>ba'. as_item f r = Inr (i, ba') \<and> P ba'"
  using assms by (auto simp: as_item_def)

interpretation items: ba_codec "item_bytes bo" kind_of item_good "write_item bo" "read_item bo" for bo
proof unfold_locales
  fix ba v ba'
  assume "ba_inv ba" and "write_item bo ba v = Inr ba'"
  then show "ba_inv ba' \<and> abs_ba ba' = buf_write (abs_ba ba) (map Some (item_bytes bo (m_endian ba) v)) \<and>
      m_endian ba' = m_endian ba"
    by - (cases v; simp only: write_item.simps item_bytes.simps; (rule item_wr; assumption))
next
  fix ba v
  assume "ba_inv ba" and "item_good v" and "has_bytes ba (item_bytes bo (m_endian ba) v)"
  then show "\<exists>ba'. read_item bo (kind_of v) ba = Inr (v, ba') \<and>
      advanced ba (length (item_bytes bo (m_endian ba) v)) ba'"
    by - (cases v; simp only: read_item.simps kind_of.simps item_bytes.simps item_good.simps;
        (rule as_item_ok [OF refl], (rule item_rd; simp)))
qed

end
