(* ===== verification/ByteArray_Spec.thy ===== *)
theory ByteArray_Spec
  imports ByteArray_RoundTrip
begin

text \<open>
  What the byte buffer of \<^verbatim>\<open>code/bytearray.cc\<close> guarantees to its users: the primitives refine the
  abstract buffer with the exact conditions of failure, sequences of typed values survive the
  round trip through the buffer, and the encodings are independent of the machine.
\<close>

subsection \<open>Raw bytes and files\<close>

interpretation raw: ba_codec "\<lambda>_ s. s" length "\<lambda>s. s \<noteq> []" writeStringWithoutLength "\<lambda>n ba. read_bytes ba n"
  using write_ok read_bytes_ok by unfold_locales (simp_all add: writeStringWithoutLength_def)

lemma concat_file_chunks: "0 < b \<Longrightarrow> concat (file_chunks b xs) = xs"
proof (induction b xs rule: file_chunks.induct)
  case (1 b xs)
  then show ?case by (subst file_chunks.simps) simp
qed

lemma write_chunks_eq: "write_chunks ba cs = write_seq writeStringWithoutLength ba cs"
  by (induction cs arbitrary: ba) (auto simp: writeStringWithoutLength_def err_bind_def split: sum.split)

lemma readFromFile_ok:
  assumes "ba_inv ba" and "readFromFile (Some xs) ba = Inr (ok, ba')"
  shows "ok \<and> ba_inv ba' \<and> abs_ba ba' = buf_write (abs_ba ba) (map Some xs)"
proof -
  obtain b where "write_chunks ba (file_chunks (m_baseSize ba) xs) = Inr b" and "ok" and "ba' = b"
    using assms(2) by (auto simp: readFromFile_def err_bind_eq_Inr split: if_splits)
  then show ?thesis
    using raw.write_seq_ok [OF assms(1)] concat_file_chunks [OF ba_invD(1) [OF assms(1)], of xs]
    by (auto simp: write_chunks_eq)
qed

lemma write_item_inv: "ba_inv ba \<Longrightarrow> write_item bo ba v = Inr ba' \<Longrightarrow> ba_inv ba'"
  using items.wr_ok by blast

subsection \<open>Properties\<close>

text \<open>C1. \<^verbatim>\<open>ByteArray::write\<close> refines the write of the abstract buffer: whatever the chunk size, a
  write that returns keeps the chunk invariant, puts exactly the given bytes at the position,
  extends the size as needed and moves the position behind them; and it fails, by following a
  null node pointer, exactly when \<^verbatim>\<open>addCapacity\<close> allocated one node too few (\<open>write_fits\<close>).\<close>

theorem write_refines_buffer:
  assumes "ba_inv ba"
  shows "case ba_write ba data of
           Inr ba' \<Rightarrow> write_fits ba (length data) \<and> ba_inv ba' \<and>
             abs_ba ba' = buf_write (abs_ba ba) (map Some data) \<and>
             m_size ba' = max (m_size ba) (m_position ba + length data) \<and>
             m_baseSize ba' = m_baseSize ba \<and> m_endian ba' = m_endian ba \<and>
             m_overread ba' = m_overread ba
         | Inl e \<Rightarrow> \<not> write_fits ba (length data) \<and> e = NullDeref"
  by (rule ba_write_cases [OF assms])

theorem write_refines_buffer_witness:
  "ba_inv (new_ByteArray 4) \<and> write_fits (new_ByteArray 4) (length [1, 2, 3 :: u8]) \<and>
   (case ba_write (new_ByteArray 4) [1, 2, 3] of Inr ba' \<Rightarrow> content ba' = [Some 1, Some 2, Some 3] | Inl e \<Rightarrow> False)"
proof -
  have i: "ba_inv (new_ByteArray 4)" by (simp add: new_ByteArray_inv)
  have f: "write_fits (new_ByteArray 4) (Suc (Suc (Suc 0)))" by (simp add: write_fits_def new_ByteArray_def getCapacity_def)
  have "content (new_ByteArray 4) = []" "m_position (new_ByteArray 4) = 0"
    by (simp_all add: content_def new_ByteArray_def)
  then show ?thesis
    using write_refines_buffer [OF i, of "[1, 2, 3]"] i f
    by (auto simp: abs_ba_def buf_write_def memcpy_at_def split: sum.splits)
qed

text \<open>C5. \<^verbatim>\<open>ByteArray::read\<close> refines the read of the abstract buffer: it returns exactly the bytes
  behind the position and advances by their number, changing nothing else; it throws exactly
  when fewer bytes are left, and reading no bytes at the very end follows a null pointer. The
  bytes copied from beyond a node are exactly those of the nodes a read crosses.\<close>

theorem read_refines_buffer:
  assumes "ba_inv ba"
  shows "case ba_read ba n of
           Inr (bs, ba') \<Rightarrow>
             n \<le> getReadSize ba \<and> m_position ba < m_capacity ba \<and> ba_inv ba' \<and>
             (bs, abs_ba ba') = buf_read (abs_ba ba) n \<and>
             ba' = ba\<lparr>m_position := m_position ba', m_current := m_current ba', m_overread := m_overread ba'\<rparr> \<and>
             m_overread ba' = m_overread ba + crossing (m_baseSize ba) (m_position ba mod m_baseSize ba) n
         | Inl e \<Rightarrow>
             e = OutOfRange ''read out of range'' \<and> n > getReadSize ba \<or>
             e = NullDeref \<and> n = 0 \<and> m_position ba = m_capacity ba"
  by (rule ba_read_cases [OF assms])

theorem read_refines_buffer_witness:
  "ba_inv (new_ByteArray 4) \<and> ba_read (new_ByteArray 4) 1 = Inl (OutOfRange ''read out of range'')"
proof -
  have "ba_inv (new_ByteArray 4)" by (simp add: new_ByteArray_inv)
  moreover have "\<not> 1 \<le> getReadSize (new_ByteArray 4)" by (simp add: getReadSize_def new_ByteArray_def)
  ultimately show ?thesis
    using read_refines_buffer [of "new_ByteArray 4" 1] by (auto split: sum.splits)
qed

text \<open>C16. A program that writes a sequence of typed values, seeks back to where it started and
  reads values of the same types gets the values it wrote, in both byte orders and on both kinds
  of machine, and the position is where the writes left it, provided that the writes and the seek succeed. The values are the fixed and the variable
  integers of all widths and the four kinds of strings, with these exceptions (\<open>item_good\<close>): a variable \<^verbatim>\<open>int64_t\<close> has to fit into 32
  bits, which is exactly when its encoding can be decoded (the second part), and a string must not be empty, nor too long for its
  length field. A \<^verbatim>\<open>float\<close> or \<^verbatim>\<open>double\<close> is not among the values: the code does not read it back.\<close>

theorem typed_values_roundtrip:
  assumes "ba_inv ba" and "list_all item_good vs" and "write_seq (write_item bo) ba vs = Inr ba1"
    and "setPosition ba1 (m_position ba) = Inr ba2"
  shows "(\<exists>ba3. read_seq (read_item bo) ba2 (map kind_of vs) = Inr (vs, ba3) \<and> ba_inv ba3 \<and> abs_ba ba3 = abs_ba ba1) \<and>
         (DecodeZigzag64 (ucast (EncodeZigzag64 x)) = x \<longleftrightarrow> item_good (Vint64 x))"
  using items.write_seek_read [OF assms] by (simp add: zz64_roundtrip_iff)

theorem typed_values_roundtrip_witness:
  "\<exists>ba1 ba2 ba3.
     write_seq (write_item CXS_LITTLE_ENDIAN) (new_ByteArray 8) [Fuint16 4660, Vint32 (- 3), StringF16 [65, 66]] = Inr ba1 \<and>
     setPosition ba1 0 = Inr ba2 \<and>
     read_seq (read_item CXS_LITTLE_ENDIAN) ba2 [KFuint16, Kint32, KStringF16] =
       Inr ([Fuint16 4660, Vint32 (- 3), StringF16 [65, 66]], ba3)"
proof -
  let ?vs = "[Fuint16 4660, Vint32 (- 3), StringF16 [65, 66]]" and ?w = "write_seq (write_item CXS_LITTLE_ENDIAN)"
  have inv: "ba_inv (new_ByteArray 8)" by (simp add: new_ByteArray_inv)
  have "\<not> isl (err_bind (?w (new_ByteArray 8) ?vs) (\<lambda>ba. setPosition ba 0))" by code_simp
  then obtain ba1 ba2 where w: "?w (new_ByteArray 8) ?vs = Inr ba1" and s: "setPosition ba1 0 = Inr ba2"
    by (auto dest!: not_isl_Inr simp: err_bind_eq_Inr simp del: write_seq.simps)
  have "m_position (new_ByteArray 8) = 0" by (simp add: new_ByteArray_def)
  then show ?thesis
    using typed_values_roundtrip [OF inv _ w] w s by (auto simp: str_good_def)
qed

text \<open>\<^verbatim>\<open>ByteArray::setPosition\<close> throws beyond the capacity, follows a null pointer at the capacity,
  and otherwise moves to the position, growing the size to it, with \<^verbatim>\<open>m_current\<close> at the node that
  holds the position.\<close>

theorem setPosition_exact:
  assumes "ba_inv ba"
  shows "setPosition ba val =
           (if val > m_capacity ba then Inl (OutOfRange ''set position out of range'')
            else if val = m_capacity ba then Inl NullDeref
            else Inr (ba\<lparr>m_position := val, m_size := max (m_size ba) val,
                         m_current := Some (val div m_baseSize ba)\<rparr>))"
  by (rule setPosition_eq [OF assms])

theorem setPosition_exact_witness:
  "ba_inv (new_ByteArray 4) \<and> setPosition (new_ByteArray 4) 4 = Inl NullDeref \<and>
   setPosition (new_ByteArray 4) 5 = Inl (OutOfRange ''set position out of range'')"
proof -
  have "ba_inv (new_ByteArray 4)" by (simp add: new_ByteArray_inv)
  moreover have "m_capacity (new_ByteArray 4) = 4" by (simp add: new_ByteArray_def)
  ultimately show ?thesis using setPosition_exact [of "new_ByteArray 4"] by simp
qed

text \<open>The bytes of a fixed width integer in the buffer do not depend on the machine: the most
  significant byte comes first in a big endian buffer, the least significant one in a little
  endian buffer.\<close>

theorem fixed_bytes_portable:
  fixes w :: "'a::len word"
  assumes "8 dvd LENGTH('a)" and "bo \<in> {CXS_LITTLE_ENDIAN, CXS_BIG_ENDIAN}" and "ba_inv ba"
    and "m_endian ba = (if le then CXS_LITTLE_ENDIAN else CXS_BIG_ENDIAN)"
    and "write_fixed bo ba w = Inr ba'"
  shows "abs_ba ba' = buf_write (abs_ba ba) (map Some (if le then le_bytes w else rev (le_bytes w)))"
proof -
  have "CXS_LITTLE_ENDIAN \<noteq> CXS_BIG_ENDIAN" by (simp add: CXS_LITTLE_ENDIAN_def CXS_BIG_ENDIAN_def)
  then have "fixed_bytes bo (m_endian ba) w = (if le then le_bytes w else rev (le_bytes w))"
    using assms(1,2,4) by (auto simp: fixed_bytes_def mem_bytes_def le_bytes_byteswap)
  then show ?thesis using write_fixed_ok [OF assms(3,5)] by simp
qed

theorem fixed_bytes_portable_witness:
  "\<exists>ba'. writeFuint16 CXS_LITTLE_ENDIAN (new_ByteArray 8) 258 = Inr ba' \<and>
     content ba' = [Some 1, Some 2]"
proof -
  have i: "ba_inv (new_ByteArray 8)" by (simp add: new_ByteArray_inv)
  have "\<not> isl (write_fixed CXS_LITTLE_ENDIAN (new_ByteArray 8) (258 :: u16))" by code_simp
  then obtain ba' where w: "write_fixed CXS_LITTLE_ENDIAN (new_ByteArray 8) (258 :: u16) = Inr ba'"
    using not_isl_Inr by blast
  have "le_bytes (258 :: u16) = [2, 1]" by code_simp
  moreover have "m_endian (new_ByteArray 8) = CXS_BIG_ENDIAN" "abs_ba (new_ByteArray 8) = ([], 0)"
    by (simp_all add: new_ByteArray_def abs_ba_def content_def)
  ultimately show ?thesis
    using fixed_bytes_portable [OF _ _ i _ w, of False] w
    by (simp add: writeFuint16_def abs_ba_def buf_write_def memcpy_at_def)
qed

text \<open>The encoding loops of \<^verbatim>\<open>writeuint32\<close> and \<^verbatim>\<open>writeuint64\<close> stay within their local arrays
  \<^verbatim>\<open>tmp[5]\<close> and \<^verbatim>\<open>tmp[10]\<close> and always produce at least one byte.\<close>

theorem varint_fits_tmp:
  "varint_bytes (v :: u32) \<noteq> [] \<and> length (varint_bytes v) \<le> 5 \<and>
   varint_bytes (w :: u64) \<noteq> [] \<and> length (varint_bytes w) \<le> 10"
proof -
  have "unat v < 2 ^ 32" and "unat w < 2 ^ 64"
    using unsigned_less [of v, where 'a = nat] unsigned_less [of w, where 'a = nat] by simp_all
  then have "unat v < 128 ^ 5" and "unat w < 128 ^ 10" by simp_all
  then show ?thesis
    using length_varint_bytes [of v 5] length_varint_bytes [of w 10] varint_bytes_ne [of v] varint_bytes_ne [of w] by simp
qed

text \<open>\<^verbatim>\<open>writeint64\<close>/\<^verbatim>\<open>readint64\<close> lose information: because \<^verbatim>\<open>EncodeZigzag64\<close> returns 32 bits, decoding
  what was encoded gives the value back exactly for the integers that fit in 32 bits, while
  the 32 bit pair is lossless.\<close>

theorem zigzag_roundtrip_iff:
  "DecodeZigzag32 (EncodeZigzag32 v) = v \<and>
   (DecodeZigzag64 (ucast (EncodeZigzag64 w)) = w \<longleftrightarrow> - (2 ^ 31) \<le> sint w \<and> sint w < 2 ^ 31)"
  using zz64_roundtrip_iff [of w]
  by (simp add: DecodeZigzag32_eq EncodeZigzag32_eq zz_dec_enc zz64_ok_def)

text \<open>\<^verbatim>\<open>readFromFile\<close> writes the bytes of the file at the position, in order and nothing else,
  whatever the length of the file is relative to the chunk size.\<close>

theorem readFromFile_appends:
  assumes "ba_inv ba" and "readFromFile (Some xs) ba = Inr (ok, ba')"
  shows "ok \<and> ba_inv ba' \<and> abs_ba ba' = buf_write (abs_ba ba) (map Some xs)"
  using assms by (rule readFromFile_ok)

theorem readFromFile_appends_witness:
  "\<exists>ba'. readFromFile (Some [1, 2, 3, 4, 5]) (new_ByteArray 4) = Inr (True, ba') \<and>
     content ba' = [Some 1, Some 2, Some 3, Some 4, Some 5]"
proof -
  have i: "ba_inv (new_ByteArray 4)" by (simp add: new_ByteArray_inv)
  have "\<not> isl (readFromFile (Some [1, 2, 3, 4, 5]) (new_ByteArray 4))" by code_simp
  then obtain r where r: "readFromFile (Some [1, 2, 3, 4, 5]) (new_ByteArray 4) = Inr r"
    using not_isl_Inr by blast
  moreover obtain ok ba' where "r = (ok, ba')" by (cases r)
  moreover have "abs_ba (new_ByteArray 4) = ([], 0)"
    by (simp add: new_ByteArray_def abs_ba_def content_def)
  ultimately show ?thesis
    using readFromFile_appends [OF i, of "[1, 2, 3, 4, 5]" ok ba']
    by (simp add: abs_ba_def buf_write_def memcpy_at_def)
qed

text \<open>\<^verbatim>\<open>getWriteBuffers\<close> returns a scatter list that covers exactly the next \<open>n\<close> bytes of the
  buffer in order, every piece within its node, and changes neither content nor position.\<close>

theorem getWriteBuffers_covers:
  assumes "ba_inv ba" and "write_fits ba n" and "0 < n"
  shows "\<exists>iovs ba'. getWriteBuffers ba buffers n = Inr (n, buffers @ iovs, ba') \<and>
           ba_inv ba' \<and> abs_ba ba' = abs_ba ba \<and> iov_total iovs = n \<and>
           iov_bytes (m_nodes ba') iovs = take n (drop (m_position ba) (flat ba')) \<and>
           list_all (\<lambda>v. iov_len v \<noteq> None \<and> iov_node v < length (m_nodes ba') \<and>
             iov_off v + the (iov_len v) \<le> m_baseSize ba) iovs"
  by (rule getWriteBuffers_ok [OF assms, of buffers]) fast

theorem getWriteBuffers_covers_witness:
  "\<exists>iovs ba'. getWriteBuffers (new_ByteArray 4) [] 8 = Inr (8, iovs, ba') \<and> iov_total iovs = 8"
proof -
  have "ba_inv (new_ByteArray 4)" by (simp add: new_ByteArray_inv)
  moreover have "write_fits (new_ByteArray 4) 8" by (simp add: write_fits_def new_ByteArray_def getCapacity_def)
  ultimately show ?thesis using getWriteBuffers_covers [of "new_ByteArray 4" 8 "[]"] by auto
qed

end
