(* ===== verification/StdSet.thy ===== *)
theory StdSet
  imports Prelude
begin

text \<open>
  \<^verbatim>\<open>std::set\<close> and \<^verbatim>\<open>std::map\<close> as the code uses them: the elements in the order of the comparator,
  a position in the list standing for an iterator and the length for \<^verbatim>\<open>end()\<close>. The comparator
  is an argument. The interface \<open>comparator\<close> states what the standard requires of it, a strict
  weak order; the lemmas on insertion, search and erasure are proved from that alone, and each
  comparator of the code is an interpretation.
\<close>

definition lower_bound :: "('a \<Rightarrow> 'a \<Rightarrow> bool) \<Rightarrow> 'a \<Rightarrow> 'a list \<Rightarrow> nat" where
  "lower_bound lt x xs = length (takeWhile (\<lambda>y. lt y x) xs)"

definition set_find :: "('a \<Rightarrow> 'a \<Rightarrow> bool) \<Rightarrow> 'a \<Rightarrow> 'a list \<Rightarrow> nat option" where
  "set_find lt x xs =
     (let i = lower_bound lt x xs in if i < length xs \<and> \<not> lt x (xs ! i) then Some i else None)"

definition set_insert :: "('a \<Rightarrow> 'a \<Rightarrow> bool) \<Rightarrow> 'a \<Rightarrow> 'a list \<Rightarrow> 'a list \<times> nat" where
  "set_insert lt x xs =
     (let i = lower_bound lt x xs in
      if i < length xs \<and> \<not> lt x (xs ! i) then (xs, i) else (take i xs @ x # drop i xs, i))"

definition erase_at :: "nat \<Rightarrow> 'a list \<Rightarrow> 'a list" where
  "erase_at i xs = take i xs @ drop (Suc i) xs"

locale comparator =
  fixes lt :: "'a \<Rightarrow> 'a \<Rightarrow> bool"
  assumes irrefl: "\<not> lt x x"
    and trans: "lt x y \<Longrightarrow> lt y z \<Longrightarrow> lt x z"
    and incomparable_trans: "\<not> lt x y \<Longrightarrow> \<not> lt y z \<Longrightarrow> \<not> lt x z"
begin

lemma asym: "lt x y \<Longrightarrow> \<not> lt y x"
  using irrefl trans by blast

lemma below_lower_bound: "j < lower_bound lt x xs \<Longrightarrow> lt (xs ! j) x"
  unfolding lower_bound_def by (metis nth_mem set_takeWhileD takeWhile_nth)

lemma lower_bound_le: "lower_bound lt x xs \<le> length xs"
  by (simp add: lower_bound_def length_takeWhile_le)

lemma take_lower_bound: "y \<in> set (take (lower_bound lt x xs) xs) \<Longrightarrow> lt y x"
  unfolding lower_bound_def by (metis set_takeWhileD takeWhile_eq_take)

lemma drop_lower_bound:
  assumes "sorted_wrt lt xs" and "y \<in> set (drop (lower_bound lt x xs) xs)"
  shows "\<not> lt y x"
proof -
  let ?d = "dropWhile (\<lambda>y. lt y x) xs"
  have d: "drop (lower_bound lt x xs) xs = ?d" by (simp add: lower_bound_def dropWhile_eq_drop)
  then obtain z zs where z: "?d = z # zs" using assms(2) by (cases ?d) auto
  have "\<not> lt z x" using z by (metis dropWhile_eq_Cons_conv)
  moreover have "sorted_wrt lt (z # zs)" using assms(1) z d by (metis sorted_wrt_drop)
  ultimately show ?thesis using assms(2) d z trans by auto
qed

lemma set_find_Some:
  assumes "set_find lt x xs = Some i"
  shows "i < length xs" and "\<not> lt x (xs ! i)" and "i = lower_bound lt x xs"
  using assms by (auto simp: set_find_def Let_def split: if_splits)

lemma set_find_iff:
  assumes "sorted_wrt lt xs"
  shows "set_find lt x xs = None \<longleftrightarrow> (\<forall>y\<in>set xs. lt x y \<or> lt y x)"
proof -
  let ?i = "lower_bound lt x xs"
  have split: "set xs = set (take ?i xs) \<union> set (drop ?i xs)" by (metis append_take_drop_id set_append)
  have "(\<forall>y\<in>set (drop ?i xs). lt x y) \<longleftrightarrow> (?i < length xs \<longrightarrow> lt x (xs ! ?i))"
  proof (cases "?i < length xs")
    case True
    then have d: "drop ?i xs = xs ! ?i # drop (Suc ?i) xs" by (simp add: Cons_nth_drop_Suc)
    moreover have "sorted_wrt lt (drop ?i xs)" using assms by (simp add: sorted_wrt_drop)
    ultimately show ?thesis using True trans by auto
  qed simp
  moreover have "lt x y \<or> lt y x \<longleftrightarrow> lt x y" if "y \<in> set (drop ?i xs)" for y
    using drop_lower_bound [OF assms that] by blast
  ultimately show ?thesis
    using split take_lower_bound by (auto simp: set_find_def Let_def)
qed

lemma set_find_self:
  assumes "sorted_wrt lt xs" and "x \<in> set xs" and total: "\<And>y. \<not> lt x y \<Longrightarrow> \<not> lt y x \<Longrightarrow> y = x"
  obtains i where "set_find lt x xs = Some i" and "xs ! i = x" and "i < length xs"
proof -
  obtain i where i: "set_find lt x xs = Some i"
    using set_find_iff [OF assms(1)] assms(2) irrefl by (cases "set_find lt x xs") auto
  note s = set_find_Some [OF i]
  have "xs ! i \<in> set (drop (lower_bound lt x xs) xs)"
    using s(1,3) by (metis Cons_nth_drop_Suc list.set_intros(1))
  then show ?thesis using that i s total drop_lower_bound [OF assms(1)] by blast
qed

lemma sorted_set_insert:
  assumes "sorted_wrt lt xs"
  shows "sorted_wrt lt (fst (set_insert lt x xs))"
proof -
  let ?i = "lower_bound lt x xs"
  show ?thesis
  proof (cases "?i < length xs \<and> \<not> lt x (xs ! ?i)")
    case True
    then show ?thesis using assms by (simp add: set_insert_def)
  next
    case False
    have "lt x y" if "y \<in> set (drop ?i xs)" for y
    proof -
      have il: "?i < length xs" using that by (cases "?i < length xs") auto
      then have "drop ?i xs = xs ! ?i # drop (Suc ?i) xs" by (simp add: Cons_nth_drop_Suc)
      moreover have "sorted_wrt lt (drop ?i xs)" using assms by (simp add: sorted_wrt_drop)
      ultimately show ?thesis using that il False trans by auto
    qed
    then show ?thesis
      using False assms take_lower_bound trans
      by (auto simp: set_insert_def Let_def sorted_wrt_append sorted_wrt_take sorted_wrt_drop) blast+
  qed
qed

lemma set_set_insert:
  assumes "set_find lt x xs = None"
  shows "set (fst (set_insert lt x xs)) = insert x (set xs)"
    and "fst (set_insert lt x xs) ! snd (set_insert lt x xs) = x"
    and "length (fst (set_insert lt x xs)) = Suc (length xs)"
proof -
  let ?i = "lower_bound lt x xs"
  have "set_insert lt x xs = (take ?i xs @ x # drop ?i xs, ?i)"
    using assms by (auto simp: set_insert_def set_find_def Let_def split: if_splits)
  moreover have "set (take ?i xs) \<union> set (drop ?i xs) = set xs" by (metis append_take_drop_id set_append)
  ultimately show "set (fst (set_insert lt x xs)) = insert x (set xs)"
    and "fst (set_insert lt x xs) ! snd (set_insert lt x xs) = x"
    and "length (fst (set_insert lt x xs)) = Suc (length xs)"
    using lower_bound_le by (auto simp: nth_append)
qed

lemma sorted_distinct: "sorted_wrt lt xs \<Longrightarrow> distinct xs"
  using irrefl by (induction xs) auto

end

lemma erase_at_split:
  assumes "i < length xs"
  obtains ys zs where "xs = ys @ xs ! i # zs" and "erase_at i xs = ys @ zs"
  using that id_take_nth_drop [OF assms] by (simp add: erase_at_def)

lemma sorted_erase_at: "sorted_wrt P xs \<Longrightarrow> sorted_wrt P (erase_at i xs)"
proof (cases "i < length xs")
  case True
  assume "sorted_wrt P xs"
  moreover obtain ys zs where "xs = ys @ xs ! i # zs" and e: "erase_at i xs = ys @ zs"
    using erase_at_split [OF True] .
  ultimately have "sorted_wrt P (ys @ xs ! i # zs)" by simp
  then show ?thesis by (simp add: e sorted_wrt_append)
qed (simp add: erase_at_def)

lemma set_erase_at: "distinct xs \<Longrightarrow> i < length xs \<Longrightarrow> set (erase_at i xs) = set xs - {xs ! i}"
proof -
  assume d: "distinct xs" and "i < length xs"
  then obtain ys zs where xs: "xs = ys @ xs ! i # zs" and e: "erase_at i xs = ys @ zs"
    using erase_at_split by blast
  then have "distinct (ys @ xs ! i # zs)" and "set xs = set (ys @ xs ! i # zs)" using d by simp_all
  then show ?thesis by (auto simp: e)
qed

subsection \<open>Lexicographic order\<close>

text \<open>What \<^verbatim>\<open>memcmp\<close> and the string comparisons of the C library compute, on sequences of any ordered type.\<close>

fun lex_less :: "'a::linorder list \<Rightarrow> 'a list \<Rightarrow> bool" where
  "lex_less xs [] = False"
| "lex_less [] (y # ys) = True"
| "lex_less (x # xs) (y # ys) = (x < y \<or> x = y \<and> lex_less xs ys)"

lemma lex_less_irrefl: "\<not> lex_less xs xs"
  by (induction xs) auto

lemma lex_less_trans: "lex_less xs ys \<Longrightarrow> lex_less ys zs \<Longrightarrow> lex_less xs zs"
proof (induction xs ys arbitrary: zs rule: lex_less.induct)
  case (2 y ys)
  then show ?case by (cases zs) auto
next
  case (3 x xs y ys)
  then show ?case by (cases zs) auto
qed simp

lemma lex_less_total: "lex_less xs ys \<or> xs = ys \<or> lex_less ys xs"
proof (induction xs arbitrary: ys)
  case Nil
  then show ?case by (cases ys) auto
next
  case (Cons x xs)
  then show ?case by (cases ys) auto
qed

lemma lex_less_take:
  assumes "n = min (length xs) (length ys)"
  shows "lex_less xs ys \<longleftrightarrow> lex_less (take n xs) (take n ys) \<or> take n xs = take n ys \<and> length xs < length ys"
  using assms
proof (induction xs ys arbitrary: n rule: lex_less.induct)
  case (3 x xs y ys)
  then show ?case by (cases n) auto
qed auto

lemma lex_less_incomparable: "\<not> lex_less xs ys \<Longrightarrow> \<not> lex_less ys zs \<Longrightarrow> \<not> lex_less xs zs"
  by (metis lex_less_total lex_less_trans)

end
