(* ===== verification/Timer.thy ===== *)
theory Timer
  imports StdSet
begin

text \<open>
  \<^verbatim>\<open>code/timer.h\<close> and \<^verbatim>\<open>code/timer.cpp\<close>: the timers and their manager. \<open>tm_heap\<close> holds the
  \<^verbatim>\<open>Timer\<close> objects by address, \<open>m_timers\<close> the addresses in the ordered set. Times are 64 bit
  words and wrap. The readings of \<^verbatim>\<open>GetCurrentMS()\<close> and the addresses that \<^verbatim>\<open>new\<close> returns are
  arguments. \<^verbatim>\<open>onTimerInsertedAtFront\<close> is virtual; an operation that calls it says so in its
  result. Each operation runs under the manager's lock and is one step; \<^verbatim>\<open>listExpiredTimer\<close>
  releases the lock between its test and its work and is two.
\<close>

subsection \<open>Callbacks and timers\<close>

text \<open>
  \<open>OnTimer c cb\<close> is the function that \<^verbatim>\<open>addConditionTImer\<close> binds: it locks the weak pointer \<open>c\<close>
  and calls \<open>cb\<close> if that succeeds. \<open>fire\<close> lists the plain callbacks a call runs.
\<close>

datatype callback = Cb nat | OnTimer nat callback

fun fire :: "(nat \<Rightarrow> bool) \<Rightarrow> callback \<Rightarrow> nat list" where
  "fire alive (Cb f) = [f]"
| "fire alive (OnTimer c cb) = (if alive c then fire alive cb else [])"

record timer =
  m_recurring :: bool
  m_ms :: u64
  m_next :: u64
  m_cb :: "callback option"

record timer_manager =
  tm_heap :: "nat \<Rightarrow> timer option"
  m_timers :: "nat list"
  m_tickled :: bool
  m_previouseTime :: u64

datatype timer_error = EraseEnd | DerefEnd | Dangling

definition new_Timer :: "u64 \<Rightarrow> u64 \<Rightarrow> callback option \<Rightarrow> bool \<Rightarrow> timer" where
  "new_Timer now ms cb recurring = \<lparr>m_recurring = recurring, m_ms = ms, m_next = now + ms, m_cb = cb\<rparr>"

definition new_Timer_at :: "u64 \<Rightarrow> timer" where
  "new_Timer_at next = \<lparr>m_recurring = False, m_ms = 0, m_next = next, m_cb = None\<rparr>"

definition new_TimerManager :: "u64 \<Rightarrow> timer_manager" where
  "new_TimerManager now =
     \<lparr>tm_heap = (\<lambda>_. None), m_timers = [], m_tickled = False, m_previouseTime = now\<rparr>"

definition next_of :: "(nat \<Rightarrow> timer option) \<Rightarrow> nat \<Rightarrow> u64" where
  "next_of h p = (case h p of None \<Rightarrow> 0 | Some t \<Rightarrow> m_next t)"

definition Comparator :: "(nat \<Rightarrow> timer option) \<Rightarrow> nat option \<Rightarrow> nat option \<Rightarrow> bool" where
  "Comparator h lhs rhs =
     (case lhs of
        None \<Rightarrow> (case rhs of None \<Rightarrow> False | Some _ \<Rightarrow> True)
      | Some l \<Rightarrow>
          (case rhs of None \<Rightarrow> False
           | Some r \<Rightarrow>
               if next_of h l < next_of h r then True
               else if next_of h l > next_of h r then False
               else l < r))"

definition timer_lt :: "(nat \<Rightarrow> timer option) \<Rightarrow> nat \<Rightarrow> nat \<Rightarrow> bool" where
  "timer_lt h p q = Comparator h (Some p) (Some q)"

subsection \<open>The manager\<close>

definition hasTimer :: "timer_manager \<Rightarrow> bool" where
  "hasTimer tm \<longleftrightarrow> m_timers tm \<noteq> []"

text \<open>The protected \<^verbatim>\<open>addTimer\<close>; the result says whether \<^verbatim>\<open>onTimerInsertedAtFront\<close> was called.\<close>

definition addTimer_val :: "timer_manager \<Rightarrow> nat \<Rightarrow> timer_manager \<times> bool" where
  "addTimer_val tm p =
     (let (ts, i) = set_insert (timer_lt (tm_heap tm)) p (m_timers tm);
          at_front = (i = 0 \<and> \<not> m_tickled tm)
      in (tm\<lparr>m_timers := ts, m_tickled := if at_front then True else m_tickled tm\<rparr>, at_front))"

definition addTimer ::
  "timer_manager \<Rightarrow> nat \<Rightarrow> u64 \<Rightarrow> u64 \<Rightarrow> callback option \<Rightarrow> bool \<Rightarrow> timer_manager \<times> bool" where
  "addTimer tm p now ms cb recurring =
     addTimer_val (tm\<lparr>tm_heap := (tm_heap tm)(p \<mapsto> new_Timer now ms cb recurring)\<rparr>) p"

definition addConditionTImer ::
  "timer_manager \<Rightarrow> nat \<Rightarrow> u64 \<Rightarrow> u64 \<Rightarrow> callback \<Rightarrow> nat \<Rightarrow> bool \<Rightarrow> timer_manager \<times> bool" where
  "addConditionTImer tm p now ms cb weak_cond recurring =
     addTimer tm p now ms (Some (OnTimer weak_cond cb)) recurring"

definition timer_cancel :: "timer_manager \<Rightarrow> nat \<Rightarrow> timer_error + bool \<times> timer_manager" where
  "timer_cancel tm p =
     (case tm_heap tm p of None \<Rightarrow> Inl Dangling
      | Some t \<Rightarrow>
          if m_cb t \<noteq> None then
            let tm = tm\<lparr>tm_heap := (tm_heap tm)(p \<mapsto> t\<lparr>m_cb := None\<rparr>)\<rparr> in
            (case set_find (timer_lt (tm_heap tm)) p (m_timers tm) of
               None \<Rightarrow> Inl EraseEnd
             | Some i \<Rightarrow> Inr (True, tm\<lparr>m_timers := erase_at i (m_timers tm)\<rparr>))
          else Inr (False, tm))"

definition timer_refresh :: "timer_manager \<Rightarrow> nat \<Rightarrow> u64 \<Rightarrow> timer_error + bool \<times> timer_manager" where
  "timer_refresh tm p now =
     (case tm_heap tm p of None \<Rightarrow> Inl Dangling
      | Some t \<Rightarrow>
          if m_cb t = None then Inr (False, tm)
          else (case set_find (timer_lt (tm_heap tm)) p (m_timers tm) of
                  None \<Rightarrow> Inr (False, tm)
                | Some i \<Rightarrow>
                    let ts = erase_at i (m_timers tm);
                        h = (tm_heap tm)(p \<mapsto> t\<lparr>m_next := now + m_ms t\<rparr>)
                    in Inr (True, tm\<lparr>tm_heap := h, m_timers := fst (set_insert (timer_lt h) p ts)\<rparr>)))"

text \<open>\<^verbatim>\<open>reset\<close>: the third component says whether \<^verbatim>\<open>onTimerInsertedAtFront\<close> was called.\<close>

definition timer_reset ::
  "timer_manager \<Rightarrow> nat \<Rightarrow> u64 \<Rightarrow> bool \<Rightarrow> u64 \<Rightarrow> timer_error + bool \<times> timer_manager \<times> bool" where
  "timer_reset tm p ms from_now now =
     (case tm_heap tm p of None \<Rightarrow> Inl Dangling
      | Some t \<Rightarrow>
          if ms = m_ms t \<and> \<not> from_now then Inr (True, tm, False)
          else if m_cb t = None then Inr (False, tm, False)
          else (case set_find (timer_lt (tm_heap tm)) p (m_timers tm) of
                  None \<Rightarrow> Inr (False, tm, False)
                | Some i \<Rightarrow>
                    let ts = erase_at i (m_timers tm);
                        start = (if from_now then now else m_next t - m_ms t);
                        h = (tm_heap tm)(p \<mapsto> t\<lparr>m_ms := ms, m_next := start + ms\<rparr>);
                        (tm', front) = addTimer_val (tm\<lparr>tm_heap := h, m_timers := ts\<rparr>) p
                    in Inr (True, tm', front)))"

definition getNextTimer :: "timer_manager \<Rightarrow> u64 \<Rightarrow> u64 \<times> timer_manager" where
  "getNextTimer tm now_ms =
     (let tm = tm\<lparr>m_tickled := False\<rparr> in
      case m_timers tm of [] \<Rightarrow> (NOT 0, tm)
      | p # _ \<Rightarrow>
          let next = next_of (tm_heap tm) p in
          (if now_ms \<ge> next then 0 else next - now_ms, tm))"

definition detectClockRollover :: "timer_manager \<Rightarrow> u64 \<Rightarrow> bool \<times> timer_manager" where
  "detectClockRollover tm now_ms =
     (let rollover = (now_ms < m_previouseTime tm \<and> now_ms < m_previouseTime tm - 60 * 60 * 1000) in
      (rollover, tm\<lparr>m_previouseTime := now_ms\<rparr>))"

text \<open>The loop over \<^verbatim>\<open>expired\<close>: collect the callback, rearm a recurring timer, disarm the others.\<close>

fun expire_loop ::
  "u64 \<Rightarrow> nat list \<Rightarrow> timer_manager \<Rightarrow> callback option list \<Rightarrow> timer_error + callback option list \<times> timer_manager" where
  "expire_loop now_ms [] tm cbs = Inr (cbs, tm)"
| "expire_loop now_ms (p # ps) tm cbs =
     (case tm_heap tm p of None \<Rightarrow> Inl Dangling
      | Some t \<Rightarrow>
          let cbs = cbs @ [m_cb t] in
          if m_recurring t then
            let h = (tm_heap tm)(p \<mapsto> t\<lparr>m_next := now_ms + m_ms t\<rparr>) in
            expire_loop now_ms ps
              (tm\<lparr>tm_heap := h, m_timers := fst (set_insert (timer_lt h) p (m_timers tm))\<rparr>) cbs
          else expire_loop now_ms ps (tm\<lparr>tm_heap := (tm_heap tm)(p \<mapsto> t\<lparr>m_cb := None\<rparr>)\<rparr>) cbs)"

text \<open>
  \<^verbatim>\<open>listExpiredTimer\<close> from the second lock on; \<open>np\<close> is the address of the temporary
  \<^verbatim>\<open>now_timer\<close>, which takes part in the order through \<^verbatim>\<open>lower_bound\<close> only. On an empty set
  \<^verbatim>\<open>*m_timers.begin()\<close> follows \<^verbatim>\<open>end()\<close>.
\<close>

definition expired_end :: "timer_manager \<Rightarrow> nat \<Rightarrow> u64 \<Rightarrow> bool \<Rightarrow> nat" where
  "expired_end tm np now_ms rollover =
     (let h = (tm_heap tm)(np \<mapsto> new_Timer_at now_ms);
          it = (if rollover then length (m_timers tm) else lower_bound (timer_lt h) np (m_timers tm))
      in it + length (takeWhile (\<lambda>p. next_of (tm_heap tm) p = now_ms) (drop it (m_timers tm))))"

definition list_expired ::
  "timer_manager \<Rightarrow> nat \<Rightarrow> u64 \<Rightarrow> callback option list \<Rightarrow> timer_error + callback option list \<times> timer_manager" where
  "list_expired tm np now_ms cbs =
     (let (rollover, tm) = detectClockRollover tm now_ms in
      if \<not> rollover \<and> m_timers tm = [] then Inl DerefEnd
      else if \<not> rollover \<and> next_of (tm_heap tm) (hd (m_timers tm)) > now_ms then Inr (cbs, tm)
      else let it = expired_end tm np now_ms rollover in
        expire_loop now_ms (take it (m_timers tm)) (tm\<lparr>m_timers := drop it (m_timers tm)\<rparr>) cbs)"

definition listExpiredTimer ::
  "timer_manager \<Rightarrow> nat \<Rightarrow> u64 \<Rightarrow> callback option list \<Rightarrow> timer_error + callback option list \<times> timer_manager" where
  "listExpiredTimer tm np now_ms cbs =
     (if m_timers tm = [] then Inr (cbs, tm) else list_expired tm np now_ms cbs)"

end
