(* ===== verification/Timer_Props.thy ===== *)
theory Timer_Props
  imports Timer
begin

text \<open>
  The correctness of the timer manager of \<^verbatim>\<open>code/timer.cpp\<close>: the order of the set and the link
  between armed timers and the set are invariants of every operation; expiry returns exactly the
  due callbacks in the order of their deadlines; a cancelled timer stays cancelled.
\<close>

subsection \<open>The comparator\<close>

lemma timer_lt_iff:
  "timer_lt h p q \<longleftrightarrow> next_of h p < next_of h q \<or> next_of h p = next_of h q \<and> p < q"
  by (auto simp: timer_lt_def Comparator_def)

interpretation timers: comparator "timer_lt h" for h
  by unfold_locales (auto simp: timer_lt_iff)

lemma timer_lt_total: "\<not> timer_lt h p q \<Longrightarrow> \<not> timer_lt h q p \<Longrightarrow> q = p"
  by (auto simp: timer_lt_iff)

lemma next_of_upd [simp]: "next_of (h(p \<mapsto> t)) q = (if q = p then m_next t else next_of h q)"
  by (simp add: next_of_def)

lemma sorted_heap_upd:
  assumes "sorted_wrt (timer_lt h) ts" and "p \<notin> set ts \<or> next_of h p = m_next t"
  shows "sorted_wrt (timer_lt (h(p \<mapsto> t))) ts"
  using assms(1) by (rule sorted_wrt_mono_rel [rotated]) (use assms(2) in \<open>auto simp: timer_lt_iff\<close>)

lemma find_absent: "sorted_wrt (timer_lt h) ts \<Longrightarrow> p \<notin> set ts \<Longrightarrow> set_find (timer_lt h) p ts = None"
  using timer_lt_total by (fastforce simp: timers.set_find_iff)

lemma find_present:
  assumes "sorted_wrt (timer_lt h) ts" and "p \<in> set ts"
  obtains i where "set_find (timer_lt h) p ts = Some i" and "ts ! i = p" and "i < length ts"
  by (rule timers.set_find_self [OF assms]) (use timer_lt_total that in \<open>blast+\<close>)

lemma rearm:
  assumes "sorted_wrt (timer_lt h) ts" and "p \<notin> set ts"
  shows "sorted_wrt (timer_lt (h(p \<mapsto> t))) (fst (set_insert (timer_lt (h(p \<mapsto> t))) p ts))"
    and "set (fst (set_insert (timer_lt (h(p \<mapsto> t))) p ts)) = insert p (set ts)"
proof -
  have s: "sorted_wrt (timer_lt (h(p \<mapsto> t))) ts" using assms by (simp add: sorted_heap_upd)
  show "sorted_wrt (timer_lt (h(p \<mapsto> t))) (fst (set_insert (timer_lt (h(p \<mapsto> t))) p ts))"
    using s by (rule timers.sorted_set_insert)
  show "set (fst (set_insert (timer_lt (h(p \<mapsto> t))) p ts)) = insert p (set ts)"
    using timers.set_set_insert(1) [OF find_absent [OF s assms(2)]] .
qed

lemma unarm:
  assumes "sorted_wrt (timer_lt h) ts" and "set_find (timer_lt h) p ts = Some i"
  shows "p \<in> set ts" and "sorted_wrt (timer_lt h) (erase_at i ts)" and "set (erase_at i ts) = set ts - {p}"
proof -
  show p: "p \<in> set ts" using assms(2) find_absent [OF assms(1), of p] by (cases "p \<in> set ts") simp_all
  obtain j where j: "set_find (timer_lt h) p ts = Some j" "ts ! j = p" "j < length ts"
    using find_present [OF assms(1) p] .
  have "distinct ts" using assms(1) by (rule timers.sorted_distinct)
  then show "set (erase_at i ts) = set ts - {p}"
    using assms(2) j by (simp add: set_erase_at)
  show "sorted_wrt (timer_lt h) (erase_at i ts)" using assms(1) by (rule sorted_erase_at)
qed

subsection \<open>The invariant\<close>

text \<open>
  The set is ordered, holds allocated timers only, and holds every armed timer: a timer with a
  callback is in the set.
\<close>

definition tm_inv :: "timer_manager \<Rightarrow> bool" where
  "tm_inv tm \<longleftrightarrow>
     sorted_wrt (timer_lt (tm_heap tm)) (m_timers tm) \<and>
     (\<forall>p\<in>set (m_timers tm). tm_heap tm p \<noteq> None) \<and>
     (\<forall>p t. tm_heap tm p = Some t \<longrightarrow> m_cb t \<noteq> None \<longrightarrow> p \<in> set (m_timers tm))"

lemma tm_invD:
  assumes "tm_inv tm"
  shows "sorted_wrt (timer_lt (tm_heap tm)) (m_timers tm)"
    and "p \<in> set (m_timers tm) \<Longrightarrow> \<exists>t. tm_heap tm p = Some t"
    and "tm_heap tm p = Some t \<Longrightarrow> m_cb t \<noteq> None \<Longrightarrow> p \<in> set (m_timers tm)"
  using assms unfolding tm_inv_def by blast+

lemma new_TimerManager_inv: "tm_inv (new_TimerManager now)"
  by (simp add: tm_inv_def new_TimerManager_def)

lemma addTimer_val_eq:
  "addTimer_val tm p =
     (tm\<lparr>m_timers := fst (set_insert (timer_lt (tm_heap tm)) p (m_timers tm)),
         m_tickled := m_tickled tm \<or> snd (set_insert (timer_lt (tm_heap tm)) p (m_timers tm)) = 0\<rparr>,
      snd (set_insert (timer_lt (tm_heap tm)) p (m_timers tm)) = 0 \<and> \<not> m_tickled tm)"
  by (auto simp: addTimer_val_def Let_def split: prod.split)

lemma addTimer_inv:
  assumes "tm_inv tm" and "tm_heap tm p = None"
  shows "tm_inv (fst (addTimer tm p now ms cb rec))"
proof -
  note i = tm_invD [OF assms(1)]
  have "p \<notin> set (m_timers tm)" using i(2) assms(2) by fastforce
  note r = rearm [OF i(1) this, of "new_Timer now ms cb rec"]
  show ?thesis
    using r i(2,3) by (auto simp: tm_inv_def addTimer_def addTimer_val_eq)
qed

lemma armed_found:
  assumes "tm_inv tm" and "tm_heap tm p = Some t" and "m_cb t \<noteq> None"
  obtains i where "set_find (timer_lt (tm_heap tm)) p (m_timers tm) = Some i"
  using find_present [OF tm_invD(1) [OF assms(1)] tm_invD(3) [OF assms]] that by blast

lemma timer_lt_same_next:
  "next_of h p = m_next t \<Longrightarrow> timer_lt (h(p \<mapsto> t)) = timer_lt h"
  by (intro ext) (auto simp: timer_lt_iff)

lemma cancel_eq:
  assumes "tm_inv tm" and "tm_heap tm p = Some t"
  shows "timer_cancel tm p =
           (if m_cb t = None then Inr (False, tm)
            else Inr (True, tm\<lparr>tm_heap := (tm_heap tm)(p \<mapsto> t\<lparr>m_cb := None\<rparr>),
                               m_timers := erase_at (the (set_find (timer_lt (tm_heap tm)) p (m_timers tm))) (m_timers tm)\<rparr>))"
proof (cases "m_cb t = None")
  case True
  then show ?thesis using assms(2) by (simp add: timer_cancel_def)
next
  case False
  have "timer_lt ((tm_heap tm)(p \<mapsto> t\<lparr>m_cb := None\<rparr>)) = timer_lt (tm_heap tm)"
    using assms(2) by (intro timer_lt_same_next) (simp add: next_of_def)
  moreover obtain i where "set_find (timer_lt (tm_heap tm)) p (m_timers tm) = Some i"
    using armed_found [OF assms(1,2) False] .
  ultimately show ?thesis using False assms(2) by (simp add: timer_cancel_def)
qed

lemma cancel_inv:
  assumes inv: "tm_inv tm" and "timer_cancel tm p = Inr (b, tm')"
  shows "tm_inv tm'" and "\<exists>t. tm_heap tm' p = Some t \<and> m_cb t = None"
    and "b \<Longrightarrow> set (m_timers tm') = set (m_timers tm) - {p}"
proof -
  obtain t where t: "tm_heap tm p = Some t" using assms(2) by (auto simp: timer_cancel_def split: option.splits)
  note i = tm_invD [OF inv]
  have "tm_inv tm' \<and> (\<exists>t. tm_heap tm' p = Some t \<and> m_cb t = None) \<and>
      (b \<longrightarrow> set (m_timers tm') = set (m_timers tm) - {p})"
  proof (cases "m_cb t = None")
    case True
    then show ?thesis using cancel_eq [OF inv t] assms(2) inv t by simp
  next
    case False
    obtain j where j: "set_find (timer_lt (tm_heap tm)) p (m_timers tm) = Some j"
      using armed_found [OF inv t False] .
    note u = unarm [OF i(1) j]
    have lt: "timer_lt ((tm_heap tm)(p \<mapsto> t\<lparr>m_cb := None\<rparr>)) = timer_lt (tm_heap tm)"
      using t by (intro timer_lt_same_next) (simp add: next_of_def)
    have e: "tm' = tm\<lparr>tm_heap := (tm_heap tm)(p \<mapsto> t\<lparr>m_cb := None\<rparr>), m_timers := erase_at j (m_timers tm)\<rparr>"
      using cancel_eq [OF inv t] assms(2) False j by simp
    then show ?thesis
      using u(2,3) i(2,3) lt by (auto simp: tm_inv_def)
  qed
  then show "tm_inv tm'" and "\<exists>t. tm_heap tm' p = Some t \<and> m_cb t = None"
    and "b \<Longrightarrow> set (m_timers tm') = set (m_timers tm) - {p}" by blast+
qed

text \<open>Refresh and reset take a queued timer out, change its deadline and put it back.\<close>

lemma requeue_inv:
  assumes inv: "tm_inv tm" and t: "tm_heap tm p = Some t"
    and j: "set_find (timer_lt (tm_heap tm)) p (m_timers tm) = Some j" and cb: "m_cb t' = m_cb t"
  defines "h \<equiv> (tm_heap tm)(p \<mapsto> t')"
  shows "sorted_wrt (timer_lt h) (fst (set_insert (timer_lt h) p (erase_at j (m_timers tm))))"
    and "set (fst (set_insert (timer_lt h) p (erase_at j (m_timers tm)))) = set (m_timers tm)"
    and "tm_inv (tm\<lparr>tm_heap := h, m_timers := fst (set_insert (timer_lt h) p (erase_at j (m_timers tm))), m_tickled := k\<rparr>)"
proof -
  note i = tm_invD [OF inv]
  note u = unarm [OF i(1) j]
  have "p \<notin> set (erase_at j (m_timers tm))" using u(3) by simp
  note r = rearm [OF u(2) this, of t', folded h_def]
  show s: "sorted_wrt (timer_lt h) (fst (set_insert (timer_lt h) p (erase_at j (m_timers tm))))" by (rule r(1))
  show e: "set (fst (set_insert (timer_lt h) p (erase_at j (m_timers tm)))) = set (m_timers tm)"
    using r(2) u(1,3) by auto
  show "tm_inv (tm\<lparr>tm_heap := h, m_timers := fst (set_insert (timer_lt h) p (erase_at j (m_timers tm))), m_tickled := k\<rparr>)"
    using s e i(2,3) u(1) by (auto simp: tm_inv_def h_def)
qed

lemma refresh_inv:
  assumes "tm_inv tm" and "timer_refresh tm p now = Inr (b, tm')"
  shows "tm_inv tm'"
  using assms requeue_inv(3) [OF assms(1), of p _ _ _ "m_tickled tm"]
  by (auto simp: timer_refresh_def Let_def split: option.splits if_splits)

lemma reset_inv:
  assumes "tm_inv tm" and "timer_reset tm p ms fn now = Inr (b, tm', front)"
  shows "tm_inv tm'"
  using assms requeue_inv(3) [OF assms(1), of p]
  by (auto simp: timer_reset_def Let_def addTimer_val_eq split: option.splits if_splits)


subsection \<open>Expiry\<close>

lemma takeWhile_sorted:
  assumes "sorted_wrt lt xs" and "\<And>x y. lt x y \<Longrightarrow> Q y \<Longrightarrow> Q x"
  shows "takeWhile Q xs = filter Q xs" and "dropWhile Q xs = filter (\<lambda>x. \<not> Q x) xs"
proof -
  have "takeWhile Q xs = filter Q xs \<and> dropWhile Q xs = filter (\<lambda>x. \<not> Q x) xs"
    using assms(1)
  proof (induction xs)
    case (Cons x xs)
    then have "\<forall>y\<in>set xs. \<not> Q y" if "\<not> Q x" using that assms(2) by auto
    then show ?case using Cons by (cases "Q x") (simp_all add: filter_empty_conv filter_id_conv)
  qed simp
  then show "takeWhile Q xs = filter Q xs" and "dropWhile Q xs = filter (\<lambda>x. \<not> Q x) xs" by simp_all
qed

lemma expired_end_eq:
  assumes sorted: "sorted_wrt (timer_lt (tm_heap tm)) (m_timers tm)" and fresh: "np \<notin> set (m_timers tm)"
  shows "expired_end tm np now False = length (takeWhile (\<lambda>p. next_of (tm_heap tm) p \<le> now) (m_timers tm))"
proof -
  define h where "h = (tm_heap tm)(np \<mapsto> new_Timer_at now)"
  let ?ts = "m_timers tm"
  let ?it = "lower_bound (timer_lt h) np ?ts" and ?L = "\<lambda>p. next_of (tm_heap tm) p \<le> now"
  have s: "sorted_wrt (timer_lt h) ?ts" using sorted fresh by (simp add: sorted_heap_upd h_def)
  have np: "next_of h np = now" by (simp add: new_Timer_at_def h_def)
  have nx: "next_of h p = next_of (tm_heap tm) p" if "p \<in> set ?ts" for p
    using that fresh by (auto simp: h_def)
  have a: "?L p" if "p \<in> set (take ?it ?ts)" for p
    using timers.take_lower_bound [OF that] nx np in_set_takeD [OF that] by (auto simp: timer_lt_iff)
  have b: "?L p \<longleftrightarrow> next_of (tm_heap tm) p = now" if "p \<in> set (drop ?it ?ts)" for p
    using timers.drop_lower_bound [OF s that] nx [OF in_set_dropD [OF that]] np
    by (auto simp: timer_lt_iff)
  have "takeWhile ?L ?ts = takeWhile ?L (take ?it ?ts @ drop ?it ?ts)" by simp
  also have "\<dots> = take ?it ?ts @ takeWhile ?L (drop ?it ?ts)"
    using a by (intro takeWhile_append2) auto
  also have "takeWhile ?L (drop ?it ?ts) = takeWhile (\<lambda>p. next_of (tm_heap tm) p = now) (drop ?it ?ts)"
    using b by (intro takeWhile_cong) auto
  finally show ?thesis
    using timers.lower_bound_le [of h np ?ts] by (simp add: expired_end_def Let_def flip: h_def)
qed

definition expire_timer :: "u64 \<Rightarrow> timer \<Rightarrow> timer" where
  "expire_timer now t = (if m_recurring t then t\<lparr>m_next := now + m_ms t\<rparr> else t\<lparr>m_cb := None\<rparr>)"

definition cb_of :: "timer_manager \<Rightarrow> nat \<Rightarrow> callback option" where
  "cb_of tm p = (case tm_heap tm p of None \<Rightarrow> None | Some t \<Rightarrow> m_cb t)"

definition recurring_of :: "timer_manager \<Rightarrow> nat \<Rightarrow> bool" where
  "recurring_of tm p = (case tm_heap tm p of None \<Rightarrow> False | Some t \<Rightarrow> m_recurring t)"

lemma expire_loop_ok:
  assumes "sorted_wrt (timer_lt (tm_heap tm)) (m_timers tm)" and "distinct ps"
    and "\<forall>p\<in>set ps. p \<notin> set (m_timers tm) \<and> tm_heap tm p \<noteq> None"
  shows "\<exists>ts. expire_loop now ps tm cbs =
             Inr (cbs @ map (cb_of tm) ps,
                  tm\<lparr>tm_heap := (\<lambda>q. if q \<in> set ps then map_option (expire_timer now) (tm_heap tm q) else tm_heap tm q),
                     m_timers := ts\<rparr>) \<and>
           sorted_wrt (timer_lt (\<lambda>q. if q \<in> set ps then map_option (expire_timer now) (tm_heap tm q) else tm_heap tm q)) ts \<and>
           set ts = set (m_timers tm) \<union> {p \<in> set ps. recurring_of tm p}"
  using assms
proof (induction ps arbitrary: tm cbs)
  case Nil
  then show ?case by (intro exI [of _ "m_timers tm"]) simp
next
  case (Cons p ps)
  obtain t where t: "tm_heap tm p = Some t" using Cons.prems(3) by auto
  have pn: "p \<notin> set (m_timers tm)" "p \<notin> set ps" using Cons.prems by auto
  let ?t = "expire_timer now t"
  let ?h = "(tm_heap tm)(p \<mapsto> ?t)"
  let ?ts = "if m_recurring t then fst (set_insert (timer_lt ?h) p (m_timers tm)) else m_timers tm"
  let ?tm = "tm\<lparr>tm_heap := ?h, m_timers := ?ts\<rparr>"
  have step: "expire_loop now (p # ps) tm cbs = expire_loop now ps ?tm (cbs @ [m_cb t])"
    using t by (simp add: expire_timer_def Let_def)
  have st: "set ?ts = set (m_timers tm) \<union> (if m_recurring t then {p} else {})"
    using rearm(2) [OF Cons.prems(1) pn(1)] by simp
  have so: "sorted_wrt (timer_lt (tm_heap ?tm)) (m_timers ?tm)"
    using rearm(1) [OF Cons.prems(1) pn(1)] sorted_heap_upd [OF Cons.prems(1), of p ?t] pn(1) by simp
  have pre: "\<forall>q\<in>set ps. q \<notin> set (m_timers ?tm) \<and> tm_heap ?tm q \<noteq> None"
    using Cons.prems(3) pn st by (auto split: if_splits)
  have heap: "(\<lambda>q. if q \<in> set ps then map_option (expire_timer now) (tm_heap ?tm q) else tm_heap ?tm q) =
      (\<lambda>q. if q \<in> set (p # ps) then map_option (expire_timer now) (tm_heap tm q) else tm_heap tm q)"
    using pn(2) t by (auto simp: fun_eq_iff)
  have cbs: "map (cb_of ?tm) ps = map (cb_of tm) ps" "cb_of tm p = m_cb t"
    using pn(2) t by (auto simp: cb_of_def)
  have rec: "recurring_of ?tm q = recurring_of tm q" if "q \<in> set ps" for q
    using that pn(2) by (auto simp: recurring_of_def)
  have recp: "recurring_of tm p = m_recurring t" using t by (simp add: recurring_of_def)
  let ?H = "\<lambda>q. if q \<in> set (p # ps) then map_option (expire_timer now) (tm_heap tm q) else tm_heap tm q"
  obtain ts where r: "expire_loop now ps ?tm (cbs @ [m_cb t]) =
        Inr ((cbs @ [m_cb t]) @ map (cb_of tm) ps, ?tm\<lparr>tm_heap := ?H, m_timers := ts\<rparr>)"
    and "sorted_wrt (timer_lt ?H) ts"
    and "set ts = set ?ts \<union> {q \<in> set ps. recurring_of ?tm q}"
    using Cons.IH [OF so _ pre, of "cbs @ [m_cb t]"] Cons.prems(2) unfolding heap cbs by auto
  moreover have "{q \<in> set ps. recurring_of ?tm q} = {q \<in> set ps. recurring_of tm q}" using rec by auto
  ultimately show ?case
    using step st cbs(2) recp by (intro exI [of _ ts]) auto
qed


definition ran_back :: "u64 \<Rightarrow> u64 \<Rightarrow> bool" where
  "ran_back previous now \<longleftrightarrow>
     (if 3600000 \<le> unat previous then unat now + 3600000 < unat previous else unat now < unat previous)"

definition due :: "timer_manager \<Rightarrow> u64 \<Rightarrow> nat \<Rightarrow> bool" where
  "due tm now p \<longleftrightarrow> ran_back (m_previouseTime tm) now \<or> unat (next_of (tm_heap tm) p) \<le> unat now"

lemma detect_ran_back: "fst (detectClockRollover tm now) \<longleftrightarrow> ran_back (m_previouseTime tm) now"
proof (cases "3600000 \<le> unat (m_previouseTime tm)")
  case True
  have h: "unat (3600000 :: u64) = 3600000" by simp
  have "(3600000 :: u64) \<le> m_previouseTime tm" using True unfolding word_le_nat_alt h .
  from unat_sub [OF this] have "unat (m_previouseTime tm - 3600000) = unat (m_previouseTime tm) - 3600000" unfolding h .
  then have "now < m_previouseTime tm - 3600000 \<longleftrightarrow> unat now + 3600000 < unat (m_previouseTime tm)"
    unfolding word_less_nat_alt using True by linarith
  then show ?thesis using True by (auto simp: detectClockRollover_def ran_back_def word_less_nat_alt Let_def)
next
  case False
  let ?p = "m_previouseTime tm"
  have lt: "uint ?p < 3600000" using False unfolding uint_nat by linarith
  have "uint (?p - 3600000) = (uint ?p - 3600000) mod 2 ^ 64" using uint_word_ariths(2) [of ?p 3600000] by simp
  also have "\<dots> = (uint ?p - 3600000 + 2 ^ 64) mod 2 ^ 64" by (rule mod_add_self2 [symmetric])
  also have "\<dots> = uint ?p - 3600000 + 2 ^ 64"
    by (rule mod_pos_pos_trivial) (use lt uint_ge_0 [of ?p] in simp_all)
  finally have wrap: "uint (?p - 3600000) = uint ?p - 3600000 + 2 ^ 64" .
  have "now < ?p - 3600000" if "now < ?p"
    using that lt unfolding word_less_def wrap by simp
  then show ?thesis using False by (auto simp: detectClockRollover_def ran_back_def word_less_nat_alt Let_def)
qed

lemma due_code: "due tm now p \<longleftrightarrow> fst (detectClockRollover tm now) \<or> next_of (tm_heap tm) p \<le> now"
  by (simp add: due_def detect_ran_back word_le_nat_alt)

lemma expired_split:
  fixes now :: u64
  assumes inv: "tm_inv tm" and fresh: "tm_heap tm np = None"
  defines "it \<equiv> expired_end (tm\<lparr>m_previouseTime := now\<rparr>) np now (fst (detectClockRollover tm now))"
  shows "take it (m_timers tm) = filter (due tm now) (m_timers tm)"
    and "drop it (m_timers tm) = filter (\<lambda>p. \<not> due tm now p) (m_timers tm)"
proof -
  have np: "np \<notin> set (m_timers tm)" using tm_invD(2) [OF inv] fresh by fastforce
  note s = tm_invD(1) [OF inv]
  have "take it (m_timers tm) = filter (due tm now) (m_timers tm) \<and>
      drop it (m_timers tm) = filter (\<lambda>p. \<not> due tm now p) (m_timers tm)"
  proof (cases "fst (detectClockRollover tm now)")
    case True
    then show ?thesis by (simp add: it_def due_code expired_end_def)
  next
    case False
    let ?L = "\<lambda>p. next_of (tm_heap tm) p \<le> now"
    have m: "timer_lt (tm_heap tm) x y \<Longrightarrow> ?L y \<Longrightarrow> ?L x" for x y by (auto simp: timer_lt_iff)
    have "it = length (takeWhile ?L (m_timers tm))"
      using expired_end_eq [of "tm\<lparr>m_previouseTime := now\<rparr>" np now] s np False by (simp add: it_def)
    then have "take it (m_timers tm) = takeWhile ?L (m_timers tm)" "drop it (m_timers tm) = dropWhile ?L (m_timers tm)"
      by (simp_all add: takeWhile_eq_take [symmetric] dropWhile_eq_drop [symmetric])
    moreover have "takeWhile ?L (m_timers tm) = filter ?L (m_timers tm)"
      "dropWhile ?L (m_timers tm) = filter (\<lambda>p. \<not> ?L p) (m_timers tm)"
      by (rule takeWhile_sorted [OF s]; erule (1) m)+
    moreover have "due tm now = ?L" using False by (simp add: fun_eq_iff due_code)
    ultimately show ?thesis by simp
  qed
  then show "take it (m_timers tm) = filter (due tm now) (m_timers tm)"
    and "drop it (m_timers tm) = filter (\<lambda>p. \<not> due tm now p) (m_timers tm)" by simp_all
qed

lemma cb_of_frame [simp]: "cb_of (tm\<lparr>m_timers := ts\<rparr>) = cb_of tm" "cb_of (tm\<lparr>m_previouseTime := x\<rparr>) = cb_of tm"
  by (simp_all add: fun_eq_iff cb_of_def)

lemma recurring_of_frame [simp]:
  "recurring_of (tm\<lparr>m_timers := ts\<rparr>) = recurring_of tm" "recurring_of (tm\<lparr>m_previouseTime := x\<rparr>) = recurring_of tm"
  by (simp_all add: fun_eq_iff recurring_of_def)

lemma list_expired_ok:
  assumes inv: "tm_inv tm" and fresh: "tm_heap tm np = None"
    and ne: "fst (detectClockRollover tm now) \<or> m_timers tm \<noteq> []"
  obtains tm' where "list_expired tm np now cbs = Inr (cbs @ map (cb_of tm) (filter (due tm now) (m_timers tm)), tm')"
    and "tm_inv tm'"
    and "tm_heap tm' = (\<lambda>q. if q \<in> set (m_timers tm) \<and> due tm now q
                            then map_option (expire_timer now) (tm_heap tm q) else tm_heap tm q)"
    and "set (m_timers tm') = {p \<in> set (m_timers tm). due tm now p \<longrightarrow> recurring_of tm p}"
proof -
  note i = tm_invD [OF inv]
  define roll where "roll = fst (detectClockRollover tm now)"
  let ?tm = "tm\<lparr>m_previouseTime := now\<rparr>"
  let ?due = "filter (due tm now) (m_timers tm)" and ?rest = "filter (\<lambda>p. \<not> due tm now p) (m_timers tm)"
  have det: "detectClockRollover tm now = (roll, ?tm)" by (simp add: roll_def detectClockRollover_def Let_def)
  have sr: "sorted_wrt (timer_lt (tm_heap tm)) ?rest" using i(1) by (rule sorted_wrt_filter)
  have pre: "\<forall>p\<in>set ?due. p \<notin> set ?rest \<and> tm_heap tm p \<noteq> None" using i(2) by auto
  have di: "distinct ?due" using timers.sorted_distinct [OF i(1)] by simp
  let ?H = "\<lambda>q. if q \<in> set ?due then map_option (expire_timer now) (tm_heap tm q) else tm_heap tm q"
  have hs: "tm_heap (?tm\<lparr>m_timers := ?rest\<rparr>) = tm_heap tm" by simp
  obtain ts where loop: "expire_loop now ?due (?tm\<lparr>m_timers := ?rest\<rparr>) cbs =
      Inr (cbs @ map (cb_of tm) ?due, ?tm\<lparr>tm_heap := ?H, m_timers := ts\<rparr>)"
    and sts: "sorted_wrt (timer_lt ?H) ts" and sets: "set ts = set ?rest \<union> {p \<in> set ?due. recurring_of tm p}"
    using expire_loop_ok [of "?tm\<lparr>m_timers := ?rest\<rparr>" ?due now cbs] sr pre di
    unfolding hs by auto
  let ?tm' = "?tm\<lparr>tm_heap := ?H, m_timers := ts\<rparr>"
  have H: "?H = (\<lambda>q. if q \<in> set (m_timers tm) \<and> due tm now q then map_option (expire_timer now) (tm_heap tm q) else tm_heap tm q)"
    by auto
  have S: "set ts = {p \<in> set (m_timers tm). due tm now p \<longrightarrow> recurring_of tm p}" using sets by auto
  have inv': "tm_inv ?tm'"
    unfolding tm_inv_def
  proof (intro conjI ballI allI impI)
    show "sorted_wrt (timer_lt (tm_heap ?tm')) (m_timers ?tm')" using sts by simp
  next
    fix p assume "p \<in> set (m_timers ?tm')"
    then show "tm_heap ?tm' p \<noteq> None" using S i(2) [of p] by auto
  next
    fix p t assume t: "tm_heap ?tm' p = Some t" and cb: "m_cb t \<noteq> None"
    show "p \<in> set (m_timers ?tm')"
    proof (cases "p \<in> set ?due")
      case True
      then obtain t0 where "tm_heap tm p = Some t0" "t = expire_timer now t0" using t by auto
      then show ?thesis using cb True S by (auto simp: expire_timer_def recurring_of_def split: if_splits)
    next
      case False
      then have "p \<in> set (m_timers tm)" using t cb i(3) [of p t] by (auto split: if_splits)
      then show ?thesis using False S by simp
    qed
  qed
  consider (early) "\<not> roll" "next_of (tm_heap tm) (hd (m_timers tm)) > now"
    | (work) "\<not> (\<not> roll \<and> next_of (tm_heap tm) (hd (m_timers tm)) > now)" by blast
  then show ?thesis
  proof cases
    case early
    then obtain p ps where m: "m_timers tm = p # ps" using ne by (cases "m_timers tm") (auto simp: det)
    have none: "\<not> due tm now q" if "q \<in> set (m_timers tm)" for q
      using that early i(1) m by (auto simp: due_code det timer_lt_iff)
    then have nd: "?due = []" by (simp add: filter_empty_conv)
    show ?thesis
    proof (rule that [of ?tm])
      show "list_expired tm np now cbs = Inr (cbs @ map (cb_of tm) ?due, ?tm)"
        using early m nd by (simp add: list_expired_def det)
      show "tm_inv ?tm" using inv by (simp add: tm_inv_def)
    qed (use none in \<open>auto simp: fun_eq_iff\<close>)
  next
    case work
    have "list_expired tm np now cbs = expire_loop now ?due (?tm\<lparr>m_timers := ?rest\<rparr>) cbs"
      using work ne expired_split [OF inv fresh, of now] by (auto simp: list_expired_def det Let_def)
    then show ?thesis
      using that [of ?tm'] loop inv' H S by simp
  qed
qed

subsection \<open>All runs of the manager\<close>

text \<open>
  One step is one operation under the lock: a new timer at a fresh address, or an operation on
  an existing one, at whatever time the clock shows.
\<close>

inductive tm_step :: "timer_manager \<Rightarrow> timer_manager \<Rightarrow> bool" where
  add: "tm_heap tm p = None \<Longrightarrow> tm_step tm (fst (addTimer tm p now ms cb recurring))"
| cancel: "timer_cancel tm p = Inr (b, tm') \<Longrightarrow> tm_step tm tm'"
| refresh: "timer_refresh tm p now = Inr (b, tm') \<Longrightarrow> tm_step tm tm'"
| reset: "timer_reset tm p ms from_now now = Inr (b, tm', front) \<Longrightarrow> tm_step tm tm'"
| poll: "tm_step tm (snd (getNextTimer tm now))"
| expire: "tm_heap tm np = None \<Longrightarrow> list_expired tm np now cbs = Inr (cbs', tm') \<Longrightarrow> tm_step tm tm'"

definition tm_reachable :: "timer_manager \<Rightarrow> bool" where
  "tm_reachable tm \<longleftrightarrow> (\<exists>now. tm_step\<^sup>*\<^sup>* (new_TimerManager now) tm)"

lemma getNextTimer_same:
  "tm_heap (snd (getNextTimer tm now)) = tm_heap tm" "m_timers (snd (getNextTimer tm now)) = m_timers tm"
  by (auto simp: getNextTimer_def Let_def split: list.split)

lemma list_expired_ok':
  assumes "tm_inv tm" and "tm_heap tm np = None" and "list_expired tm np now cbs = Inr (cbs', tm')"
  shows "tm_inv tm'"
    and "tm_heap tm' = (\<lambda>q. if q \<in> set (m_timers tm) \<and> due tm now q
                            then map_option (expire_timer now) (tm_heap tm q) else tm_heap tm q)"
    and "set (m_timers tm') = {p \<in> set (m_timers tm). due tm now p \<longrightarrow> recurring_of tm p}"
proof -
  have "fst (detectClockRollover tm now) \<or> m_timers tm \<noteq> []"
    using assms(3) by (auto simp: list_expired_def detectClockRollover_def Let_def split: if_splits)
  note r = list_expired_ok [OF assms(1,2) this, of cbs]
  show "tm_inv tm'" and "tm_heap tm' = (\<lambda>q. if q \<in> set (m_timers tm) \<and> due tm now q
          then map_option (expire_timer now) (tm_heap tm q) else tm_heap tm q)"
    and "set (m_timers tm') = {p \<in> set (m_timers tm). due tm now p \<longrightarrow> recurring_of tm p}"
    using assms(3) by (auto intro: r)
qed

lemma tm_step_inv: "tm_step tm tm' \<Longrightarrow> tm_inv tm \<Longrightarrow> tm_inv tm'"
proof (induction rule: tm_step.induct)
  case (poll tm now)
  then show ?case by (simp add: tm_inv_def getNextTimer_same)
qed (auto intro: addTimer_inv cancel_inv refresh_inv reset_inv list_expired_ok')

lemma reachable_inv: "tm_reachable tm \<Longrightarrow> tm_inv tm"
proof -
  have "tm_step\<^sup>*\<^sup>* a b \<Longrightarrow> tm_inv a \<Longrightarrow> tm_inv b" for a b
    by (induction rule: rtranclp_induct) (auto intro: tm_step_inv)
  then show "tm_reachable tm \<Longrightarrow> tm_inv tm" by (auto simp: tm_reachable_def new_TimerManager_inv)
qed

text \<open>A timer without a callback that is not in the set can never come back.\<close>

definition disarmed :: "timer_manager \<Rightarrow> nat \<Rightarrow> bool" where
  "disarmed tm p \<longleftrightarrow> (\<exists>t. tm_heap tm p = Some t \<and> m_cb t = None) \<and> p \<notin> set (m_timers tm)"


lemma refresh_cases:
  assumes "tm_inv tm" and "timer_refresh tm p now = Inr (b, tm')"
  obtains "\<not> b" "tm' = tm"
  | t where "b" "tm_heap tm p = Some t" "m_cb t \<noteq> None" "set (m_timers tm') = set (m_timers tm)"
      "tm_heap tm' = (tm_heap tm)(p \<mapsto> t\<lparr>m_next := now + m_ms t\<rparr>)"
proof (cases "tm_heap tm p")
  case None
  then show ?thesis using assms(2) by (simp add: timer_refresh_def)
next
  case (Some t)
  show ?thesis
  proof (cases "m_cb t = None \<or> set_find (timer_lt (tm_heap tm)) p (m_timers tm) = None")
    case True
    then show ?thesis
      using assms(2) Some that(1) by (auto simp: timer_refresh_def split: if_splits option.splits)
  next
    case False
    then obtain j c where j: "set_find (timer_lt (tm_heap tm)) p (m_timers tm) = Some j" and c: "m_cb t = Some c"
      by auto
    let ?t = "t\<lparr>m_next := now + m_ms t\<rparr>" and ?h = "(tm_heap tm)(p \<mapsto> t\<lparr>m_next := now + m_ms t\<rparr>)"
    have "b \<and> tm' = tm\<lparr>tm_heap := ?h, m_timers := fst (set_insert (timer_lt ?h) p (erase_at j (m_timers tm)))\<rparr>"
      using assms(2) c j Some by (simp add: timer_refresh_def Let_def)
    then show ?thesis
      using False Some requeue_inv(2) [OF assms(1) Some j, of ?t] by (intro that(2) [of t]) simp_all
  qed
qed

lemma reset_cases:
  assumes "tm_inv tm" and "timer_reset tm p ms fn now = Inr (b, tm', front)"
  obtains "tm' = tm" "\<not> front"
  | t t' where "b" "tm_heap tm p = Some t" "m_cb t \<noteq> None" "set (m_timers tm') = set (m_timers tm)"
      "tm_heap tm' = (tm_heap tm)(p \<mapsto> t')" "t' = t\<lparr>m_ms := ms, m_next := (if fn then now else m_next t - m_ms t) + ms\<rparr>"
proof (cases "tm_heap tm p")
  case None
  then show ?thesis using assms(2) by (simp add: timer_reset_def)
next
  case (Some t)
  let ?f = "set_find (timer_lt (tm_heap tm)) p (m_timers tm)"
  show ?thesis
  proof (cases "ms = m_ms t \<and> \<not> fn \<or> m_cb t = None \<or> ?f = None")
    case True
    then show ?thesis using assms(2) Some that(1) by (auto simp: timer_reset_def split: if_splits)
  next
    case False
    then obtain j where j: "?f = Some j" by auto
    define t' where "t' = t\<lparr>m_ms := ms, m_next := (if fn then now else m_next t - m_ms t) + ms\<rparr>"
    let ?h = "(tm_heap tm)(p \<mapsto> t')"
    have "b" and a: "addTimer_val (tm\<lparr>tm_heap := ?h, m_timers := erase_at j (m_timers tm)\<rparr>) p = (tm', front)"
      using assms(2) False j Some by (auto simp: timer_reset_def Let_def t'_def split: if_splits prod.splits)
    moreover from a have "tm_heap tm' = ?h \<and> m_timers tm' = fst (set_insert (timer_lt ?h) p (erase_at j (m_timers tm)))"
      by (auto simp: addTimer_val_eq)
    moreover have "m_cb t' = m_cb t" by (simp add: t'_def)
    ultimately show ?thesis
      using False Some requeue_inv(2) [OF assms(1) Some j, of t'] t'_def by (intro that(2) [of t t']) simp_all
  qed
qed

lemma addTimer_frame:
  assumes "tm_inv tm" and "tm_heap tm p = None"
  shows "tm_heap (fst (addTimer tm p now ms cb rec)) = (tm_heap tm)(p \<mapsto> new_Timer now ms cb rec)"
    and "set (m_timers (fst (addTimer tm p now ms cb rec))) = insert p (set (m_timers tm))"
proof -
  have "p \<notin> set (m_timers tm)" using tm_invD(2) [OF assms(1)] assms(2) by fastforce
  then show "tm_heap (fst (addTimer tm p now ms cb rec)) = (tm_heap tm)(p \<mapsto> new_Timer now ms cb rec)"
    and "set (m_timers (fst (addTimer tm p now ms cb rec))) = insert p (set (m_timers tm))"
    using rearm(2) [OF tm_invD(1) [OF assms(1)]] by (simp_all add: addTimer_def addTimer_val_eq)
qed

lemma disarmed_step: "tm_step tm tm' \<Longrightarrow> tm_inv tm \<Longrightarrow> disarmed tm p \<Longrightarrow> disarmed tm' p"
proof (induction rule: tm_step.induct)
  case (add tm q now ms cb rec)
  then show ?case using addTimer_frame [of tm q] by (auto simp: disarmed_def)
next
  case (cancel tm q b tm')
  obtain t where t: "tm_heap tm q = Some t" using cancel(1) by (auto simp: timer_cancel_def split: option.splits)
  then show ?case
    using cancel cancel_eq [OF cancel(2) t] cancel_inv(3) [OF cancel(2,1)]
    by (auto simp: disarmed_def split: if_splits)
next
  case (refresh tm q now b tm')
  show ?case
    by (rule refresh_cases [OF refresh(2,1)]) (use refresh in \<open>auto simp: disarmed_def\<close>)
next
  case (reset tm q ms fn now b tm' front)
  show ?case
    by (rule reset_cases [OF reset(2,1)]) (use reset in \<open>auto simp: disarmed_def\<close>)
next
  case (poll tm now)
  then show ?case by (simp add: disarmed_def getNextTimer_same)
next
  case (expire tm np now cbs cbs' tm')
  then show ?case using list_expired_ok'(2,3) [OF expire(3,1,2)] by (auto simp: disarmed_def)
qed

lemma disarmed_steps: "tm_step\<^sup>*\<^sup>* tm tm' \<Longrightarrow> tm_inv tm \<Longrightarrow> disarmed tm p \<Longrightarrow> tm_inv tm' \<and> disarmed tm' p"
  by (induction rule: rtranclp_induct) (auto intro: disarmed_step tm_step_inv)


subsection \<open>The earliest deadline\<close>

lemma front_earliest:
  assumes "tm_inv tm" and "m_timers tm = p # ps" and "q \<in> set (m_timers tm)"
  shows "next_of (tm_heap tm) p \<le> next_of (tm_heap tm) q"
  using assms tm_invD(1) [OF assms(1)] by (auto simp: timer_lt_iff)

lemma insert_front_iff:
  assumes "sorted_wrt (timer_lt h) ts" and "p \<notin> set ts"
  shows "snd (set_insert (timer_lt h) p ts) = 0 \<longleftrightarrow> (\<forall>q\<in>set ts. timer_lt h p q)"
proof -
  have i: "snd (set_insert (timer_lt h) p ts) = lower_bound (timer_lt h) p ts"
    by (simp add: set_insert_def Let_def)
  show ?thesis
  proof (cases ts)
    case (Cons q qs)
    then have "timer_lt h p q \<longleftrightarrow> \<not> timer_lt h q p" using assms(2) by (auto simp: timer_lt_iff)
    then show ?thesis
      using Cons assms(1) timers.trans [of h p q] unfolding i by (auto simp: lower_bound_def)
  qed (simp add: i lower_bound_def set_insert_def)
qed

lemma insert_hd:
  assumes "p \<notin> set ts" and "hd (fst (set_insert lt p ts)) = p"
  shows "snd (set_insert lt p ts) = 0"
proof (rule ccontr)
  assume n: "snd (set_insert lt p ts) \<noteq> 0"
  then have "0 < lower_bound lt p ts" by (auto simp: set_insert_def Let_def split: if_splits)
  moreover have "lower_bound lt p ts \<le> length ts" by (simp add: lower_bound_def length_takeWhile_le)
  ultimately have "ts \<noteq> []" and "hd (fst (set_insert lt p ts)) = hd ts"
    by (auto simp: set_insert_def Let_def hd_append)
  then show False using assms hd_in_set [of ts] by simp
qed

text \<open>A manager with one timer, for the instances below.\<close>

definition demo_tm :: timer_manager where
  "demo_tm = fst (addTimer (new_TimerManager 0) 7 0 5 (Some (Cb 1)) False)"

lemma demo_tm_step: "tm_step (new_TimerManager 0) demo_tm"
  unfolding demo_tm_def by (rule tm_step.add) (simp add: new_TimerManager_def)

lemma demo_tm_facts:
  "tm_reachable demo_tm" "tm_inv demo_tm" "m_timers demo_tm = [7]"
  "tm_heap demo_tm = [7 \<mapsto> new_Timer 0 5 (Some (Cb 1)) False]" "m_previouseTime demo_tm = 0"
proof -
  show "tm_reachable demo_tm" using demo_tm_step unfolding tm_reachable_def by blast
  then show "tm_inv demo_tm" by (rule reachable_inv)
  show "m_timers demo_tm = [7]" "tm_heap demo_tm = [7 \<mapsto> new_Timer 0 5 (Some (Cb 1)) False]"
    "m_previouseTime demo_tm = 0"
    by (simp_all add: demo_tm_def addTimer_def addTimer_val_def new_TimerManager_def set_insert_def lower_bound_def)
qed

lemma demo_tm_timer:
  "cb_of demo_tm 7 = Some (Cb 1)" "\<not> recurring_of demo_tm 7" "next_of (tm_heap demo_tm) 7 = 5" "due demo_tm 6 7"
  by (simp_all add: demo_tm_facts cb_of_def recurring_of_def next_of_def new_Timer_def due_code)

subsection \<open>Properties\<close>

text \<open>C9. In every state the timer manager can reach, the set is ordered by deadline, holds every
  armed timer, and cancelling any existing timer succeeds without erasing \<^verbatim>\<open>end()\<close>: it returns
  whether the timer was armed, and takes exactly that timer out of the set.\<close>

theorem cancel_safe:
  assumes "tm_reachable tm" and "tm_heap tm p = Some t"
  shows "tm_inv tm \<and>
         (\<exists>tm'. timer_cancel tm p = Inr (m_cb t \<noteq> None, tm') \<and> tm_inv tm' \<and> cb_of tm' p = None \<and>
           (m_cb t \<noteq> None \<longrightarrow> set (m_timers tm') = set (m_timers tm) - {p}))"
proof -
  have inv: "tm_inv tm" using assms(1) by (rule reachable_inv)
  obtain tm' where c: "timer_cancel tm p = Inr (m_cb t \<noteq> None, tm')"
    using cancel_eq [OF inv assms(2)] by (cases "m_cb t = None") auto
  then show ?thesis
    using cancel_inv [OF inv c] inv by (auto simp: cb_of_def)
qed

theorem cancel_safe_witness:
  "tm_reachable demo_tm \<and> (\<exists>tm'. timer_cancel demo_tm 7 = Inr (True, tm') \<and> m_timers tm' = [])"
proof -
  have h: "tm_heap demo_tm 7 = Some (new_Timer 0 5 (Some (Cb 1)) False)" by (simp add: demo_tm_facts)
  show ?thesis
    using cancel_safe [OF demo_tm_facts(1) h] by (auto simp: demo_tm_facts new_Timer_def)
qed

text \<open>C8. Expiry is exact: \<^verbatim>\<open>listExpiredTimer\<close> appends the callbacks of the timers whose deadline has
  passed (all of them when the clock ran back by more than an hour, or ran back at all while it was
  within its first hour, where the subtraction wraps), in the order of their deadlines; recurring ones are rearmed relative to now, the others leave the set disarmed, and
  no other timer changes. The address of the temporary \<^verbatim>\<open>now_timer\<close> does not matter. No other thread changes the set of timers between the test
  whether it is empty, under the read lock, and the rest, under the write lock.\<close>

theorem listExpiredTimer_exact:
  assumes "tm_inv tm" and "tm_heap tm np = None" and "m_timers tm \<noteq> []"
  shows "\<exists>tm'. listExpiredTimer tm np now cbs =
             Inr (cbs @ map (cb_of tm) (filter (due tm now) (m_timers tm)), tm') \<and> tm_inv tm' \<and>
           tm_heap tm' = (\<lambda>q. if q \<in> set (m_timers tm) \<and> due tm now q
                               then map_option (expire_timer now) (tm_heap tm q) else tm_heap tm q) \<and>
           set (m_timers tm') = {p \<in> set (m_timers tm). due tm now p \<longrightarrow> recurring_of tm p}"
proof -
  have ne: "fst (detectClockRollover tm now) \<or> m_timers tm \<noteq> []" using assms(3) by simp
  show ?thesis
    by (rule list_expired_ok [OF assms(1,2) ne, of cbs]) (use assms(3) in \<open>simp add: listExpiredTimer_def\<close>)
qed

theorem listExpiredTimer_exact_witness:
  "\<exists>tm'. listExpiredTimer demo_tm 9 6 [] = Inr ([Some (Cb 1)], tm') \<and> m_timers tm' = []"
proof -
  have "tm_heap demo_tm 9 = None" "m_timers demo_tm \<noteq> []" by (simp_all add: demo_tm_facts)
  then obtain tm' where "listExpiredTimer demo_tm 9 6 [] =
      Inr ([] @ map (cb_of demo_tm) (filter (due demo_tm 6) (m_timers demo_tm)), tm')"
    and "set (m_timers tm') = {p \<in> set (m_timers demo_tm). due demo_tm 6 p \<longrightarrow> recurring_of demo_tm p}"
    using listExpiredTimer_exact [OF demo_tm_facts(2), of 9 6 "[]"] by blast
  moreover from this(2) have "set (m_timers tm') = {}" using demo_tm_timer by (auto simp: demo_tm_facts(3))
  ultimately show ?thesis using demo_tm_timer by (simp add: demo_tm_facts(3))
qed

text \<open>C34. A timer that was cancelled or has fired for the last time never comes back: whatever
  operations follow, it stays out of the set, so its callback is never returned again.\<close>

theorem disarmed_forever:
  assumes "tm_inv tm" and "disarmed tm p" and "tm_step\<^sup>*\<^sup>* tm tm'"
  shows "disarmed tm' p \<and> p \<notin> set (filter (due tm' now) (m_timers tm'))"
  using disarmed_steps [OF assms(3,1,2)] by (auto simp: disarmed_def)

theorem disarmed_forever_witness:
  "\<exists>tm. tm_inv tm \<and> disarmed tm 7 \<and> 7 \<notin> set (filter (due tm 9) (m_timers tm))"
proof -
  let ?tm = "(new_TimerManager 0)\<lparr>tm_heap := [7 \<mapsto> new_Timer 0 5 None False]\<rparr>"
  have "tm_inv ?tm" and "disarmed ?tm 7"
    by (simp_all add: tm_inv_def disarmed_def new_TimerManager_def new_Timer_def)
  then show ?thesis using disarmed_forever [of ?tm 7 ?tm 9] by blast
qed

text \<open>\<^verbatim>\<open>getNextTimer\<close> returns the time until the earliest deadline: all ones when there is no
  timer, 0 exactly when some timer is due, and otherwise a delay after which a timer is due and
  before which none is.\<close>

theorem getNextTimer_delay:
  assumes "tm_inv tm"
  shows "if m_timers tm = [] then fst (getNextTimer tm now) = NOT 0
         else (fst (getNextTimer tm now) = 0 \<longleftrightarrow> (\<exists>p\<in>set (m_timers tm). next_of (tm_heap tm) p \<le> now)) \<and>
              (fst (getNextTimer tm now) \<noteq> 0 \<longrightarrow>
                 (\<forall>p\<in>set (m_timers tm). now + fst (getNextTimer tm now) \<le> next_of (tm_heap tm) p) \<and>
                 (\<exists>p\<in>set (m_timers tm). next_of (tm_heap tm) p = now + fst (getNextTimer tm now)))"
proof (cases "m_timers tm")
  case Nil
  then show ?thesis by (simp add: getNextTimer_def)
next
  case (Cons p ps)
  have f: "next_of (tm_heap tm) p \<le> next_of (tm_heap tm) q" if "q \<in> set (m_timers tm)" for q
    using front_earliest [OF assms Cons that] .
  have g: "fst (getNextTimer tm now) = (if next_of (tm_heap tm) p \<le> now then 0 else next_of (tm_heap tm) p - now)"
    using Cons by (simp add: getNextTimer_def)
  show ?thesis
    using f Cons unfolding g by (auto intro: order_trans)
qed

theorem getNextTimer_delay_witness:
  "tm_inv demo_tm \<and> fst (getNextTimer demo_tm 2) \<noteq> 0 \<and> 2 + fst (getNextTimer demo_tm 2) = 5"
  using getNextTimer_delay [OF demo_tm_facts(2), of 2] demo_tm_facts(2) demo_tm_timer(3)
  by (simp add: demo_tm_facts(3))

text \<open>The wakeup of the waiting thread: adding a timer calls \<^verbatim>\<open>onTimerInsertedAtFront\<close> exactly when
  the new timer is ahead of all others and no wakeup is pending, and then records the wakeup as
  pending until the next \<^verbatim>\<open>getNextTimer\<close>. So after the call either the new deadline is not the
  earliest or a wakeup is pending.\<close>

theorem addTimer_wakeup:
  assumes "tm_inv tm" and "tm_heap tm p = None"
    and "addTimer tm p now ms cb recurring = (tm', woken)"
  shows "(woken \<longleftrightarrow> \<not> m_tickled tm \<and> (\<forall>q\<in>set (m_timers tm). timer_lt (tm_heap tm') p q)) \<and>
         (m_tickled tm' \<or> hd (m_timers tm') \<noteq> p) \<and> \<not> m_tickled (snd (getNextTimer tm' now'))"
proof -
  have pn: "p \<notin> set (m_timers tm)" using tm_invD(2) [OF assms(1)] assms(2) by fastforce
  let ?h = "(tm_heap tm)(p \<mapsto> new_Timer now ms cb recurring)"
  have s: "sorted_wrt (timer_lt ?h) (m_timers tm)"
    using tm_invD(1) [OF assms(1)] pn by (simp add: sorted_heap_upd)
  have f: "snd (set_insert (timer_lt ?h) p (m_timers tm)) = 0 \<longleftrightarrow> (\<forall>q\<in>set (m_timers tm). timer_lt ?h p q)"
    using s pn by (rule insert_front_iff)
  have hd: "hd (fst (set_insert (timer_lt ?h) p (m_timers tm))) = p \<Longrightarrow> snd (set_insert (timer_lt ?h) p (m_timers tm)) = 0"
    using pn by (intro insert_hd)
  have "tm' = fst (addTimer tm p now ms cb recurring)" "woken = snd (addTimer tm p now ms cb recurring)"
    using assms(3) by simp_all
  then show ?thesis
    using f hd by (auto simp: addTimer_def addTimer_val_eq getNextTimer_def Let_def split: list.splits)
qed

theorem addTimer_wakeup_witness:
  "tm_inv (new_TimerManager 0) \<and> snd (addTimer (new_TimerManager 0) 7 0 5 (Some (Cb 1)) False)"
proof -
  obtain tm' w where a: "addTimer (new_TimerManager 0) 7 0 5 (Some (Cb 1)) False = (tm', w)" by fastforce
  have "tm_heap (new_TimerManager 0) 7 = None" "\<not> m_tickled (new_TimerManager 0)" "m_timers (new_TimerManager 0) = []"
    by (simp_all add: new_TimerManager_def)
  then show ?thesis
    using addTimer_wakeup [OF new_TimerManager_inv _ a] a by (simp add: new_TimerManager_inv)
qed

end
