(* ===== verification/FdManager.thy ===== *)
theory FdManager
  imports Prelude
begin

text \<open>
  \<^verbatim>\<open>code/fd_manager.h\<close> and \<^verbatim>\<open>code/fd_manager.cc\<close>: what the hooks know of each file descriptor. The
  answer of \<^verbatim>\<open>fstat\<close> (\<open>None\<close> for an error, else whether the file is a socket) and the descriptor's
  status flags are arguments; the flags the constructor leaves are in the result. A negative
  descriptor passes the size tests and indexes the vector out of bounds.
\<close>

definition O_NONBLOCK :: u32 where "O_NONBLOCK = 2048"
definition SO_RCVTIMEO :: int where "SO_RCVTIMEO = 20"
definition SO_SNDTIMEO :: int where "SO_SNDTIMEO = 21"

record fd_ctx =
  m_isInit :: bool
  m_isSocket :: bool
  m_sysNonbool :: bool
  m_isClose :: bool
  m_userNonblock :: bool
  m_recvTimeout :: u64
  m_sendTimeout :: u64
  m_fd :: int

record fd_manager =
  m_datas :: "fd_ctx option list"

datatype fd_error = FdOutOfBounds

definition FdCtx_init :: "fd_ctx \<Rightarrow> bool option \<Rightarrow> u32 \<Rightarrow> bool \<times> fd_ctx \<times> u32" where
  "FdCtx_init c stat flags =
     (if m_isInit c then (True, c, flags)
      else let c = c\<lparr>m_recvTimeout := - 1, m_sendTimeout := - 1\<rparr>;
               c = (case stat of None \<Rightarrow> c\<lparr>m_isInit := False, m_isSocket := False\<rparr>
                    | Some sock \<Rightarrow> c\<lparr>m_isInit := True, m_isSocket := sock\<rparr>);
               flags = (if m_isSocket c \<and> flags AND O_NONBLOCK = 0 then flags OR O_NONBLOCK else flags);
               c = c\<lparr>m_sysNonbool := m_isSocket c, m_userNonblock := False, m_isClose := False\<rparr>
           in (m_isInit c, c, flags))"

definition new_FdCtx :: "int \<Rightarrow> bool option \<Rightarrow> u32 \<Rightarrow> fd_ctx \<times> u32" where
  "new_FdCtx fd stat flags =
     snd (FdCtx_init \<lparr>m_isInit = False, m_isSocket = False, m_sysNonbool = False, m_isClose = False,
                      m_userNonblock = False, m_recvTimeout = - 1, m_sendTimeout = - 1, m_fd = fd\<rparr> stat flags)"

definition setTimeout :: "fd_ctx \<Rightarrow> int \<Rightarrow> u64 \<Rightarrow> fd_ctx" where
  "setTimeout c type v = (if type = SO_RCVTIMEO then c\<lparr>m_recvTimeout := v\<rparr> else c\<lparr>m_sendTimeout := v\<rparr>)"

definition getTimeout :: "fd_ctx \<Rightarrow> int \<Rightarrow> u64" where
  "getTimeout c type = (if type = SO_RCVTIMEO then m_recvTimeout c else m_sendTimeout c)"

definition setUserNonblock :: "fd_ctx \<Rightarrow> bool \<Rightarrow> fd_ctx" where
  "setUserNonblock c v = c\<lparr>m_userNonblock := v\<rparr>"

definition new_FdManager :: fd_manager where
  "new_FdManager = \<lparr>m_datas = replicate 64 None\<rparr>"

definition vec_resize :: "nat \<Rightarrow> 'a option list \<Rightarrow> 'a option list" where
  "vec_resize n xs = take n xs @ replicate (n - length xs) None"

text \<open>
  \<^verbatim>\<open>get\<close> looks under the read lock (\<open>fd_find\<close>, with \<open>None\<close> for going on) and creates under the write lock (\<open>fd_create\<close>), where it
  tests the size again but not the entry.
\<close>

definition fd_find :: "fd_manager \<Rightarrow> int \<Rightarrow> bool \<Rightarrow> fd_error + fd_ctx option option" where
  "fd_find m fd auto_create =
     (if int (length (m_datas m)) \<le> fd then
        if \<not> auto_create then Inr (Some None) else Inr None
      else if fd < 0 then Inl FdOutOfBounds
      else if m_datas m ! nat fd \<noteq> None \<or> \<not> auto_create then Inr (Some (m_datas m ! nat fd))
      else Inr None)"

definition fd_create :: "fd_manager \<Rightarrow> int \<Rightarrow> bool option \<Rightarrow> u32 \<Rightarrow> fd_error + fd_ctx option \<times> fd_manager" where
  "fd_create m fd stat flags =
     (let c = fst (new_FdCtx fd stat flags);
          ds = (if int (length (m_datas m)) \<le> fd then vec_resize (nat fd * 3 div 2) (m_datas m) else m_datas m)
      in if fd < 0 \<or> int (length ds) \<le> fd then Inl FdOutOfBounds
         else Inr (Some c, m\<lparr>m_datas := ds[nat fd := Some c]\<rparr>))"

definition fd_get ::
  "fd_manager \<Rightarrow> int \<Rightarrow> bool \<Rightarrow> bool option \<Rightarrow> u32 \<Rightarrow> fd_error + fd_ctx option \<times> fd_manager" where
  "fd_get m fd auto_create stat flags =
     err_bind (fd_find m fd auto_create) (\<lambda>r.
       case r of Some c \<Rightarrow> Inr (c, m) | None \<Rightarrow> fd_create m fd stat flags)"

definition fd_del :: "fd_manager \<Rightarrow> int \<Rightarrow> fd_error + fd_manager" where
  "fd_del m fd =
     (if int (length (m_datas m)) \<le> fd then Inr m
      else if fd < 0 then Inl FdOutOfBounds
      else Inr (m\<lparr>m_datas := (m_datas m)[nat fd := None]\<rparr>))"

subsection \<open>The manager as a map\<close>

definition fd_lookup :: "fd_manager \<Rightarrow> nat \<Rightarrow> fd_ctx option" where
  "fd_lookup m i = (if i < length (m_datas m) then m_datas m ! i else None)"

definition fdm_inv :: "fd_manager \<Rightarrow> bool" where
  "fdm_inv m \<longleftrightarrow> 2 \<le> length (m_datas m) \<and>
     (\<forall>i c. fd_lookup m i = Some c \<longrightarrow> m_fd c = int i \<and> \<not> m_isClose c \<and> (m_isSocket c \<longrightarrow> m_isInit c))"

lemma bit_2048: "bit (2048 :: int) k \<longleftrightarrow> k = 11"
  using bit_exp_iff [of 11 k, where 'a = int] by auto

lemma or_nonblock_absorb: "flags AND O_NONBLOCK \<noteq> 0 \<Longrightarrow> flags OR O_NONBLOCK = flags"
proof -
  assume nz: "flags AND O_NONBLOCK \<noteq> 0"
  have "bit flags 11"
  proof (rule ccontr)
    assume "\<not> bit flags 11"
    then have "flags AND O_NONBLOCK = 0"
      by (intro bit_word_eqI) (auto simp: bit_simps O_NONBLOCK_def bit_2048)
    then show False using nz by simp
  qed
  then show ?thesis by (intro bit_word_eqI) (auto simp: bit_simps O_NONBLOCK_def bit_2048)
qed

lemma new_FdCtx_eq:
  "new_FdCtx fd stat flags =
     (\<lparr>m_isInit = stat \<noteq> None, m_isSocket = stat = Some True, m_sysNonbool = stat = Some True, m_isClose = False,
       m_userNonblock = False, m_recvTimeout = - 1, m_sendTimeout = - 1, m_fd = fd\<rparr>,
      if stat = Some True then flags OR O_NONBLOCK else flags)"
  using or_nonblock_absorb [of flags]
  by (cases stat) (auto simp: new_FdCtx_def FdCtx_init_def Let_def)

text \<open>The manager as the client sees it: a map from descriptors, with creation on demand.\<close>

lemma fd_create_ok:
  assumes "fdm_inv m"
  obtains m' where "fd_create m (int i) stat flags = Inr (Some (fst (new_FdCtx (int i) stat flags)), m')"
    and "fd_lookup m' = (fd_lookup m)(i \<mapsto> fst (new_FdCtx (int i) stat flags))" and "fdm_inv m'"
proof -
  let ?c = "fst (new_FdCtx (int i) stat flags)"
  let ?ds = "if length (m_datas m) \<le> i then vec_resize (i * 3 div 2) (m_datas m) else m_datas m"
  let ?m = "m\<lparr>m_datas := ?ds[i := Some ?c]\<rparr>"
  have len: "i < length ?ds" "length (m_datas m) \<le> length ?ds"
    using assms by (auto simp: vec_resize_def fdm_inv_def)
  have look: "fd_lookup ?m = (fd_lookup m)(i \<mapsto> ?c)"
    using len by (auto simp: fd_lookup_def fun_eq_iff nth_list_update vec_resize_def nth_append)
  have "fdm_inv ?m" using assms len unfolding fdm_inv_def look by (auto simp: new_FdCtx_eq)
  moreover have "fd_create m (int i) stat flags = Inr (Some ?c, ?m)" using len by (auto simp: fd_create_def Let_def split: if_splits)
  ultimately show thesis using look that by blast
qed

lemma fd_find_eq:
  "fd_find m (int i) b = Inr (case fd_lookup m i of Some c \<Rightarrow> Some (Some c) | None \<Rightarrow> if b then None else Some None)"
  by (auto simp: fd_find_def fd_lookup_def split: option.split)

lemma fd_get_ok:
  assumes "fdm_inv m"
  shows "case fd_lookup m i of
           Some c \<Rightarrow> fd_get m (int i) b stat flags = Inr (Some c, m)
         | None \<Rightarrow>
             if \<not> b then fd_get m (int i) b stat flags = Inr (None, m)
             else \<exists>m'. fd_get m (int i) b stat flags = Inr (Some (fst (new_FdCtx (int i) stat flags)), m') \<and>
                    fd_lookup m' = (fd_lookup m)(i \<mapsto> fst (new_FdCtx (int i) stat flags)) \<and> fdm_inv m'"
proof -
  obtain m' where "fd_create m (int i) stat flags = Inr (Some (fst (new_FdCtx (int i) stat flags)), m')"
    "fd_lookup m' = (fd_lookup m)(i \<mapsto> fst (new_FdCtx (int i) stat flags))" "fdm_inv m'"
    using fd_create_ok [OF assms] .
  then show ?thesis by (auto simp: fd_get_def fd_find_eq split: option.split)
qed

lemma fd_del_ok:
  assumes "fdm_inv m"
  shows "\<exists>m'. fd_del m (int i) = Inr m' \<and> fd_lookup m' = (fd_lookup m)(i := None) \<and> fdm_inv m'"
proof (cases "i < length (m_datas m)")
  case True
  let ?m = "m\<lparr>m_datas := (m_datas m)[i := None]\<rparr>"
  have look: "fd_lookup ?m = (fd_lookup m)(i := None)"
    using True by (auto simp: fd_lookup_def fun_eq_iff nth_list_update)
  have "fdm_inv ?m" using assms unfolding fdm_inv_def look by auto
  then show ?thesis using True look by (simp add: fd_del_def)
next
  case False
  then show ?thesis using assms by (auto simp: fd_del_def fd_lookup_def fun_eq_iff)
qed

lemma new_FdManager_inv: "fdm_inv new_FdManager"
  by (simp add: fdm_inv_def new_FdManager_def fd_lookup_def)


subsection \<open>The interface of the table\<close>

text \<open>
  What the hooks rely on: a table from descriptors to contexts in which a lookup returns what is
  there, creation on demand adds exactly one entry, and deletion removes exactly one.
\<close>

locale fd_table =
  fixes inv :: "'t \<Rightarrow> bool" and look :: "'t \<Rightarrow> nat \<Rightarrow> 'c option" and mk :: "nat \<Rightarrow> 's \<Rightarrow> 'c"
    and get :: "'t \<Rightarrow> nat \<Rightarrow> bool \<Rightarrow> 's \<Rightarrow> 'e + 'c option \<times> 't" and del :: "'t \<Rightarrow> nat \<Rightarrow> 'e + 't"
  assumes get_present: "inv t \<Longrightarrow> look t i = Some c \<Longrightarrow> get t i b s = Inr (Some c, t)"
    and get_absent: "inv t \<Longrightarrow> look t i = None \<Longrightarrow> get t i False s = Inr (None, t)"
    and get_create: "inv t \<Longrightarrow> look t i = None \<Longrightarrow>
      \<exists>t'. get t i True s = Inr (Some (mk i s), t') \<and> look t' = (look t)(i \<mapsto> mk i s) \<and> inv t'"
    and del_removes: "inv t \<Longrightarrow> \<exists>t'. del t i = Inr t' \<and> look t' = (look t)(i := None) \<and> inv t'"
begin

lemma get_cases:
  assumes "inv t" and "get t i b s = Inr (r, t')"
  shows "inv t' \<and> look t' i = r \<and> (\<forall>j. j \<noteq> i \<longrightarrow> look t' j = look t j) \<and> (b \<longrightarrow> r \<noteq> None)"
proof (cases "look t i")
  case None
  then show ?thesis
    using get_absent [OF assms(1) None, of s] get_create [OF assms(1) None, of s] assms by (cases b) auto
next
  case (Some c)
  then have "r = Some c" and "t' = t" using get_present [OF assms(1) Some, of b s] assms(2) by simp_all
  then show ?thesis using Some assms(1) by simp
qed

lemma get_again:
  assumes "inv t" and "get t i True s = Inr (r, t')"
  shows "get t' i b s' = Inr (r, t')"
proof -
  obtain c where "inv t'" and "look t' i = Some c" and "r = Some c"
    using get_cases [OF assms] by auto
  then show ?thesis using get_present by blast
qed

lemma get_after_del:
  "inv t \<Longrightarrow> del t i = Inr t' \<Longrightarrow> get t' i False s = Inr (None, t')"
  using del_removes [of t i] get_absent by auto

end

interpretation fdm: fd_table fdm_inv fd_lookup "\<lambda>i (stat, flags). fst (new_FdCtx (int i) stat flags)"
  "\<lambda>m i b (stat, flags). fd_get m (int i) b stat flags" "\<lambda>m i. fd_del m (int i)"
proof unfold_locales
  fix t i c b and s :: "bool option \<times> u32"
  assume "fdm_inv t" and "fd_lookup t i = Some c"
  then show "(case s of (stat, flags) \<Rightarrow> fd_get t (int i) b stat flags) = Inr (Some c, t)"
    using fd_get_ok [of t, where i = i and b = b and stat = "fst s" and flags = "snd s"] by (cases s) simp
next
  fix t i and s :: "bool option \<times> u32"
  assume "fdm_inv t" and "fd_lookup t i = None"
  then show "(case s of (stat, flags) \<Rightarrow> fd_get t (int i) False stat flags) = Inr (None, t)"
    using fd_get_ok [of t, where i = i and b = False and stat = "fst s" and flags = "snd s"] by (cases s) simp
next
  fix t i and s :: "bool option \<times> u32"
  assume "fdm_inv t" and "fd_lookup t i = None"
  then show "\<exists>t'. (case s of (stat, flags) \<Rightarrow> fd_get t (int i) True stat flags) =
        Inr (Some (case s of (stat, flags) \<Rightarrow> fst (new_FdCtx (int i) stat flags)), t') \<and>
      fd_lookup t' = (fd_lookup t)(i \<mapsto> case s of (stat, flags) \<Rightarrow> fst (new_FdCtx (int i) stat flags)) \<and> fdm_inv t'"
    using fd_get_ok [of t, where i = i and b = True and stat = "fst s" and flags = "snd s"] by (cases s) simp
next
  fix t i
  assume "fdm_inv t"
  then show "\<exists>t'. fd_del t (int i) = Inr t' \<and> fd_lookup t' = (fd_lookup t)(i := None) \<and> fdm_inv t'"
    by (rule fd_del_ok)
qed

subsection \<open>Properties\<close>

text \<open>C35. Without other threads the table of descriptors behaves as a map: getting with creation always succeeds and returns the
  context that is there or else a new one, a new socket in non-blocking mode with no timeouts; the context is found again
  unchanged until it is deleted, deletion makes it disappear, other descriptors are not touched, and growing the vector
  never drops or misplaces an entry. But two threads may both find no context, and then the second to create one replaces
  the context of the first.\<close>

theorem fd_table_map:
  assumes "fdm_inv m"
  shows "(\<exists>r m1 m2. fd_get m (int i) True stat flags = Inr (Some r, m1) \<and>
      (case fd_lookup m i of Some c \<Rightarrow> r = c \<and> m1 = m
       | None \<Rightarrow>
           r = \<lparr>m_isInit = stat \<noteq> None, m_isSocket = stat = Some True, m_sysNonbool = stat = Some True,
                m_isClose = False, m_userNonblock = False, m_recvTimeout = - 1, m_sendTimeout = - 1, m_fd = int i\<rparr> \<and>
           (stat = Some True \<longrightarrow> snd (new_FdCtx (int i) stat flags) = flags OR O_NONBLOCK)) \<and>
      fd_get m1 (int i) b stat' flags' = Inr (Some r, m1) \<and> (\<forall>j. j \<noteq> i \<longrightarrow> fd_lookup m1 j = fd_lookup m j) \<and> fdm_inv m1 \<and>
      fd_del m1 (int i) = Inr m2 \<and> fd_get m2 (int i) False stat' flags' = Inr (None, m2) \<and>
      (\<forall>j. j \<noteq> i \<longrightarrow> fd_lookup m2 j = fd_lookup m j) \<and> fdm_inv m2) \<and>
    (fd_lookup m i = None \<longrightarrow> fd_find m (int i) True = Inr None \<and>
      (\<exists>c1 c2 m1 m2. fd_create m (int i) stat flags = Inr (Some c1, m1) \<and> fd_lookup m1 i = Some c1 \<and>
         fd_create m1 (int i) stat' flags' = Inr (Some c2, m2) \<and> fd_lookup m2 i = Some c2 \<and> c2 = fst (new_FdCtx (int i) stat' flags')))"
proof (intro conjI impI)
  obtain r m1 where get: "fd_get m (int i) True stat flags = Inr (Some r, m1)"
    and r: "case fd_lookup m i of Some c \<Rightarrow> r = c \<and> m1 = m | None \<Rightarrow> r = fst (new_FdCtx (int i) stat flags)"
    using fd_get_ok [OF assms, where i = i and b = True and stat = stat and flags = flags] by (auto split: option.splits)
  have g: "fdm_inv m1 \<and> fd_lookup m1 i = Some r \<and> (\<forall>j. j \<noteq> i \<longrightarrow> fd_lookup m1 j = fd_lookup m j)"
    using fdm.get_cases [of m i True "(stat, flags)" "Some r" m1] assms get by simp
  obtain m2 where d: "fd_del m1 (int i) = Inr m2" "fd_lookup m2 = (fd_lookup m1)(i := None)" "fdm_inv m2"
    using fd_del_ok [of m1 i] g by auto
  show "\<exists>r m1 m2. fd_get m (int i) True stat flags = Inr (Some r, m1) \<and>
      (case fd_lookup m i of Some c \<Rightarrow> r = c \<and> m1 = m
       | None \<Rightarrow>
           r = \<lparr>m_isInit = stat \<noteq> None, m_isSocket = stat = Some True, m_sysNonbool = stat = Some True,
                m_isClose = False, m_userNonblock = False, m_recvTimeout = - 1, m_sendTimeout = - 1, m_fd = int i\<rparr> \<and>
           (stat = Some True \<longrightarrow> snd (new_FdCtx (int i) stat flags) = flags OR O_NONBLOCK)) \<and>
      fd_get m1 (int i) b stat' flags' = Inr (Some r, m1) \<and> (\<forall>j. j \<noteq> i \<longrightarrow> fd_lookup m1 j = fd_lookup m j) \<and> fdm_inv m1 \<and>
      fd_del m1 (int i) = Inr m2 \<and> fd_get m2 (int i) False stat' flags' = Inr (None, m2) \<and>
      (\<forall>j. j \<noteq> i \<longrightarrow> fd_lookup m2 j = fd_lookup m j) \<and> fdm_inv m2"
    using get r g d fdm.get_again [of m i "(stat, flags)" "Some r" m1 b "(stat', flags')"] fdm.get_after_del [of m1 i m2 "(stat', flags')"] assms
    by (intro exI [of _ r] exI [of _ m1] exI [of _ m2]) (auto simp: new_FdCtx_eq split: option.splits)
next
  assume "fd_lookup m i = None"
  then show "fd_find m (int i) True = Inr None" by (simp add: fd_find_eq)
next
  obtain m1 where 1: "fd_create m (int i) stat flags = Inr (Some (fst (new_FdCtx (int i) stat flags)), m1)"
    "fd_lookup m1 = (fd_lookup m)(i \<mapsto> fst (new_FdCtx (int i) stat flags))" "fdm_inv m1" using fd_create_ok [OF assms] .
  obtain m2 where 2: "fd_create m1 (int i) stat' flags' = Inr (Some (fst (new_FdCtx (int i) stat' flags')), m2)"
    "fd_lookup m2 = (fd_lookup m1)(i \<mapsto> fst (new_FdCtx (int i) stat' flags'))" using fd_create_ok [OF 1(3)] .
  show "\<exists>c1 c2 m1 m2. fd_create m (int i) stat flags = Inr (Some c1, m1) \<and> fd_lookup m1 i = Some c1 \<and>
         fd_create m1 (int i) stat' flags' = Inr (Some c2, m2) \<and> fd_lookup m2 i = Some c2 \<and> c2 = fst (new_FdCtx (int i) stat' flags')"
    using 1(1,2) 2 by auto
qed

theorem fd_table_map_witness:
  "\<exists>m1. fd_get new_FdManager 70 True (Some True) 0 = Inr (Some (fst (new_FdCtx 70 (Some True) 0)), m1) \<and>
        fd_get m1 70 False None 0 = Inr (Some (fst (new_FdCtx 70 (Some True) 0)), m1)"
proof -
  have n: "fd_lookup new_FdManager 70 = None" by (simp add: fd_lookup_def new_FdManager_def)
  show ?thesis
    using fd_table_map [OF new_FdManager_inv, of 70 "Some True" 0 False None 0] n by (auto simp: new_FdCtx_eq)
qed

end
