(* ===== verification/Fiber.thy ===== *)
theory Fiber
  imports Prelude
begin

text \<open>
  \<^verbatim>\<open>code/fiber.hpp\<close> and \<^verbatim>\<open>code/fiber.cc\<close>: the coroutines. \<open>fiber_sys\<close> holds the fibers by address
  and the two global counters; \<open>tls\<close> holds the thread local variables \<^verbatim>\<open>t_fiber\<close> and
  \<^verbatim>\<open>t_threadFiber\<close> of \<^verbatim>\<open>fiber.cc\<close> and \<^verbatim>\<open>t_fiber\<close> of \<^verbatim>\<open>scheduler.cc\<close> (the result of
  \<^verbatim>\<open>Scheduler::GetMainFiber\<close>). A context switch is the hand-over of the processor: an
  operation that swaps returns the state at the moment of the switch. \<^verbatim>\<open>getcontext\<close> and
  \<^verbatim>\<open>makecontext\<close> are taken to succeed. A failed \<^verbatim>\<open>CXS_ASSERT\<close> aborts and is an error.
\<close>

datatype fiber_state = INIT | HOLD | EXEC | TERM' | READY | EXECEP

datatype entry = MainFunc | CallerMainFunc

record fiber =
  f_id :: u64
  f_stacksize :: u32
  f_state :: fiber_state
  f_entry :: "entry option"
  f_stack :: bool
  f_cb :: "nat option"

record fiber_sys =
  fibers :: "nat \<Rightarrow> fiber option"
  s_fiber_id :: u64
  s_fiber_count :: u64
  g_fiber_stack_size :: u32

record tls =
  t_fiber :: "nat option"
  t_threadFiber :: "nat option"
  t_mainFiber :: "nat option"

datatype fiber_error = AssertFailed string | NullFiber

definition set_fiber :: "fiber_sys \<Rightarrow> nat \<Rightarrow> fiber \<Rightarrow> fiber_sys" where
  "set_fiber sys p f = sys\<lparr>fibers := (fibers sys)(p \<mapsto> f)\<rparr>"

definition state_of :: "fiber_sys \<Rightarrow> nat \<Rightarrow> fiber_state option" where
  "state_of sys p = map_option f_state (fibers sys p)"

subsection \<open>Construction and destruction\<close>

definition SetThis :: "tls \<Rightarrow> nat option \<Rightarrow> tls" where
  "SetThis t f = t\<lparr>t_fiber := f\<rparr>"

definition new_Fiber_main :: "fiber_sys \<Rightarrow> tls \<Rightarrow> nat \<Rightarrow> fiber_sys \<times> tls" where
  "new_Fiber_main sys t p =
     ((set_fiber sys p \<lparr>f_id = 0, f_stacksize = 0, f_state = EXEC, f_entry = None, f_stack = False, f_cb = None\<rparr>)
        \<lparr>s_fiber_count := s_fiber_count sys + 1\<rparr>,
      SetThis t (Some p))"

definition new_Fiber :: "fiber_sys \<Rightarrow> nat \<Rightarrow> nat option \<Rightarrow> u32 \<Rightarrow> bool \<Rightarrow> fiber_sys" where
  "new_Fiber sys p cb stacksize use_caller =
     (let i = s_fiber_id sys + 1;
          f = \<lparr>f_id = i,
               f_stacksize = if stacksize \<noteq> 0 then stacksize else g_fiber_stack_size sys,
               f_state = INIT,
               f_entry = Some (if \<not> use_caller then MainFunc else CallerMainFunc),
               f_stack = True, f_cb = cb\<rparr>
      in (set_fiber sys p f)\<lparr>s_fiber_id := i, s_fiber_count := s_fiber_count sys + 1\<rparr>)"

definition delete_Fiber :: "fiber_sys \<Rightarrow> tls \<Rightarrow> nat \<Rightarrow> fiber_error + fiber_sys \<times> tls" where
  "delete_Fiber sys t p =
     (case fibers sys p of None \<Rightarrow> Inl NullFiber
      | Some f \<Rightarrow>
          let sys' = sys\<lparr>s_fiber_count := s_fiber_count sys - 1, fibers := (fibers sys)(p := None)\<rparr> in
          if f_stack f then
            if f_state f \<in> {TERM', EXECEP, INIT} then Inr (sys', t)
            else Inl (AssertFailed ''m_state == TERM || m_state == EXECEP || m_state == INIT'')
          else if f_cb f \<noteq> None then Inl (AssertFailed ''!m_cb'')
          else if f_state f \<noteq> EXEC then Inl (AssertFailed ''m_state == EXEC'')
          else Inr (sys', if t_fiber t = Some p then SetThis t None else t))"

definition GetThis :: "fiber_sys \<Rightarrow> tls \<Rightarrow> nat \<Rightarrow> nat \<times> fiber_sys \<times> tls" where
  "GetThis sys t np =
     (case t_fiber t of Some p \<Rightarrow> (p, sys, t)
      | None \<Rightarrow>
          let (sys, t) = new_Fiber_main sys t np in (np, sys, t\<lparr>t_threadFiber := Some np\<rparr>))"

definition GetFiberId :: "fiber_sys \<Rightarrow> tls \<Rightarrow> u64" where
  "GetFiberId sys t =
     (case t_fiber t of None \<Rightarrow> 0
      | Some p \<Rightarrow> (case fibers sys p of None \<Rightarrow> 0 | Some f \<Rightarrow> f_id f))"

text \<open>The function of \<^verbatim>\<open>util.cc\<close> returns 32 bits of it.\<close>

definition util_GetFiberId :: "fiber_sys \<Rightarrow> tls \<Rightarrow> u32" where
  "util_GetFiberId sys t = ucast (GetFiberId sys t)"

definition TotalFibers :: "fiber_sys \<Rightarrow> u64" where
  "TotalFibers sys = s_fiber_count sys"

definition setState :: "fiber_sys \<Rightarrow> nat \<Rightarrow> fiber_state \<Rightarrow> fiber_sys" where
  "setState sys p st =
     (case fibers sys p of None \<Rightarrow> sys | Some f \<Rightarrow> set_fiber sys p (f\<lparr>f_state := st\<rparr>))"

subsection \<open>Switching\<close>

definition fiber_reset :: "fiber_sys \<Rightarrow> nat \<Rightarrow> nat option \<Rightarrow> fiber_error + fiber_sys" where
  "fiber_reset sys p cb =
     (case fibers sys p of None \<Rightarrow> Inl NullFiber
      | Some f \<Rightarrow>
          if \<not> f_stack f then Inl (AssertFailed ''m_stack'')
          else if f_state f \<notin> {TERM', INIT, EXECEP} then
            Inl (AssertFailed ''m_state == TERM || m_state == INIT || m_state == EXECEP'')
          else Inr (set_fiber sys p (f\<lparr>f_cb := cb, f_entry := Some MainFunc, f_state := INIT\<rparr>)))"

definition swapIn :: "fiber_sys \<Rightarrow> tls \<Rightarrow> nat \<Rightarrow> fiber_error + fiber_sys \<times> tls" where
  "swapIn sys t p =
     (case fibers sys p of None \<Rightarrow> Inl NullFiber
      | Some f \<Rightarrow>
          if f_state f = EXEC then Inl (AssertFailed ''m_state != EXEC'')
          else if t_mainFiber t = None then Inl NullFiber
          else Inr (setState sys p EXEC, SetThis t (Some p)))"

definition fiber_call :: "fiber_sys \<Rightarrow> tls \<Rightarrow> nat \<Rightarrow> fiber_error + fiber_sys \<times> tls" where
  "fiber_call sys t p =
     (case fibers sys p of None \<Rightarrow> Inl NullFiber
      | Some f \<Rightarrow>
          if t_threadFiber t = None then Inl NullFiber
          else Inr (setState sys p EXEC, SetThis t (Some p)))"

definition fiber_back :: "tls \<Rightarrow> fiber_error + tls" where
  "fiber_back t = (if t_threadFiber t = None then Inl NullFiber else Inr (SetThis t (t_threadFiber t)))"

definition swapOut :: "tls \<Rightarrow> fiber_error + tls" where
  "swapOut t = (if t_mainFiber t = None then Inl NullFiber else Inr (SetThis t (t_mainFiber t)))"

text \<open>
  The yields store the new state and then swap out; other threads can act between the two, so the store is a definition of
  its own.
\<close>

definition yield_store :: "fiber_state \<Rightarrow> fiber_sys \<Rightarrow> tls \<Rightarrow> nat \<Rightarrow> fiber_sys \<times> tls" where
  "yield_store st sys t np = (let (cur, sys, t) = GetThis sys t np in (setState sys cur st, t))"

definition YieldToReady :: "fiber_sys \<Rightarrow> tls \<Rightarrow> nat \<Rightarrow> fiber_error + fiber_sys \<times> tls" where
  "YieldToReady sys t np =
     (let (sys, t) = yield_store READY sys t np in err_bind (swapOut t) (\<lambda>t. Inr (sys, t)))"

definition YieldToHold :: "fiber_sys \<Rightarrow> tls \<Rightarrow> nat \<Rightarrow> fiber_error + fiber_sys \<times> tls" where
  "YieldToHold sys t np =
     (let (sys, t) = yield_store HOLD sys t np in err_bind (swapOut t) (\<lambda>t. Inr (sys, t)))"

text \<open>
  The end of \<^verbatim>\<open>MainFunc\<close> and \<^verbatim>\<open>CallerMainFunc\<close>: \<open>threw\<close> says whether the callback left by an
  exception. A callback that returns is cleared; the fiber then swaps out and must never be
  resumed.
\<close>

definition main_finish :: "fiber_sys \<Rightarrow> nat \<Rightarrow> bool \<Rightarrow> fiber_sys" where
  "main_finish sys cur threw =
     (case fibers sys cur of None \<Rightarrow> sys
      | Some f \<Rightarrow>
          set_fiber sys cur
            (if threw then f\<lparr>f_state := EXECEP\<rparr> else f\<lparr>f_cb := None, f_state := TERM'\<rparr>))"

definition MainFunc_end :: "fiber_sys \<Rightarrow> tls \<Rightarrow> nat \<Rightarrow> bool \<Rightarrow> fiber_error + fiber_sys \<times> tls" where
  "MainFunc_end sys t np threw =
     (let (cur, sys, t) = GetThis sys t np in
      err_bind (swapOut t) (\<lambda>t. Inr (main_finish sys cur threw, t)))"

definition CallerMainFunc_end :: "fiber_sys \<Rightarrow> tls \<Rightarrow> nat \<Rightarrow> bool \<Rightarrow> fiber_error + fiber_sys \<times> tls" where
  "CallerMainFunc_end sys t np threw =
     (let (cur, sys, t) = GetThis sys t np in
      err_bind (fiber_back t) (\<lambda>t. Inr (main_finish sys cur threw, t)))"

subsection \<open>Lemmas\<close>

lemma state_of_set_fiber [simp]:
  "state_of (set_fiber sys p f) q = (if q = p then Some (f_state f) else state_of sys q)"
  by (simp add: state_of_def set_fiber_def)

lemma fibers_set_fiber [simp]: "fibers (set_fiber sys p f) = (fibers sys)(p \<mapsto> f)"
  by (simp add: set_fiber_def)

lemma state_of_setState [simp]:
  "state_of (setState sys p st) q =
     (if q = p \<and> fibers sys p \<noteq> None then Some st else state_of sys q)"
  by (auto simp: setState_def state_of_def split: option.splits)

lemma fibers_setState_None [simp]: "fibers (setState sys p st) q = None \<longleftrightarrow> fibers sys q = None"
  by (auto simp: setState_def split: option.splits)

lemma state_of_new_Fiber [simp]:
  "state_of (new_Fiber sys p cb n uc) q = (if q = p then Some INIT else state_of sys q)"
  by (simp add: new_Fiber_def Let_def state_of_def set_fiber_def)

text \<open>The lifecycle of a fiber that the scheduler relies on.\<close>

lemma swapIn_state:
  "swapIn sys t p = Inr (sys', t') \<Longrightarrow>
     state_of sys p \<noteq> Some EXEC \<and> state_of sys' p = Some EXEC \<and> t_fiber t' = Some p \<and>
     (\<forall>q. q \<noteq> p \<longrightarrow> state_of sys' q = state_of sys q)"
  by (auto simp: swapIn_def SetThis_def state_of_def split: option.splits if_splits)
    (auto simp: setState_def)

lemma fiber_reset_reusable:
  assumes "fiber_reset sys p cb = Inr sys'"
  shows "state_of sys p \<in> {Some TERM', Some INIT, Some EXECEP}" and "state_of sys' p = Some INIT"
    and "map_option f_cb (fibers sys' p) = Some cb"
  using assms by (auto simp: fiber_reset_def state_of_def split: option.splits if_splits)

end
