(* ===== verification/Scheduler.thy ===== *)
theory Scheduler
  imports Fiber
begin

text \<open>
  \<^verbatim>\<open>code/scheduler.hpp\<close> and \<^verbatim>\<open>code/scheduler.cc\<close>: the N:M scheduler. A worker is a thread in
  \<^verbatim>\<open>Scheduler::run\<close>; its program point and the local variables of the loop are its state, and one
  step is one section of the loop that is atomic for the other threads: the selection of a task
  under the lock, the hand-over of the processor to a fiber, the change of a fiber's state, the
  return from the fiber, the update of a counter, and what follows it. What a fiber does while it
  runs is up to its callback; the steps of other components (scheduling tasks, stopping) interleave
  freely with those of the workers.
\<close>

record task =
  tk_fiber :: "nat option"
  tk_cb :: "nat option"
  tk_thread :: int

text \<open>The three places of \<^verbatim>\<open>run\<close> that swap to a fiber.\<close>

datatype slot = SFiber | SCb | SIdle

text \<open>
  \<open>Running sl f leaving\<close>: the processor executes the context of \<open>f\<close>; \<open>leaving\<close> holds once the
  fiber has stored its new state and goes on to \<^verbatim>\<open>swapcontext\<close>. \<open>After\<close> is the point behind
  \<^verbatim>\<open>swapIn()\<close>, \<open>Post\<close> the point behind the decrement of the counter.
\<close>

datatype pc =
    Pick
  | Dispatch "task option"
  | Running slot nat bool
  | After slot nat
  | Post slot nat
  | Done

record worker =
  w_tid :: int
  w_pc :: pc
  w_main :: nat
  w_idle_fiber :: nat
  w_cb_fiber :: "nat option"

record sched =
  sc_sys :: fiber_sys
  m_fibers :: "task list"
  m_activeThreadCount :: nat
  m_idleThreadCount :: int
  m_stopping :: bool
  m_autoStop :: bool
  m_threadCount :: nat
  m_rootThread :: int
  m_rootFiber :: "nat option"
  m_threadIds :: "int list"
  m_threads :: "int list"
  sc_workers :: "worker list"

definition set_worker :: "sched \<Rightarrow> nat \<Rightarrow> worker \<Rightarrow> sched" where
  "set_worker s k w = s\<lparr>sc_workers := (sc_workers s)[k := w]\<rparr>"

definition set_pc :: "sched \<Rightarrow> nat \<Rightarrow> pc \<Rightarrow> sched" where
  "set_pc s k pc = set_worker s k ((sc_workers s ! k)\<lparr>w_pc := pc\<rparr>)"

definition w_tls :: "worker \<Rightarrow> tls" where
  "w_tls w = \<lparr>t_fiber = Some (w_main w), t_threadFiber = None, t_mainFiber = Some (w_main w)\<rparr>"

subsection \<open>Scheduling\<close>

definition scheduleNoLock :: "sched \<Rightarrow> task \<Rightarrow> bool \<times> sched" where
  "scheduleNoLock s ft =
     (let need_tickle = (m_fibers s = []) in
      (need_tickle,
       if tk_fiber ft \<noteq> None \<or> tk_cb ft \<noteq> None then s\<lparr>m_fibers := m_fibers s @ [ft]\<rparr> else s))"

text \<open>The result says whether the virtual \<^verbatim>\<open>tickle()\<close> is called.\<close>

definition schedule :: "sched \<Rightarrow> task \<Rightarrow> bool \<times> sched" where
  "schedule s ft = scheduleNoLock s ft"

fun schedule_range :: "sched \<Rightarrow> task list \<Rightarrow> bool \<times> sched" where
  "schedule_range s [] = (False, s)"
| "schedule_range s (ft # fts) =
     (let (t, s) = scheduleNoLock s ft; (t', s) = schedule_range s fts in (t \<or> t', s))"

definition fiber_task :: "nat \<Rightarrow> task" where
  "fiber_task f = \<lparr>tk_fiber = Some f, tk_cb = None, tk_thread = - 1\<rparr>"

definition stopping :: "sched \<Rightarrow> bool" where
  "stopping s \<longleftrightarrow> m_autoStop s \<and> m_stopping s \<and> m_fibers s = [] \<and> m_activeThreadCount s = 0"

definition hasIdleThreads :: "sched \<Rightarrow> bool" where
  "hasIdleThreads s \<longleftrightarrow> m_idleThreadCount s > 0"

subsection \<open>Starting and stopping\<close>

definition new_Scheduler ::
  "fiber_sys \<Rightarrow> nat \<Rightarrow> bool \<Rightarrow> bool \<Rightarrow> int \<Rightarrow> nat \<Rightarrow> fiber_error + sched" where
  "new_Scheduler sys threads use_caller has_scheduler tid root =
     (if \<not> threads > 0 then Inl (AssertFailed ''threads > 0'')
      else if use_caller \<and> has_scheduler then Inl (AssertFailed ''GetThis() == nullptr'')
      else Inr \<lparr>sc_sys = if use_caller then new_Fiber sys root (Some 0) 0 True else sys,
                m_fibers = [], m_activeThreadCount = 0, m_idleThreadCount = 0, m_stopping = True,
                m_autoStop = False, m_threadCount = if use_caller then threads - 1 else threads,
                m_rootThread = if use_caller then tid else - 1,
                m_rootFiber = if use_caller then Some root else None,
                m_threadIds = if use_caller then [tid] else [], m_threads = [], sc_workers = []\<rparr>)"

text \<open>
  The prologue of \<^verbatim>\<open>run\<close>: a thread other than the root thread takes its main fiber as the
  scheduler's main fiber; then the idle fiber is created.
\<close>

definition run_start :: "sched \<Rightarrow> int \<Rightarrow> nat \<Rightarrow> nat \<Rightarrow> sched" where
  "run_start s tid mainp idlep =
     (let (main, sys) =
            (if tid \<noteq> m_rootThread s then
               let (p, sys, _) = GetThis (sc_sys s) \<lparr>t_fiber = None, t_threadFiber = None, t_mainFiber = None\<rparr> mainp
               in (p, sys)
             else (case m_rootFiber s of Some r \<Rightarrow> (r, sc_sys s) | None \<Rightarrow> (mainp, sc_sys s)));
          sys = new_Fiber sys idlep (Some 1) 0 False
      in s\<lparr>sc_sys := sys,
           sc_workers := sc_workers s @ [\<lparr>w_tid = tid, w_pc = Pick, w_main = main, w_idle_fiber = idlep, w_cb_fiber = None\<rparr>]\<rparr>)"

text \<open>\<^verbatim>\<open>start\<close>: \<open>tids\<close> are the identifiers of the threads it creates, one for each of \<^verbatim>\<open>m_threadCount\<close>.\<close>

definition sched_start :: "sched \<Rightarrow> int list \<Rightarrow> fiber_error + sched" where
  "sched_start s tids =
     (if \<not> m_stopping s then Inr s
      else if m_threads s \<noteq> [] then Inl (AssertFailed ''m_threads.empty()'')
      else let ts = take (m_threadCount s) tids in
        Inr (s\<lparr>m_stopping := False, m_threads := ts, m_threadIds := m_threadIds s @ ts\<rparr>))"

text \<open>
  \<^verbatim>\<open>stop\<close> up to the point where it waits: it returns at once, hands the processor to the root
  fiber, or joins the threads. \<open>current\<close> says whether the calling thread belongs to this scheduler;
  the number of \<^verbatim>\<open>tickle()\<close> calls is in the result.
\<close>

datatype stop_action = Return | CallRoot nat | Join

definition sched_stop :: "sched \<Rightarrow> bool \<Rightarrow> fiber_error + stop_action \<times> nat \<times> sched" where
  "sched_stop s current =
     (let s = s\<lparr>m_autoStop := True\<rparr>;
          early = (case m_rootFiber s of None \<Rightarrow> False
                   | Some r \<Rightarrow> m_threadCount s = 0 \<and> state_of (sc_sys s) r \<in> {Some TERM', Some INIT});
          s = (if early then s\<lparr>m_stopping := True\<rparr> else s)
      in if early \<and> stopping s then Inr (Return, 0, s)
         else if m_rootThread s \<noteq> - 1 \<and> \<not> current then Inl (AssertFailed ''GetThis() == this'')
         else if m_rootThread s = - 1 \<and> current then Inl (AssertFailed ''GetThis() != this'')
         else let s = s\<lparr>m_stopping := True\<rparr> in
           (case m_rootFiber s of
              Some r \<Rightarrow> Inr (if \<not> stopping s then CallRoot r else Join, m_threadCount s, s)
            | None \<Rightarrow> Inr (Join, m_threadCount s, s)))"

text \<open>The end of \<^verbatim>\<open>stop\<close>: the threads to join are taken out under the lock.\<close>

definition sched_join :: "sched \<Rightarrow> int list \<times> sched" where
  "sched_join s = (m_threads s, s\<lparr>m_threads := []\<rparr>)"

subsection \<open>The loop of a worker\<close>

text \<open>The search for a task under the lock: the selected task with the remaining queue, and \<^verbatim>\<open>tickle_me\<close>.\<close>

fun pick_loop ::
  "int \<Rightarrow> fiber_sys \<Rightarrow> task list \<Rightarrow> task list \<Rightarrow> bool \<Rightarrow> fiber_error + (task \<times> task list) option \<times> bool" where
  "pick_loop tid sys skipped [] tickle_me = Inr (None, tickle_me)"
| "pick_loop tid sys skipped (tk # rest) tickle_me =
     (if tk_thread tk \<noteq> - 1 \<and> tk_thread tk \<noteq> tid then
        pick_loop tid sys (skipped @ [tk]) rest True
      else if tk_fiber tk = None \<and> tk_cb tk = None then Inl (AssertFailed ''it->fiber || it->cb'')
      else case tk_fiber tk of
        Some f \<Rightarrow>
          if state_of sys f = Some EXEC then pick_loop tid sys (skipped @ [tk]) rest tickle_me
          else Inr (Some (tk, skipped @ rest), tickle_me)
      | None \<Rightarrow> Inr (Some (tk, skipped @ rest), tickle_me))"

text \<open>
  After a selection the code compares the erased iterator with \<^verbatim>\<open>end()\<close>; its value is not
  defined, and \<open>stale\<close> is what the comparison yields.
\<close>

definition run_pick :: "sched \<Rightarrow> nat \<Rightarrow> bool \<Rightarrow> fiber_error + bool \<times> sched" where
  "run_pick s k stale =
     err_bind (pick_loop (w_tid (sc_workers s ! k)) (sc_sys s) [] (m_fibers s) False)
       (\<lambda>(r, tickle_me).
          case r of
            None \<Rightarrow> Inr (tickle_me, set_pc s k (Dispatch None))
          | Some (tk, rest) \<Rightarrow>
              Inr (tickle_me \<or> stale,
                   set_pc (s\<lparr>m_fibers := rest, m_activeThreadCount := m_activeThreadCount s + 1\<rparr>) k
                     (Dispatch (Some tk))))"

definition enter :: "sched \<Rightarrow> nat \<Rightarrow> slot \<Rightarrow> nat \<Rightarrow> fiber_error + sched" where
  "enter s k sl f =
     err_bind (swapIn (sc_sys s) (w_tls (sc_workers s ! k)) f)
       (\<lambda>(sys, _). Inr (set_pc (s\<lparr>sc_sys := sys\<rparr>) k (Running sl f False)))"

definition run_idle :: "sched \<Rightarrow> nat \<Rightarrow> fiber_error + sched" where
  "run_idle s k =
     (let idle = w_idle_fiber (sc_workers s ! k) in
      if state_of (sc_sys s) idle = Some TERM' then Inr (set_pc s k Done)
      else enter (s\<lparr>m_idleThreadCount := m_idleThreadCount s + 1\<rparr>) k SIdle idle)"

text \<open>\<open>np\<close> is the address of the fiber that \<^verbatim>\<open>new Fiber(ft.cb)\<close> creates.\<close>

definition run_cb :: "sched \<Rightarrow> nat \<Rightarrow> nat \<Rightarrow> nat \<Rightarrow> fiber_error + sched" where
  "run_cb s k cb np =
     (let w = sc_workers s ! k in
      case w_cb_fiber w of
        Some f \<Rightarrow> err_bind (fiber_reset (sc_sys s) f (Some cb)) (\<lambda>sys. enter (s\<lparr>sc_sys := sys\<rparr>) k SCb f)
      | None \<Rightarrow>
          enter (set_worker (s\<lparr>sc_sys := new_Fiber (sc_sys s) np (Some cb) 0 False\<rparr>) k (w\<lparr>w_cb_fiber := Some np\<rparr>))
            k SCb np)"

definition run_dispatch :: "sched \<Rightarrow> nat \<Rightarrow> task option \<Rightarrow> nat \<Rightarrow> fiber_error + sched" where
  "run_dispatch s k ft np =
     (case ft of None \<Rightarrow> run_idle s k
      | Some tk \<Rightarrow>
          let skip = set_pc (s\<lparr>m_activeThreadCount := m_activeThreadCount s - 1\<rparr>) k Pick in
          (case tk_fiber tk of
             Some f \<Rightarrow>
               if state_of (sc_sys s) f \<notin> {Some TERM', Some EXECEP} then enter s k SFiber f
               else (case tk_cb tk of Some cb \<Rightarrow> run_cb s k cb np | None \<Rightarrow> Inr skip)
           | None \<Rightarrow> (case tk_cb tk of Some cb \<Rightarrow> run_cb s k cb np | None \<Rightarrow> Inr skip)))"

text \<open>
  A running fiber leaves: \<^verbatim>\<open>YieldToReady\<close>, \<^verbatim>\<open>YieldToHold\<close> and the end of \<^verbatim>\<open>MainFunc\<close> first store the
  new state and then swap out.
\<close>

definition running_tls :: "worker \<Rightarrow> nat \<Rightarrow> tls" where
  "running_tls w f = SetThis (w_tls w) (Some f)"

definition leave_state :: "sched \<Rightarrow> nat \<Rightarrow> slot \<Rightarrow> nat \<Rightarrow> fiber_state \<Rightarrow> sched" where
  "leave_state s k sl f st =
     set_pc (s\<lparr>sc_sys := (if st = TERM' then main_finish (sc_sys s) f False
                         else if st = EXECEP then main_finish (sc_sys s) f True
                         else fst (yield_store st (sc_sys s) (running_tls (sc_workers s ! k) f) f))\<rparr>) k (Running sl f True)"

definition leave_swap :: "sched \<Rightarrow> nat \<Rightarrow> slot \<Rightarrow> nat \<Rightarrow> fiber_error + sched" where
  "leave_swap s k sl f =
     err_bind (swapOut (running_tls (sc_workers s ! k) f)) (\<lambda>_. Inr (set_pc s k (After sl f)))"

definition run_after :: "sched \<Rightarrow> nat \<Rightarrow> slot \<Rightarrow> nat \<Rightarrow> sched" where
  "run_after s k sl f =
     set_pc (if sl = SIdle then s\<lparr>m_idleThreadCount := m_idleThreadCount s - 1\<rparr>
             else s\<lparr>m_activeThreadCount := m_activeThreadCount s - 1\<rparr>) k (Post sl f)"

definition drop_cb_fiber :: "sched \<Rightarrow> nat \<Rightarrow> sched" where
  "drop_cb_fiber s k = set_worker s k ((sc_workers s ! k)\<lparr>w_cb_fiber := None\<rparr>)"

definition run_post :: "sched \<Rightarrow> nat \<Rightarrow> slot \<Rightarrow> nat \<Rightarrow> fiber_error + sched" where
  "run_post s k sl f =
     (let st = state_of (sc_sys s) f; s = set_pc s k Pick;
          held = s\<lparr>sc_sys := setState (sc_sys s) f HOLD\<rparr> in
      case sl of
        SFiber \<Rightarrow>
          Inr (if st = Some READY then snd (schedule s (fiber_task f))
               else if st \<notin> {Some TERM', Some EXECEP} then held else s)
      | SCb \<Rightarrow>
          if st = Some READY then Inr (drop_cb_fiber (snd (schedule s (fiber_task f))) k)
          else if st \<in> {Some EXECEP, Some TERM'} then
            err_bind (fiber_reset (sc_sys s) f None) (\<lambda>sys. Inr (s\<lparr>sc_sys := sys\<rparr>))
          else Inr (drop_cb_fiber held k)
      | SIdle \<Rightarrow> Inr (if st \<notin> {Some TERM', Some EXECEP} then held else s))"

subsection \<open>All runs\<close>

text \<open>
  A step of the whole system: of the worker \<open>k\<close>, or of another component that schedules a task,
  starts a worker or stops the scheduler. The idle fiber ends when \<^verbatim>\<open>stopping()\<close> was true.
  \<^verbatim>\<open>m_idleThreadCount\<close> is a plain \<^verbatim>\<open>int\<close> that the workers change without a lock: its changes may be lost, so it may have
  any value (\<open>lost\<close>).
\<close>

inductive sched_step :: "sched \<Rightarrow> sched \<Rightarrow> bool" where
  pick: "k < length (sc_workers s) \<Longrightarrow> w_pc (sc_workers s ! k) = Pick \<Longrightarrow>
    run_pick s k stale = Inr (t, s') \<Longrightarrow> sched_step s s'"
| dispatch: "k < length (sc_workers s) \<Longrightarrow> w_pc (sc_workers s ! k) = Dispatch ft \<Longrightarrow>
    fibers (sc_sys s) np = None \<Longrightarrow> run_dispatch s k ft np = Inr s' \<Longrightarrow> sched_step s s'"
| leave: "k < length (sc_workers s) \<Longrightarrow> w_pc (sc_workers s ! k) = Running sl f False \<Longrightarrow>
    st \<in> {READY, HOLD, TERM', EXECEP} \<Longrightarrow> (sl = SIdle \<Longrightarrow> st = TERM' \<Longrightarrow> stopping s) \<Longrightarrow>
    sched_step s (leave_state s k sl f st)"
| swap: "k < length (sc_workers s) \<Longrightarrow> w_pc (sc_workers s ! k) = Running sl f True \<Longrightarrow>
    leave_swap s k sl f = Inr s' \<Longrightarrow> sched_step s s'"
| after: "k < length (sc_workers s) \<Longrightarrow> w_pc (sc_workers s ! k) = After sl f \<Longrightarrow>
    sched_step s (run_after s k sl f)"
| post: "k < length (sc_workers s) \<Longrightarrow> w_pc (sc_workers s ! k) = Post sl f \<Longrightarrow>
    run_post s k sl f = Inr s' \<Longrightarrow> sched_step s s'"
| sched: "sched_step s (snd (schedule s ft))"
| start: "sched_start s tids = Inr s' \<Longrightarrow> sched_step s s'"
| worker: "fibers (sc_sys s) mainp = None \<Longrightarrow> fibers (sc_sys s) idlep = None \<Longrightarrow> mainp \<noteq> idlep \<Longrightarrow>
    sched_step s (run_start s tid mainp idlep)"
| stop: "sched_stop s current = Inr (a, n, s') \<Longrightarrow> sched_step s s'"
| join: "sched_step s (snd (sched_join s))"
| lost: "sched_step s (s\<lparr>m_idleThreadCount := n\<rparr>)"

definition sched_reachable :: "sched \<Rightarrow> bool" where
  "sched_reachable s \<longleftrightarrow>
     (\<exists>sys threads uc has tid root s0. new_Scheduler sys threads uc has tid root = Inr s0 \<and> sched_step\<^sup>*\<^sup>* s0 s)"

end
