(* ===== verification/IOManager.thy ===== *)
theory IOManager
  imports Scheduler Timer
begin

text \<open>
  \<^verbatim>\<open>code/iomanager.h\<close> and \<^verbatim>\<open>code/iomanager.cc\<close>: the scheduler with an \<^verbatim>\<open>epoll\<close> instance and timers.
  The state is the world the I/O manager acts on: all schedulers by identifier (an event context
  remembers the scheduler that registered it), the manager's own identifier, its contexts by file
  descriptor, its timers, the bytes in its wakeup pipes, and the \<^verbatim>\<open>epoll_ctl\<close> calls that succeeded.
  The kernel's answer to \<^verbatim>\<open>epoll_ctl\<close> is the parameter \<open>ctl\<close>, what \<^verbatim>\<open>epoll_wait\<close> returns is an
  argument. \<open>ind\<close> gives the indeterminate values of \<^verbatim>\<open>EventContext::scheduler\<close> in a new context, for its
  index and event: the member has no initialiser. Writing one byte to the wakeup pipe is taken to succeed.
\<close>

definition NONE :: u32 where "NONE = 0"
definition READ :: u32 where "READ = 1"
definition WRITE :: u32 where "WRITE = 4"
definition EPOLLIN :: u32 where "EPOLLIN = 1"
definition EPOLLOUT :: u32 where "EPOLLOUT = 4"
definition EPOLLERR :: u32 where "EPOLLERR = 8"
definition EPOLLHUP :: u32 where "EPOLLHUP = 16"
definition EPOLLET :: u32 where "EPOLLET = 2147483648"

datatype epoll_op = EPOLL_CTL_ADD | EPOLL_CTL_MOD | EPOLL_CTL_DEL

record event_ctx =
  ec_scheduler :: "nat option"
  ec_fiber :: "nat option"
  ec_cb :: "nat option"

record fd_context =
  fc_fd :: nat
  fc_read :: event_ctx
  fc_write :: event_ctx
  fc_events :: u32

record iomanager =
  io_id :: nat
  io_scheds :: "nat \<Rightarrow> sched"
  io_pipe :: "nat \<Rightarrow> nat"
  io_timers :: timer_manager
  m_pendingEventCount :: nat
  m_fdContexts :: "fd_context list"
  ep_log :: "(epoll_op \<times> nat \<times> u32) list"

datatype io_error = IoAssert string | IoOutOfBounds | IoNullScheduler | IoTimer timer_error

subsection \<open>Event contexts\<close>

definition getContext :: "fd_context \<Rightarrow> u32 \<Rightarrow> io_error + event_ctx" where
  "getContext c event =
     (if event = READ then Inr (fc_read c)
      else if event = WRITE then Inr (fc_write c)
      else Inl (IoAssert ''getContext''))"

definition setContext :: "fd_context \<Rightarrow> u32 \<Rightarrow> event_ctx \<Rightarrow> fd_context" where
  "setContext c event e = (if event = READ then c\<lparr>fc_read := e\<rparr> else c\<lparr>fc_write := e\<rparr>)"

definition resetContext :: "event_ctx \<Rightarrow> event_ctx" where
  "resetContext e = \<lparr>ec_scheduler = None, ec_fiber = None, ec_cb = None\<rparr>"

definition new_FdContext :: "(nat \<Rightarrow> u32 \<Rightarrow> nat option) \<Rightarrow> nat \<Rightarrow> fd_context" where
  "new_FdContext ind i =
     \<lparr>fc_fd = i, fc_read = \<lparr>ec_scheduler = ind i READ, ec_fiber = None, ec_cb = None\<rparr>,
      fc_write = \<lparr>ec_scheduler = ind i WRITE, ec_fiber = None, ec_cb = None\<rparr>, fc_events = NONE\<rparr>"

definition contextResize :: "(nat \<Rightarrow> u32 \<Rightarrow> nat option) \<Rightarrow> nat \<Rightarrow> fd_context list \<Rightarrow> fd_context list" where
  "contextResize ind sz cs = take sz cs @ map (new_FdContext ind) [length cs..<sz]"

subsection \<open>Waking and scheduling\<close>

definition io_tickle :: "iomanager \<Rightarrow> nat \<Rightarrow> iomanager" where
  "io_tickle io sid =
     (if hasIdleThreads (io_scheds io sid) then io
      else io\<lparr>io_pipe := (io_pipe io)(sid := io_pipe io sid + 1)\<rparr>)"

definition onTimerInsertedAtFront :: "iomanager \<Rightarrow> iomanager" where
  "onTimerInsertedAtFront io = io_tickle io (io_id io)"

definition io_schedule :: "iomanager \<Rightarrow> nat \<Rightarrow> task \<Rightarrow> iomanager" where
  "io_schedule io sid ft =
     (let (t, s) = schedule (io_scheds io sid) ft;
          io = io\<lparr>io_scheds := (io_scheds io)(sid := s)\<rparr>
      in if t then io_tickle io sid else io)"

definition io_addTimer ::
  "iomanager \<Rightarrow> nat \<Rightarrow> u64 \<Rightarrow> u64 \<Rightarrow> callback option \<Rightarrow> bool \<Rightarrow> iomanager" where
  "io_addTimer io p now ms cb recurring =
     (let (tm, front) = addTimer (io_timers io) p now ms cb recurring;
          io = io\<lparr>io_timers := tm\<rparr>
      in if front then onTimerInsertedAtFront io else io)"

definition io_stopping :: "iomanager \<Rightarrow> bool" where
  "io_stopping io \<longleftrightarrow> m_pendingEventCount io = 0 \<and> stopping (io_scheds io (io_id io))"

definition io_stopping_timeout :: "iomanager \<Rightarrow> u64 \<Rightarrow> bool \<times> u64 \<times> iomanager" where
  "io_stopping_timeout io now =
     (let (timeout, tm) = getNextTimer (io_timers io) now in
      (timeout = NOT 0 \<and> m_pendingEventCount io = 0 \<and> stopping (io_scheds io (io_id io)),
       timeout, io\<lparr>io_timers := tm\<rparr>))"

subsection \<open>Registering and cancelling events\<close>

text \<open>\<^verbatim>\<open>FdContext::triggerEvent\<close>: hands the waiting callback or fiber to its scheduler.\<close>

definition triggerEvent :: "iomanager \<Rightarrow> fd_context \<Rightarrow> u32 \<Rightarrow> io_error + fd_context \<times> iomanager" where
  "triggerEvent io c event =
     (if fc_events c AND event = 0 then Inl (IoAssert ''events & event'')
      else let c = c\<lparr>fc_events := fc_events c AND NOT event\<rparr> in
        err_bind (getContext c event) (\<lambda>e.
          case ec_scheduler e of None \<Rightarrow> Inl IoNullScheduler
          | Some sid \<Rightarrow>
              (case ec_cb e of
                 Some cb \<Rightarrow>
                   Inr (setContext c event (e\<lparr>ec_cb := None, ec_scheduler := None\<rparr>),
                        io_schedule io sid \<lparr>tk_fiber = None, tk_cb = Some cb, tk_thread = - 1\<rparr>)
               | None \<Rightarrow>
                   Inr (setContext c event (e\<lparr>ec_fiber := None, ec_scheduler := None\<rparr>),
                        io_schedule io sid \<lparr>tk_fiber = ec_fiber e, tk_cb = None, tk_thread = - 1\<rparr>))))"

definition put_ctx :: "iomanager \<Rightarrow> nat \<Rightarrow> fd_context \<Rightarrow> iomanager" where
  "put_ctx io i c = io\<lparr>m_fdContexts := (m_fdContexts io)[i := c]\<rparr>"

definition dec_pending :: "iomanager \<Rightarrow> iomanager" where
  "dec_pending io = io\<lparr>m_pendingEventCount := m_pendingEventCount io - 1\<rparr>"

text \<open>
  \<^verbatim>\<open>addEvent\<close>: \<open>cur\<close> is the current fiber and \<open>cur_state\<close> its state, \<open>this_sched\<close> the value of
  \<^verbatim>\<open>Scheduler::GetThis()\<close>. A negative descriptor passes the size test and indexes the vector out of
  bounds. The table is tested under the read lock and, when it is too short, resized under the write lock without another
  test (\<open>grow_ctx\<close>); the context has a lock of its own (\<open>add_ctx\<close>). \<open>addEvent\<close> is the three parts without interruption.
\<close>

definition add_ctx ::
  "(epoll_op \<Rightarrow> nat \<Rightarrow> u32 \<Rightarrow> bool) \<Rightarrow> iomanager \<Rightarrow> nat \<Rightarrow> u32 \<Rightarrow> nat option \<Rightarrow> nat option \<Rightarrow> nat \<Rightarrow>
     fiber_state \<Rightarrow> io_error + int \<times> iomanager" where
  "add_ctx ctl io i event cb this_sched cur cur_state =
     (let c = m_fdContexts io ! i in
      if fc_events c AND event \<noteq> 0 then Inl (IoAssert ''!(fd_ctx->events & event)'')
      else let op = (if fc_events c \<noteq> 0 then EPOLL_CTL_MOD else EPOLL_CTL_ADD);
               ev = EPOLLET OR fc_events c OR event in
        if \<not> ctl op i ev then Inr (- 1, io)
        else let io = io\<lparr>ep_log := ep_log io @ [(op, i, ev)], m_pendingEventCount := m_pendingEventCount io + 1\<rparr>;
                 c = c\<lparr>fc_events := fc_events c OR event\<rparr> in
          err_bind (getContext c event) (\<lambda>e.
            if \<not> (ec_scheduler e = None \<and> ec_fiber e = None \<and> ec_cb e = None) then
              Inl (IoAssert ''!event_ctx.scheduler && !event_ctx.fiber && !event_ctx.cb'')
            else case cb of
              Some f \<Rightarrow> Inr (0, put_ctx io i (setContext c event (e\<lparr>ec_scheduler := this_sched, ec_cb := Some f\<rparr>)))
            | None \<Rightarrow>
                if cur_state \<noteq> EXEC then Inl (IoAssert ''event_ctx.fiber->getState() == Fiber::EXEC'')
                else Inr (0, put_ctx io i (setContext c event (e\<lparr>ec_scheduler := this_sched, ec_fiber := Some cur\<rparr>)))))"

definition grow_ctx :: "(nat \<Rightarrow> u32 \<Rightarrow> nat option) \<Rightarrow> iomanager \<Rightarrow> nat \<Rightarrow> iomanager" where
  "grow_ctx ind io i = io\<lparr>m_fdContexts := contextResize ind (i * 3 div 2) (m_fdContexts io)\<rparr>"

definition addEvent ::
  "(epoll_op \<Rightarrow> nat \<Rightarrow> u32 \<Rightarrow> bool) \<Rightarrow> (nat \<Rightarrow> u32 \<Rightarrow> nat option) \<Rightarrow> iomanager \<Rightarrow> int \<Rightarrow> u32 \<Rightarrow> nat option \<Rightarrow> nat option \<Rightarrow> nat \<Rightarrow>
     fiber_state \<Rightarrow> io_error + int \<times> iomanager" where
  "addEvent ctl ind io fd event cb this_sched cur cur_state =
     (if fd < 0 then Inl IoOutOfBounds
      else let i = nat fd in
        if length (m_fdContexts io) > i then add_ctx ctl io i event cb this_sched cur cur_state
        else let io = grow_ctx ind io i in
          if \<not> i < length (m_fdContexts io) then Inl IoOutOfBounds
          else add_ctx ctl io i event cb this_sched cur cur_state)"

definition delEvent ::
  "(epoll_op \<Rightarrow> nat \<Rightarrow> u32 \<Rightarrow> bool) \<Rightarrow> iomanager \<Rightarrow> int \<Rightarrow> u32 \<Rightarrow> io_error + bool \<times> iomanager" where
  "delEvent ctl io fd event =
     (if int (length (m_fdContexts io)) \<le> fd then Inr (False, io)
      else if fd < 0 then Inl IoOutOfBounds
      else let i = nat fd; c = m_fdContexts io ! i in
        if fc_events c AND event = 0 then Inr (False, io)
        else let new_events = fc_events c AND NOT event;
                 op = (if new_events \<noteq> 0 then EPOLL_CTL_MOD else EPOLL_CTL_DEL);
                 ev = EPOLLET OR new_events in
          if \<not> ctl op i ev then Inr (False, io)
          else let c = c\<lparr>fc_events := new_events\<rparr> in
            err_bind (getContext c event) (\<lambda>e.
              Inr (True, dec_pending (put_ctx (io\<lparr>ep_log := ep_log io @ [(op, i, ev)]\<rparr>) i
                           (setContext c event (resetContext e))))))"

definition cancelEvent ::
  "(epoll_op \<Rightarrow> nat \<Rightarrow> u32 \<Rightarrow> bool) \<Rightarrow> iomanager \<Rightarrow> int \<Rightarrow> u32 \<Rightarrow> io_error + bool \<times> iomanager" where
  "cancelEvent ctl io fd event =
     (if int (length (m_fdContexts io)) \<le> fd then Inr (False, io)
      else if fd < 0 then Inl IoOutOfBounds
      else let i = nat fd; c = m_fdContexts io ! i in
        if fc_events c AND event = 0 then Inr (False, io)
        else let new_events = fc_events c AND NOT event;
                 op = (if new_events \<noteq> 0 then EPOLL_CTL_MOD else EPOLL_CTL_DEL);
                 ev = EPOLLET OR new_events in
          if \<not> ctl op i ev then Inr (False, io)
          else err_bind (triggerEvent (io\<lparr>ep_log := ep_log io @ [(op, i, ev)]\<rparr>) c event) (\<lambda>(c, io).
            Inr (True, dec_pending (put_ctx io i c))))"

text \<open>
  Triggering the events of a set in the order the code does: the read event, then the write
  event, each with its decrement of the pending count.
\<close>

definition trigger_if :: "bool \<Rightarrow> u32 \<Rightarrow> iomanager \<Rightarrow> fd_context \<Rightarrow> io_error + fd_context \<times> iomanager" where
  "trigger_if b event io c =
     (if b then err_bind (triggerEvent io c event) (\<lambda>(c, io). Inr (c, dec_pending io)) else Inr (c, io))"

definition cancelAll ::
  "(epoll_op \<Rightarrow> nat \<Rightarrow> u32 \<Rightarrow> bool) \<Rightarrow> iomanager \<Rightarrow> int \<Rightarrow> io_error + bool \<times> iomanager" where
  "cancelAll ctl io fd =
     (if int (length (m_fdContexts io)) \<le> fd then Inr (False, io)
      else if fd < 0 then Inl IoOutOfBounds
      else let i = nat fd; c = m_fdContexts io ! i in
        if fc_events c = 0 then Inr (False, io)
        else if \<not> ctl EPOLL_CTL_DEL i 0 then Inr (False, io)
        else let io = io\<lparr>ep_log := ep_log io @ [(EPOLL_CTL_DEL, i, 0)]\<rparr> in
          err_bind (trigger_if (fc_events c AND READ \<noteq> 0) READ io c) (\<lambda>(c, io).
          err_bind (trigger_if (fc_events c AND WRITE \<noteq> 0) WRITE io c) (\<lambda>(c, io).
            if fc_events c \<noteq> 0 then Inl (IoAssert ''fd_ctx->events == 0'')
            else Inr (True, put_ctx io i c))))"

subsection \<open>The idle loop\<close>

text \<open>
  The timeout of \<^verbatim>\<open>epoll_wait\<close>: the delay until the next timer is narrowed to an \<^verbatim>\<open>int\<close> before the
  minimum with \<^verbatim>\<open>MAX_TIMEOUT\<close> is taken. A negative value waits without limit.
\<close>

definition MAX_TIMEOUT :: int where "MAX_TIMEOUT = 3000"

definition wait_timeout :: "u64 \<Rightarrow> int" where
  "wait_timeout next_timeout =
     (if next_timeout \<noteq> NOT 0 then min (sint (ucast next_timeout :: u32)) MAX_TIMEOUT else MAX_TIMEOUT)"

text \<open>One returned event: the wakeup pipe, or a context with the reported event bits.\<close>

datatype ep_event = TickleEvent | FdEvent nat u32

definition real_events_of :: "u32 \<Rightarrow> u32" where
  "real_events_of ev =
     (let ev = (if ev AND (EPOLLERR OR EPOLLHUP) \<noteq> 0 then ev OR (EPOLLIN OR EPOLLOUT) else ev) in
      (if ev AND EPOLLIN \<noteq> 0 then READ else NONE) OR (if ev AND EPOLLOUT \<noteq> 0 then WRITE else NONE))"

definition idle_event ::
  "(epoll_op \<Rightarrow> nat \<Rightarrow> u32 \<Rightarrow> bool) \<Rightarrow> iomanager \<Rightarrow> ep_event \<Rightarrow> io_error + iomanager" where
  "idle_event ctl io e =
     (case e of
        TickleEvent \<Rightarrow> Inr (io\<lparr>io_pipe := (io_pipe io)(io_id io := 0)\<rparr>)
      | FdEvent i ev \<Rightarrow>
          let c = m_fdContexts io ! i; real_events = real_events_of ev in
          if fc_events c AND real_events = NONE then Inr io
          else let left_events = fc_events c AND NOT real_events;
                   op = (if left_events \<noteq> 0 then EPOLL_CTL_MOD else EPOLL_CTL_DEL);
                   ev' = EPOLLET OR left_events in
            if \<not> ctl op (fc_fd c) ev' then Inr io
            else let io = io\<lparr>ep_log := ep_log io @ [(op, fc_fd c, ev')]\<rparr> in
              err_bind (trigger_if (real_events AND READ \<noteq> 0) READ io c) (\<lambda>(c, io).
              err_bind (trigger_if (real_events AND WRITE \<noteq> 0) WRITE io c) (\<lambda>(c, io).
                Inr (put_ctx io i c))))"

fun idle_events ::
  "(epoll_op \<Rightarrow> nat \<Rightarrow> u32 \<Rightarrow> bool) \<Rightarrow> iomanager \<Rightarrow> ep_event list \<Rightarrow> io_error + iomanager" where
  "idle_events ctl io [] = Inr io"
| "idle_events ctl io (e # es) = err_bind (idle_event ctl io e) (\<lambda>io. idle_events ctl io es)"

text \<open>
  The expired timers: \<open>cbid\<close> gives the identity of the function objects that go to the queue
  under one lock.
\<close>

definition schedule_expired :: "(callback \<Rightarrow> nat) \<Rightarrow> iomanager \<Rightarrow> callback option list \<Rightarrow> iomanager" where
  "schedule_expired cbid io cbs =
     (if cbs = [] then io
      else let (t, s) = schedule_range (io_scheds io (io_id io))
                          (map (\<lambda>c. \<lparr>tk_fiber = None, tk_cb = map_option cbid c, tk_thread = - 1\<rparr>) cbs);
               io = io\<lparr>io_scheds := (io_scheds io)(io_id io := s)\<rparr>
           in if t then io_tickle io (io_id io) else io)"

text \<open>
  One round of the idle loop, from the return of \<^verbatim>\<open>epoll_wait\<close> to the point where the idle fiber
  swaps out.
\<close>

definition idle_round ::
  "(epoll_op \<Rightarrow> nat \<Rightarrow> u32 \<Rightarrow> bool) \<Rightarrow> (callback \<Rightarrow> nat) \<Rightarrow> iomanager \<Rightarrow> nat \<Rightarrow> u64 \<Rightarrow> ep_event list \<Rightarrow> io_error + iomanager" where
  "idle_round ctl cbid io np now events =
     (case listExpiredTimer (io_timers io) np now [] of
        Inl e \<Rightarrow> Inl (IoTimer e)
      | Inr (cbs, tm) \<Rightarrow> idle_events ctl (schedule_expired cbid (io\<lparr>io_timers := tm\<rparr>) cbs) events)"

text \<open>The state after the constructor, before \<^verbatim>\<open>start()\<close>.\<close>

definition new_IOManager :: "(nat \<Rightarrow> u32 \<Rightarrow> nat option) \<Rightarrow> nat \<Rightarrow> (nat \<Rightarrow> sched) \<Rightarrow> u64 \<Rightarrow> iomanager" where
  "new_IOManager ind sid scheds now =
     \<lparr>io_id = sid, io_scheds = scheds, io_pipe = (\<lambda>_. 0), io_timers = new_TimerManager now,
      m_pendingEventCount = 0, m_fdContexts = contextResize ind 32 [], ep_log = []\<rparr>"

text \<open>
  The destructor after its call of \<^verbatim>\<open>stop()\<close>, which ends the idle loops (\<open>io_stopping\<close>) and joins the threads: it closes the
  descriptors of the kernel queue and of the pipe and deletes every context; the calls are the result.
\<close>

datatype io_release = CloseEpoll | CloseTickle nat | DeleteContext fd_context

definition IOManager_release :: "iomanager \<Rightarrow> io_release list" where
  "IOManager_release io = [CloseEpoll, CloseTickle 0, CloseTickle 1] @ map DeleteContext (m_fdContexts io)"

end
