(* ===== verification/Hook.thy ===== *)
theory Hook
  imports FdManager IOManager
begin

text \<open>
  \<^verbatim>\<open>code/hook.cc\<close>: the system calls as the fibers see them. The original functions (\<^verbatim>\<open>read_f\<close> and
  the others) are outside the program: the results of their successive calls are an argument, each
  the return value with \<^verbatim>\<open>errno\<close>. What happens while a fiber waits is an argument too: whether the
  registration failed, or the fiber was resumed and which value \<^verbatim>\<open>tinfo->cancelled\<close> then has. An
  operation that has not returned when these lists end is \<open>None\<close>. The calls an operation makes are
  recorded in order.
\<close>

definition EINTR :: int where "EINTR = 4"
definition EBADF :: int where "EBADF = 9"
definition EAGAIN :: int where "EAGAIN = 11"
definition ETIMEDOUT :: int where "ETIMEDOUT = 110"
definition EINPROGRESS :: int where "EINPROGRESS = 115"

datatype io_call = CallFun | AddTimer u64 | CancelTimer | AddEvent u32 | YieldHold | GetSockError

datatype wait_result = AddFailed int | Woken int

subsection \<open>Blocking input and output\<close>

text \<open>\<^verbatim>\<open>retry:\<close> of \<^verbatim>\<open>do_io\<close>; the result is the return value, \<^verbatim>\<open>errno\<close> and the calls made.\<close>

fun do_io_loop ::
  "u64 \<Rightarrow> u32 \<Rightarrow> (int \<times> int) list \<Rightarrow> wait_result list \<Rightarrow> io_call list \<Rightarrow> (int \<times> int \<times> io_call list) option" where
  "do_io_loop to event [] ws calls = None"
| "do_io_loop to event ((n, err) # rs) ws calls =
     (let calls = calls @ [CallFun] in
      if n = - 1 \<and> err = EINTR then do_io_loop to event rs ws calls
      else if n = - 1 \<and> err = EAGAIN then
        let timed = (to \<noteq> - 1); calls = calls @ (if timed then [AddTimer to] else []) @ [AddEvent event] in
        (case ws of [] \<Rightarrow> None
         | AddFailed err' # _ \<Rightarrow> Some (- 1, err', calls @ (if timed then [CancelTimer] else []))
         | Woken cancelled # ws \<Rightarrow>
             let calls = calls @ [YieldHold] @ (if timed then [CancelTimer] else []) in
             if cancelled \<noteq> 0 then Some (- 1, cancelled, calls)
             else do_io_loop to event rs ws calls)
      else Some (n, err, calls))"

definition call_once :: "(int \<times> int) list \<Rightarrow> (int \<times> int \<times> io_call list) option" where
  "call_once rs = (case rs of [] \<Rightarrow> None | (n, err) # _ \<Rightarrow> Some (n, err, [CallFun]))"

definition do_io ::
  "bool \<Rightarrow> fd_ctx option \<Rightarrow> u32 \<Rightarrow> int \<Rightarrow> (int \<times> int) list \<Rightarrow> wait_result list \<Rightarrow> (int \<times> int \<times> io_call list) option" where
  "do_io hook_enable ctx event timeout_so rs ws =
     (if \<not> hook_enable then call_once rs
      else case ctx of None \<Rightarrow> call_once rs
      | Some c \<Rightarrow>
          if m_isClose c then Some (- 1, EBADF, [])
          else if \<not> m_isSocket c \<or> m_userNonblock c then call_once rs
          else do_io_loop (getTimeout c timeout_so) event rs ws [])"

text \<open>The timer callback of \<^verbatim>\<open>do_io\<close> and \<^verbatim>\<open>connect\<close>: \<open>None\<close> when the weak pointer has expired.\<close>

definition on_timeout :: "int option \<Rightarrow> int option \<times> bool" where
  "on_timeout tinfo =
     (case tinfo of None \<Rightarrow> (None, False)
      | Some cancelled \<Rightarrow> if cancelled \<noteq> 0 then (tinfo, False) else (Some ETIMEDOUT, True))"

definition hook_read where "hook_read en c = do_io en c READ SO_RCVTIMEO"
definition hook_readv where "hook_readv en c = do_io en c READ SO_RCVTIMEO"
definition hook_recv where "hook_recv en c = do_io en c READ SO_RCVTIMEO"
definition hook_recvfrom where "hook_recvfrom en c = do_io en c READ SO_RCVTIMEO"
definition hook_recvmsg where "hook_recvmsg en c = do_io en c READ SO_RCVTIMEO"
definition hook_write where "hook_write en c = do_io en c WRITE SO_SNDTIMEO"
definition hook_writev where "hook_writev en c = do_io en c WRITE SO_SNDTIMEO"
definition hook_send where "hook_send en c = do_io en c WRITE SO_SNDTIMEO"
definition hook_sendto where "hook_sendto en c = do_io en c WRITE SO_SNDTIMEO"
definition hook_sendmsg where "hook_sendmsg en c = do_io en c WRITE SO_SNDTIMEO"

subsection \<open>Sockets\<close>

text \<open>\<open>stat\<close> and \<open>flags\<close> describe the new descriptor to \<^verbatim>\<open>FdMgr\<close>.\<close>

definition hook_socket ::
  "bool \<Rightarrow> fd_manager \<Rightarrow> int \<Rightarrow> bool option \<Rightarrow> u32 \<Rightarrow> fd_error + int \<times> fd_manager" where
  "hook_socket hook_enable m fd stat flags =
     (if \<not> hook_enable then Inr (fd, m)
      else if fd = - 1 then Inr (fd, m)
      else err_bind (fd_get m fd True stat flags) (\<lambda>(_, m). Inr (fd, m)))"

definition hook_accept ::
  "bool \<Rightarrow> fd_manager \<Rightarrow> fd_ctx option \<Rightarrow> (int \<times> int) list \<Rightarrow> wait_result list \<Rightarrow> bool option \<Rightarrow> u32 \<Rightarrow>
     (fd_error + int \<times> fd_manager) option" where
  "hook_accept hook_enable m ctx rs ws stat flags =
     (case do_io hook_enable ctx READ SO_RCVTIMEO rs ws of None \<Rightarrow> None
      | Some (fd, _, _) \<Rightarrow>
          Some (if fd \<ge> 0 then err_bind (fd_get m fd True stat flags) (\<lambda>(_, m). Inr (fd, m)) else Inr (fd, m)))"

text \<open>
  \<^verbatim>\<open>connect_with_timeout\<close>: \<open>r\<close> is the result of \<^verbatim>\<open>connect_f\<close>, \<open>sockopt\<close> the answer of \<^verbatim>\<open>getsockopt\<close> (the
  pending error, or \<open>None\<close> when the call fails with \<open>opterr\<close>). When the registration fails the code
  goes on to ask for the pending error.
\<close>

definition connect_with_timeout ::
  "bool \<Rightarrow> fd_ctx option \<Rightarrow> u64 \<Rightarrow> int \<times> int \<Rightarrow> wait_result list \<Rightarrow> int option \<Rightarrow> int \<Rightarrow> (int \<times> int \<times> io_call list) option" where
  "connect_with_timeout hook_enable ctx timeout_ms r ws sockopt opterr =
     (let (n, err) = r; direct = Some (n, err, [CallFun]) in
      if \<not> hook_enable then direct
      else case ctx of None \<Rightarrow> Some (- 1, EBADF, [])
      | Some c \<Rightarrow>
          if m_isClose c then Some (- 1, EBADF, [])
          else if \<not> m_isSocket c \<or> m_userNonblock c then direct
          else if n = 0 then Some (0, err, [CallFun])
          else if n \<noteq> - 1 \<or> err \<noteq> EINPROGRESS then direct
          else let timed = (timeout_ms \<noteq> - 1);
                   calls = [CallFun] @ (if timed then [AddTimer timeout_ms] else []) @ [AddEvent WRITE];
                   finish = (\<lambda>calls. case sockopt of
                               None \<Rightarrow> Some (- 1, opterr, calls @ [GetSockError])
                             | Some e \<Rightarrow> if e = 0 then Some (0, err, calls @ [GetSockError])
                                         else Some (- 1, e, calls @ [GetSockError])) in
            (case ws of [] \<Rightarrow> None
             | AddFailed _ # _ \<Rightarrow> finish (calls @ (if timed then [CancelTimer] else []))
             | Woken cancelled # _ \<Rightarrow>
                 let calls = calls @ [YieldHold] @ (if timed then [CancelTimer] else []) in
                 if cancelled \<noteq> 0 then Some (- 1, cancelled, calls) else finish calls))"

text \<open>\<^verbatim>\<open>close\<close>: the waiters of the descriptor are cancelled before the original call.\<close>

datatype hook_error = HookIo io_error | HookFd fd_error | NullCtx

definition hook_close ::
  "(epoll_op \<Rightarrow> nat \<Rightarrow> u32 \<Rightarrow> bool) \<Rightarrow> bool \<Rightarrow> fd_manager \<Rightarrow> iomanager option \<Rightarrow> int \<Rightarrow>
     hook_error + fd_manager \<times> iomanager option" where
  "hook_close ctl hook_enable m iom fd =
     (if \<not> hook_enable then Inr (m, iom)
      else case fd_get m fd False None 0 of
        Inl e \<Rightarrow> Inl (HookFd e)
      | Inr (None, m) \<Rightarrow> Inr (m, iom)
      | Inr (Some _, m) \<Rightarrow>
          (case (case iom of None \<Rightarrow> Inr None
                 | Some io \<Rightarrow> err_bind (cancelAll ctl io fd) (\<lambda>(_, io). Inr (Some io))) of
             Inl e \<Rightarrow> Inl (HookIo e)
           | Inr iom \<Rightarrow>
               (case fd_del m fd of Inl e \<Rightarrow> Inl (HookFd e) | Inr m \<Rightarrow> Inr (m, iom))))"

subsection \<open>Sleeping\<close>

text \<open>The delays for which the sleep functions arm the timer that reschedules the fiber.\<close>

definition sleep_ms :: "u32 \<Rightarrow> u64" where
  "sleep_ms seconds = ucast (seconds * 1000)"

definition usleep_ms :: "u32 \<Rightarrow> u64" where
  "usleep_ms usec = ucast (usec div 1000)"

definition nanosleep_ms :: "int \<Rightarrow> int \<Rightarrow> u64" where
  "nanosleep_ms tv_sec tv_nsec =
     (let timeout_ms = word_of_int (tv_sec * 1000 + tv_nsec div 1000000) :: u32 in scast timeout_ms)"

text \<open>
  The calls themselves: a timer whose callback \<open>wake\<close> schedules the calling fiber again, then the
  fiber yields; \<open>p\<close> is the address of the new timer.
\<close>

definition sleep_for :: "bool \<Rightarrow> iomanager \<Rightarrow> nat \<Rightarrow> u64 \<Rightarrow> callback \<Rightarrow> u64 \<Rightarrow> iomanager \<times> io_call list" where
  "sleep_for hook_enable io p now wake ms =
     (if \<not> hook_enable then (io, [CallFun])
      else (io_addTimer io p now ms (Some wake) False, [AddTimer ms, YieldHold]))"

definition hook_sleep where
  "hook_sleep hook_enable io p now wake seconds = sleep_for hook_enable io p now wake (sleep_ms seconds)"

definition hook_usleep where
  "hook_usleep hook_enable io p now wake usec = sleep_for hook_enable io p now wake (usleep_ms usec)"

definition hook_nanosleep where
  "hook_nanosleep hook_enable io p now wake tv_sec tv_nsec =
     sleep_for hook_enable io p now wake (nanosleep_ms tv_sec tv_nsec)"

subsection \<open>Descriptor flags and options\<close>

text \<open>
  The commands of \<^verbatim>\<open>fcntl\<close> by the case of the switch they fall into. \<open>fcntl_f\<close> is the original
  function. Several cases call \<^verbatim>\<open>fcntl\<close>, the hook itself, where the original is meant; \<open>depth\<close> is the
  room left on the call stack, and \<open>None\<close> means that it is exhausted.
\<close>

datatype fcntl_cmd =
    F_SETFL_like
  | F_GETFL
  | F_int_arg
  | F_no_arg
  | F_ptr_arg
  | F_other

fun hook_fcntl ::
  "nat \<Rightarrow> (fcntl_cmd \<Rightarrow> u32 \<Rightarrow> u32) \<Rightarrow> fd_ctx option \<Rightarrow> fcntl_cmd \<Rightarrow> u32 \<Rightarrow> (hook_error + u32 \<times> fd_ctx option) option" where
  "hook_fcntl 0 fcntl_f ctx cmd arg = None"
| "hook_fcntl (Suc depth) fcntl_f ctx cmd arg =
     (case cmd of
        F_SETFL_like \<Rightarrow>
          (case ctx of None \<Rightarrow> Some (Inr (fcntl_f cmd arg, ctx))
           | Some c \<Rightarrow>
               if m_isClose c \<or> \<not> m_isSocket c then Some (Inr (fcntl_f cmd arg, ctx))
               else let c = setUserNonblock c (arg AND O_NONBLOCK \<noteq> 0);
                        arg = (if m_sysNonbool c then arg OR O_NONBLOCK else arg AND NOT O_NONBLOCK)
                    in Some (Inr (fcntl_f cmd arg, Some c)))
      | F_GETFL \<Rightarrow>
          (case hook_fcntl depth fcntl_f ctx cmd arg of
             None \<Rightarrow> None
           | Some (Inl e) \<Rightarrow> Some (Inl e)
           | Some (Inr (arg, ctx)) \<Rightarrow>
               (case ctx of None \<Rightarrow> Some (Inl NullCtx)
                | Some c \<Rightarrow>
                    if \<not> m_isClose c \<and> m_isSocket c then Some (Inr (arg, ctx))
                    else Some (Inr (if m_userNonblock c then arg OR O_NONBLOCK else arg AND NOT O_NONBLOCK, ctx))))
      | F_int_arg \<Rightarrow> Some (Inr (fcntl_f cmd arg, ctx))
      | F_no_arg \<Rightarrow> hook_fcntl depth fcntl_f ctx cmd arg
      | F_ptr_arg \<Rightarrow> Some (Inr (fcntl_f cmd arg, ctx))
      | F_other \<Rightarrow> hook_fcntl depth fcntl_f ctx cmd arg)"

text \<open>\<^verbatim>\<open>ioctl\<close>: the recorded user flag is computed and dropped; a \<^verbatim>\<open>FIONBIO\<close> on anything but a socket recurses.\<close>

fun hook_ioctl :: "nat \<Rightarrow> int \<Rightarrow> fd_ctx option \<Rightarrow> bool \<Rightarrow> int option" where
  "hook_ioctl 0 ioctl_f ctx fionbio = None"
| "hook_ioctl (Suc depth) ioctl_f ctx fionbio =
     (if fionbio then
        (case ctx of None \<Rightarrow> hook_ioctl depth ioctl_f ctx fionbio
         | Some c \<Rightarrow>
             if m_isClose c \<or> \<not> m_isSocket c then hook_ioctl depth ioctl_f ctx fionbio
             else Some ioctl_f)
      else Some ioctl_f)"

definition hook_setsockopt :: "bool \<Rightarrow> fd_ctx option \<Rightarrow> bool \<Rightarrow> int \<Rightarrow> int \<Rightarrow> int \<Rightarrow> fd_ctx option" where
  "hook_setsockopt hook_enable ctx sol_socket optname tv_sec tv_usec =
     (if \<not> hook_enable then ctx
      else if sol_socket \<and> (optname = SO_RCVTIMEO \<or> optname = SO_SNDTIMEO) then
        map_option (\<lambda>c. setTimeout c optname (word_of_int (tv_sec * 1000 + tv_usec div 1000))) ctx
      else ctx)"

subsection \<open>Blocking calls\<close>

definition timers_added :: "io_call list \<Rightarrow> nat" where
  "timers_added cs = length (filter (\<lambda>c. case c of AddTimer _ \<Rightarrow> True | _ \<Rightarrow> False) cs)"

definition timers_cancelled :: "io_call list \<Rightarrow> nat" where
  "timers_cancelled cs = length (filter (\<lambda>c. c = CancelTimer) cs)"

definition fun_calls :: "io_call list \<Rightarrow> nat" where
  "fun_calls cs = length (filter (\<lambda>c. c = CallFun) cs)"

lemma count_append [simp]:
  "timers_added (xs @ ys) = timers_added xs + timers_added ys"
  "timers_cancelled (xs @ ys) = timers_cancelled xs + timers_cancelled ys"
  "fun_calls (xs @ ys) = fun_calls xs + fun_calls ys"
  by (simp_all add: timers_added_def timers_cancelled_def fun_calls_def)

lemma count_Cons [simp]:
  "timers_added (c # cs) = (case c of AddTimer _ \<Rightarrow> 1 | _ \<Rightarrow> 0) + timers_added cs" "timers_added [] = 0"
  "timers_cancelled (c # cs) = of_bool (c = CancelTimer) + timers_cancelled cs" "timers_cancelled [] = 0"
  "fun_calls (c # cs) = of_bool (c = CallFun) + fun_calls cs" "fun_calls [] = 0"
  by (simp_all add: timers_added_def timers_cancelled_def fun_calls_def split: io_call.split)

text \<open>What a returned result of the loop can be.\<close>

definition io_outcome :: "(int \<times> int) list \<Rightarrow> wait_result list \<Rightarrow> int \<times> int \<Rightarrow> bool" where
  "io_outcome rs ws r \<longleftrightarrow>
     r \<in> set rs \<and> \<not> (fst r = - 1 \<and> (snd r = EINTR \<or> snd r = EAGAIN)) \<or>
     fst r = - 1 \<and> (\<exists>c. Woken c \<in> set ws \<and> c \<noteq> 0 \<and> snd r = c) \<or>
     fst r = - 1 \<and> AddFailed (snd r) \<in> set ws"

lemma io_outcome_Cons:
  "io_outcome rs ws r \<Longrightarrow> io_outcome (x # rs) ws r" "io_outcome rs ws r \<Longrightarrow> io_outcome rs (w # ws) r"
  by (auto simp: io_outcome_def)

lemma do_io_loop_ok:
  assumes "do_io_loop to event rs ws calls = Some (n, err, calls')"
  shows "io_outcome rs ws (n, err) \<and>
         timers_added calls' + timers_cancelled calls = timers_added calls + timers_cancelled calls' \<and>
         (to = - 1 \<longrightarrow> timers_added calls' = timers_added calls)"
  using assms
proof (induction to event rs ws calls rule: do_io_loop.induct)
  case (2 to event n0 err0 rs ws calls)
  let ?calls = "(calls @ [CallFun]) @ (if to \<noteq> - 1 then [AddTimer to] else []) @ [AddEvent event]"
  let ?calls' = "?calls @ [YieldHold] @ (if to \<noteq> - 1 then [CancelTimer] else [])"
  consider (intr) "n0 = - 1" "err0 = EINTR"
    | (failed) e ws' where "n0 = - 1" "err0 = EAGAIN" "ws = AddFailed e # ws'"
    | (woken) c ws' where "n0 = - 1" "err0 = EAGAIN" "ws = Woken c # ws'"
    | (block) "n0 = - 1" "err0 = EAGAIN" "ws = []"
    | (ret) "\<not> (n0 = - 1 \<and> (err0 = EINTR \<or> err0 = EAGAIN))"
    by (metis list.exhaust wait_result.exhaust)
  then show ?case
  proof cases
    case intr
    then show ?thesis using "2.IH"(1) "2.prems" by (auto simp: Let_def intro: io_outcome_Cons)
  next
    case failed
    then show ?thesis using "2.prems" by (auto simp: Let_def EINTR_def EAGAIN_def io_outcome_def split: if_splits)
  next
    case woken
    show ?thesis
    proof (cases "c = 0")
      case True
      then have "do_io_loop to event rs ws' ?calls' = Some (n, err, calls')"
        using "2.prems" woken by (simp add: Let_def EINTR_def EAGAIN_def)
      then show ?thesis
        using "2.IH"(2) [OF refl _ _ refl refl woken(3) refl refl] woken True
        by (auto simp: EINTR_def EAGAIN_def intro: io_outcome_Cons split: if_splits)
    next
      case False
      then show ?thesis
        using "2.prems" woken by (auto simp: Let_def EINTR_def EAGAIN_def io_outcome_def split: if_splits)
    qed
  next
    case block
    then show ?thesis using "2.prems" by (simp add: Let_def EINTR_def EAGAIN_def)
  next
    case ret
    then show ?thesis using "2.prems" by (auto simp: Let_def io_outcome_def split: if_splits)
  qed
qed simp

text \<open>A run of attempts that are retried: interrupted, or repeated after a wait that was not cancelled.\<close>

definition retried :: "(int \<times> int) list \<Rightarrow> bool" where
  "retried rs \<longleftrightarrow> list_all (\<lambda>(n, err). n = - 1 \<and> (err = EINTR \<or> err = EAGAIN)) rs"

definition waits :: "(int \<times> int) list \<Rightarrow> nat" where
  "waits rs = length (filter (\<lambda>r. snd r = EAGAIN) rs)"

definition retry_calls :: "u64 \<Rightarrow> u32 \<Rightarrow> int \<times> int \<Rightarrow> io_call list" where
  "retry_calls to event r =
     CallFun # (if snd r = EAGAIN
                then (if to \<noteq> - 1 then [AddTimer to, AddEvent event, YieldHold, CancelTimer] else [AddEvent event, YieldHold])
                else [])"

lemma do_io_loop_retried:
  assumes "retried rs"
  shows "do_io_loop to event (rs @ rs') (replicate (waits rs) (Woken 0) @ ws) calls =
         do_io_loop to event rs' ws (calls @ concat (map (retry_calls to event) rs))"
  using assms
proof (induction rs arbitrary: calls)
  case (Cons r rs)
  then show ?case
    by (cases r) (auto simp: retried_def waits_def retry_calls_def EINTR_def EAGAIN_def Let_def)
qed (simp add: waits_def)

lemma fun_calls_retry: "fun_calls (concat (map (retry_calls to event) rs)) = length rs"
  by (induction rs) (simp_all add: retry_calls_def)

end
