(* ===== verification/Scheduler_Props.thy ===== *)
theory Scheduler_Props
  imports Scheduler
begin

text \<open>
  The scheduler of \<^verbatim>\<open>code/scheduler.cc\<close>: the counter of active threads is exact in every
  reachable state, so that no task is executed when \<^verbatim>\<open>stopping()\<close> is true; the selection of a task is first come
  first served among the tasks the thread may run; and the window in \<^verbatim>\<open>YieldToHold\<close> lets two
  threads execute one fiber.
\<close>

subsection \<open>Counting workers\<close>

fun active_pc :: "pc \<Rightarrow> bool" where
  "active_pc (Dispatch (Some _)) = True"
| "active_pc (Running sl _ _) = (sl \<noteq> SIdle)"
| "active_pc (After sl _) = (sl \<noteq> SIdle)"
| "active_pc _ = False"

definition workers_at :: "(pc \<Rightarrow> bool) \<Rightarrow> sched \<Rightarrow> nat" where
  "workers_at P s = length (filter (\<lambda>w. P (w_pc w)) (sc_workers s))"

lemma filter_update_count:
  assumes "k < length xs"
  shows "length (filter P (xs[k := x])) + of_bool (P (xs ! k)) = length (filter P xs) + of_bool (P x)"
proof -
  have "filter P (xs[k := x]) = filter P (take k xs) @ filter P [x] @ filter P (drop (Suc k) xs)"
    using assms by (simp add: upd_conv_take_nth_drop)
  moreover have "filter P xs = filter P (take k xs) @ filter P [xs ! k] @ filter P (drop (Suc k) xs)"
    by (subst id_take_nth_drop [OF assms]) simp
  ultimately show ?thesis by simp
qed

lemma workers_at_set_pc:
  assumes "k < length (sc_workers s)"
  shows "workers_at P (set_pc s k pc) + of_bool (P (w_pc (sc_workers s ! k))) = workers_at P s + of_bool (P pc)"
  using filter_update_count [OF assms, of "\<lambda>w. P (w_pc w)" "(sc_workers s ! k)\<lparr>w_pc := pc\<rparr>"]
  by (simp add: workers_at_def set_pc_def set_worker_def)

definition tasks_ok :: "task list \<Rightarrow> bool" where
  "tasks_ok ts \<longleftrightarrow> list_all (\<lambda>t. tk_fiber t \<noteq> None \<or> tk_cb t \<noteq> None) ts"

definition sched_inv :: "sched \<Rightarrow> bool" where
  "sched_inv s \<longleftrightarrow>
     m_activeThreadCount s = workers_at active_pc s \<and> tasks_ok (m_fibers s)"

lemma schedule_inv: "sched_inv s \<Longrightarrow> sched_inv (snd (schedule s ft))"
  by (auto simp: sched_inv_def schedule_def scheduleNoLock_def workers_at_def tasks_ok_def Let_def)

subsection \<open>Selection\<close>

definition eligible :: "int \<Rightarrow> fiber_sys \<Rightarrow> task \<Rightarrow> bool" where
  "eligible tid sys tk \<longleftrightarrow>
     (tk_thread tk = - 1 \<or> tk_thread tk = tid) \<and>
     (\<forall>f. tk_fiber tk = Some f \<longrightarrow> state_of sys f \<noteq> Some EXEC)"

definition foreign :: "int \<Rightarrow> task \<Rightarrow> bool" where
  "foreign tid tk \<longleftrightarrow> tk_thread tk \<noteq> - 1 \<and> tk_thread tk \<noteq> tid"

lemma pick_loop_eq:
  assumes "tasks_ok ts"
  shows "pick_loop tid sys skipped ts tickle =
           (let (xs, ys) = (takeWhile (\<lambda>t. \<not> eligible tid sys t) ts, dropWhile (\<lambda>t. \<not> eligible tid sys t) ts) in
            Inr (case ys of [] \<Rightarrow> None | t # zs \<Rightarrow> Some (t, skipped @ xs @ zs),
                 tickle \<or> list_ex (foreign tid) xs))"
  using assms
proof (induction ts arbitrary: skipped tickle)
  case (Cons t ts)
  then have ok: "tk_fiber t \<noteq> None \<or> tk_cb t \<noteq> None" and IH:
    "pick_loop tid sys sk ts ti =
       (let (xs, ys) = (takeWhile (\<lambda>t. \<not> eligible tid sys t) ts, dropWhile (\<lambda>t. \<not> eligible tid sys t) ts) in
        Inr (case ys of [] \<Rightarrow> None | t # zs \<Rightarrow> Some (t, sk @ xs @ zs), ti \<or> list_ex (foreign tid) xs))" for sk ti
    by (simp_all add: tasks_ok_def)
  consider (foreign) "foreign tid t" | (pick) "eligible tid sys t"
    | (busy) f where "tk_fiber t = Some f" "state_of sys f = Some EXEC" "\<not> foreign tid t"
    by (auto simp: eligible_def foreign_def)
  then show ?case
  proof cases
    case foreign
    then have "\<not> eligible tid sys t" by (auto simp: eligible_def foreign_def)
    then show ?thesis using foreign by (simp add: IH foreign_def Let_def del: dropWhile_eq_Nil_conv split: list.split)
  next
    case pick
    then show ?thesis using ok by (auto simp: eligible_def split: option.split)
  next
    case busy
    then have "\<not> eligible tid sys t" and "\<not> (tk_thread t \<noteq> - 1 \<and> tk_thread t \<noteq> tid)"
      by (auto simp: eligible_def foreign_def)
    then show ?thesis using busy by (auto simp: IH Let_def simp del: dropWhile_eq_Nil_conv split: list.split)
  qed
qed simp

lemma tasks_ok_sub: "tasks_ok ts \<Longrightarrow> set us \<subseteq> set ts \<Longrightarrow> tasks_ok us"
  by (auto simp: tasks_ok_def list_all_iff)

lemma run_pick_cases:
  assumes "sched_inv s" and "run_pick s k stale = Inr (t, s')"
  obtains "s' = set_pc s k (Dispatch None)" "\<forall>tk\<in>set (m_fibers s). \<not> eligible (w_tid (sc_workers s ! k)) (sc_sys s) tk"
  | xs tk ys where "m_fibers s = xs @ tk # ys" "eligible (w_tid (sc_workers s ! k)) (sc_sys s) tk"
      "\<forall>x\<in>set xs. \<not> eligible (w_tid (sc_workers s ! k)) (sc_sys s) x"
      "s' = set_pc (s\<lparr>m_fibers := xs @ ys, m_activeThreadCount := m_activeThreadCount s + 1\<rparr>) k (Dispatch (Some tk))"
proof -
  let ?E = "eligible (w_tid (sc_workers s ! k)) (sc_sys s)"
  let ?xs = "takeWhile (\<lambda>t. \<not> ?E t) (m_fibers s)" and ?ys = "dropWhile (\<lambda>t. \<not> ?E t) (m_fibers s)"
  have ok: "tasks_ok (m_fibers s)" using assms(1) by (simp add: sched_inv_def)
  have sp: "m_fibers s = ?xs @ ?ys" by simp
  show ?thesis
  proof (cases ?ys)
    case Nil
    then have "s' = set_pc s k (Dispatch None)"
      using assms(2) by (simp add: run_pick_def pick_loop_eq [OF ok] Let_def del: dropWhile_eq_Nil_conv)
    moreover have "\<forall>tk\<in>set (m_fibers s). \<not> ?E tk" using Nil by (simp add: dropWhile_eq_Nil_conv)
    ultimately show ?thesis by (rule that(1))
  next
    case (Cons tk ys)
    have "?E tk" using Cons by (metis dropWhile_eq_Cons_conv)
    moreover have "\<forall>x\<in>set ?xs. \<not> ?E x" by (auto dest: set_takeWhileD)
    moreover have "s' = set_pc (s\<lparr>m_fibers := ?xs @ ys, m_activeThreadCount := m_activeThreadCount s + 1\<rparr>) k (Dispatch (Some tk))"
      using assms(2) Cons by (simp add: run_pick_def pick_loop_eq [OF ok] Let_def)
    ultimately show ?thesis using that(2) [of ?xs tk ys] sp Cons by simp
  qed
qed


subsection \<open>The invariant\<close>

lemmas count_simps = sched_inv_def workers_at_def tasks_ok_def

text \<open>Moving a worker from one program point to another changes the counts by what the points say.\<close>

lemma move_inv:
  assumes "k < length (sc_workers s)" and "sched_inv s"
    and "sc_workers s' = sc_workers s" and "tasks_ok (m_fibers s')"
    and "m_activeThreadCount s' + of_bool (active_pc (w_pc (sc_workers s ! k))) = m_activeThreadCount s + of_bool (active_pc pc)"
  shows "sched_inv (set_pc s' k pc)"
proof -
  have eq: "workers_at P s' = workers_at P s" for P using assms(3) by (simp add: workers_at_def)
  have k: "k < length (sc_workers s')" and w: "sc_workers s' ! k = sc_workers s ! k" using assms(1,3) by simp_all
  have same: "m_activeThreadCount (set_pc s' k pc) = m_activeThreadCount s'"
    "m_fibers (set_pc s' k pc) = m_fibers s'"
    by (simp_all add: set_pc_def set_worker_def)
  show ?thesis
    using workers_at_set_pc [OF k, of active_pc pc] assms(2,4,5)
    unfolding sched_inv_def same eq w by (auto simp: of_bool_def split: if_splits)
qed

lemma enter_inv:
  assumes k: "k < length (sc_workers s)" and inv: "sched_inv s"
    and "sc_workers s' = sc_workers s" and "m_fibers s' = m_fibers s"
    and act: "m_activeThreadCount s' + of_bool (active_pc (w_pc (sc_workers s ! k))) = m_activeThreadCount s + of_bool (sl \<noteq> SIdle)"
    and e: "enter s' k sl f = Inr s''"
  shows "sched_inv s''"
proof -
  obtain sys where "s'' = set_pc (s'\<lparr>sc_sys := sys\<rparr>) k (Running sl f False)"
    using e by (auto simp: enter_def err_bind_eq_Inr)
  then show ?thesis
    using move_inv [OF k inv, of "s'\<lparr>sc_sys := sys\<rparr>" "Running sl f False"] assms(3,4) act inv
    by (simp add: sched_inv_def)
qed

lemma set_cb_fiber_inv:
  "k < length (sc_workers s) \<Longrightarrow> sched_inv s \<Longrightarrow> sched_inv (set_worker s k ((sc_workers s ! k)\<lparr>w_cb_fiber := c\<rparr>))"
  using filter_update_count [of k "sc_workers s" "\<lambda>w. active_pc (w_pc w)" "(sc_workers s ! k)\<lparr>w_cb_fiber := c\<rparr>"]
  by (simp add: count_simps set_worker_def)

lemma sched_inv_sys: "sched_inv (s\<lparr>sc_sys := sys\<rparr>) \<longleftrightarrow> sched_inv s"
  by (simp add: count_simps)

lemma run_cb_inv:
  assumes k: "k < length (sc_workers s)" and inv: "sched_inv s"
    and p: "active_pc (w_pc (sc_workers s ! k))" and r: "run_cb s k cb np = Inr s'"
  shows "sched_inv s'"
proof (cases "w_cb_fiber (sc_workers s ! k)")
  case (Some f)
  then obtain sys where e: "enter (s\<lparr>sc_sys := sys\<rparr>) k SCb f = Inr s'"
    using r by (auto simp: run_cb_def Let_def err_bind_eq_Inr)
  then show ?thesis using enter_inv [OF k inv _ _ _ e] p by simp
next
  case None
  let ?s = "set_worker (s\<lparr>sc_sys := new_Fiber (sc_sys s) np (Some cb) 0 False\<rparr>) k ((sc_workers s ! k)\<lparr>w_cb_fiber := Some np\<rparr>)"
  have e: "enter ?s k SCb np = Inr s'" using r None by (simp add: run_cb_def Let_def)
  have inv': "sched_inv ?s"
    using set_cb_fiber_inv [of k "s\<lparr>sc_sys := new_Fiber (sc_sys s) np (Some cb) 0 False\<rparr>" "Some np"] k inv
    by (simp add: sched_inv_sys)
  have k': "k < length (sc_workers ?s)" and w: "w_pc (sc_workers ?s ! k) = w_pc (sc_workers s ! k)"
    using k by (simp_all add: set_worker_def)
  show ?thesis using enter_inv [OF k' inv' refl refl _ e] p w by simp
qed

lemma active_pos:
  assumes "k < length (sc_workers s)" and "sched_inv s" and "active_pc (w_pc (sc_workers s ! k))"
  shows "0 < m_activeThreadCount s"
proof -
  have "sc_workers s ! k \<in> set (filter (\<lambda>w. active_pc (w_pc w)) (sc_workers s))" using assms by simp
  then show ?thesis using assms(2) by (auto simp: count_simps simp del: set_filter dest: length_pos_if_in_set)
qed

lemma run_dispatch_inv:
  assumes k: "k < length (sc_workers s)" and inv: "sched_inv s"
    and p: "w_pc (sc_workers s ! k) = Dispatch ft" and r: "run_dispatch s k ft np = Inr s'"
  shows "sched_inv s'"
proof (cases ft)
  case None
  show ?thesis
  proof (cases "state_of (sc_sys s) (w_idle_fiber (sc_workers s ! k)) = Some TERM'")
    case True
    then have "s' = set_pc s k Done" using r None by (simp add: run_dispatch_def run_idle_def Let_def)
    then show ?thesis using move_inv [OF k inv, of s Done] p None inv by (simp add: sched_inv_def)
  next
    case False
    then have e: "enter (s\<lparr>m_idleThreadCount := m_idleThreadCount s + 1\<rparr>) k SIdle (w_idle_fiber (sc_workers s ! k)) = Inr s'"
      using r None by (simp add: run_dispatch_def run_idle_def Let_def)
    show ?thesis by (rule enter_inv [OF k inv _ _ _ e]) (simp_all add: p None)
  qed
next
  case (Some tk)
  let ?skip = "set_pc (s\<lparr>m_activeThreadCount := m_activeThreadCount s - 1\<rparr>) k Pick"
  have act: "active_pc (w_pc (sc_workers s ! k))" using p Some by simp
  have "(\<exists>f. enter s k SFiber f = Inr s') \<or> (\<exists>cb. run_cb s k cb np = Inr s') \<or> s' = ?skip"
    using r Some by (cases "tk_fiber tk"; cases "tk_cb tk") (simp_all add: run_dispatch_def Let_def exI split: if_splits)
  then consider f where "enter s k SFiber f = Inr s'" | cb where "run_cb s k cb np = Inr s'" | "s' = ?skip"
    by blast
  then show ?thesis
  proof cases
    case 1
    show ?thesis by (rule enter_inv [OF k inv _ _ _ 1]) (simp_all add: act)
  next
    case 2
    then show ?thesis by (rule run_cb_inv [OF k inv act])
  next
    case 3
    then show ?thesis
      using move_inv [OF k inv, of "s\<lparr>m_activeThreadCount := m_activeThreadCount s - 1\<rparr>" Pick]
        active_pos [OF k inv act] act inv by (simp add: sched_inv_def)
  qed
qed


lemma run_pick_inv:
  assumes k: "k < length (sc_workers s)" and inv: "sched_inv s"
    and p: "w_pc (sc_workers s ! k) = Pick" and r: "run_pick s k stale = Inr (t, s')"
  shows "sched_inv s'"
proof (rule run_pick_cases [OF inv r])
  assume "s' = set_pc s k (Dispatch None)"
  then show ?thesis using move_inv [OF k inv, of s "Dispatch None"] p inv by (simp add: sched_inv_def)
next
  fix xs tk ys
  let ?s = "s\<lparr>m_fibers := xs @ ys, m_activeThreadCount := m_activeThreadCount s + 1\<rparr>"
  assume m: "m_fibers s = xs @ tk # ys" and s': "s' = set_pc ?s k (Dispatch (Some tk))"
  have "tasks_ok (xs @ ys)" using inv m by (simp add: sched_inv_def tasks_ok_def)
  then show ?thesis using move_inv [OF k inv, of ?s "Dispatch (Some tk)"] p s' by simp
qed

lemma run_after_inv:
  assumes k: "k < length (sc_workers s)" and inv: "sched_inv s" and p: "w_pc (sc_workers s ! k) = After sl f"
  shows "sched_inv (run_after s k sl f)"
proof (cases "sl = SIdle")
  case True
  then show ?thesis
    using move_inv [OF k inv, of "s\<lparr>m_idleThreadCount := m_idleThreadCount s - 1\<rparr>" "Post sl f"] p inv
    by (simp add: run_after_def sched_inv_def)
next
  case False
  then show ?thesis
    using move_inv [OF k inv, of "s\<lparr>m_activeThreadCount := m_activeThreadCount s - 1\<rparr>" "Post sl f"] p inv
      active_pos [OF k inv] by (simp add: run_after_def sched_inv_def)
qed

lemma length_set_pc [simp]: "length (sc_workers (set_pc s k pc)) = length (sc_workers s)"
  by (simp add: set_pc_def set_worker_def)

lemma drop_cb_fiber_inv: "k < length (sc_workers s) \<Longrightarrow> sched_inv s \<Longrightarrow> sched_inv (drop_cb_fiber s k)"
  by (simp add: drop_cb_fiber_def set_cb_fiber_inv)

lemma workers_schedule [simp]: "sc_workers (snd (schedule s ft)) = sc_workers s"
  by (simp add: schedule_def scheduleNoLock_def Let_def)

lemma run_post_inv:
  assumes k: "k < length (sc_workers s)" and inv: "sched_inv s" and p: "w_pc (sc_workers s ! k) = Post sl f"
    and r: "run_post s k sl f = Inr s'"
  shows "sched_inv s'"
proof -
  let ?s = "set_pc s k Pick"
  have i: "sched_inv ?s" using move_inv [OF k inv, of s Pick] p inv by (simp add: sched_inv_def)
  have k': "k < length (sc_workers ?s)" using k by simp
  have h: "sched_inv (?s\<lparr>sc_sys := sys\<rparr>)" for sys using i by (simp add: sched_inv_sys)
  have c: "sched_inv (snd (schedule ?s (fiber_task f)))" using i by (rule schedule_inv)
  have d: "sched_inv (drop_cb_fiber (snd (schedule ?s (fiber_task f))) k)" "sched_inv (drop_cb_fiber (?s\<lparr>sc_sys := sys\<rparr>) k)" for sys
    using c h k by (simp_all add: drop_cb_fiber_inv)
  show ?thesis
    using r i h c d by (cases sl) (auto simp: run_post_def Let_def err_bind_eq_Inr split: if_splits)
qed

lemma sched_frame_inv:
  "sched_inv (s\<lparr>m_autoStop := a\<rparr>) = sched_inv s" "sched_inv (s\<lparr>m_stopping := b\<rparr>) = sched_inv s"
  "sched_inv (s\<lparr>m_threads := c\<rparr>) = sched_inv s" "sched_inv (s\<lparr>m_threadIds := d\<rparr>) = sched_inv s"
  by (simp_all add: count_simps)

lemma sched_step_inv: "sched_step s s' \<Longrightarrow> sched_inv s \<Longrightarrow> sched_inv s'"
proof (induction rule: sched_step.induct)
  case (leave k s sl f st)
  then show ?case
    using move_inv [of k s "s\<lparr>sc_sys := sys\<rparr>" "Running sl f True" for sys]
    by (simp add: leave_state_def sched_inv_def)
next
  case (swap k s sl f s')
  then show ?case
    using move_inv [of k s s "After sl f"] by (auto simp: leave_swap_def sched_inv_def err_bind_eq_Inr)
next
  case (start s tids s')
  then show ?case
    by (auto simp: sched_start_def Let_def sched_frame_inv split: if_splits)
next
  case (worker s mainp idlep tid)
  then show ?case by (auto simp: run_start_def Let_def count_simps split: prod.splits option.splits)
next
  case (stop s current a n s')
  then show ?case
    by (auto simp: sched_stop_def Let_def sched_frame_inv split: if_splits option.splits)
next
  case (join s)
  then show ?case by (simp add: sched_join_def sched_frame_inv)
next
  case (lost s n)
  then show ?case by (simp add: count_simps)
qed (auto intro: run_pick_inv run_dispatch_inv run_after_inv run_post_inv schedule_inv)

lemma sched_reachable_inv: "sched_reachable s \<Longrightarrow> sched_inv s"
proof -
  have "sched_step\<^sup>*\<^sup>* a b \<Longrightarrow> sched_inv a \<Longrightarrow> sched_inv b" for a b
    by (induction rule: rtranclp_induct) (auto intro: sched_step_inv)
  moreover have "new_Scheduler sys threads uc has tid root = Inr s0 \<Longrightarrow> sched_inv s0" for sys threads uc has tid root s0
    by (auto simp: new_Scheduler_def count_simps split: if_splits)
  ultimately show "sched_reachable s \<Longrightarrow> sched_inv s" by (auto simp: sched_reachable_def)
qed


subsection \<open>Two threads in one fiber\<close>

text \<open>
  A run of two workers: worker 0 executes fiber 5; the fiber is scheduled again (the event it is
  about to wait for has fired) and stores \<^verbatim>\<open>HOLD\<close> in \<^verbatim>\<open>YieldToHold\<close>; before it reaches
  \<^verbatim>\<open>swapcontext\<close>, worker 1 selects it and switches to it.
\<close>

definition demo_sys :: fiber_sys where
  "demo_sys =
     \<lparr>fibers = [5 \<mapsto> \<lparr>f_id = 1, f_stacksize = 0, f_state = INIT, f_entry = Some MainFunc, f_stack = True, f_cb = Some 7\<rparr>],
      s_fiber_id = 1, s_fiber_count = 1, g_fiber_stack_size = 0\<rparr>"

definition demo_s0 :: sched where
  "demo_s0 = projr (new_Scheduler demo_sys 2 False False 0 99)"

definition demo_s2 :: sched where
  "demo_s2 = run_start (run_start demo_s0 1 10 11) 2 20 21"

definition demo_s3 :: sched where
  "demo_s3 = snd (schedule demo_s2 (fiber_task 5))"

definition demo_s4 :: sched where
  "demo_s4 = snd (projr (run_pick demo_s3 0 True))"

definition demo_s5 :: sched where
  "demo_s5 = projr (run_dispatch demo_s4 0 (Some (fiber_task 5)) 30)"

definition demo_s6 :: sched where
  "demo_s6 = leave_state (snd (schedule demo_s5 (fiber_task 5))) 0 SFiber 5 HOLD"

definition demo_s7 :: sched where
  "demo_s7 = snd (projr (run_pick demo_s6 1 True))"

definition demo_s8 :: sched where
  "demo_s8 = projr (run_dispatch demo_s7 1 (Some (fiber_task 5)) 30)"

lemma projr_Inr: "\<not> isl r \<Longrightarrow> r = Inr (projr r)"
  by (cases r) auto

lemma pick_step:
  assumes "k < length (sc_workers s)" and "w_pc (sc_workers s ! k) = Pick" and "\<not> isl (run_pick s k b)"
  shows "sched_step s (snd (projr (run_pick s k b)))"
  using sched_step.pick [OF assms(1,2), of b "fst (projr (run_pick s k b))"] projr_Inr [OF assms(3)] by simp

lemma dispatch_step:
  assumes "k < length (sc_workers s)" and "w_pc (sc_workers s ! k) = Dispatch ft" and "fibers (sc_sys s) np = None"
    and "\<not> isl (run_dispatch s k ft np)"
  shows "sched_step s (projr (run_dispatch s k ft np))"
  using sched_step.dispatch [OF assms(1-3)] projr_Inr [OF assms(4)] by blast

lemma demo_steps:
  "sched_step demo_s0 (run_start demo_s0 1 10 11)" "sched_step (run_start demo_s0 1 10 11) demo_s2"
  "sched_step demo_s2 demo_s3" "sched_step demo_s3 demo_s4" "sched_step demo_s4 demo_s5"
  "sched_step (snd (schedule demo_s5 (fiber_task 5))) demo_s6" "sched_step demo_s6 demo_s7" "sched_step demo_s7 demo_s8"
proof -
  show "sched_step demo_s0 (run_start demo_s0 1 10 11)" "sched_step (run_start demo_s0 1 10 11) demo_s2"
    unfolding demo_s2_def by (rule sched_step.worker; code_simp)+
  show "sched_step demo_s2 demo_s3" unfolding demo_s3_def by (rule sched_step.sched)
  show "sched_step demo_s3 demo_s4" unfolding demo_s4_def by (rule pick_step; code_simp)
  show "sched_step demo_s4 demo_s5" unfolding demo_s5_def by (rule dispatch_step; code_simp)
  have "w_pc (sc_workers (snd (schedule demo_s5 (fiber_task 5))) ! 0) = Running SFiber 5 False"
    and "0 < length (sc_workers (snd (schedule demo_s5 (fiber_task 5))))" by code_simp+
  then show "sched_step (snd (schedule demo_s5 (fiber_task 5))) demo_s6"
    unfolding demo_s6_def by (intro sched_step.leave) auto
  show "sched_step demo_s6 demo_s7" unfolding demo_s7_def by (rule pick_step; code_simp)
  show "sched_step demo_s7 demo_s8" unfolding demo_s8_def by (rule dispatch_step; code_simp)
qed

lemma demo_reachable: "sched_reachable demo_s2" "sched_reachable demo_s5"
proof -
  have n: "new_Scheduler demo_sys 2 False False 0 99 = Inr demo_s0"
    by (simp add: demo_s0_def new_Scheduler_def)
  have r2: "sched_step\<^sup>*\<^sup>* demo_s0 demo_s2" and r5: "sched_step\<^sup>*\<^sup>* demo_s2 demo_s5"
    using demo_steps(1-5) by (meson rtranclp.rtrancl_into_rtrancl rtranclp.rtrancl_refl)+
  show "sched_reachable demo_s2" "sched_reachable demo_s5"
    unfolding sched_reachable_def using n r2 rtranclp_trans [OF r2 r5] by blast+
qed

lemma race_run:
  "sched_reachable (snd (schedule demo_s5 (fiber_task 5)))" "sched_step (snd (schedule demo_s5 (fiber_task 5))) demo_s6"
  "sched_step\<^sup>*\<^sup>* demo_s6 demo_s8"
proof -
  show "sched_reachable (snd (schedule demo_s5 (fiber_task 5)))"
    using demo_reachable(2) rtranclp.rtrancl_into_rtrancl [where r = sched_step, OF _ sched_step.sched]
    unfolding sched_reachable_def by meson
  show "sched_step (snd (schedule demo_s5 (fiber_task 5))) demo_s6" "sched_step\<^sup>*\<^sup>* demo_s6 demo_s8"
    using demo_steps(6,7,8) by auto
qed

text \<open>A run of one of the workers: the fiber yields with \<^verbatim>\<open>READY\<close>, the counter is decremented, and then \<^verbatim>\<open>stop\<close> is called.\<close>

definition window_s1 :: sched where "window_s1 = leave_state demo_s5 0 SFiber 5 READY"
definition window_s2 :: sched where "window_s2 = projr (leave_swap window_s1 0 SFiber 5)"
definition window_s3 :: sched where "window_s3 = run_after window_s2 0 SFiber 5"
definition window_s4 :: sched where "window_s4 = snd (snd (projr (sched_stop window_s3 False)))"
definition window_s5 :: sched where "window_s5 = projr (run_post window_s4 0 SFiber 5)"

lemma window_reachable: "sched_reachable window_s4" "sched_step window_s4 window_s5"
proof -
  have p: "w_pc (sc_workers demo_s5 ! 0) = Running SFiber 5 False" "w_pc (sc_workers window_s1 ! 0) = Running SFiber 5 True"
    "w_pc (sc_workers window_s2 ! 0) = After SFiber 5" "w_pc (sc_workers window_s4 ! 0) = Post SFiber 5"
    "0 < length (sc_workers demo_s5)" "0 < length (sc_workers window_s1)" "0 < length (sc_workers window_s2)" "0 < length (sc_workers window_s4)"
    "\<not> isl (leave_swap window_s1 0 SFiber 5)" "\<not> isl (sched_stop window_s3 False)" "\<not> isl (run_post window_s4 0 SFiber 5)"
    by code_simp+
  have s1: "sched_step demo_s5 window_s1" unfolding window_s1_def by (rule sched_step.leave [OF p(5,1)]) auto
  have s2: "sched_step window_s1 window_s2"
    unfolding window_s2_def by (rule sched_step.swap [OF p(6,2) projr_Inr [OF p(9)]])
  have s3: "sched_step window_s2 window_s3" unfolding window_s3_def by (rule sched_step.after [OF p(7,3)])
  have s4: "sched_step window_s3 window_s4" unfolding window_s4_def
    by (rule sched_step.stop [where a = "fst (projr (sched_stop window_s3 False))" and n = "fst (snd (projr (sched_stop window_s3 False)))"])
      (simp add: projr_Inr [OF p(10), symmetric])
  show "sched_step window_s4 window_s5" unfolding window_s5_def by (rule sched_step.post [OF p(8,4) projr_Inr [OF p(11)]])
  have "sched_step\<^sup>*\<^sup>* demo_s5 window_s4" using s1 s2 s3 s4 by (meson rtranclp.rtrancl_into_rtrancl rtranclp.rtrancl_refl)
  then show "sched_reachable window_s4" using demo_reachable(2) unfolding sched_reachable_def by (meson rtranclp_trans)
qed

subsection \<open>Properties\<close>

text \<open>C3. \<^verbatim>\<open>m_activeThreadCount\<close> is exact: in every reachable state it is the number of threads between the selection of
  a task and the decrement behind it. Hence when \<^verbatim>\<open>stopping()\<close> is true no task is queued, and no thread has selected
  a task or executes one. It does not mean that all work is done: a thread behind its decrement may still carry a fiber
  that yielded, and there is a run in which \<^verbatim>\<open>stopping()\<close> is true while a thread is about to queue such a fiber again.\<close>

theorem stopping_sound:
  "(\<forall>s. sched_reachable s \<longrightarrow> m_activeThreadCount s = workers_at active_pc s \<and>
      (stopping s \<longrightarrow> m_fibers s = [] \<and> (\<forall>w\<in>set (sc_workers s). \<not> active_pc (w_pc w)))) \<and>
   (\<exists>s s' f. sched_reachable s \<and> stopping s \<and> w_pc (sc_workers s ! 0) = Post SFiber f \<and>
      sched_step s s' \<and> m_fibers s' = [fiber_task f] \<and> \<not> stopping s')"
proof (intro conjI allI impI)
  fix s
  assume "sched_reachable s"
  note inv = sched_reachable_inv [OF this]
  show "m_activeThreadCount s = workers_at active_pc s" using inv by (simp add: sched_inv_def)
  assume "stopping s"
  then show "m_fibers s = []" "\<forall>w\<in>set (sc_workers s). \<not> active_pc (w_pc w)"
    using inv by (auto simp: count_simps stopping_def filter_empty_conv)
next
  have "stopping window_s4" "w_pc (sc_workers window_s4 ! 0) = Post SFiber 5" "m_fibers window_s5 = [fiber_task 5]" "\<not> stopping window_s5"
    by code_simp+
  then show "\<exists>s s' f. sched_reachable s \<and> stopping s \<and> w_pc (sc_workers s ! 0) = Post SFiber f \<and>
      sched_step s s' \<and> m_fibers s' = [fiber_task f] \<and> \<not> stopping s'"
    using window_reachable by blast
qed

theorem stopping_sound_witness:
  "m_activeThreadCount demo_s5 = workers_at active_pc demo_s5 \<and> m_activeThreadCount demo_s5 = 1 \<and> \<not> stopping demo_s5"
proof -
  have "m_activeThreadCount demo_s5 = 1" "\<not> stopping demo_s5" by code_simp+
  then show ?thesis using stopping_sound demo_reachable(2) by simp
qed

text \<open>The selection of a task: in every reachable state the assertion on empty tasks holds, and a
  worker takes the first task of the queue that is not bound to another thread and whose fiber is
  not being executed, leaving the order of the others unchanged; it finds none exactly when there
  is none; and it wakes another thread when it passed over a task bound to another thread.\<close>

theorem pick_first_eligible:
  assumes "sched_reachable s"
  shows "\<exists>xs ys. m_fibers s = xs @ ys \<and> (\<forall>x\<in>set xs. \<not> eligible tid (sc_sys s) x) \<and>
           pick_loop tid (sc_sys s) [] (m_fibers s) False =
             Inr (case ys of [] \<Rightarrow> None | t # zs \<Rightarrow> Some (t, xs @ zs), list_ex (foreign tid) xs) \<and>
           (ys \<noteq> [] \<longrightarrow> eligible tid (sc_sys s) (hd ys))"
proof -
  let ?E = "\<lambda>t. \<not> eligible tid (sc_sys s) t"
  have ok: "tasks_ok (m_fibers s)" using sched_reachable_inv [OF assms] by (simp add: sched_inv_def)
  show ?thesis
  proof (intro exI conjI)
    show "m_fibers s = takeWhile ?E (m_fibers s) @ dropWhile ?E (m_fibers s)" by simp
    show "\<forall>x\<in>set (takeWhile ?E (m_fibers s)). \<not> eligible tid (sc_sys s) x" by (auto dest: set_takeWhileD)
    show "pick_loop tid (sc_sys s) [] (m_fibers s) False =
        Inr (case dropWhile ?E (m_fibers s) of [] \<Rightarrow> None | t # zs \<Rightarrow> Some (t, takeWhile ?E (m_fibers s) @ zs),
             list_ex (foreign tid) (takeWhile ?E (m_fibers s)))"
      by (simp add: pick_loop_eq [OF ok] Let_def del: dropWhile_eq_Nil_conv split: list.split)
    show "dropWhile ?E (m_fibers s) \<noteq> [] \<longrightarrow> eligible tid (sc_sys s) (hd (dropWhile ?E (m_fibers s)))"
      using hd_dropWhile [of ?E] by blast
  qed
qed

theorem pick_first_eligible_witness:
  "sched_reachable demo_s5 \<and> pick_loop 2 (sc_sys demo_s5) [] (m_fibers demo_s5) False = Inr (None, False)"
proof -
  have "m_fibers demo_s5 = []" by code_simp
  then show ?thesis using pick_first_eligible [OF demo_reachable(2), of 2] demo_reachable(2) by auto
qed

text \<open>C39. \<^verbatim>\<open>YieldToHold\<close> stores the state \<^verbatim>\<open>HOLD\<close> and saves the context only afterwards, in \<^verbatim>\<open>swapOut\<close>. There is a run in which
  a thread executes a fiber, the fiber stores \<^verbatim>\<open>HOLD\<close>, and before its context is saved a second thread passes the
  assertion of \<^verbatim>\<open>swapIn\<close> and executes the fiber too: then two threads are in the same fiber.\<close>

theorem yield_to_hold_race:
  "\<exists>s s1 s' f. sched_reachable s \<and> length (sc_workers s) = 2 \<and>
     w_pc (sc_workers s ! 0) = Running SFiber f False \<and> state_of (sc_sys s) f = Some EXEC \<and>
     s1 = leave_state s 0 SFiber f HOLD \<and> sched_step s s1 \<and>
     sc_sys s1 = fst (yield_store HOLD (sc_sys s) (running_tls (sc_workers s ! 0) f) f) \<and> state_of (sc_sys s1) f = Some HOLD \<and>
     sched_step\<^sup>*\<^sup>* s1 s' \<and> w_pc (sc_workers s' ! 0) = Running SFiber f True \<and>
     w_pc (sc_workers s' ! 1) = Running SFiber f False \<and> state_of (sc_sys s') f = Some EXEC"
proof -
  let ?s = "snd (schedule demo_s5 (fiber_task 5))"
  have "length (sc_workers ?s) = 2" "w_pc (sc_workers ?s ! 0) = Running SFiber 5 False" "state_of (sc_sys ?s) 5 = Some EXEC"
    "state_of (sc_sys demo_s6) 5 = Some HOLD" "w_pc (sc_workers demo_s8 ! 0) = Running SFiber 5 True"
    "w_pc (sc_workers demo_s8 ! 1) = Running SFiber 5 False" "state_of (sc_sys demo_s8) 5 = Some EXEC" by code_simp+
  moreover have "sc_sys demo_s6 = fst (yield_store HOLD (sc_sys ?s) (running_tls (sc_workers ?s ! 0) 5) 5)"
    by (simp add: demo_s6_def leave_state_def set_pc_def set_worker_def)
  moreover have "demo_s6 = leave_state ?s 0 SFiber 5 HOLD" by (simp only: demo_s6_def)
  ultimately show ?thesis using race_run by blast
qed

end
