(* ===== verification/IOManager_Props.thy ===== *)
theory IOManager_Props
  imports IOManager Scheduler_Props
begin

text \<open>
  The I/O manager of \<^verbatim>\<open>code/iomanager.cc\<close>: every operation keeps the pending count equal to the
  number of registered events, the kernel's registration equal to the recorded one, and the event
  contexts armed exactly for the registered events. The contract between the operations and the
  kernel, which call may follow which, is part of the invariant.
\<close>

named_theorems ev_simps \<open>the event bits as numerals\<close>

declare NONE_def [ev_simps] READ_def [ev_simps] WRITE_def [ev_simps] EPOLLIN_def [ev_simps]
  EPOLLOUT_def [ev_simps] EPOLLERR_def [ev_simps] EPOLLHUP_def [ev_simps] EPOLLET_def [ev_simps]

subsection \<open>Contexts\<close>

definition ec_empty :: "event_ctx \<Rightarrow> bool" where
  "ec_empty e \<longleftrightarrow> ec_fiber e = None \<and> ec_cb e = None"

definition ec_armed :: "event_ctx \<Rightarrow> bool" where
  "ec_armed e \<longleftrightarrow> ec_scheduler e \<noteq> None \<and> ((ec_cb e = None) \<noteq> (ec_fiber e = None))"

definition slot_ok :: "u32 \<Rightarrow> u32 \<Rightarrow> event_ctx \<Rightarrow> bool" where
  "slot_ok evs ev e \<longleftrightarrow> (if evs AND ev = 0 then ec_empty e else ec_armed e)"

definition ctx_ok :: "nat \<Rightarrow> fd_context \<Rightarrow> bool" where
  "ctx_ok i c \<longleftrightarrow> fc_fd c = i \<and> fc_events c \<in> {0, 1, 4, 5} \<and>
     slot_ok (fc_events c) READ (fc_read c) \<and> slot_ok (fc_events c) WRITE (fc_write c)"

definition ev_count :: "u32 \<Rightarrow> nat" where
  "ev_count evs = of_bool (evs AND READ \<noteq> 0) + of_bool (evs AND WRITE \<noteq> 0)"

definition slot_of :: "fd_context \<Rightarrow> u32 \<Rightarrow> event_ctx" where
  "slot_of c event = (if event = READ then fc_read c else fc_write c)"

definition waiting_task :: "event_ctx \<Rightarrow> task" where
  "waiting_task e = \<lparr>tk_fiber = (if ec_cb e = None then ec_fiber e else None), tk_cb = ec_cb e, tk_thread = - 1\<rparr>"

definition rw :: "u32 \<Rightarrow> bool" where
  "rw event \<longleftrightarrow> event = READ \<or> event = WRITE"

lemma getContext_rw: "rw event \<Longrightarrow> getContext c event = Inr (slot_of c event)"
  by (auto simp: rw_def getContext_def slot_of_def ev_simps)

lemma getContext_not_rw: "\<not> rw event \<Longrightarrow> isl (getContext c event)"
  by (auto simp: rw_def getContext_def)

lemma slot_of_ok: "ctx_ok i c \<Longrightarrow> rw event \<Longrightarrow> slot_ok (fc_events c) event (slot_of c event)"
  by (auto simp: ctx_ok_def rw_def slot_of_def ev_simps)

lemma rw_cases:
  assumes "rw event" and "ctx_ok i c"
  obtains "event = 1" "fc_events c = 0" | "event = 1" "fc_events c = 1" | "event = 1" "fc_events c = 4" | "event = 1" "fc_events c = 5"
  | "event = 4" "fc_events c = 0" | "event = 4" "fc_events c = 1" | "event = 4" "fc_events c = 4" | "event = 4" "fc_events c = 5"
  using assms by (auto simp: rw_def ctx_ok_def ev_simps)

text \<open>Replacing one event of a context, with the slot in the state that the new event set asks for.\<close>

lemma ctx_ok_clear:
  assumes "ctx_ok i c" and "rw event" and "ec_empty e"
  shows "ctx_ok i (setContext (c\<lparr>fc_events := fc_events c AND NOT event\<rparr>) event e)"
    and "fc_events c AND event \<noteq> 0 \<Longrightarrow> ev_count (fc_events c) = Suc (ev_count (fc_events c AND NOT event))"
  using assms(1,3)
  by (rule_tac rw_cases [OF assms(2,1)]; simp add: ctx_ok_def setContext_def slot_ok_def ev_count_def ev_simps)+

lemma ctx_ok_set:
  assumes "ctx_ok i c" and "rw event" and "fc_events c AND event = 0" and "ec_armed e"
  shows "ctx_ok i (setContext (c\<lparr>fc_events := fc_events c OR event\<rparr>) event e)"
    and "ev_count (fc_events c OR event) = Suc (ev_count (fc_events c))"
    and "fc_events c OR event \<noteq> 0"
  using assms(1,3,4)
  by (rule_tac rw_cases [OF assms(2,1)]; simp add: ctx_ok_def setContext_def slot_ok_def ev_count_def ev_simps)+

lemma triggerEvent_ok:
  assumes ok: "ctx_ok i c" and "rw event" and "fc_events c AND event \<noteq> 0"
  shows "\<exists>c'. triggerEvent io c event =
             Inr (c', io_schedule io (the (ec_scheduler (slot_of c event))) (waiting_task (slot_of c event))) \<and>
           ctx_ok i c' \<and> fc_events c' = fc_events c AND NOT event \<and>
           ev_count (fc_events c) = Suc (ev_count (fc_events c')) \<and>
           (\<forall>ev. rw ev \<longrightarrow> ev \<noteq> event \<longrightarrow> slot_of c' ev = slot_of c ev)"
proof -
  let ?e = "slot_of c event" and ?c = "c\<lparr>fc_events := fc_events c AND NOT event\<rparr>"
  let ?f = "if ec_cb ?e = None then None else ec_fiber ?e"
  have armed: "ec_armed ?e" using slot_of_ok [OF ok assms(2)] assms(3) by (simp add: slot_ok_def)
  then obtain sid where sid: "ec_scheduler ?e = Some sid" by (auto simp: ec_armed_def)
  let ?e' = "?e\<lparr>ec_cb := None, ec_fiber := None, ec_scheduler := None\<rparr>"
  have g: "getContext ?c event = Inr ?e" using getContext_rw [OF assms(2)] by (simp add: slot_of_def)
  have "triggerEvent io c event = Inr (setContext ?c event ?e', io_schedule io sid (waiting_task ?e))"
  proof (cases "ec_cb ?e")
    case None
    then have eq: "?e\<lparr>ec_fiber := None, ec_scheduler := None\<rparr> = ?e'" by simp
    show ?thesis using None assms(3) g sid by (simp add: triggerEvent_def Let_def waiting_task_def eq)
  next
    case (Some cb)
    then have "ec_fiber ?e = None" using armed by (simp add: ec_armed_def)
    then have eq: "?e\<lparr>ec_cb := None, ec_scheduler := None\<rparr> = ?e'" by simp
    show ?thesis using Some assms(3) g sid by (simp add: triggerEvent_def Let_def waiting_task_def eq)
  qed
  moreover have "ec_empty ?e'" by (simp add: ec_empty_def)
  ultimately show ?thesis
    using sid ctx_ok_clear [OF ok assms(2), of ?e'] assms(2,3)
    by (auto simp: setContext_def slot_of_def rw_def ev_simps)
qed


subsection \<open>The kernel's registration\<close>

text \<open>
  What a sequence of successful \<^verbatim>\<open>epoll_ctl\<close> calls leaves registered for a descriptor, and the
  sequences the documentation allows: a descriptor is added when it is not registered, modified
  and deleted when it is.
\<close>

fun registered :: "(epoll_op \<times> nat \<times> u32) list \<Rightarrow> nat \<Rightarrow> u32 option" where
  "registered [] i = None"
| "registered ((op, j, ev) # l) i =
     (if i = j then (if op = EPOLL_CTL_DEL then None else Some ev) else registered l i)"

fun ctl_ok :: "(epoll_op \<times> nat \<times> u32) list \<Rightarrow> bool" where
  "ctl_ok [] = True"
| "ctl_ok ((op, j, ev) # l) = (ctl_ok l \<and> (op = EPOLL_CTL_ADD \<longleftrightarrow> registered l j = None))"

definition io_inv :: "iomanager \<Rightarrow> bool" where
  "io_inv io \<longleftrightarrow>
     (\<forall>i < length (m_fdContexts io). ctx_ok i (m_fdContexts io ! i)) \<and>
     m_pendingEventCount io = sum_list (map (\<lambda>c. ev_count (fc_events c)) (m_fdContexts io)) \<and>
     ctl_ok (rev (ep_log io)) \<and>
     (\<forall>i. registered (rev (ep_log io)) i =
       (if i < length (m_fdContexts io) \<and> fc_events (m_fdContexts io ! i) \<noteq> 0
        then Some (EPOLLET OR fc_events (m_fdContexts io ! i)) else None))"

lemma sum_list_update_nat:
  fixes xs :: "nat list"
  assumes "i < length xs"
  shows "sum_list (xs[i := v]) + xs ! i = sum_list xs + v"
  using assms by (simp add: sum_list_update)
    (metis add.commute add_diff_inverse_nat elem_le_sum_list not_le trans_le_add1)

text \<open>One context changes together with one \<^verbatim>\<open>epoll_ctl\<close> call and the pending count.\<close>

lemma io_inv_update:
  assumes inv: "io_inv io" and i: "i < length (m_fdContexts io)" and ok: "ctx_ok i c'"
    and ctx: "m_fdContexts io' = (m_fdContexts io)[i := c']"
    and log: "ep_log io' = ep_log io @ [(op, i, ev)]"
    and pend: "m_pendingEventCount io' + ev_count (fc_events (m_fdContexts io ! i)) =
               m_pendingEventCount io + ev_count (fc_events c')"
    and op: "op = EPOLL_CTL_ADD \<longleftrightarrow> fc_events (m_fdContexts io ! i) = 0"
    and ev: "if fc_events c' = 0 then op = EPOLL_CTL_DEL else op \<noteq> EPOLL_CTL_DEL \<and> ev = EPOLLET OR fc_events c'"
  shows "io_inv io'"
proof -
  note I = inv [unfolded io_inv_def]
  let ?cs = "m_fdContexts io" and ?f = "\<lambda>c. ev_count (fc_events c)"
  have "map ?f (?cs[i := c']) = (map ?f ?cs)[i := ?f c']" by (simp add: map_update)
  then have "sum_list (map ?f (?cs[i := c'])) + ?f (?cs ! i) = sum_list (map ?f ?cs) + ?f c'"
    using sum_list_update_nat [of i "map ?f ?cs" "?f c'"] i by simp
  then have p: "m_pendingEventCount io' = sum_list (map ?f (m_fdContexts io'))"
    using I pend ctx by simp
  have r: "registered (rev (ep_log io)) i = None \<longleftrightarrow> fc_events (?cs ! i) = 0"
    using I i by simp
  have c: "\<forall>j < length (m_fdContexts io'). ctx_ok j (m_fdContexts io' ! j)"
    using I ok ctx i by (auto simp: nth_list_update)
  have l: "ctl_ok (rev (ep_log io'))" using I log op r by simp
  have "\<forall>j. registered (rev (ep_log io')) j =
      (if j < length (m_fdContexts io') \<and> fc_events (m_fdContexts io' ! j) \<noteq> 0
       then Some (EPOLLET OR fc_events (m_fdContexts io' ! j)) else None)"
    using I log ctx i ev by (auto simp: nth_list_update split: if_splits)
  then show ?thesis using p c l by (simp add: io_inv_def)
qed

lemma io_inv_frame:
  assumes "m_fdContexts io' = m_fdContexts io" and "m_pendingEventCount io' = m_pendingEventCount io"
    and "ep_log io' = ep_log io" and "io_inv io"
  shows "io_inv io'"
  using assms by (simp add: io_inv_def)

lemma io_tickle_frame [simp]:
  "m_fdContexts (io_tickle io sid) = m_fdContexts io" "m_pendingEventCount (io_tickle io sid) = m_pendingEventCount io"
  "ep_log (io_tickle io sid) = ep_log io" "io_timers (io_tickle io sid) = io_timers io"
  "io_scheds (io_tickle io sid) = io_scheds io" "io_id (io_tickle io sid) = io_id io"
  by (simp_all add: io_tickle_def)

lemma io_schedule_frame [simp]:
  "m_fdContexts (io_schedule io sid t) = m_fdContexts io" "m_pendingEventCount (io_schedule io sid t) = m_pendingEventCount io"
  "ep_log (io_schedule io sid t) = ep_log io" "io_timers (io_schedule io sid t) = io_timers io" "io_id (io_schedule io sid t) = io_id io"
  by (simp_all add: io_schedule_def Let_def split: prod.split)

lemma io_schedule_scheds [simp]:
  "io_scheds (io_schedule io sid t) = (io_scheds io)(sid := snd (schedule (io_scheds io sid) t))"
  by (simp add: io_schedule_def Let_def split: prod.split)

lemma contextResize_inv:
  assumes inv: "io_inv io" and "length (m_fdContexts io) \<le> n"
  shows "io_inv (io\<lparr>m_fdContexts := contextResize ind n (m_fdContexts io)\<rparr>)"
proof -
  let ?cs = "m_fdContexts io" and ?new = "map (new_FdContext ind) [length (m_fdContexts io)..<n]"
  note I = inv [unfolded io_inv_def]
  have cs: "contextResize ind n ?cs = ?cs @ ?new" using assms(2) by (simp add: contextResize_def)
  have nth: "(?cs @ ?new) ! i = (if i < length ?cs then ?cs ! i else new_FdContext ind i)" if "i < n" for i
    using that assms(2) by (simp add: nth_append)
  have ok: "ctx_ok i (new_FdContext ind i)" for i
    by (simp add: ctx_ok_def new_FdContext_def Let_def slot_ok_def ec_empty_def ev_simps)
  have new: "sum_list (map (\<lambda>c. ev_count (fc_events c)) ?new) = 0"
    by (simp add: new_FdContext_def Let_def ev_count_def ev_simps comp_def)
  have zero: "fc_events (new_FdContext ind i) = 0" for i by (simp add: new_FdContext_def Let_def ev_simps)
  show ?thesis
    using I new ok assms(2) unfolding io_inv_def cs
    by (auto simp: nth zero simp del: map_map)
qed


subsection \<open>The operations\<close>

definition deliver :: "(nat \<Rightarrow> sched) \<Rightarrow> fd_context \<Rightarrow> u32 \<Rightarrow> nat \<Rightarrow> sched" where
  "deliver scheds c event =
     (let e = slot_of c event; sid = the (ec_scheduler e) in
      scheds(sid := snd (schedule (scheds sid) (waiting_task e))))"

lemma trigger_if_ok:
  assumes "ctx_ok i c" and "rw event" and "b \<Longrightarrow> fc_events c AND event \<noteq> 0"
    and "ev_count (fc_events c) \<le> m_pendingEventCount io"
  shows "\<exists>c' io'. trigger_if b event io c = Inr (c', io') \<and> ctx_ok i c' \<and>
           fc_events c' = (if b then fc_events c AND NOT event else fc_events c) \<and>
           m_fdContexts io' = m_fdContexts io \<and> ep_log io' = ep_log io \<and>
           m_pendingEventCount io' + ev_count (fc_events c) = m_pendingEventCount io + ev_count (fc_events c') \<and>
           io_scheds io' = (if b then deliver (io_scheds io) c event else io_scheds io) \<and>
           (\<forall>ev. rw ev \<longrightarrow> ev \<noteq> event \<longrightarrow> slot_of c' ev = slot_of c ev)"
proof (cases b)
  case True
  obtain c' where t: "triggerEvent io c event =
        Inr (c', io_schedule io (the (ec_scheduler (slot_of c event))) (waiting_task (slot_of c event)))"
      and c': "ctx_ok i c'" "fc_events c' = fc_events c AND NOT event" "ev_count (fc_events c) = Suc (ev_count (fc_events c'))"
        "\<forall>ev. rw ev \<longrightarrow> ev \<noteq> event \<longrightarrow> slot_of c' ev = slot_of c ev"
    using triggerEvent_ok [OF assms(1,2) assms(3) [OF True], of io] by blast
  show ?thesis
    using True t c' assms(4) by (simp add: trigger_if_def dec_pending_def deliver_def Let_def)
next
  case False
  then show ?thesis using assms(1) by (simp add: trigger_if_def)
qed

lemma pending_ge:
  assumes "io_inv io" and "i < length (m_fdContexts io)"
  shows "ev_count (fc_events (m_fdContexts io ! i)) \<le> m_pendingEventCount io"
  using assms elem_le_sum_list [of i "map (\<lambda>c. ev_count (fc_events c)) (m_fdContexts io)"]
  by (simp add: io_inv_def)

lemma io_inv_ctx: "io_inv io \<Longrightarrow> i < length (m_fdContexts io) \<Longrightarrow> ctx_ok i (m_fdContexts io ! i)"
  by (simp add: io_inv_def)

lemma cancelEvent_ok:
  assumes inv: "io_inv io" and i: "i < length (m_fdContexts io)" and r: "rw event"
    and e: "fc_events (m_fdContexts io ! i) AND event \<noteq> 0"
  defines "c \<equiv> m_fdContexts io ! i"
  defines "n \<equiv> fc_events c AND NOT event"
  shows "if ctl (if n \<noteq> 0 then EPOLL_CTL_MOD else EPOLL_CTL_DEL) i (EPOLLET OR n)
         then \<exists>io'. cancelEvent ctl io (int i) event = Inr (True, io') \<and> io_inv io' \<and>
                fc_events (m_fdContexts io' ! i) = n \<and> io_scheds io' = deliver (io_scheds io) c event
         else cancelEvent ctl io (int i) event = Inr (False, io)"
proof -
  let ?op = "if n \<noteq> 0 then EPOLL_CTL_MOD else EPOLL_CTL_DEL" and ?ev = "EPOLLET OR n"
  let ?io = "io\<lparr>ep_log := ep_log io @ [(?op, i, ?ev)]\<rparr>"
  have ok: "ctx_ok i c" unfolding c_def using inv i by (rule io_inv_ctx)
  have e': "fc_events c AND event \<noteq> 0" using e by (simp add: c_def)
  obtain c' where t: "triggerEvent ?io c event =
        Inr (c', io_schedule ?io (the (ec_scheduler (slot_of c event))) (waiting_task (slot_of c event)))"
      and c': "ctx_ok i c'" "fc_events c' = n" "ev_count (fc_events c) = Suc (ev_count (fc_events c'))"
    using triggerEvent_ok [OF ok r e', of ?io] by (auto simp: n_def)
  let ?io' = "dec_pending (put_ctx (io_schedule ?io (the (ec_scheduler (slot_of c event))) (waiting_task (slot_of c event))) i c')"
  have "fc_events c \<noteq> 0" using e' by auto
  then have "io_inv ?io'"
    using io_inv_update [OF inv i c'(1), of ?io' ?op ?ev] pending_ge [OF inv i] c'
    by (auto simp: dec_pending_def put_ctx_def c_def)
  moreover have "cancelEvent ctl io (int i) event =
      (if ctl ?op i ?ev then Inr (True, ?io') else Inr (False, io))"
    using i e' t by (simp add: cancelEvent_def Let_def flip: c_def n_def)
  ultimately show ?thesis
    using i c'(2) by (simp add: dec_pending_def put_ctx_def deliver_def Let_def)
qed

lemma delEvent_ok:
  assumes inv: "io_inv io" and i: "i < length (m_fdContexts io)" and r: "rw event"
    and e: "fc_events (m_fdContexts io ! i) AND event \<noteq> 0"
  defines "c \<equiv> m_fdContexts io ! i"
  defines "n \<equiv> fc_events c AND NOT event"
  shows "if ctl (if n \<noteq> 0 then EPOLL_CTL_MOD else EPOLL_CTL_DEL) i (EPOLLET OR n)
         then \<exists>io'. delEvent ctl io (int i) event = Inr (True, io') \<and> io_inv io' \<and>
                fc_events (m_fdContexts io' ! i) = n \<and> io_scheds io' = io_scheds io
         else delEvent ctl io (int i) event = Inr (False, io)"
proof -
  let ?op = "if n \<noteq> 0 then EPOLL_CTL_MOD else EPOLL_CTL_DEL" and ?ev = "EPOLLET OR n"
  let ?c = "setContext (c\<lparr>fc_events := n\<rparr>) event (resetContext (slot_of c event))"
  let ?io' = "dec_pending (put_ctx (io\<lparr>ep_log := ep_log io @ [(?op, i, ?ev)]\<rparr>) i ?c)"
  have ok: "ctx_ok i c" unfolding c_def using inv i by (rule io_inv_ctx)
  have e': "fc_events c AND event \<noteq> 0" using e by (simp add: c_def)
  have emp: "ec_empty (resetContext (slot_of c event))" by (simp add: ec_empty_def resetContext_def)
  note k = ctx_ok_clear [OF ok r emp, folded n_def]
  have ev: "fc_events ?c = n" by (simp add: setContext_def)
  have g: "getContext (c\<lparr>fc_events := n\<rparr>) event = Inr (slot_of c event)"
    using getContext_rw [OF r] by (simp add: slot_of_def)
  have "fc_events c \<noteq> 0" using e' by auto
  then have "io_inv ?io'"
    using io_inv_update [OF inv i k(1), of ?io' ?op ?ev] pending_ge [OF inv i] k(2) [OF e'] ev
    by (auto simp: dec_pending_def put_ctx_def c_def)
  moreover have "delEvent ctl io (int i) event = (if ctl ?op i ?ev then Inr (True, ?io') else Inr (False, io))"
    using i e' g by (simp add: delEvent_def Let_def flip: c_def n_def)
  ultimately show ?thesis
    using i ev by (simp add: dec_pending_def put_ctx_def)
qed


lemma slot_of_setContext: "rw event \<Longrightarrow> slot_of (setContext c event e) event = e"
  by (auto simp: rw_def slot_of_def setContext_def)

lemma add_ctx_ok:
  assumes inv: "io_inv io" and i: "i < length (m_fdContexts io)" and r: "rw event"
    and e: "fc_events (m_fdContexts io ! i) AND event = 0" and x: "cb \<noteq> None \<or> cur_state = EXEC"
    and nosched: "ec_scheduler (slot_of (m_fdContexts io ! i) event) = None"
  defines "c \<equiv> m_fdContexts io ! i"
  defines "n \<equiv> fc_events c OR event"
  shows "if ctl (if fc_events c \<noteq> 0 then EPOLL_CTL_MOD else EPOLL_CTL_ADD) i (EPOLLET OR n)
         then \<exists>io'. add_ctx ctl io i event cb (Some sid) cur cur_state = Inr (0, io') \<and> io_inv io' \<and>
                length (m_fdContexts io') = length (m_fdContexts io) \<and>
                fc_events (m_fdContexts io' ! i) = n \<and> io_scheds io' = io_scheds io \<and>
                ec_scheduler (slot_of (m_fdContexts io' ! i) event) = Some sid \<and>
                waiting_task (slot_of (m_fdContexts io' ! i) event) =
                  \<lparr>tk_fiber = (if cb = None then Some cur else None), tk_cb = cb, tk_thread = - 1\<rparr>
         else add_ctx ctl io i event cb (Some sid) cur cur_state = Inr (- 1, io)"
proof -
  let ?op = "if fc_events c \<noteq> 0 then EPOLL_CTL_MOD else EPOLL_CTL_ADD" and ?ev = "EPOLLET OR n"
  have ok: "ctx_ok i c" unfolding c_def using inv i by (rule io_inv_ctx)
  have e': "fc_events c AND event = 0" using e by (simp add: c_def)
  have emp: "ec_empty (slot_of c event)" using slot_of_ok [OF ok r] e' by (simp add: slot_ok_def)
  have emp': "slot_of c event = \<lparr>ec_scheduler = None, ec_fiber = None, ec_cb = None\<rparr>"
    using emp nosched unfolding c_def by (cases "slot_of (m_fdContexts io ! i) event") (simp add: ec_empty_def)
  define x where "x = \<lparr>ec_scheduler = Some sid, ec_fiber = (if cb = None then Some cur else None), ec_cb = cb\<rparr>"
  let ?c = "setContext (c\<lparr>fc_events := n\<rparr>) event x"
  let ?io' = "put_ctx (io\<lparr>ep_log := ep_log io @ [(?op, i, ?ev)], m_pendingEventCount := m_pendingEventCount io + 1\<rparr>) i ?c"
  have arm: "ec_armed x" by (auto simp: x_def ec_armed_def)
  note k = ctx_ok_set [OF ok r e' arm, folded n_def]
  have ev: "fc_events ?c = n" by (simp add: setContext_def)
  have g: "getContext (c\<lparr>fc_events := n\<rparr>) event = Inr (slot_of c event)"
    using getContext_rw [OF r] by (simp add: slot_of_def)
  have "io_inv ?io'"
    using io_inv_update [OF inv i k(1), of ?io' ?op ?ev] k(2,3) ev by (simp add: put_ctx_def c_def)
  moreover have "add_ctx ctl io i event cb (Some sid) cur cur_state = (if ctl ?op i ?ev then Inr (0, ?io') else Inr (- 1, io))"
    using e' g assms(5)
    by (cases cb) (simp_all add: add_ctx_def Let_def emp' x_def or.assoc flip: c_def n_def)
  moreover have "slot_of (m_fdContexts ?io' ! i) event = x"
    using i r by (simp add: put_ctx_def slot_of_setContext)
  ultimately show ?thesis
    using i ev by (auto simp: put_ctx_def x_def waiting_task_def)
qed

definition event_set :: "u32 \<Rightarrow> bool" where
  "event_set s \<longleftrightarrow> s \<in> {0, 1, 4, 5}"

lemma real_events_set: "event_set (real_events_of ev)"
  by (simp add: event_set_def real_events_of_def Let_def ev_simps)

lemma event_set_cases:
  assumes "event_set s"
  obtains "s = 0" | "s = 1" | "s = 4" | "s = 5"
  using assms by (auto simp: event_set_def)

text \<open>Delivering the events \<open>rs\<close>, the read event first.\<close>

definition deliver_set :: "(nat \<Rightarrow> sched) \<Rightarrow> fd_context \<Rightarrow> u32 \<Rightarrow> nat \<Rightarrow> sched" where
  "deliver_set scheds c rs =
     (let s = (if rs AND READ \<noteq> 0 then deliver scheds c READ else scheds)
      in if rs AND WRITE \<noteq> 0 then deliver s c WRITE else s)"

lemma trigger_two:
  assumes ok: "ctx_ok i c" and rs: "event_set rs" and sub: "rs AND NOT (fc_events c) = 0"
    and p: "ev_count (fc_events c) \<le> m_pendingEventCount io"
  shows "\<exists>c' io'. err_bind (trigger_if (rs AND READ \<noteq> 0) READ io c)
             (\<lambda>(c, io). trigger_if (rs AND WRITE \<noteq> 0) WRITE io c) = Inr (c', io') \<and> ctx_ok i c' \<and>
           fc_events c' = fc_events c AND NOT rs \<and> m_fdContexts io' = m_fdContexts io \<and> ep_log io' = ep_log io \<and>
           m_pendingEventCount io' + ev_count (fc_events c) = m_pendingEventCount io + ev_count (fc_events c') \<and>
           io_scheds io' = deliver_set (io_scheds io) c rs"
proof -
  have rw: "rw READ" "rw WRITE" "READ \<noteq> WRITE" by (simp_all add: rw_def ev_simps)
  have es: "event_set (fc_events c)" using ok by (simp add: ctx_ok_def event_set_def)
  have b1: "fc_events c AND READ \<noteq> 0" if "rs AND READ \<noteq> 0"
    using that sub by (rule_tac event_set_cases [OF rs]; rule_tac event_set_cases [OF es]) (simp_all add: ev_simps)
  obtain c1 io1 where 1: "trigger_if (rs AND READ \<noteq> 0) READ io c = Inr (c1, io1)" and k1: "ctx_ok i c1"
    "fc_events c1 = (if rs AND READ \<noteq> 0 then fc_events c AND NOT READ else fc_events c)"
    "m_fdContexts io1 = m_fdContexts io" "ep_log io1 = ep_log io"
    "m_pendingEventCount io1 + ev_count (fc_events c) = m_pendingEventCount io + ev_count (fc_events c1)"
    "io_scheds io1 = (if rs AND READ \<noteq> 0 then deliver (io_scheds io) c READ else io_scheds io)"
    "\<forall>ev. rw ev \<longrightarrow> ev \<noteq> READ \<longrightarrow> slot_of c1 ev = slot_of c ev"
    using trigger_if_ok [OF ok rw(1) b1 p] by blast
  have b2: "fc_events c1 AND WRITE \<noteq> 0" if "rs AND WRITE \<noteq> 0"
    using that sub k1(2) by (rule_tac event_set_cases [OF rs]; rule_tac event_set_cases [OF es]) (simp_all add: ev_simps)
  have p1: "ev_count (fc_events c1) \<le> m_pendingEventCount io1" using k1(5) p by linarith
  obtain c2 io2 where 2: "trigger_if (rs AND WRITE \<noteq> 0) WRITE io1 c1 = Inr (c2, io2)" and k2: "ctx_ok i c2"
    "fc_events c2 = (if rs AND WRITE \<noteq> 0 then fc_events c1 AND NOT WRITE else fc_events c1)"
    "m_fdContexts io2 = m_fdContexts io1" "ep_log io2 = ep_log io1"
    "m_pendingEventCount io2 + ev_count (fc_events c1) = m_pendingEventCount io1 + ev_count (fc_events c2)"
    "io_scheds io2 = (if rs AND WRITE \<noteq> 0 then deliver (io_scheds io1) c1 WRITE else io_scheds io1)"
    using trigger_if_ok [OF k1(1) rw(2) b2 p1] by blast
  have "fc_events c2 = fc_events c AND NOT rs"
    using k1(2) k2(2) by (rule_tac event_set_cases [OF rs]; rule_tac event_set_cases [OF es]) (simp_all add: ev_simps)
  moreover have "deliver sc c1 WRITE = deliver sc c WRITE" for sc using k1(7) rw by (simp add: deliver_def)
  ultimately show ?thesis
    using 1 2 k1 k2 by (auto simp: deliver_set_def)
qed


lemma trigger_two_obtain:
  assumes "ctx_ok i c" and "event_set rs" and "rs AND NOT (fc_events c) = 0"
    and "ev_count (fc_events c) \<le> m_pendingEventCount io"
  obtains c1 io1 c2 io2 where "trigger_if (rs AND READ \<noteq> 0) READ io c = Inr (c1, io1)"
    and "trigger_if (rs AND WRITE \<noteq> 0) WRITE io1 c1 = Inr (c2, io2)" and "ctx_ok i c2"
    and "fc_events c2 = fc_events c AND NOT rs" and "m_fdContexts io2 = m_fdContexts io" and "ep_log io2 = ep_log io"
    and "m_pendingEventCount io2 + ev_count (fc_events c) = m_pendingEventCount io + ev_count (fc_events c2)"
    and "io_scheds io2 = deliver_set (io_scheds io) c rs"
  using trigger_two [OF assms] that by (auto simp: err_bind_eq_Inr)

lemma idle_event_ok:
  fixes ev :: u32
  assumes inv: "io_inv io" and i: "i < length (m_fdContexts io)"
  defines "c \<equiv> m_fdContexts io ! i" and "rs \<equiv> real_events_of ev"
  assumes hit: "fc_events c AND rs \<noteq> 0" and sub: "rs AND NOT (fc_events c) = 0"
    and ctl: "ctl (if fc_events c AND NOT rs \<noteq> 0 then EPOLL_CTL_MOD else EPOLL_CTL_DEL) i (EPOLLET OR (fc_events c AND NOT rs))"
  shows "\<exists>io'. idle_event ctl io (FdEvent i ev) = Inr io' \<and> io_inv io' \<and>
           fc_events (m_fdContexts io' ! i) = fc_events c AND NOT rs \<and>
           io_scheds io' = deliver_set (io_scheds io) c rs"
proof -
  let ?n = "fc_events c AND NOT rs"
  let ?op = "if ?n \<noteq> 0 then EPOLL_CTL_MOD else EPOLL_CTL_DEL" and ?ev = "EPOLLET OR ?n"
  let ?io = "io\<lparr>ep_log := ep_log io @ [(?op, i, ?ev)]\<rparr>"
  have ok: "ctx_ok i c" unfolding c_def using inv i by (rule io_inv_ctx)
  have p: "ev_count (fc_events c) \<le> m_pendingEventCount ?io"
    using pending_ge [OF inv i] by (simp add: c_def)
  obtain c1 io1 c2 io2 where t: "trigger_if (rs AND READ \<noteq> 0) READ ?io c = Inr (c1, io1)"
      "trigger_if (rs AND WRITE \<noteq> 0) WRITE io1 c1 = Inr (c2, io2)" and k: "ctx_ok i c2"
      "fc_events c2 = ?n" "m_fdContexts io2 = m_fdContexts ?io" "ep_log io2 = ep_log ?io"
      "m_pendingEventCount io2 + ev_count (fc_events c) = m_pendingEventCount ?io + ev_count (fc_events c2)"
      "io_scheds io2 = deliver_set (io_scheds ?io) c rs"
    using trigger_two_obtain [OF ok real_events_set sub [unfolded rs_def] p] unfolding rs_def by blast
  have nz: "fc_events c \<noteq> 0" using hit by auto
  have fd: "fc_fd c = i" using ok by (simp add: ctx_ok_def)
  have "io_inv (put_ctx io2 i c2)"
    using io_inv_update [OF inv i k(1), of "put_ctx io2 i c2" ?op ?ev] k nz by (auto simp: put_ctx_def c_def)
  moreover have "idle_event ctl io (FdEvent i ev) = Inr (put_ctx io2 i c2)"
    using hit ctl t fd by (simp add: idle_event_def Let_def NONE_def flip: c_def rs_def)
  ultimately show ?thesis
    using i k by (auto simp: put_ctx_def)
qed

text \<open>The reported events are not restricted to the registered ones: then an assertion fails.\<close>

lemma triggerEvent_absent: "fc_events c AND event = 0 \<Longrightarrow> triggerEvent io c event = Inl (IoAssert ''events & event'')"
  by (simp add: triggerEvent_def)

lemma idle_event_assert:
  fixes ev :: u32
  assumes inv: "io_inv io" and i: "i < length (m_fdContexts io)"
  defines "c \<equiv> m_fdContexts io ! i" and "rs \<equiv> real_events_of ev"
  assumes hit: "fc_events c AND rs \<noteq> 0" and sub: "rs AND NOT (fc_events c) \<noteq> 0"
    and ctl: "ctl (if fc_events c AND NOT rs \<noteq> 0 then EPOLL_CTL_MOD else EPOLL_CTL_DEL) i (EPOLLET OR (fc_events c AND NOT rs))"
  shows "idle_event ctl io (FdEvent i ev) = Inl (IoAssert ''events & event'')"
proof -
  have ok: "ctx_ok i c" unfolding c_def using inv i by (rule io_inv_ctx)
  have es: "event_set (fc_events c)" and fd: "fc_fd c = i" using ok by (simp_all add: ctx_ok_def event_set_def)
  have rs: "event_set rs" unfolding rs_def by (rule real_events_set)
  have rw: "rw READ" by (simp add: rw_def)
  let ?n = "fc_events c AND NOT rs"
  let ?io = "io\<lparr>ep_log := ep_log io @ [(if ?n \<noteq> 0 then EPOLL_CTL_MOD else EPOLL_CTL_DEL, i, EPOLLET OR ?n)]\<rparr>"
  have d: "idle_event ctl io (FdEvent i ev) =
      err_bind (trigger_if (rs AND READ \<noteq> 0) READ ?io c) (\<lambda>(c, io).
      err_bind (trigger_if (rs AND WRITE \<noteq> 0) WRITE io c) (\<lambda>(c, io). Inr (put_ctx io i c)))"
    using hit ctl fd by (simp add: idle_event_def Let_def NONE_def flip: c_def rs_def)
  have r5: "rs = 5" "fc_events c = 1 \<or> fc_events c = 4"
    using hit sub by (rule_tac event_set_cases [OF rs]; rule_tac event_set_cases [OF es]; simp)+
  from r5(2) show ?thesis
  proof
    assume 4: "fc_events c = 4"
    then have "trigger_if (rs AND READ \<noteq> 0) READ ?io c = Inl (IoAssert ''events & event'')"
      using r5(1) by (simp add: trigger_if_def triggerEvent_absent ev_simps)
    then show ?thesis using d by simp
  next
    assume 1: "fc_events c = 1"
    have e1: "fc_events c AND READ \<noteq> 0" using 1 by (simp add: ev_simps)
    obtain c1 where t: "triggerEvent ?io c READ =
          Inr (c1, io_schedule ?io (the (ec_scheduler (slot_of c READ))) (waiting_task (slot_of c READ)))"
        and "fc_events c1 = fc_events c AND NOT READ"
      using triggerEvent_ok [OF ok rw e1, of ?io] by blast
    then have "fc_events c1 AND WRITE = 0" using 1 by (simp add: ev_simps)
    then have "trigger_if (rs AND WRITE \<noteq> 0) WRITE x c1 = Inl (IoAssert ''events & event'')" for x
      using r5(1) by (simp add: trigger_if_def triggerEvent_absent ev_simps)
    then show ?thesis using d t r5(1) by (simp add: trigger_if_def ev_simps)
  qed
qed

lemma cancelAll_ok:
  assumes inv: "io_inv io" and i: "i < length (m_fdContexts io)"
  defines "c \<equiv> m_fdContexts io ! i"
  assumes nz: "fc_events c \<noteq> 0" and ctl: "ctl EPOLL_CTL_DEL i 0"
  shows "\<exists>io'. cancelAll ctl io (int i) = Inr (True, io') \<and> io_inv io' \<and> fc_events (m_fdContexts io' ! i) = 0 \<and>
           io_scheds io' = deliver_set (io_scheds io) c (fc_events c)"
proof -
  let ?io = "io\<lparr>ep_log := ep_log io @ [(EPOLL_CTL_DEL, i, 0)]\<rparr>" and ?e = "fc_events c"
  have ok: "ctx_ok i c" unfolding c_def using inv i by (rule io_inv_ctx)
  have es: "event_set ?e" using ok by (simp add: ctx_ok_def event_set_def)
  have p: "ev_count ?e \<le> m_pendingEventCount ?io" using pending_ge [OF inv i] by (simp add: c_def)
  have sub: "?e AND NOT ?e = 0" by simp
  obtain c1 io1 c2 io2 where t: "trigger_if (?e AND READ \<noteq> 0) READ ?io c = Inr (c1, io1)"
      "trigger_if (?e AND WRITE \<noteq> 0) WRITE io1 c1 = Inr (c2, io2)" and k: "ctx_ok i c2"
      "fc_events c2 = ?e AND NOT ?e" "m_fdContexts io2 = m_fdContexts ?io" "ep_log io2 = ep_log ?io"
      "m_pendingEventCount io2 + ev_count ?e = m_pendingEventCount ?io + ev_count (fc_events c2)"
      "io_scheds io2 = deliver_set (io_scheds ?io) c ?e"
    by (rule trigger_two_obtain [OF ok es sub p])
  have c2: "fc_events c2 = 0" using k(2) by simp
  have same: "fc_events c1 AND WRITE \<noteq> 0 \<longleftrightarrow> ?e AND WRITE \<noteq> 0"
  proof -
    have "fc_events c1 = (if ?e AND READ \<noteq> 0 then ?e AND NOT READ else ?e)"
      using trigger_if_ok [OF ok, of READ "?e AND READ \<noteq> 0" ?io] t(1) p by (simp add: rw_def)
    then show ?thesis by (rule_tac event_set_cases [OF es]) (simp_all add: ev_simps)
  qed
  have "io_inv (put_ctx io2 i c2)"
    using io_inv_update [OF inv i k(1), of "put_ctx io2 i c2" EPOLL_CTL_DEL 0] k c2 nz by (auto simp: put_ctx_def c_def)
  moreover have "cancelAll ctl io (int i) = Inr (True, put_ctx io2 i c2)"
    using i nz ctl t c2 by (simp add: cancelAll_def Let_def same flip: c_def)
  ultimately show ?thesis
    using i k c2 by (auto simp: put_ctx_def)
qed


subsection \<open>All runs\<close>

text \<open>
  A step is one section of an operation that no other thread interrupts, with any answer of the kernel, by a thread that
  runs a scheduler; the kernel reports events for known descriptors only. The table starts with 32 entries, so any
  descriptor from 32 on may have been found beyond its end before, and a thread that did so resizes the table whatever its
  size is now (\<open>grow\<close>). \<open>calm_step\<close> are the steps that do not make the table shorter.
\<close>

inductive io_step :: "iomanager \<Rightarrow> iomanager \<Rightarrow> bool" where
  add: "i < length (m_fdContexts io) \<Longrightarrow> add_ctx ctl io i event cb (Some sid) cur st = Inr (r, io') \<Longrightarrow> io_step io io'"
| grow: "32 \<le> i \<Longrightarrow> io_step io (grow_ctx ind io i)"
| del: "delEvent ctl io fd event = Inr (b, io') \<Longrightarrow> io_step io io'"
| cancel: "cancelEvent ctl io fd event = Inr (b, io') \<Longrightarrow> io_step io io'"
| cancel_all: "cancelAll ctl io fd = Inr (b, io') \<Longrightarrow> io_step io io'"
| expire: "listExpiredTimer (io_timers io) np now [] = Inr (cbs, tm) \<Longrightarrow>
    io_step io (schedule_expired cbid (io\<lparr>io_timers := tm\<rparr>) cbs)"
| event: "(\<And>i ev. e = FdEvent i ev \<Longrightarrow> i < length (m_fdContexts io)) \<Longrightarrow> idle_event ctl io e = Inr io' \<Longrightarrow> io_step io io'"
| timer: "io_step io (io_addTimer io p now ms tcb recurring)"
| poll: "io_step io (snd (snd (io_stopping_timeout io now)))"
| other: "io_step io (io\<lparr>io_scheds := (io_scheds io)(sid := s)\<rparr>)"

definition calm_step :: "iomanager \<Rightarrow> iomanager \<Rightarrow> bool" where
  "calm_step io io' \<longleftrightarrow> io_step io io' \<and> length (m_fdContexts io) \<le> length (m_fdContexts io')"

definition io_reachable :: "iomanager \<Rightarrow> bool" where
  "io_reachable io \<longleftrightarrow> (\<exists>ind sid scheds now. calm_step\<^sup>*\<^sup>* (new_IOManager ind sid scheds now) io)"

lemma in_range:
  assumes "\<not> int (length xs) \<le> fd" and "\<not> fd < 0"
  obtains i where "i < length xs" and "fd = int i"
  using assms that [of "nat fd"] by auto

lemma delEvent_inv:
  assumes inv: "io_inv io" and d: "delEvent ctl io fd event = Inr (b, io')"
  shows "io_inv io'"
proof (cases "int (length (m_fdContexts io)) \<le> fd \<or> fd < 0")
  case True
  then show ?thesis using d inv by (auto simp: delEvent_def split: if_splits)
next
  case False
  then obtain i where i: "i < length (m_fdContexts io)" and fd: "fd = int i" using in_range by blast
  show ?thesis
  proof (cases "fc_events (m_fdContexts io ! i) AND event = 0")
    case True
    then show ?thesis using d inv i fd by (simp add: delEvent_def)
  next
    case e: False
    have "rw event \<or> io' = io"
      using d i fd e by (auto simp: delEvent_def Let_def getContext_def rw_def split: if_splits)
    then show ?thesis
      using delEvent_ok [OF inv i _ e, of ctl] d fd inv by (auto split: if_splits)
  qed
qed

lemma cancelEvent_inv:
  assumes inv: "io_inv io" and d: "cancelEvent ctl io fd event = Inr (b, io')"
  shows "io_inv io'"
proof (cases "int (length (m_fdContexts io)) \<le> fd \<or> fd < 0")
  case True
  then show ?thesis using d inv by (auto simp: cancelEvent_def split: if_splits)
next
  case False
  then obtain i where i: "i < length (m_fdContexts io)" and fd: "fd = int i" using in_range by blast
  show ?thesis
  proof (cases "fc_events (m_fdContexts io ! i) AND event = 0")
    case True
    then show ?thesis using d inv i fd by (simp add: cancelEvent_def)
  next
    case e: False
    have "rw event \<or> io' = io"
      using d i fd e
      by (auto simp: cancelEvent_def Let_def triggerEvent_def getContext_def rw_def split: if_splits)
    then show ?thesis
      using cancelEvent_ok [OF inv i _ e, of ctl] d fd inv by (auto split: if_splits)
  qed
qed

lemma cancelAll_inv:
  assumes inv: "io_inv io" and d: "cancelAll ctl io fd = Inr (b, io')"
  shows "io_inv io'"
proof (cases "int (length (m_fdContexts io)) \<le> fd \<or> fd < 0")
  case True
  then show ?thesis using d inv by (auto simp: cancelAll_def split: if_splits)
next
  case False
  then obtain i where i: "i < length (m_fdContexts io)" and fd: "fd = int i" using in_range by blast
  show ?thesis
  proof (cases "fc_events (m_fdContexts io ! i) = 0 \<or> \<not> ctl EPOLL_CTL_DEL i 0")
    case True
    then show ?thesis using d inv i fd by (auto simp: cancelAll_def Let_def split: if_splits)
  next
    case False
    then show ?thesis using cancelAll_ok [OF inv i, of ctl] d fd by auto
  qed
qed

lemma add_ctx_success:
  assumes "add_ctx ctl io i event cb this cur st = Inr (r, io')"
  shows "r = - 1 \<and> io' = io \<or>
    rw event \<and> (cb \<noteq> None \<or> st = EXEC) \<and> ec_scheduler (slot_of (m_fdContexts io ! i) event) = None"
  using assms
  by (auto simp: add_ctx_def Let_def getContext_def rw_def slot_of_def split: if_splits option.splits)

lemma add_ctx_length: "add_ctx ctl io i event cb this cur st = Inr (r, io') \<Longrightarrow> length (m_fdContexts io') = length (m_fdContexts io)"
  by (auto simp: add_ctx_def Let_def err_bind_eq_Inr put_ctx_def split: if_splits option.splits)

lemma add_ctx_inv:
  assumes inv: "io_inv io" and i: "i < length (m_fdContexts io)"
    and d: "add_ctx ctl io i event cb (Some sid) cur st = Inr (r, io')"
  shows "io_inv io'"
proof -
  have e: "fc_events (m_fdContexts io ! i) AND event = 0" using d by (auto simp: add_ctx_def Let_def split: if_splits)
  have "io' = io \<or> rw event \<and> (cb \<noteq> None \<or> st = EXEC) \<and> ec_scheduler (slot_of (m_fdContexts io ! i) event) = None"
    using add_ctx_success [OF d] by blast
  then show ?thesis
    using add_ctx_ok [OF inv i _ e, of cb st ctl sid cur] d inv by (auto split: if_splits)
qed

lemma idle_event_inv:
  assumes inv: "io_inv io" and e: "\<And>i ev. e = FdEvent i ev \<Longrightarrow> i < length (m_fdContexts io)"
    and d: "idle_event ctl io e = Inr io'"
  shows "io_inv io' \<and> length (m_fdContexts io') = length (m_fdContexts io)"
proof (cases e)
  case TickleEvent
  then show ?thesis using d inv by (auto simp: idle_event_def io_inv_def)
next
  case (FdEvent i ev)
  note i = e [OF FdEvent]
  let ?c = "m_fdContexts io ! i" and ?r = "real_events_of ev"
  let ?n = "fc_events ?c AND NOT ?r"
  let ?ctl = "ctl (if ?n \<noteq> 0 then EPOLL_CTL_MOD else EPOLL_CTL_DEL) i (EPOLLET OR ?n)"
  have fd: "fc_fd ?c = i" using io_inv_ctx [OF inv i] by (simp add: ctx_ok_def)
  have len: "length (m_fdContexts x) = length (m_fdContexts io)" if "idle_event ctl io e = Inr x" for x
    using that FdEvent by (auto simp: idle_event_def Let_def err_bind_eq_Inr trigger_if_def triggerEvent_def
        put_ctx_def dec_pending_def split: if_splits option.splits)
  consider "io' = io" | "fc_events ?c AND ?r \<noteq> 0" "?r AND NOT (fc_events ?c) = 0" ?ctl
    | "fc_events ?c AND ?r \<noteq> 0" "?r AND NOT (fc_events ?c) \<noteq> 0" ?ctl
    using d FdEvent fd by (auto simp: idle_event_def Let_def NONE_def split: if_splits)
  then show ?thesis
  proof cases
    case 1
    then show ?thesis using inv by simp
  next
    case 2
    then show ?thesis using idle_event_ok [OF inv i 2(1,2), where ctl = ctl] 2(3) d FdEvent len [OF d] by auto
  next
    case 3
    then show ?thesis using idle_event_assert [OF inv i 3(1,2), where ctl = ctl] 3(3) d FdEvent by simp
  qed
qed

lemma idle_events_inv:
  assumes "io_inv io" and "\<And>i ev. FdEvent i ev \<in> set es \<Longrightarrow> i < length (m_fdContexts io)"
    and "idle_events ctl io es = Inr io'"
  shows "io_inv io'"
  using assms
proof (induction es arbitrary: io)
  case (Cons e es)
  obtain io1 where 1: "idle_event ctl io e = Inr io1" and 2: "idle_events ctl io1 es = Inr io'"
    using Cons.prems(3) by (auto simp: err_bind_eq_Inr)
  have "io_inv io1 \<and> length (m_fdContexts io1) = length (m_fdContexts io)"
    using Cons.prems(1,2) 1 by (intro idle_event_inv) auto
  then show ?case using Cons.IH [OF _ _ 2] Cons.prems(2) by auto
qed simp

lemma schedule_expired_frame [simp]:
  "m_fdContexts (schedule_expired cbid io cbs) = m_fdContexts io"
  "m_pendingEventCount (schedule_expired cbid io cbs) = m_pendingEventCount io"
  "ep_log (schedule_expired cbid io cbs) = ep_log io"
  by (simp_all add: schedule_expired_def Let_def split: prod.split)

lemma calm_step_inv:
  assumes "calm_step io io'" and "io_inv io"
  shows "io_inv io'"
proof -
  have "io_step io io'" and len: "length (m_fdContexts io) \<le> length (m_fdContexts io')"
    using assms(1) by (simp_all add: calm_step_def)
  then show ?thesis using assms(2)
  proof (induction rule: io_step.induct)
    case (grow i io ind)
    then have "length (m_fdContexts io) \<le> i * 3 div 2" by (simp add: grow_ctx_def contextResize_def)
    then show ?case using contextResize_inv [OF grow.prems(2)] by (simp add: grow_ctx_def)
  next
    case (expire io np now cbs tm cbid)
    from expire.prems(2) show ?case by (rule io_inv_frame [rotated -1]) simp_all
  next
    case (event e io ctl io')
    then show ?case using idle_event_inv by blast
  next
    case (timer io p now ms tcb recurring)
    from timer.prems(2) show ?case
      by (rule io_inv_frame [rotated -1])
        (simp_all add: io_addTimer_def onTimerInsertedAtFront_def Let_def split: prod.split)
  next
    case (poll io now)
    from poll.prems(2) show ?case
      by (rule io_inv_frame [rotated -1]) (simp_all add: io_stopping_timeout_def Let_def split: prod.split)
  next
    case (other io sid s)
    from other.prems(2) show ?case by (rule io_inv_frame [rotated -1]) simp_all
  qed (auto intro: add_ctx_inv delEvent_inv cancelEvent_inv cancelAll_inv)
qed

lemma new_IOManager_inv: "io_inv (new_IOManager ind sid scheds now)"
proof -
  let ?io = "\<lparr>io_id = sid, io_scheds = scheds, io_pipe = (\<lambda>_. 0), io_timers = new_TimerManager now,
      m_pendingEventCount = 0, m_fdContexts = [], ep_log = []\<rparr>"
  have "io_inv ?io" by (simp add: io_inv_def)
  then show ?thesis using contextResize_inv [of ?io 32 ind] by (simp add: new_IOManager_def)
qed

lemma io_reachable_inv: "io_reachable io \<Longrightarrow> io_inv io"
proof -
  have "calm_step\<^sup>*\<^sup>* a b \<Longrightarrow> io_inv a \<Longrightarrow> io_inv b" for a b
    by (induction rule: rtranclp_induct) (auto intro: calm_step_inv)
  then show "io_reachable io \<Longrightarrow> io_inv io" by (auto simp: io_reachable_def new_IOManager_inv)
qed

subsection \<open>Properties\<close>

lemma bit_ucast_31: "bit (ucast (t :: u64) :: u32) 31 \<longleftrightarrow> bit t 31"
  by (simp add: bit_simps)

lemma sint_ucast_neg: "sint (ucast (t :: u64) :: u32) < 0 \<longleftrightarrow> bit t 31"
  using bit_last_iff [of "ucast t :: u32"] bit_ucast_31 [of t] by simp

lemma projr_pair: "\<not> isl r \<Longrightarrow> r = Inr (fst (projr r), snd (projr r))"
  by (cases r) auto

text \<open>A manager in which fiber 5 waits for descriptor 3 to become readable.\<close>

definition demo_io :: iomanager where
  "demo_io = new_IOManager (\<lambda>_ _. None) 0 (\<lambda>_. demo_s0) 0"

definition demo_io1 :: iomanager where
  "demo_io1 = snd (projr (addEvent (\<lambda>_ _ _. True) (\<lambda>_ _. None) demo_io 3 READ None (Some 0) 5 EXEC))"

lemma demo_io_inv: "io_inv demo_io"
  unfolding demo_io_def by (rule new_IOManager_inv)

lemma demo_io1_reachable: "io_reachable demo_io1"
proof -
  have 1: "3 < length (m_fdContexts demo_io)"
    "\<not> isl (addEvent (\<lambda>_ _ _. True) (\<lambda>_ _. None) demo_io 3 READ None (Some 0) 5 EXEC)" by code_simp+
  have eq: "addEvent (\<lambda>_ _ _. True) (\<lambda>_ _. None) demo_io 3 READ None (Some 0) 5 EXEC =
      add_ctx (\<lambda>_ _ _. True) demo_io 3 READ None (Some 0) 5 EXEC" using 1(1) by (simp add: addEvent_def)
  have a: "add_ctx (\<lambda>_ _ _. True) demo_io 3 READ None (Some 0) 5 EXEC = Inr (fst (projr (add_ctx (\<lambda>_ _ _. True) demo_io 3 READ None (Some 0) 5 EXEC)), demo_io1)"
    using projr_pair 1(2) unfolding demo_io1_def eq by blast
  then have "calm_step demo_io demo_io1" using io_step.add [OF 1(1)] add_ctx_length by (auto simp: calm_step_def)
  then show ?thesis unfolding io_reachable_def demo_io_def by blast
qed

text \<open>
  Two threads find the table too short, for the descriptors 100 and 40; the first makes room and registers its waiter,
  then the second resizes the table to 60 entries.
\<close>

definition race_io1 :: iomanager where "race_io1 = grow_ctx (\<lambda>_ _. None) demo_io 100"

definition race_io2 :: iomanager where
  "race_io2 = snd (projr (add_ctx (\<lambda>_ _ _. True) race_io1 100 READ None (Some 0) 5 EXEC))"

definition race_io3 :: iomanager where "race_io3 = grow_ctx (\<lambda>_ _. None) race_io2 40"

lemma race_run_io: "io_step\<^sup>*\<^sup>* demo_io race_io3"
proof -
  have s1: "io_step demo_io race_io1" and s3: "io_step race_io2 race_io3"
    unfolding race_io1_def race_io3_def by (rule io_step.grow; simp)+
  have "100 < length (m_fdContexts race_io1)" "\<not> isl (add_ctx (\<lambda>_ _ _. True) race_io1 100 READ None (Some 0) 5 EXEC)"
    by code_simp+
  then have "io_step race_io1 race_io2"
    unfolding race_io2_def by (intro io_step.add [OF _ projr_pair])
  then show ?thesis using s1 s3 by (meson rtranclp.rtrancl_into_rtrancl rtranclp.rtrancl_refl)
qed

text \<open>C2. In every state of the I/O manager that is reached without a resize that makes its table shorter, the pending count is
  the number of registered events, what the kernel has registered for each descriptor is exactly the recorded set of
  events, every successful \<^verbatim>\<open>epoll_ctl\<close> call was one the kernel's rules allow (add when absent,
  modify and delete when present), every registered event has exactly one waiter, a callback
  or a fiber, with its scheduler, and an event that is not registered has none. A resize can make the table shorter,
  because \<^verbatim>\<open>addEvent\<close> does not test it again: there is a run in which a waiter is lost, with its event still registered in
  the kernel and counted as pending.\<close>

theorem io_accounting:
  "(\<forall>io. io_reachable io \<longrightarrow>
      m_pendingEventCount io = sum_list (map (\<lambda>c. ev_count (fc_events c)) (m_fdContexts io)) \<and>
      ctl_ok (rev (ep_log io)) \<and>
      (\<forall>i < length (m_fdContexts io). ctx_ok i (m_fdContexts io ! i) \<and>
         registered (rev (ep_log io)) i =
           (if fc_events (m_fdContexts io ! i) = 0 then None else Some (EPOLLET OR fc_events (m_fdContexts io ! i))))) \<and>
   (\<exists>ind sid scheds now io. io_step\<^sup>*\<^sup>* (new_IOManager ind sid scheds now) io \<and> m_pendingEventCount io = 1 \<and>
      length (m_fdContexts io) \<le> 100 \<and> registered (rev (ep_log io)) 100 = Some (EPOLLET OR READ) \<and>
      list_all (\<lambda>c. fc_events c = 0) (m_fdContexts io))"
proof (intro conjI allI impI)
  have "m_pendingEventCount race_io3 = 1" "length (m_fdContexts race_io3) \<le> 100"
    "registered (rev (ep_log race_io3)) 100 = Some (EPOLLET OR READ)" "list_all (\<lambda>c. fc_events c = 0) (m_fdContexts race_io3)"
    by code_simp+
  then show "\<exists>ind sid scheds now io. io_step\<^sup>*\<^sup>* (new_IOManager ind sid scheds now) io \<and> m_pendingEventCount io = 1 \<and>
      length (m_fdContexts io) \<le> 100 \<and> registered (rev (ep_log io)) 100 = Some (EPOLLET OR READ) \<and>
      list_all (\<lambda>c. fc_events c = 0) (m_fdContexts io)"
    using race_run_io [unfolded demo_io_def] by blast
qed (use io_reachable_inv in \<open>simp_all add: io_inv_def\<close>)

theorem io_accounting_witness:
  "io_reachable demo_io1 \<and> m_pendingEventCount demo_io1 = 1 \<and> registered (rev (ep_log demo_io1)) 3 = Some (EPOLLET OR READ)"
proof -
  have "length (m_fdContexts demo_io1) = 32" "fc_events (m_fdContexts demo_io1 ! 3) = READ" "m_pendingEventCount demo_io1 = 1"
    by code_simp+
  then show ?thesis using io_accounting demo_io1_reachable by (auto simp: READ_def)
qed

text \<open>The destructor deletes no context that someone waits on: once the I/O manager reports that it can stop, in a state reached without a
  resize that shortens the table, no deleted context has an event, and the kernel has no event of its descriptor registered.\<close>

theorem release_loses_no_waiter:
  assumes "io_reachable io" and "io_stopping io" and "i < length (m_fdContexts io)"
  shows "IOManager_release io ! (i + 3) = DeleteContext (m_fdContexts io ! i) \<and> fc_events (m_fdContexts io ! i) = 0 \<and>
         registered (rev (ep_log io)) i = None"
proof -
  note inv = io_reachable_inv [OF assms(1)]
  have "ev_count (fc_events (m_fdContexts io ! i)) = 0"
    using pending_ge [OF inv assms(3)] assms(2) by (simp add: io_stopping_def)
  moreover have "fc_events (m_fdContexts io ! i) \<in> {0, 1, 4, 5}" using io_inv_ctx [OF inv assms(3)] by (simp only: ctx_ok_def)
  ultimately have "fc_events (m_fdContexts io ! i) = 0" by (auto simp: ev_count_def ev_simps)
  then show ?thesis using inv assms(3) by (simp add: io_inv_def IOManager_release_def nth_append)
qed

text \<open>C4. A waiter is never lost: when a fiber registers for an event, and the event then fires in the
  idle loop (reported alone and acknowledged by the kernel), the event is no longer registered and
  exactly this fiber is appended to the queue of the scheduler it runs on.\<close>

theorem wait_then_wake:
  assumes "io_inv io" and "i < length (m_fdContexts io)" and "rw event"
    and "fc_events (m_fdContexts io ! i) AND event = 0"
    and "addEvent ctl ind io (int i) event None (Some sid) cur EXEC = Inr (0, io1)"
    and "real_events_of ev = event"
    and "\<And>op e. ctl' op i e"
  shows "\<exists>io2. idle_event ctl' io1 (FdEvent i ev) = Inr io2 \<and> io_inv io2 \<and>
           fc_events (m_fdContexts io2 ! i) = fc_events (m_fdContexts io ! i) \<and>
           m_fibers (io_scheds io2 sid) = m_fibers (io_scheds io sid) @ [fiber_task cur]"
proof -
  let ?c = "m_fdContexts io ! i"
  have a: "add_ctx ctl io i event None (Some sid) cur EXEC = Inr (0, io1)"
    using assms(2,5) by (simp add: addEvent_def Let_def)
  have k: "io_inv io1" "length (m_fdContexts io1) = length (m_fdContexts io)"
      "fc_events (m_fdContexts io1 ! i) = fc_events ?c OR event" "io_scheds io1 = io_scheds io"
      "ec_scheduler (slot_of (m_fdContexts io1 ! i) event) = Some sid"
      "waiting_task (slot_of (m_fdContexts io1 ! i) event) = \<lparr>tk_fiber = Some cur, tk_cb = None, tk_thread = - 1\<rparr>"
    using add_ctx_ok [OF assms(1-4), of None EXEC ctl sid cur] add_ctx_success [OF a] a by (auto split: if_splits)
  have i1: "i < length (m_fdContexts io1)" using k(2) assms(2) by simp
  have b: "(fc_events ?c OR event) AND event \<noteq> 0" "event AND NOT (fc_events ?c OR event) = 0"
      "(fc_events ?c OR event) AND NOT event = fc_events ?c"
    using assms(4) by (rule_tac rw_cases [OF assms(3) io_inv_ctx [OF assms(1,2)]]; simp)+
  have e: "event = READ \<or> event = WRITE" using assms(3) by (simp add: rw_def)
  have d: "deliver_set (io_scheds io1) (m_fdContexts io1 ! i) event = deliver (io_scheds io1) (m_fdContexts io1 ! i) event"
    using e by (auto simp: deliver_set_def ev_simps)
  obtain io2 where r: "idle_event ctl' io1 (FdEvent i ev) = Inr io2" "io_inv io2"
      "fc_events (m_fdContexts io2 ! i) = fc_events ?c"
      "io_scheds io2 = deliver (io_scheds io1) (m_fdContexts io1 ! i) event"
    using idle_event_ok [OF k(1) i1, of ev ctl'] assms(6,7) b k(3) d by auto
  have "m_fibers (io_scheds io2 sid) = m_fibers (io_scheds io sid) @ [fiber_task cur]"
    using r(4) k(4,5,6) by (simp add: deliver_def Let_def schedule_def scheduleNoLock_def fiber_task_def)
  then show ?thesis using r by blast
qed

theorem wait_then_wake_witness:
  "\<exists>io2. idle_event (\<lambda>_ _ _. True) demo_io1 (FdEvent 3 EPOLLIN) = Inr io2 \<and> m_fibers (io_scheds io2 0) = [fiber_task 5]"
proof -
  have 1: "3 < length (m_fdContexts demo_io)" "fc_events (m_fdContexts demo_io ! 3) AND READ = 0"
    "real_events_of EPOLLIN = READ" "m_fibers (io_scheds demo_io 0) = []" by code_simp+
  have "\<not> isl (addEvent (\<lambda>_ _ _. True) (\<lambda>_ _. None) demo_io (int 3) READ None (Some 0) 5 EXEC)"
    "fst (projr (addEvent (\<lambda>_ _ _. True) (\<lambda>_ _. None) demo_io (int 3) READ None (Some 0) 5 EXEC)) = 0" by code_simp+
  then have "addEvent (\<lambda>_ _ _. True) (\<lambda>_ _. None) demo_io (int 3) READ None (Some 0) 5 EXEC = Inr (0, demo_io1)"
    using projr_pair by (fastforce simp: demo_io1_def)
  then show ?thesis
    using wait_then_wake [OF demo_io_inv 1(1) _ 1(2) _ 1(3), where ctl = "\<lambda>_ _ _. True" and ctl' = "\<lambda>_ _ _. True" and ind = "\<lambda>_ _. None" and sid = 0 and cur = 5] 1(4)
    by (auto simp: rw_def)
qed

text \<open>Cancelling a registered event (with the kernel's consent) delivers its waiter to its scheduler
  and deregisters exactly this event; without the kernel's consent nothing changes.\<close>

theorem cancelEvent_delivers:
  assumes "io_inv io" and "i < length (m_fdContexts io)" and "rw event"
    and "fc_events (m_fdContexts io ! i) AND event \<noteq> 0"
  shows "let c = m_fdContexts io ! i; n = fc_events c AND NOT event in
         if ctl (if n \<noteq> 0 then EPOLL_CTL_MOD else EPOLL_CTL_DEL) i (EPOLLET OR n)
         then \<exists>io'. cancelEvent ctl io (int i) event = Inr (True, io') \<and> io_inv io' \<and>
                fc_events (m_fdContexts io' ! i) = n \<and> io_scheds io' = deliver (io_scheds io) c event
         else cancelEvent ctl io (int i) event = Inr (False, io)"
  unfolding Let_def by (rule cancelEvent_ok [OF assms])

theorem cancelEvent_delivers_witness:
  "\<exists>io'. cancelEvent (\<lambda>_ _ _. True) demo_io1 (int 3) READ = Inr (True, io') \<and> fc_events (m_fdContexts io' ! 3) = 0"
proof -
  have 1: "3 < length (m_fdContexts demo_io1)" "fc_events (m_fdContexts demo_io1 ! 3) AND READ \<noteq> 0"
    "fc_events (m_fdContexts demo_io1 ! 3) AND NOT READ = 0" by code_simp+
  then show ?thesis
    using cancelEvent_delivers [OF io_reachable_inv [OF demo_io1_reachable] 1(1) _ 1(2), of "\<lambda>_ _ _. True"]
    by (auto simp: Let_def rw_def)
qed

text \<open>\<^verbatim>\<open>cancelAll\<close>, which a closing descriptor relies on, delivers every waiter of the descriptor, the
  reader first, and leaves no event registered.\<close>

theorem cancelAll_delivers:
  assumes "io_inv io" and "i < length (m_fdContexts io)" and "fc_events (m_fdContexts io ! i) \<noteq> 0"
    and "ctl EPOLL_CTL_DEL i 0"
  shows "\<exists>io'. cancelAll ctl io (int i) = Inr (True, io') \<and> io_inv io' \<and> fc_events (m_fdContexts io' ! i) = 0 \<and>
           io_scheds io' = deliver_set (io_scheds io) (m_fdContexts io ! i) (fc_events (m_fdContexts io ! i))"
  by (rule cancelAll_ok [where ctl = ctl, OF assms])

theorem cancelAll_delivers_witness:
  "\<exists>io'. cancelAll (\<lambda>_ _ _. True) demo_io1 (int 3) = Inr (True, io') \<and> fc_events (m_fdContexts io' ! 3) = 0"
proof -
  have 1: "3 < length (m_fdContexts demo_io1)" "fc_events (m_fdContexts demo_io1 ! 3) \<noteq> 0" by code_simp+
  then show ?thesis
    using cancelAll_delivers [where ctl = "\<lambda>_ _ _. True", OF io_reachable_inv [OF demo_io1_reachable] 1] by auto
qed

text \<open>The idle loop does not restrict the reported events to the registered ones: an error or hang-up
  on a descriptor with only one of the two events registered makes the assertion of
  \<^verbatim>\<open>triggerEvent\<close> fail.\<close>

theorem hangup_aborts:
  assumes "io_inv io" and "i < length (m_fdContexts io)"
    and "fc_events (m_fdContexts io ! i) = READ \<or> fc_events (m_fdContexts io ! i) = WRITE"
    and "ev AND (EPOLLERR OR EPOLLHUP) \<noteq> 0" and "\<And>op e. ctl op i e"
  shows "idle_event ctl io (FdEvent i ev) = Inl (IoAssert ''events & event'')"
proof -
  have set: "event_set (real_events_of ev)" by (rule real_events_set)
  have "(ev OR 5) AND 1 \<noteq> 0" and "(ev OR 5) AND 4 \<noteq> 0"
    by (simp_all add: bit.conj_disj_distrib2 or_eq_0_iff)
  then have "real_events_of ev = 5" using assms(4) by (simp add: real_events_of_def Let_def ev_simps)
  then show ?thesis
    using idle_event_assert [OF assms(1,2), of ev ctl] assms(3,5) by (auto simp: ev_simps)
qed

theorem hangup_aborts_witness:
  "io_inv demo_io1 \<and> idle_event (\<lambda>_ _ _. True) demo_io1 (FdEvent 3 EPOLLHUP) = Inl (IoAssert ''events & event'')"
proof -
  have 1: "3 < length (m_fdContexts demo_io1)" "fc_events (m_fdContexts demo_io1 ! 3) = READ"
    "EPOLLHUP AND (EPOLLERR OR EPOLLHUP) \<noteq> 0" by code_simp+
  have inv: "io_inv demo_io1" using demo_io1_reachable by (rule io_reachable_inv)
  show ?thesis using hangup_aborts [OF inv 1(1) _ 1(3), of "\<lambda>_ _ _. True"] 1(2) inv by simp
qed

text \<open>The wait of the idle loop never misses a deadline that is less than \<open>2 ^ 31\<close> milliseconds away:
  it is the delay, cut to three seconds. Beyond that the narrowing to \<^verbatim>\<open>int\<close> shows: the wait is
  unlimited (negative) exactly when bit 31 of the delay is set.\<close>

theorem wait_timeout_bounds:
  "(uint t < 2 ^ 31 \<longrightarrow> wait_timeout t = min (uint t) 3000) \<and> wait_timeout t \<le> 3000 \<and>
   (wait_timeout t < 0 \<longleftrightarrow> t \<noteq> NOT 0 \<and> bit t 31)"
proof -
  have "t \<noteq> NOT 0" if "uint t < 2 ^ 31" using that by (auto simp: unsigned_minus_1_eq_mask mask_eq_exp_minus_1)
  then show ?thesis
    using sint_ucast_small [of t] sint_ucast_neg [of t] by (auto simp: wait_timeout_def MAX_TIMEOUT_def min_def)
qed

theorem wait_timeout_bounds_witness:
  "wait_timeout 5 = 5 \<and> wait_timeout 2147483648 < 0"
  using wait_timeout_bounds [of 5] wait_timeout_bounds [of 2147483648] by (simp add: bit_numeral_rec)

text \<open>\<^verbatim>\<open>IOManager::tickle\<close> tests the wrong way round: it writes to the wakeup pipe exactly when no thread
  is idle. So when a thread sleeps in \<^verbatim>\<open>epoll_wait\<close>, scheduling a task into the empty queue does
  not wake it.\<close>

theorem idle_thread_not_woken:
  assumes "m_idleThreadCount (io_scheds io sid) > 0"
  shows "io_pipe (io_tickle io sid) = io_pipe io \<and> io_pipe (io_schedule io sid ft) sid = io_pipe io sid"
proof -
  have "m_idleThreadCount (snd (schedule (io_scheds io sid) ft)) = m_idleThreadCount (io_scheds io sid)"
    by (simp add: schedule_def scheduleNoLock_def Let_def)
  then show ?thesis
    using assms by (auto simp: io_tickle_def io_schedule_def hasIdleThreads_def Let_def split: prod.split)
qed

theorem idle_thread_not_woken_witness:
  "\<exists>io. m_idleThreadCount (io_scheds io 0) > 0 \<and> m_fibers (io_scheds io 0) = [] \<and>
     io_pipe (io_schedule io 0 (fiber_task 5)) 0 = io_pipe io 0"
proof -
  let ?io = "demo_io\<lparr>io_scheds := (\<lambda>_. demo_s0\<lparr>m_idleThreadCount := 1\<rparr>)\<rparr>"
  have "m_fibers demo_s0 = []" by code_simp
  then show ?thesis using idle_thread_not_woken [of ?io 0 "fiber_task 5"] by (intro exI [of _ ?io]) simp
qed

end
