(* ===== verification/Hook_Props.thy ===== *)
theory Hook_Props
  imports Hook IOManager_Props
begin

text \<open>
  What the hooks guarantee to the fibers that call them, for the blocking calls, the recorded mode
  of a descriptor, the sleeping calls and \<^verbatim>\<open>close\<close>.
\<close>

subsection \<open>Properties\<close>

text \<open>C6. A hooked blocking call on a socket never reports an interruption or an empty buffer to its
  caller: it returns what some call of the original function returned, a timeout or cancellation
  recorded while it waited, or a failed registration; and every timer it armed was cancelled
  again before it returned, with none armed for a socket without a timeout.\<close>

theorem do_io_result:
  assumes "m_isSocket c" and "\<not> m_isClose c" and "\<not> m_userNonblock c"
    and "do_io True (Some c) event so rs ws = Some (n, err, calls)"
  shows "io_outcome rs ws (n, err) \<and> timers_added calls = timers_cancelled calls \<and>
         (getTimeout c so = - 1 \<longrightarrow> timers_added calls = 0)"
  using assms do_io_loop_ok [of "getTimeout c so" event rs ws "[]" n err calls] by (auto simp: do_io_def)

theorem do_io_result_witness:
  "\<exists>c. do_io True (Some c) READ SO_RCVTIMEO [(- 1, EINTR), (- 1, EAGAIN), (7, 0)] [Woken 0] =
        Some (7, 0, [CallFun, CallFun, AddTimer 500, AddEvent READ, YieldHold, CancelTimer, CallFun]) \<and>
      timers_added [CallFun, CallFun, AddTimer 500, AddEvent READ, YieldHold, CancelTimer, CallFun] = 1 \<and>
      io_outcome [(- 1, EINTR), (- 1, EAGAIN), (7, 0)] [Woken 0] (7, 0)"
proof -
  let ?c = "\<lparr>m_isInit = True, m_isSocket = True, m_sysNonbool = True, m_isClose = False, m_userNonblock = False,
             m_recvTimeout = 500, m_sendTimeout = - 1, m_fd = 4\<rparr>"
  have d: "do_io True (Some ?c) READ SO_RCVTIMEO [(- 1, EINTR), (- 1, EAGAIN), (7, 0)] [Woken 0] =
      Some (7, 0, [CallFun, CallFun, AddTimer 500, AddEvent READ, YieldHold, CancelTimer, CallFun])" by code_simp
  show ?thesis using do_io_result [OF _ _ _ d] d by (intro exI [of _ ?c]) simp
qed

text \<open>C7. A hooked call on a socket returns as soon as an attempt succeeds or fails for good: after any
  number of interruptions and waits it yields that attempt's result, having called the original
  function exactly once for each attempt. If instead the timeout fires during a wait, which it can
  do once and only while the call still waits, the call returns \<^verbatim>\<open>ETIMEDOUT\<close>.\<close>

theorem do_io_returns:
  assumes "m_isSocket c" and "\<not> m_isClose c" and "\<not> m_userNonblock c"
    and "retried rs" and "\<not> retried [(n, err)]"
  shows "\<exists>calls calls'.
     do_io True (Some c) event so (rs @ [(n, err)]) (replicate (waits rs) (Woken 0)) = Some (n, err, calls) \<and>
     fun_calls calls = Suc (length rs) \<and>
     (\<exists>e. on_timeout (Some 0) = (Some e, True) \<and> on_timeout (Some e) = (Some e, False) \<and> on_timeout None = (None, False) \<and>
        do_io True (Some c) event so (rs @ [(- 1, EAGAIN)]) (replicate (waits rs) (Woken 0) @ [Woken e]) =
          Some (- 1, ETIMEDOUT, calls')) \<and>
     fun_calls calls' = Suc (length rs)"
  using assms do_io_loop_retried [OF assms(4), of "getTimeout c so" event "[(n, err)]" "[]" "[]"]
    do_io_loop_retried [OF assms(4), of "getTimeout c so" event "[(- 1, EAGAIN)]" "[Woken ETIMEDOUT]" "[]"]
  by (auto simp: do_io_def retried_def on_timeout_def ETIMEDOUT_def EAGAIN_def EINTR_def Let_def fun_calls_retry)

theorem do_io_returns_witness:
  "retried [(- 1, EINTR), (- 1, EAGAIN)] \<and>
   (\<exists>c calls. do_io True (Some c) READ SO_RCVTIMEO ([(- 1, EINTR), (- 1, EAGAIN)] @ [(7, 0)])
     (replicate (waits [(- 1, EINTR), (- 1, EAGAIN)]) (Woken 0)) = Some (7, 0, calls) \<and> fun_calls calls = Suc 2)"
proof -
  let ?rs = "[(- 1, EINTR), (- 1, EAGAIN)] :: (int \<times> int) list" and ?c = "fst (new_FdCtx 4 (Some True) 0)"
  have r: "retried ?rs" "\<not> retried [(7, 0)]" by (simp_all add: retried_def)
  show ?thesis
    using do_io_returns [of ?c ?rs 7 0 READ SO_RCVTIMEO, OF _ _ _ r] r(1)
    by (intro conjI exI [of _ ?c]) (auto simp: new_FdCtx_eq numeral_2_eq_2)
qed

text \<open>Setting the flags of a socket keeps the kernel's descriptor non-blocking whatever the user asks
  for, and remembers the user's choice, which decides whether later calls wait in the hook. Setting
  a timeout makes later calls of that direction use it.\<close>

theorem user_mode_recorded:
  assumes "m_isSocket c" and "\<not> m_isClose c" and "m_sysNonbool c"
  shows "hook_fcntl (Suc d) f (Some c) F_SETFL_like arg =
           Some (Inr (f F_SETFL_like (arg OR O_NONBLOCK), Some (c\<lparr>m_userNonblock := (arg AND O_NONBLOCK \<noteq> 0)\<rparr>))) \<and>
         (\<forall>c'. hook_setsockopt True (Some c) True SO_RCVTIMEO s us = Some c' \<longrightarrow>
            getTimeout c' SO_RCVTIMEO = word_of_int (s * 1000 + us div 1000) \<and> m_sendTimeout c' = m_sendTimeout c)"
  using assms by (auto simp: setUserNonblock_def hook_setsockopt_def setTimeout_def getTimeout_def Let_def)

theorem user_mode_recorded_witness:
  "hook_fcntl 1 (\<lambda>_ a. a) (Some (fst (new_FdCtx 3 (Some True) 0))) F_SETFL_like 0 =
     Some (Inr (O_NONBLOCK, Some (fst (new_FdCtx 3 (Some True) 0))))"
  using user_mode_recorded [of "fst (new_FdCtx 3 (Some True) 0)" 0 "\<lambda>_ a. a" 0 0 0] by (simp add: new_FdCtx_eq)

text \<open>C40. The hook of \<^verbatim>\<open>fcntl\<close> calls itself for \<^verbatim>\<open>F_GETFL\<close>, for the commands without an argument and for
  unknown ones, and that of \<^verbatim>\<open>ioctl\<close> for \<^verbatim>\<open>FIONBIO\<close> on anything but a managed open socket (an unknown descriptor, a closed one, or one that is no socket): these calls
  never return, however deep the stack.\<close>

theorem hooks_recurse_forever:
  "hook_fcntl d f ctx F_GETFL arg = None \<and> hook_fcntl d f ctx F_no_arg arg = None \<and>
   hook_fcntl d f ctx F_other arg = None \<and>
   (\<forall>c. c = None \<or> m_isClose (the c) \<or> \<not> m_isSocket (the c) \<longrightarrow> hook_ioctl d r c True = None)"
proof -
  have "hook_fcntl d f ctx F_GETFL arg = None" by (induction d) simp_all
  moreover have "hook_fcntl d f ctx F_no_arg arg = None" "hook_fcntl d f ctx F_other arg = None"
    by (induction d) simp_all
  moreover have "hook_ioctl d r c True = None" if "c = None \<or> m_isClose (the c) \<or> \<not> m_isSocket (the c)" for c
    using that by (induction d) (auto split: option.split)
  ultimately show ?thesis by simp
qed

theorem hooks_recurse_forever_witness:
  "hook_ioctl 1000 0 (Some (fst (new_FdCtx 3 (Some False) 0))) True = None"
  using hooks_recurse_forever by (simp add: new_FdCtx_eq)

text \<open>\<^verbatim>\<open>sleep\<close> computes the delay in 32 bits: it is exact up to 4294967 seconds, and wraps beyond.\<close>

theorem sleep_delay:
  "(unat seconds \<le> 4294967 \<longrightarrow> unat (sleep_ms seconds) = 1000 * unat seconds) \<and> unat (sleep_ms 4294968) = 704"
proof -
  have "unat (seconds * 1000) = 1000 * unat seconds" if "unat seconds \<le> 4294967"
    using that by (simp add: unat_word_ariths)
  then show ?thesis by (simp add: sleep_ms_def unsigned_ucast_eq take_bit_nat_eq_self_iff)
qed

theorem sleep_delay_witness: "unat (sleep_ms 3) = 3000"
  using sleep_delay [of 3] by simp

text \<open>C32. Closing a managed descriptor wakes everything that waits for it: all its events are
  deregistered, its waiters are handed to their schedulers, and the descriptor's context is gone.\<close>

theorem close_wakes_waiters:
  assumes "fdm_inv m" and "fd_lookup m i = Some c" and "io_inv io" and "i < length (m_fdContexts io)"
    and "fc_events (m_fdContexts io ! i) \<noteq> 0" and "ctl EPOLL_CTL_DEL i 0"
  shows "\<exists>m' io'. hook_close ctl True m (Some io) (int i) = Inr (m', Some io') \<and>
           fd_get m' (int i) False stat flags = Inr (None, m') \<and> fdm_inv m' \<and> io_inv io' \<and>
           fc_events (m_fdContexts io' ! i) = 0 \<and>
           io_scheds io' = deliver_set (io_scheds io) (m_fdContexts io ! i) (fc_events (m_fdContexts io ! i))"
proof -
  obtain io' where io': "cancelAll ctl io (int i) = Inr (True, io')" "io_inv io'" "fc_events (m_fdContexts io' ! i) = 0"
      "io_scheds io' = deliver_set (io_scheds io) (m_fdContexts io ! i) (fc_events (m_fdContexts io ! i))"
    using cancelAll_ok [where ctl = ctl, OF assms(3,4,5,6)] by blast
  obtain m' where m': "fd_del m (int i) = Inr m'" "fdm_inv m'" using fd_del_ok [OF assms(1), of i] by blast
  have "fd_get m (int i) False None 0 = Inr (Some c, m)"
    using fdm.get_present [OF assms(1,2), of False "(None, 0)"] by simp
  then have "hook_close ctl True m (Some io) (int i) = Inr (m', Some io')"
    using io'(1) m'(1) by (simp add: hook_close_def)
  then show ?thesis
    using io' m' fdm.get_after_del [OF assms(1) m'(1), of "(stat, flags)"] by auto
qed

theorem close_wakes_waiters_witness:
  "\<exists>m c m' io'. fd_lookup m 3 = Some c \<and>
     hook_close (\<lambda>_ _ _. True) True m (Some demo_io1) (int 3) = Inr (m', Some io') \<and>
     fc_events (m_fdContexts io' ! 3) = 0"
proof -
  have "fd_lookup new_FdManager 3 = None" by (simp add: fd_lookup_def new_FdManager_def)
  then obtain m c where m: "fdm_inv m" "fd_lookup m 3 = Some c"
    using fd_get_ok [OF new_FdManager_inv, where i = 3 and b = True and stat = "Some True" and flags = 0] by auto
  have 1: "3 < length (m_fdContexts demo_io1)" "fc_events (m_fdContexts demo_io1 ! 3) \<noteq> 0" by code_simp+
  then show ?thesis
    using close_wakes_waiters [where ctl = "\<lambda>_ _ _. True", OF m io_reachable_inv [OF demo_io1_reachable] 1, of None 0] m
    by blast
qed

end
