(* ===== verification/Text.thy ===== *)
theory Text
  imports Prelude
begin

text \<open>
  Text as the stream operators of the standard library print it: unsigned numbers in decimal and
  in hexadecimal, and the lemmas that let a printed text be taken apart again.
\<close>

definition digit :: "nat \<Rightarrow> char" where
  "digit n = char_of (if n < 10 then 48 + n else 87 + n)"

fun base_string :: "nat \<Rightarrow> nat \<Rightarrow> string" where
  "base_string b n = (if n < b \<or> b < 2 then [digit n] else base_string b (n div b) @ [digit (n mod b)])"

declare base_string.simps [simp del]

definition dec_string :: "nat \<Rightarrow> string" where "dec_string = base_string 10"
definition hex_string :: "nat \<Rightarrow> string" where "hex_string = base_string 16"

text \<open>Reading a number back.\<close>

definition digit_val :: "char \<Rightarrow> nat" where
  "digit_val c = (if (of_char c :: nat) < 58 then of_char c - 48 else of_char c - 87)"

definition base_val :: "nat \<Rightarrow> string \<Rightarrow> nat" where
  "base_val b s = foldl (\<lambda>a c. a * b + digit_val c) 0 s"

lemma digit_val_digit: "n < 16 \<Longrightarrow> digit_val (digit n) = n"
  by (simp add: digit_val_def digit_def)

lemma base_val_base_string: "2 \<le> b \<Longrightarrow> b \<le> 16 \<Longrightarrow> base_val b (base_string b n) = n"
proof (induction b n rule: base_string.induct)
  case (1 b n)
  show ?case
  proof (cases "n < b")
    case True
    then show ?thesis using 1 by (subst base_string.simps) (simp add: base_val_def digit_val_digit)
  next
    case False
    then have "base_val b (base_string b (n div b)) = n div b" using 1 by simp
    moreover have "base_val b (xs @ [c]) = base_val b xs * b + digit_val c" for xs c by (simp add: base_val_def)
    ultimately show ?thesis
      using False 1 by (subst base_string.simps) (simp add: digit_val_digit less_le_trans [OF mod_less_divisor])
  qed
qed

lemma base_val_numbers: "base_val 10 (dec_string n) = n" "base_val 16 (hex_string n) = n"
  by (simp_all add: dec_string_def hex_string_def base_val_base_string)

lemma number_inj: "dec_string m = dec_string n \<longleftrightarrow> m = n" "hex_string m = hex_string n \<longleftrightarrow> m = n"
  by (metis base_val_numbers)+

lemma base_string_not_Nil [simp]: "base_string b n \<noteq> []"
  by (subst base_string.simps) simp

lemma dec_string_not_Nil [simp]: "dec_string n \<noteq> []" "hex_string n \<noteq> []"
  by (simp_all add: dec_string_def hex_string_def)

text \<open>Numbers contain none of the separators the program prints between them.\<close>

definition separator :: "char \<Rightarrow> bool" where
  "separator c \<longleftrightarrow> (of_char c :: nat) < 48 \<or> 57 < (of_char c :: nat) \<and> (of_char c :: nat) < 97"

lemma digit_no_separator: "n < 16 \<Longrightarrow> \<not> separator (digit n)"
  by (auto simp: separator_def digit_def)

lemma base_string_no_separator: "2 \<le> b \<Longrightarrow> b \<le> 16 \<Longrightarrow> separator c \<Longrightarrow> c \<notin> set (base_string b n)"
proof (induction b n rule: base_string.induct)
  case (1 b n)
  have "\<not> separator (digit (n mod b))" "n < b \<Longrightarrow> \<not> separator (digit n)"
    using 1 by (auto intro!: digit_no_separator intro: less_le_trans [OF mod_less_divisor])
  then show ?case using 1 by (cases "n < b"; subst base_string.simps) auto
qed

lemma number_no_separator: "separator c \<Longrightarrow> c \<notin> set (dec_string n)" "separator c \<Longrightarrow> c \<notin> set (hex_string n)"
  by (simp_all add: dec_string_def hex_string_def base_string_no_separator)

lemma separators [simp]: "separator CHR ''.''" "separator CHR '':''" "separator CHR '']''" "separator CHR '' ''"
  by (simp_all add: separator_def)

lemma split_at_first:
  "c \<notin> set xs \<Longrightarrow> c \<notin> set ys \<Longrightarrow> xs @ c # xs' = ys @ c # ys' \<longleftrightarrow> xs = ys \<and> xs' = ys'"
proof (induction xs arbitrary: ys)
  case Nil
  then show ?case by (cases ys) auto
next
  case (Cons x xs)
  then show ?case by (cases ys) auto
qed

lemma number_separator_eq:
  "separator c \<Longrightarrow> dec_string m @ c # xs = dec_string n @ c # ys \<longleftrightarrow> m = n \<and> xs = ys"
  by (simp add: split_at_first number_no_separator number_inj)

end
