(* ===== verification/Address.thy ===== *)
theory Address
  imports Endian Text StdSet
begin

text \<open>
  \<^verbatim>\<open>code/address.h\<close> and \<^verbatim>\<open>code/address.cc\<close>: socket addresses. The \<^verbatim>\<open>sockaddr\<close> structures are records
  with the fields in memory order, \<open>getAddr\<close> gives their bytes, and the class hierarchy is the
  datatype \<open>address\<close>. The resolver (\<^verbatim>\<open>getaddrinfo\<close>), \<^verbatim>\<open>inet_pton\<close> and the list of network
  interfaces are arguments. \<open>Inl\<close> is undefined behaviour or an exception, and a null pointer is
  \<open>None\<close>.
\<close>

definition AF_UNSPEC :: u16 where "AF_UNSPEC = 0"
definition AF_UNIX :: u16 where "AF_UNIX = 1"
definition AF_INET :: u16 where "AF_INET = 2"
definition AF_INET6 :: u16 where "AF_INET6 = 10"

record sockaddr_in =
  sin_family :: u16
  sin_port :: u16
  sin_addr :: u32
  sin_zero :: "u8 list"

record sockaddr_in6 =
  sin6_family :: u16
  sin6_port :: u16
  sin6_flowinfo :: u32
  sin6_addr :: "u8 list"
  sin6_scope_id :: u32

record sockaddr_un =
  sun_family :: u16
  sun_path :: "u8 list"

record sockaddr =
  sa_family :: u16
  sa_data :: "u8 list"

datatype address =
    IPv4Address sockaddr_in
  | IPv6Address sockaddr_in6
  | UnixAddress sockaddr_un u32
  | UnknownAddress sockaddr

datatype addr_error = BadShift | AddrOutOfBounds | PathTooLong | NullAddr

subsection \<open>Masks and bit counts\<close>

text \<open>
  \<^verbatim>\<open>CreateMask\<close> shifts the \<^verbatim>\<open>int\<close> 1: a shift by 32 or more is undefined, and so is subtracting 1
  after a shift by 31.
\<close>

definition CreateMask :: "nat \<Rightarrow> addr_error + 'a::len word" where
  "CreateMask bits =
     (if LENGTH('a) < bits \<or> 31 \<le> LENGTH('a) - bits then Inl BadShift
      else Inr (word_of_int (2 ^ (LENGTH('a) - bits) - 1)))"

lemma and_minus_one_less: "v \<noteq> 0 \<Longrightarrow> unat (v AND (v - 1)) < unat (v :: 'a::len word)"
proof -
  assume v: "v \<noteq> 0"
  have "v AND (v - 1) \<le> v - 1" by (rule word_and_le1)
  then have "unat (v AND (v - 1)) \<le> unat (v - 1)" by (simp add: word_le_nat_alt)
  also have "\<dots> < unat v" using v by (simp add: unat_minus_one) (simp add: unat_0_iff [symmetric])
  finally show ?thesis .
qed

function CountBytes :: "'a::len word \<Rightarrow> u32" where
  "CountBytes v = (if v = 0 then 0 else 1 + CountBytes (v AND (v - 1)))"
  by pat_completeness auto
termination
  by (relation "measure unat") (auto intro: and_minus_one_less)

declare CountBytes.simps [simp del]

subsection \<open>Construction\<close>

definition new_IPv4Address :: "nat \<Rightarrow> u32 \<Rightarrow> u16 \<Rightarrow> sockaddr_in" where
  "new_IPv4Address bo ip port =
     \<lparr>sin_family = AF_INET, sin_port = byteswapOnLittleEndian bo port, sin_addr = byteswapOnLittleEndian bo ip,
      sin_zero = replicate 8 0\<rparr>"

definition new_IPv6Address :: sockaddr_in6 where
  "new_IPv6Address =
     \<lparr>sin6_family = AF_INET6, sin6_port = 0, sin6_flowinfo = 0, sin6_addr = replicate 16 0, sin6_scope_id = 0\<rparr>"

definition new_IPv6Address_bytes :: "nat \<Rightarrow> u8 list \<Rightarrow> u16 \<Rightarrow> sockaddr_in6" where
  "new_IPv6Address_bytes bo address port =
     new_IPv6Address\<lparr>sin6_port := byteswapOnLittleEndian bo port, sin6_addr := take 16 address\<rparr>"

definition MAX_PATH_LEN :: nat where "MAX_PATH_LEN = 108 - 1"

definition new_UnixAddress :: address where
  "new_UnixAddress = UnixAddress \<lparr>sun_family = AF_UNIX, sun_path = replicate 108 0\<rparr> (of_nat (2 + MAX_PATH_LEN))"

definition new_UnixAddress_path :: "u8 list \<Rightarrow> addr_error + address" where
  "new_UnixAddress_path path =
     (let m_addr_len = (of_nat (length path + 1) :: u32);
          m_addr_len = (if path \<noteq> [] \<and> hd path = 0 then m_addr_len - 1 else m_addr_len)
      in if 108 < unat m_addr_len then Inl PathTooLong
         else Inr (UnixAddress
                     \<lparr>sun_family = AF_UNIX, sun_path = memcpy_at (replicate 108 0) 0 (take (unat m_addr_len) (path @ [0]))\<rparr>
                     (m_addr_len + 2)))"

definition new_UnknownAddress :: "u16 \<Rightarrow> sockaddr" where
  "new_UnknownAddress family = \<lparr>sa_family = family, sa_data = replicate 14 0\<rparr>"

subsection \<open>Bytes and comparison\<close>

fun getAddr :: "nat \<Rightarrow> address \<Rightarrow> u8 list" where
  "getAddr bo (IPv4Address a) =
     mem_bytes bo (sin_family a) @ mem_bytes bo (sin_port a) @ mem_bytes bo (sin_addr a) @ sin_zero a"
| "getAddr bo (IPv6Address a) =
     mem_bytes bo (sin6_family a) @ mem_bytes bo (sin6_port a) @ mem_bytes bo (sin6_flowinfo a) @ sin6_addr a @
     mem_bytes bo (sin6_scope_id a)"
| "getAddr bo (UnixAddress a _) = mem_bytes bo (sun_family a) @ sun_path a"
| "getAddr bo (UnknownAddress a) = mem_bytes bo (sa_family a) @ sa_data a"

fun getAddrLen :: "address \<Rightarrow> nat" where
  "getAddrLen (IPv4Address _) = 16"
| "getAddrLen (IPv6Address _) = 28"
| "getAddrLen (UnixAddress _ m_addr_len) = unat m_addr_len"
| "getAddrLen (UnknownAddress _) = 16"

fun setAddrLen :: "address \<Rightarrow> u32 \<Rightarrow> address" where
  "setAddrLen (UnixAddress a _) v = UnixAddress a v"
| "setAddrLen a v = a"

definition getFamily :: "nat \<Rightarrow> address \<Rightarrow> int" where
  "getFamily bo a = uint (of_mem_bytes bo (take 2 (getAddr bo a)) :: u16)"

text \<open>\<^verbatim>\<open>memcmp\<close> of \<open>n\<close> bytes; reading past an object is undefined.\<close>

fun memcmp :: "u8 list \<Rightarrow> u8 list \<Rightarrow> nat \<Rightarrow> int option" where
  "memcmp xs ys 0 = Some 0"
| "memcmp (x # xs) (y # ys) (Suc n) = (if x < y then Some (- 1) else if y < x then Some 1 else memcmp xs ys n)"
| "memcmp xs ys (Suc n) = None"

definition address_less :: "nat \<Rightarrow> address \<Rightarrow> address \<Rightarrow> bool option" where
  "address_less bo a b =
     (let minlen = min (getAddrLen a) (getAddrLen b) in
      case memcmp (getAddr bo a) (getAddr bo b) minlen of None \<Rightarrow> None
      | Some result \<Rightarrow>
          if result < 0 then Some True
          else if result > 0 then Some False
          else Some (getAddrLen a < getAddrLen b))"

definition address_equal :: "nat \<Rightarrow> address \<Rightarrow> address \<Rightarrow> bool option" where
  "address_equal bo a b =
     (if getAddrLen a = getAddrLen b
      then map_option (\<lambda>r. r = 0) (memcmp (getAddr bo a) (getAddr bo b) (getAddrLen a))
      else Some False)"

definition address_not_equal :: "nat \<Rightarrow> address \<Rightarrow> address \<Rightarrow> bool option" where
  "address_not_equal bo a b = map_option Not (address_equal bo a b)"

subsection \<open>From a raw socket address\<close>

definition sockaddr_in_of :: "nat \<Rightarrow> u8 list \<Rightarrow> sockaddr_in" where
  "sockaddr_in_of bo bs =
     \<lparr>sin_family = of_mem_bytes bo (take 2 bs), sin_port = of_mem_bytes bo (take 2 (drop 2 bs)),
      sin_addr = of_mem_bytes bo (take 4 (drop 4 bs)), sin_zero = take 8 (drop 8 bs)\<rparr>"

definition sockaddr_in6_of :: "nat \<Rightarrow> u8 list \<Rightarrow> sockaddr_in6" where
  "sockaddr_in6_of bo bs =
     \<lparr>sin6_family = of_mem_bytes bo (take 2 bs), sin6_port = of_mem_bytes bo (take 2 (drop 2 bs)),
      sin6_flowinfo = of_mem_bytes bo (take 4 (drop 4 bs)), sin6_addr = take 16 (drop 8 bs),
      sin6_scope_id = of_mem_bytes bo (take 4 (drop 24 bs))\<rparr>"

definition sockaddr_of :: "nat \<Rightarrow> u8 list \<Rightarrow> sockaddr" where
  "sockaddr_of bo bs = \<lparr>sa_family = of_mem_bytes bo (take 2 bs), sa_data = take 14 (drop 2 bs)\<rparr>"

definition Address_Create :: "nat \<Rightarrow> u8 list option \<Rightarrow> address option" where
  "Address_Create bo address =
     (case address of None \<Rightarrow> None
      | Some bs \<Rightarrow>
          let fam = of_mem_bytes bo (take 2 bs) in
          if fam = AF_INET then Some (IPv4Address (sockaddr_in_of bo bs))
          else if fam = AF_INET6 then Some (IPv6Address (sockaddr_in6_of bo bs))
          else Some (UnknownAddress (sockaddr_of bo bs)))"

fun is_IPAddress :: "address option \<Rightarrow> bool" where
  "is_IPAddress (Some (IPv4Address _)) = True"
| "is_IPAddress (Some (IPv6Address _)) = True"
| "is_IPAddress _ = False"

subsection \<open>Ports, masks and derived addresses\<close>

definition v4_getPort :: "nat \<Rightarrow> sockaddr_in \<Rightarrow> u32" where
  "v4_getPort bo a = ucast (byteswapOnLittleEndian bo (sin_port a))"

definition v4_setPort :: "nat \<Rightarrow> sockaddr_in \<Rightarrow> u16 \<Rightarrow> sockaddr_in" where
  "v4_setPort bo a port = a\<lparr>sin_port := byteswapOnLittleEndian bo port\<rparr>"

definition v6_getPort :: "nat \<Rightarrow> sockaddr_in6 \<Rightarrow> u32" where
  "v6_getPort bo a = ucast (byteswapOnLittleEndian bo (sin6_port a))"

definition v6_setPort :: "nat \<Rightarrow> sockaddr_in6 \<Rightarrow> u16 \<Rightarrow> sockaddr_in6" where
  "v6_setPort bo a port = a\<lparr>sin6_port := byteswapOnLittleEndian bo port\<rparr>"

definition v4_broadCastAddress :: "nat \<Rightarrow> sockaddr_in \<Rightarrow> nat \<Rightarrow> addr_error + sockaddr_in option" where
  "v4_broadCastAddress bo a prefix_len =
     (if prefix_len > 32 then Inr None
      else err_bind (CreateMask prefix_len) (\<lambda>mask.
        Inr (Some (a\<lparr>sin_addr := sin_addr a OR byteswapOnLittleEndian bo mask\<rparr>))))"

definition v4_networkAddress :: "nat \<Rightarrow> sockaddr_in \<Rightarrow> nat \<Rightarrow> addr_error + sockaddr_in option" where
  "v4_networkAddress bo a prefix_len =
     (if prefix_len > 32 then Inr None
      else err_bind (CreateMask prefix_len) (\<lambda>mask.
        Inr (Some (a\<lparr>sin_addr := sin_addr a AND byteswapOnLittleEndian bo mask\<rparr>))))"

definition v4_subnetMask :: "nat \<Rightarrow> sockaddr_in \<Rightarrow> nat \<Rightarrow> addr_error + sockaddr_in option" where
  "v4_subnetMask bo a prefix_len =
     err_bind (CreateMask prefix_len) (\<lambda>mask.
       Inr (Some \<lparr>sin_family = AF_INET, sin_port = 0, sin_addr = NOT (byteswapOnLittleEndian bo mask), sin_zero = replicate 8 0\<rparr>))"

definition set_bytes :: "nat \<Rightarrow> nat \<Rightarrow> u8 \<Rightarrow> u8 list \<Rightarrow> u8 list" where
  "set_bytes i n v xs = foldl (\<lambda>xs i. xs[i := v]) xs [i..<n]"

definition v6_broadCastAddress :: "sockaddr_in6 \<Rightarrow> nat \<Rightarrow> addr_error + sockaddr_in6 option" where
  "v6_broadCastAddress a prefix_len =
     (let k = prefix_len div 8; bs = sin6_addr a in
      if 16 \<le> k then Inl AddrOutOfBounds
      else err_bind (CreateMask (prefix_len mod 8)) (\<lambda>mask.
        Inr (Some (a\<lparr>sin6_addr := set_bytes (k + 1) 16 255 (bs[k := bs ! k OR NOT mask])\<rparr>))))"

definition v6_networkAddress :: "sockaddr_in6 \<Rightarrow> nat \<Rightarrow> addr_error + sockaddr_in6 option" where
  "v6_networkAddress a prefix_len =
     (let k = prefix_len div 8; bs = sin6_addr a in
      if 16 \<le> k then Inl AddrOutOfBounds
      else err_bind (CreateMask (prefix_len mod 8)) (\<lambda>mask.
        Inr (Some (a\<lparr>sin6_addr := set_bytes (k + 1) 16 0 (bs[k := bs ! k AND mask])\<rparr>))))"

definition v6_subnetMask :: "sockaddr_in6 \<Rightarrow> nat \<Rightarrow> addr_error + sockaddr_in6 option" where
  "v6_subnetMask a prefix_len =
     (let k = prefix_len div 8 in
      if 16 \<le> k then Inl AddrOutOfBounds
      else err_bind (CreateMask (prefix_len mod 8)) (\<lambda>mask.
        Inr (Some (new_IPv6Address\<lparr>sin6_addr := set_bytes 0 k 255 ((replicate 16 0)[k := NOT mask])\<rparr>))))"

subsection \<open>Printing\<close>

definition v4_insert :: "nat \<Rightarrow> sockaddr_in \<Rightarrow> string" where
  "v4_insert bo a =
     (let addr = byteswapOnLittleEndian bo (sin_addr a) in
      dec_string (unat (drop_bit 24 addr AND 255)) @ ''.'' @
      dec_string (unat (drop_bit 16 addr AND 255)) @ ''.'' @
      dec_string (unat (drop_bit 8 addr AND 255)) @ ''.'' @
      dec_string (unat (addr AND 255)) @
      '':'' @ dec_string (unat (byteswapOnLittleEndian bo (sin_port a))))"

text \<open>The address read as an array of eight 16 bit integers, and the loop that prints them.\<close>

definition v6_groups :: "nat \<Rightarrow> sockaddr_in6 \<Rightarrow> u16 list" where
  "v6_groups bo a = map (\<lambda>i. of_mem_bytes bo (take 2 (drop (2 * i) (sin6_addr a)))) [0..<8]"

definition v6_insert_step :: "nat \<Rightarrow> u16 list \<Rightarrow> string \<times> bool \<Rightarrow> nat \<Rightarrow> string \<times> bool" where
  "v6_insert_step bo addr st i =
     (let (os, used_zeros) = st in
      if addr ! i = 0 \<and> \<not> used_zeros then (os, used_zeros)
      else let (os, used_zeros) =
                 (if i \<noteq> 0 \<and> addr ! (i - 1) = 0 \<and> \<not> used_zeros then (os @ '':'', True) else (os, used_zeros));
               os = (if i \<noteq> 0 then os @ '':'' else os)
           in (os @ hex_string (unat (byteswapOnLittleEndian bo (addr ! i))), used_zeros))"

definition v6_insert_groups :: "nat \<Rightarrow> u16 list \<Rightarrow> string" where
  "v6_insert_groups bo addr =
     (let (os, used_zeros) = foldl (v6_insert_step bo addr) ([], False) [0..<8] in
      if \<not> used_zeros \<and> addr ! 7 = 0 then os @ ''::'' else os)"

definition v6_insert :: "nat \<Rightarrow> sockaddr_in6 \<Rightarrow> string" where
  "v6_insert bo a =
     ''['' @ v6_insert_groups bo (v6_groups bo a) @ '']: '' @
     dec_string (unat (byteswapOnLittleEndian bo (sin6_port a)))"

text \<open>Bytes as characters; a C string ends at the first zero byte.\<close>

definition chars :: "u8 list \<Rightarrow> string" where
  "chars bs = map (\<lambda>b. char_of (unat b)) bs"

definition unix_insert :: "sockaddr_un \<Rightarrow> u32 \<Rightarrow> string" where
  "unix_insert a m_addr_len =
     (if 2 < unat m_addr_len \<and> hd (sun_path a) = 0
      then [CHR 0x5C, CHR ''0''] @ chars (take (unat m_addr_len - 2 - 1) (drop 1 (sun_path a)))
      else chars (takeWhile (\<lambda>b. b \<noteq> 0) (sun_path a)))"

fun address_toString :: "nat \<Rightarrow> address \<Rightarrow> string" where
  "address_toString bo (IPv4Address a) = v4_insert bo a"
| "address_toString bo (IPv6Address a) = v6_insert bo a"
| "address_toString bo (UnixAddress a m_addr_len) = unix_insert a m_addr_len"
| "address_toString bo (UnknownAddress a) = ''[Unknown address family: '' @ dec_string (unat (sa_family a)) @ '']''"

subsection \<open>Lookup\<close>

definition memchr :: "char \<Rightarrow> string \<Rightarrow> nat \<Rightarrow> nat option" where
  "memchr c s n = (let i = length (takeWhile (\<lambda>x. x \<noteq> c) (take n s)) in if i < length (take n s) then Some i else None)"

text \<open>
  The text the resolver is asked for: the node and the service. A service that was found by its
  first colon is kept when a second colon follows.
\<close>

definition bracketed :: "string \<Rightarrow> string \<times> string option" where
  "bracketed host =
     (if host \<noteq> [] \<and> hd host = CHR ''['' then
        case memchr CHR '']'' host (length host - 1) of None \<Rightarrow> ([], None)
        | Some endipv6 \<Rightarrow>
            (take (endipv6 - 1) (drop 1 host),
             if host ! (endipv6 + 1) = CHR '':'' then Some (drop (endipv6 + 2) host) else None)
      else ([], None))"

definition split_host :: "string \<Rightarrow> string \<times> string option" where
  "split_host host =
     (let (node, service) = bracketed host;
          (node, service) =
            (if node = [] then
               case memchr CHR '':'' host (length host) of None \<Rightarrow> (node, None)
               | Some i \<Rightarrow>
                   if memchr CHR '':'' (drop (i + 1) host) (length host - i - 1) = None
                   then (take i host, Some (drop (i + 1) host))
                   else (node, Some (drop i host))
             else (node, service))
      in (if node = [] then host else node, service))"

definition c_str :: "string \<Rightarrow> string" where
  "c_str s = takeWhile (\<lambda>c. c \<noteq> CHR 0x00) s"

type_synonym resolver = "string \<Rightarrow> string option \<Rightarrow> int \<Rightarrow> int \<Rightarrow> int \<Rightarrow> int + u8 list list"

text \<open>The two lines that \<^verbatim>\<open>Lookup\<close> writes to the log are left out; the first one prints the service pointer, which may be null.\<close>

definition Lookup ::
  "resolver \<Rightarrow> nat \<Rightarrow> address option list \<Rightarrow> string \<Rightarrow> int \<Rightarrow> int \<Rightarrow> int \<Rightarrow> bool \<times> address option list" where
  "Lookup getaddrinfo bo result host family type protocol =
     (let (node, service) = split_host host in
      case getaddrinfo (c_str node) (map_option c_str service) family type protocol of
        Inl error \<Rightarrow> (False, result)
      | Inr results \<Rightarrow> (True, result @ map (\<lambda>r. Address_Create bo (Some r)) results))"

fun first_IPAddress :: "address option list \<Rightarrow> address option" where
  "first_IPAddress [] = None"
| "first_IPAddress (i # is) = (if is_IPAddress i then i else first_IPAddress is)"

definition LookupAny :: "resolver \<Rightarrow> nat \<Rightarrow> string \<Rightarrow> int \<Rightarrow> int \<Rightarrow> int \<Rightarrow> address option" where
  "LookupAny getaddrinfo bo host family type protocol =
     (let (ok, result) = Lookup getaddrinfo bo [] host family type protocol in
      if ok then first_IPAddress result else None)"

definition LookupAnyIPAddress :: "resolver \<Rightarrow> nat \<Rightarrow> string \<Rightarrow> int \<Rightarrow> int \<Rightarrow> int \<Rightarrow> address option" where
  "LookupAnyIPAddress getaddrinfo bo host family type protocol =
     (let (ok, result) = Lookup getaddrinfo bo [] host type protocol 0 in
      if ok then first_IPAddress result else None)"

fun setPort :: "nat \<Rightarrow> address \<Rightarrow> u16 \<Rightarrow> address" where
  "setPort bo (IPv4Address a) port = IPv4Address (v4_setPort bo a port)"
| "setPort bo (IPv6Address a) port = IPv6Address (v6_setPort bo a port)"
| "setPort bo a port = a"

definition IPAddress_Create :: "resolver \<Rightarrow> nat \<Rightarrow> string \<Rightarrow> u16 \<Rightarrow> addr_error + address option" where
  "IPAddress_Create getaddrinfo bo address port =
     (case getaddrinfo address (Some ''http'') 0 0 0 of
        Inl err \<Rightarrow> Inr None
      | Inr [] \<Rightarrow> Inl NullAddr
      | Inr (r # _) \<Rightarrow>
          let rt = Address_Create bo (Some r) in
          Inr (if is_IPAddress rt then map_option (\<lambda>a. setPort bo a port) rt else None))"

text \<open>\<open>inet_pton\<close> gives the bytes of the address in network order.\<close>

definition IPv4Address_Create :: "(string \<Rightarrow> u8 list option) \<Rightarrow> nat \<Rightarrow> string \<Rightarrow> u16 \<Rightarrow> address option" where
  "IPv4Address_Create inet_pton bo address port =
     (let rt = (new_IPv4Address bo 0 0)\<lparr>sin_port := byteswapOnLittleEndian bo port\<rparr> in
      case inet_pton address of None \<Rightarrow> None
      | Some bs \<Rightarrow> Some (IPv4Address (rt\<lparr>sin_addr := of_mem_bytes bo bs\<rparr>)))"

definition IPv6Address_Create :: "(string \<Rightarrow> u8 list option) \<Rightarrow> nat \<Rightarrow> string \<Rightarrow> u16 \<Rightarrow> address option" where
  "IPv6Address_Create inet_pton bo address port =
     (let rt = new_IPv6Address\<lparr>sin6_port := byteswapOnLittleEndian bo port\<rparr> in
      case inet_pton address of None \<Rightarrow> None
      | Some bs \<Rightarrow> Some (IPv6Address (rt\<lparr>sin6_addr := bs\<rparr>)))"

subsection \<open>Network interfaces\<close>

text \<open>
  An entry of \<^verbatim>\<open>getifaddrs\<close>; the address may be null, which the code does not test. The
  \<^verbatim>\<open>multimap\<close> is the list of its entries in insertion order: what \<^verbatim>\<open>equal_range\<close> yields for a name
  is in that order.
\<close>

record ifaddr =
  ifa_name :: string
  ifa_addr :: "u8 list option"
  ifa_netmask :: "u8 list"

definition sum_bytes :: "u8 list \<Rightarrow> u32" where
  "sum_bytes bs = foldl (\<lambda>n b. n + CountBytes b) 0 bs"

fun interface_loop ::
  "nat \<Rightarrow> u16 \<Rightarrow> ifaddr list \<Rightarrow> (string \<times> address \<times> u32) list \<Rightarrow> addr_error + (string \<times> address \<times> u32) list" where
  "interface_loop bo family [] result = Inr result"
| "interface_loop bo family (next # rest) result =
     (case ifa_addr next of None \<Rightarrow> Inl NullAddr
      | Some bs \<Rightarrow>
          let fam = of_mem_bytes bo (take 2 bs) in
          if family \<noteq> AF_UNSPEC \<and> fam \<noteq> family then interface_loop bo family rest result
          else
            let (addr, prefix_len) =
                  (if fam = AF_INET then
                     (Address_Create bo (Some bs), CountBytes (sin_addr (sockaddr_in_of bo (ifa_netmask next))))
                   else if fam = AF_INET6 then
                     (Address_Create bo (Some bs), sum_bytes (sin6_addr (sockaddr_in6_of bo (ifa_netmask next))))
                   else (None, - 1));
                result = (case addr of None \<Rightarrow> result | Some a \<Rightarrow> result @ [(ifa_name next, a, prefix_len)])
            in interface_loop bo family rest result)"

definition GetInterfaceAddress ::
  "nat \<Rightarrow> ifaddr list option \<Rightarrow> u16 \<Rightarrow> (string \<times> address \<times> u32) list \<Rightarrow> addr_error + bool \<times> (string \<times> address \<times> u32) list" where
  "GetInterfaceAddress bo ifs family result =
     (case ifs of None \<Rightarrow> Inr (False, result)
      | Some results \<Rightarrow> err_bind (interface_loop bo family results result) (\<lambda>result. Inr (True, result)))"

definition GetInterfaceAddress_named ::
  "nat \<Rightarrow> ifaddr list option \<Rightarrow> string \<Rightarrow> u16 \<Rightarrow> (address \<times> u32) list \<Rightarrow> addr_error + bool \<times> (address \<times> u32) list" where
  "GetInterfaceAddress_named bo ifs iface family result =
     (if iface = [] \<or> iface = ''*'' then
        let result = (if family = AF_INET \<or> family = AF_UNSPEC then result @ [(IPv4Address (new_IPv4Address bo 0 0), 0)] else result);
            result = (if family = AF_INET6 \<or> family = AF_UNSPEC then result @ [(IPv6Address new_IPv6Address, 0)] else result)
        in Inr (True, result)
      else err_bind (GetInterfaceAddress bo ifs family []) (\<lambda>(ok, results).
        if \<not> ok then Inr (False, result)
        else Inr (True, result @ map snd (filter (\<lambda>e. fst e = iface) results))))"

end
