(* ===== verification/Address_Props.thy ===== *)
theory Address_Props
  imports Address
begin

text \<open>
  Correctness of the socket addresses: the masks and the addresses derived from them, the bit
  counts, the order on addresses as an interpretation of the interface of \<open>StdSet\<close>, the printed
  forms, and the texts the resolver is asked for.
\<close>

subsection \<open>Byte swapping bit by bit\<close>

definition swap_index :: "nat \<Rightarrow> nat \<Rightarrow> nat" where
  "swap_index n k = 8 * (n div 8 - 1 - k div 8) + k mod 8"

lemma swap_index_less:
  assumes "8 dvd n" and "k < n"
  shows "swap_index n k < n" and "swap_index n (swap_index n k) = k" and "k div 8 < n div 8"
proof -
  obtain m where n: "n = 8 * m" using assms(1) by blast
  then have q: "k div 8 < m" using assms(2) by (simp add: less_mult_imp_div_less mult.commute)
  then obtain d where d: "m = Suc (k div 8 + d)" by (metis less_iff_Suc_add)
  then show "swap_index n k < n" "swap_index n (swap_index n k) = k" "k div 8 < n div 8"
    using n by (simp_all add: swap_index_def)
qed

lemma bit_byteswap:
  assumes "8 dvd LENGTH('a)" and "k < LENGTH('a)"
  shows "bit (byteswap (w :: 'a::len word)) k \<longleftrightarrow> bit w (swap_index LENGTH('a) k)"
proof -
  note k = swap_index_less [OF assms]
  have "rev (le_bytes w) ! (k div 8) = ucast (drop_bit (8 * (LENGTH('a) div 8 - 1 - k div 8)) w)"
    using k(3) by (simp add: rev_nth) (simp add: le_bytes_def)
  then show ?thesis
    using k assms by (simp add: byteswap_def bit_of_le_bytes) (simp add: bit_simps swap_index_def)
qed

lemma byteswap_bitwise:
  assumes "8 dvd LENGTH('a)"
  shows "byteswap (v OR w) = byteswap v OR byteswap (w :: 'a::len word)"
    and "byteswap (v AND w) = byteswap v AND byteswap (w :: 'a::len word)"
    and "byteswap (NOT w) = NOT (byteswap (w :: 'a::len word))"
  using assms by (auto intro!: bit_word_eqI simp: bit_byteswap bit_simps swap_index_less)

lemma onLittleEndian_bitwise:
  "byteswapOnLittleEndian bo (v OR w) = byteswapOnLittleEndian bo v OR byteswapOnLittleEndian bo (w :: u32)"
  "byteswapOnLittleEndian bo (v AND w) = byteswapOnLittleEndian bo v AND byteswapOnLittleEndian bo (w :: u32)"
  "byteswapOnLittleEndian bo (NOT w) = NOT (byteswapOnLittleEndian bo (w :: u32))"
  by (simp_all add: byteswapOnLittleEndian_def byteswap_bitwise)

lemma onLittleEndian_twice [simp]:
  "byteswapOnLittleEndian bo (byteswapOnLittleEndian bo (w :: u32)) = w"
  "byteswapOnLittleEndian bo (byteswapOnLittleEndian bo (p :: u16)) = p"
  by (simp_all add: byteswapOnLittleEndian_involution)

subsection \<open>Counting bits\<close>

definition set_bits_of :: "'a::len word \<Rightarrow> nat set" where
  "set_bits_of w = {k. bit w k}"

lemma finite_set_bits [simp]: "finite (set_bits_of (w :: 'a::len word))"
  by (rule finite_subset [of _ "{..<LENGTH('a)}"]) (auto simp: set_bits_of_def dest: bit_imp_le_length)

lemma set_bits_empty: "set_bits_of w = {} \<longleftrightarrow> w = 0"
  by (auto simp: set_bits_of_def bit_eq_iff dest: bit_imp_le_length)

lemma clear_lowest_bit:
  assumes "v \<noteq> (0 :: 'a::len word)"
  shows "\<exists>j. bit v j \<and> set_bits_of (v AND (v - 1)) = set_bits_of v - {j}"
proof -
  define j where "j = (LEAST k. bit v k)"
  have "\<exists>k. bit v k" using assms by (auto simp: bit_eq_iff)
  then have j: "bit v j" unfolding j_def by (rule LeastI_ex)
  have low: "\<not> bit v k" if "k < j" for k using that unfolding j_def by (rule not_less_Least)
  have jl: "j < LENGTH('a)" using j by (rule bit_imp_le_length)
  define w where "w = unset_bit j v"
  have wb: "bit w k \<longleftrightarrow> bit v k \<and> k \<noteq> j" for k by (auto simp: w_def bit_simps)
  have "v = w OR 2 ^ j" by (intro bit_word_eqI) (auto simp: bit_simps wb j)
  moreover have "w AND 2 ^ j = 0" by (intro bit_word_eqI) (auto simp: bit_simps wb)
  ultimately have v: "v = w + 2 ^ j" by (simp add: disjunctive_add_eq_or)
  have "w AND mask j = 0" by (intro bit_word_eqI) (auto simp: bit_simps wb low)
  moreover have "v - 1 = w + mask j" by (simp add: v mask_eq_exp_minus_1)
  ultimately have "v - 1 = w OR mask j" by (simp add: disjunctive_add_eq_or)
  then have "v AND (v - 1) = w" by (intro bit_word_eqI) (auto simp: bit_simps wb low)
  then show ?thesis using j wb by (auto simp: set_bits_of_def)
qed

lemma CountBytes_card: "CountBytes (v :: 'a::len word) = of_nat (card (set_bits_of v))"
proof (induction v rule: CountBytes.induct)
  case (1 v)
  show ?case
  proof (cases "v = 0")
    case True
    then show ?thesis by (simp add: CountBytes.simps set_bits_of_def)
  next
    case False
    obtain j where j: "bit v j" "set_bits_of (v AND (v - 1)) = set_bits_of v - {j}"
      using clear_lowest_bit [OF False] by blast
    then have "card (set_bits_of v) = Suc (card (set_bits_of (v AND (v - 1))))"
      using card_Suc_Diff1 [of "set_bits_of v" j] by (simp add: set_bits_of_def)
    then show ?thesis using False 1 by (simp add: CountBytes.simps [of v])
  qed
qed

lemma card_set_bits_byteswap:
  assumes "8 dvd LENGTH('a)"
  shows "card (set_bits_of (byteswap (w :: 'a::len word))) = card (set_bits_of w)"
proof -
  note len = bit_imp_le_length and sw = swap_index_less [OF assms]
  have 1: "bit w (swap_index LENGTH('a) k)" if "bit (byteswap w) k" for k
    using that bit_byteswap [OF assms len [OF that], of w] by simp
  have 2: "bit (byteswap w) (swap_index LENGTH('a) k)" if "bit w k" for k
    using that bit_byteswap [OF assms sw(1) [OF len [OF that]], of w] sw(2) [OF len [OF that]] by simp
  have "bij_betw (swap_index LENGTH('a)) (set_bits_of (byteswap w)) (set_bits_of w)"
    by (rule bij_betw_byWitness [where f' = "swap_index LENGTH('a)"])
      (auto simp: set_bits_of_def sw len 1 2)
  then show ?thesis by (rule bij_betw_same_card)
qed

subsection \<open>Masks\<close>

lemma CreateMask_eq:
  "CreateMask bits =
     (if LENGTH('a) < bits \<or> 31 \<le> LENGTH('a) - bits then Inl BadShift
      else Inr (mask (LENGTH('a) - bits) :: 'a::len word))"
  by (simp add: CreateMask_def mask_eq_exp_minus_1)

text \<open>The address and the port a structure stands for, in the machine's order.\<close>

definition v4_ip :: "nat \<Rightarrow> sockaddr_in \<Rightarrow> u32" where
  "v4_ip bo a = byteswapOnLittleEndian bo (sin_addr a)"

lemma v4_derived:
  assumes "2 \<le> p" and "p \<le> 32"
  shows "v4_broadCastAddress bo a p =
           Inr (Some (a\<lparr>sin_addr := byteswapOnLittleEndian bo (v4_ip bo a OR mask (32 - p))\<rparr>))"
    and "v4_networkAddress bo a p =
           Inr (Some (a\<lparr>sin_addr := byteswapOnLittleEndian bo (v4_ip bo a AND mask (32 - p))\<rparr>))"
    and "v4_subnetMask bo a p = Inr (Some (new_IPv4Address bo (NOT (mask (32 - p))) 0))"
proof -
  have "\<not> 31 \<le> 32 - p" using assms by linarith
  moreover have "byteswapOnLittleEndian bo (0 :: u16) = 0"
    by (intro bit_word_eqI) (simp add: byteswapOnLittleEndian_def bit_byteswap)
  ultimately show
    "v4_broadCastAddress bo a p = Inr (Some (a\<lparr>sin_addr := byteswapOnLittleEndian bo (v4_ip bo a OR mask (32 - p))\<rparr>))"
    "v4_networkAddress bo a p = Inr (Some (a\<lparr>sin_addr := byteswapOnLittleEndian bo (v4_ip bo a AND mask (32 - p))\<rparr>))"
    "v4_subnetMask bo a p = Inr (Some (new_IPv4Address bo (NOT (mask (32 - p))) 0))"
    using assms by (simp_all add: v4_broadCastAddress_def v4_networkAddress_def v4_subnetMask_def CreateMask_eq
        v4_ip_def onLittleEndian_bitwise new_IPv4Address_def)
qed

lemma card_set_bits_prefix: "p \<le> 32 \<Longrightarrow> card (set_bits_of (NOT (mask (32 - p)) :: u32)) = p"
proof -
  assume "p \<le> 32"
  moreover have "set_bits_of (NOT (mask (32 - p)) :: u32) = {32 - p..<32}"
    by (auto simp: set_bits_of_def bit_simps)
  ultimately show ?thesis by simp
qed

subsection \<open>IPv6 masks\<close>

lemma set_bytes_simps:
  "set_bytes i 0 v xs = xs" "set_bytes i (Suc n) v xs = (if i \<le> n then (set_bytes i n v xs)[n := v] else xs)"
  by (simp_all add: set_bytes_def)

lemma length_set_bytes [simp]: "length (set_bytes i n v xs) = length xs"
  by (induction n) (simp_all add: set_bytes_simps)

lemma nth_set_bytes:
  "k < length xs \<Longrightarrow> set_bytes i n v xs ! k = (if i \<le> k \<and> k < n then v else xs ! k)"
  by (induction n) (auto simp: set_bytes_simps nth_list_update less_Suc_eq)

text \<open>Bit \<open>j\<close> of an address counted from the left.\<close>

definition v6_bit :: "u8 list \<Rightarrow> nat \<Rightarrow> bool" where
  "v6_bit bs j \<longleftrightarrow> bit (bs ! (j div 8)) (7 - j mod 8)"

lemma CreateMask_u8: "p < 8 \<Longrightarrow> CreateMask p = Inr (mask (8 - p) :: u8)"
  by (simp add: CreateMask_eq)

lemma v6_derived:
  assumes "p < 128" and "length (sin6_addr a) = 16"
  shows "v6_subnetMask a p =
           Inr (Some (new_IPv6Address\<lparr>sin6_addr := set_bytes 0 (p div 8) 255 ((replicate 16 0)[p div 8 := NOT (mask (8 - p mod 8))])\<rparr>))"
    and "v6_networkAddress a p =
           Inr (Some (a\<lparr>sin6_addr := set_bytes (p div 8 + 1) 16 0 ((sin6_addr a)[p div 8 := sin6_addr a ! (p div 8) AND mask (8 - p mod 8)])\<rparr>))"
    and "v6_broadCastAddress a p =
           Inr (Some (a\<lparr>sin6_addr := set_bytes (p div 8 + 1) 16 255 ((sin6_addr a)[p div 8 := sin6_addr a ! (p div 8) OR NOT (mask (8 - p mod 8))])\<rparr>))"
  using assms by (simp_all add: v6_subnetMask_def v6_networkAddress_def v6_broadCastAddress_def CreateMask_u8 Let_def)

subsection \<open>The order of addresses\<close>

text \<open>What the comparisons look at: the bytes up to the recorded length.\<close>

definition addr_key :: "nat \<Rightarrow> address \<Rightarrow> u8 list" where
  "addr_key bo a = take (getAddrLen a) (getAddr bo a)"

definition addr_ok :: "address \<Rightarrow> bool" where
  "addr_ok a = (case a of IPv4Address s \<Rightarrow> sin_family s = AF_INET \<and> length (sin_zero s) = 8
                | IPv6Address s \<Rightarrow> sin6_family s = AF_INET6 \<and> length (sin6_addr s) = 16
                | UnixAddress s m \<Rightarrow> sun_family s = AF_UNIX \<and> length (sun_path s) = 108 \<and> 2 \<le> unat m \<and> unat m \<le> 110
                | UnknownAddress s \<Rightarrow> length (sa_data s) = 14)"

lemma addr_ok_length: "addr_ok a \<Longrightarrow> getAddrLen a \<le> length (getAddr bo a)"
  by (cases a) (auto simp: addr_ok_def)

lemma memcmp_lex:
  assumes "n \<le> length xs" and "n \<le> length ys"
  shows "\<exists>r. memcmp xs ys n = Some r \<and> (r = 0 \<longleftrightarrow> take n xs = take n ys) \<and>
           (r < 0 \<longleftrightarrow> lex_less (take n xs) (take n ys))"
  using assms
proof (induction xs ys n rule: memcmp.induct)
  case (2 x xs y ys n)
  then show ?case by auto
qed auto

lemma address_less_key:
  assumes "addr_ok a" and "addr_ok b"
  shows "address_less bo a b = Some (lex_less (addr_key bo a) (addr_key bo b))"
    and "address_equal bo a b = Some (addr_key bo a = addr_key bo b)"
proof -
  let ?n = "min (getAddrLen a) (getAddrLen b)"
  note l = addr_ok_length [OF assms(1), of bo] addr_ok_length [OF assms(2), of bo]
  have m: "?n \<le> length (getAddr bo a)" "?n \<le> length (getAddr bo b)" using l by (auto simp: min_def)
  obtain r where r: "memcmp (getAddr bo a) (getAddr bo b) ?n = Some r"
    "r = 0 \<longleftrightarrow> take ?n (getAddr bo a) = take ?n (getAddr bo b)"
    "r < 0 \<longleftrightarrow> lex_less (take ?n (getAddr bo a)) (take ?n (getAddr bo b))"
    using memcmp_lex [OF m] by blast
  have k: "length (addr_key bo a) = getAddrLen a" "length (addr_key bo b) = getAddrLen b"
    "take ?n (addr_key bo a) = take ?n (getAddr bo a)" "take ?n (addr_key bo b) = take ?n (getAddr bo b)"
    using l by (simp_all add: addr_key_def min_def)
  show "address_less bo a b = Some (lex_less (addr_key bo a) (addr_key bo b))"
    using r k lex_less_take [of ?n "addr_key bo a" "addr_key bo b"] by (auto simp: address_less_def)
  show "address_equal bo a b = Some (addr_key bo a = addr_key bo b)"
    using r k by (auto simp: address_equal_def addr_key_def dest: arg_cong [where f = length])
qed

interpretation addr: comparator "\<lambda>a b. lex_less (addr_key bo a) (addr_key bo b)"
  by unfold_locales (auto simp: lex_less_irrefl intro: lex_less_trans, metis lex_less_total lex_less_trans)

subsection \<open>Texts\<close>

lemma memchr_None: "memchr c s (length s) = None \<longleftrightarrow> c \<notin> set s"
proof -
  have "length (takeWhile (\<lambda>x. x \<noteq> c) s) < length s \<longleftrightarrow> c \<in> set s" by (induction s) auto
  then show ?thesis by (simp add: memchr_def)
qed

lemma memchr_split:
  assumes "c \<notin> set xs" and "length xs < n"
  shows "memchr c (xs @ c # ys) n = Some (length xs)"
proof -
  obtain m where "n = Suc (length xs + m)" using assms(2) less_imp_Suc_add by blast
  then have t: "take n (xs @ c # ys) = xs @ c # take m ys" by simp
  show ?thesis unfolding memchr_def Let_def t using assms by (auto simp: takeWhile_append)
qed

lemma split_host_colon:
  assumes "CHR '':'' \<notin> set node" and "CHR '':'' \<notin> set port" and "node \<noteq> []" and "hd node \<noteq> CHR ''[''"
  shows "split_host (node @ '':'' @ port) = (node, Some port)"
proof -
  have "memchr CHR '':'' (node @ CHR '':'' # port) (Suc (length node + length port)) = Some (length node)"
    using memchr_split [OF assms(1), of "Suc (length node + length port)" port] by simp
  moreover have "memchr CHR '':'' port (length port) = None" using assms(2) by (simp add: memchr_None)
  ultimately show ?thesis using assms(3,4) by (simp add: split_host_def bracketed_def)
qed

lemma split_host_plain:
  assumes "CHR '':'' \<notin> set node" and "hd node \<noteq> CHR ''['' \<or> node = []"
  shows "split_host node = (node, None)"
  using assms memchr_None [of "CHR '':''" node] by (auto simp: split_host_def bracketed_def)

lemma split_host_bracket:
  assumes "CHR '']'' \<notin> set node" and "node \<noteq> []"
  shows "split_host (''['' @ node @ '']:'' @ port) = (node, Some port)"
proof -
  have "memchr CHR '']'' ((CHR ''['' # node) @ CHR '']'' # CHR '':'' # port) (Suc (length node + Suc (length port))) =
      Some (Suc (length node))"
    using memchr_split [of "CHR '']''" "CHR ''['' # node" "Suc (length node + Suc (length port))" "CHR '':'' # port"] assms
    by simp
  then show ?thesis using assms(2) by (simp add: split_host_def bracketed_def nth_append)
qed

text \<open>An address with several colons and no brackets: the text from the first colon on is the service.\<close>

lemma split_host_colons:
  assumes "CHR '':'' \<notin> set xs" and "CHR '':'' \<in> set ys" and "xs \<noteq> []" and "hd xs \<noteq> CHR ''[''"
  shows "split_host (xs @ CHR '':'' # ys) = (xs @ CHR '':'' # ys, Some (CHR '':'' # ys))"
proof -
  have "memchr CHR '':'' (xs @ CHR '':'' # ys) (Suc (length xs + length ys)) = Some (length xs)"
    using memchr_split [OF assms(1), of "Suc (length xs + length ys)" ys] by simp
  moreover have "memchr CHR '':'' ys (length ys) \<noteq> None" using assms(2) by (simp add: memchr_None)
  ultimately show ?thesis using assms(3,4) by (simp add: split_host_def bracketed_def)
qed

text \<open>The loop that prints an IPv6 address, in closed form.\<close>

definition join_groups :: "nat \<Rightarrow> u16 list \<Rightarrow> string" where
  "join_groups bo gs = concat (map (\<lambda>i. (if i = 0 then [] else '':'') @ hex_string (unat (byteswapOnLittleEndian bo (gs ! i)))) [0..<length gs])"

lemma join_groups_simps [simp]:
  "join_groups bo [] = []"
  "join_groups bo (gs @ [g]) = join_groups bo gs @ (if gs = [] then [] else '':'') @ hex_string (unat (byteswapOnLittleEndian bo g))"
proof -
  have "join_groups bo (gs @ [g]) = concat (map (\<lambda>i. (if i = 0 then [] else '':'') @
      hex_string (unat (byteswapOnLittleEndian bo ((gs @ [g]) ! i)))) [0..<length gs]) @ (if gs = [] then [] else '':'') @ hex_string (unat (byteswapOnLittleEndian bo g))"
    by (simp add: join_groups_def)
  also have "map (\<lambda>i. (if i = 0 then [] else '':'') @ hex_string (unat (byteswapOnLittleEndian bo ((gs @ [g]) ! i)))) [0..<length gs] =
      map (\<lambda>i. (if i = 0 then [] else '':'') @ hex_string (unat (byteswapOnLittleEndian bo (gs ! i)))) [0..<length gs]"
    by (auto simp: nth_append)
  finally show "join_groups bo (gs @ [g]) = join_groups bo gs @ (if gs = [] then [] else '':'') @ hex_string (unat (byteswapOnLittleEndian bo g))"
    by (simp add: join_groups_def)
qed (simp add: join_groups_def)

lemma join_groups_single [simp]: "join_groups bo [g] = hex_string (unat (byteswapOnLittleEndian bo g))"
  using join_groups_simps(2) [of bo "[]" g] by simp

definition before_zeros :: "u16 list \<Rightarrow> u16 list" where
  "before_zeros gs = takeWhile (\<lambda>g. g \<noteq> 0) gs"

definition after_zeros :: "u16 list \<Rightarrow> u16 list" where
  "after_zeros gs = dropWhile (\<lambda>g. g = 0) (dropWhile (\<lambda>g. g \<noteq> 0) gs)"

definition v6_state :: "nat \<Rightarrow> u16 list \<Rightarrow> string \<times> bool" where
  "v6_state bo gs =
     (if after_zeros gs = [] then (join_groups bo (before_zeros gs), False)
      else (join_groups bo (before_zeros gs) @ ''::'' @ join_groups bo (after_zeros gs), True))"

lemma before_zeros_snoc: "before_zeros (gs @ [g]) = (if 0 \<in> set gs \<or> g = 0 then before_zeros gs else gs @ [g])"
  by (induction gs) (auto simp: before_zeros_def)

lemma dropWhile_snoc:
  "dropWhile P (xs @ [x]) = (if dropWhile P xs \<noteq> [] then dropWhile P xs @ [x] else if P x then [] else [x])"
  by (induction xs) auto

lemma after_zeros_snoc:
  "after_zeros (gs @ [g]) = (if after_zeros gs \<noteq> [] then after_zeros gs @ [g] else if 0 \<in> set gs \<and> g \<noteq> 0 then [g] else [])"
proof (induction gs)
  case (Cons a gs)
  show ?case
  proof (cases "a = 0")
    case True
    then have "after_zeros (a # xs) = dropWhile (\<lambda>g. g = 0) xs" for xs by (simp add: after_zeros_def)
    then show ?thesis using True by (simp add: dropWhile_snoc del: dropWhile_eq_Nil_conv)
  next
    case False
    then have "after_zeros (a # xs) = after_zeros xs" for xs by (simp add: after_zeros_def)
    then show ?thesis using Cons.IH False by simp
  qed
qed (simp add: after_zeros_def)

lemma before_zeros_all: "0 \<notin> set gs \<Longrightarrow> before_zeros gs = gs \<and> after_zeros gs = []"
  by (induction gs) (auto simp: before_zeros_def after_zeros_def)

text \<open>Until something follows the first run of zeros, the last group read is zero once one was.\<close>

lemma last_zero: "after_zeros gs = [] \<Longrightarrow> 0 \<in> set gs \<Longrightarrow> last gs = 0"
proof (induction gs rule: rev_induct)
  case (snoc g gs)
  then show ?case by (auto simp: after_zeros_snoc split: if_splits)
qed simp

lemma v6_state_step:
  assumes "xs = take n gs" and "n < length gs"
  shows "v6_insert_step bo gs (v6_state bo xs) n = v6_state bo (xs @ [gs ! n])"
proof -
  have len: "length xs = n" using assms by simp
  have prev: "gs ! (n - 1) = last xs" if "n \<noteq> 0"
    using that assms len by (subst last_conv_nth) auto
  have nil: "xs = [] \<longleftrightarrow> n = 0" using len by auto
  show ?thesis
  proof (cases "0 \<in> set xs")
    case False
    then have "last xs \<noteq> 0" if "xs \<noteq> []" using that by (metis last_in_set)
    then show ?thesis
      using False prev nil before_zeros_all [OF False]
      by (auto simp: v6_state_def v6_insert_step_def before_zeros_snoc after_zeros_snoc)
  next
    case True
    then have "xs \<noteq> []" by auto
    then show ?thesis
      using True prev nil last_zero [OF _ True]
      by (auto simp: v6_state_def v6_insert_step_def before_zeros_snoc after_zeros_snoc)
  qed
qed

lemma v6_insert_closed:
  assumes "length gs = 8"
  shows "v6_insert_groups bo gs =
     (if 0 \<in> set gs then join_groups bo (before_zeros gs) @ ''::'' @ join_groups bo (after_zeros gs) else join_groups bo gs)"
proof -
  have "foldl (v6_insert_step bo gs) ([], False) [0..<n] = v6_state bo (take n gs)" if "n \<le> length gs" for n
    using that
  proof (induction n)
    case 0
    then show ?case by (simp add: v6_state_def after_zeros_def before_zeros_def)
  next
    case (Suc n)
    then show ?case using v6_state_step [of "take n gs" n gs bo] by (simp add: take_Suc_conv_app_nth)
  qed
  then have f: "foldl (v6_insert_step bo gs) ([], False) [0..<8] = v6_state bo gs" using assms by (metis order_refl take_all)
  have "gs ! 7 = last gs" using assms by (subst last_conv_nth) auto
  moreover have "last gs \<noteq> 0" if "0 \<notin> set gs" using that assms by (metis last_in_set list.size(3) zero_neq_numeral)
  ultimately show ?thesis
    using f last_zero [of gs] before_zeros_all [of gs] by (auto simp: v6_insert_groups_def v6_state_def)
qed

subsection \<open>Printed IPv4 addresses\<close>

definition v4_quad :: "u32 \<Rightarrow> string" where
  "v4_quad ip = dec_string (unat (drop_bit 24 ip AND 255)) @ ''.'' @ dec_string (unat (drop_bit 16 ip AND 255)) @ ''.'' @
     dec_string (unat (drop_bit 8 ip AND 255)) @ ''.'' @ dec_string (unat (ip AND 255))"

lemma v4_insert_quad: "v4_insert bo a = v4_quad (v4_ip bo a) @ '':'' @ dec_string (unat (byteswapOnLittleEndian bo (sin_port a)))"
  by (simp add: v4_insert_def v4_quad_def v4_ip_def Let_def)

lemma number_chars: "c \<in> set (dec_string n) \<Longrightarrow> \<not> separator c"
  using number_no_separator by blast

lemma v4_quad_no_colon: "CHR '':'' \<notin> set (v4_quad ip)"
  by (auto simp: v4_quad_def dest: number_chars)

lemma octets_eq:
  assumes "drop_bit 24 x AND 255 = drop_bit 24 y AND 255" and "drop_bit 16 x AND 255 = drop_bit 16 y AND 255"
    and "drop_bit 8 x AND 255 = drop_bit 8 y AND 255" and "x AND 255 = y AND (255 :: u32)"
  shows "x = y"
proof (rule bit_word_eqI)
  fix k assume "k < LENGTH(32)"
  have b: "bit (drop_bit n z AND 255 :: u32) j \<longleftrightarrow> j < 8 \<and> bit z (n + j)" for n z j
    using bit_mask_iff [of 8 j, where 'a = int] by (auto simp: bit_simps mask_eq_exp_minus_1 dest: bit_imp_le_length)
  have e: "drop_bit n x AND 255 = drop_bit n y AND 255" if "n \<in> {0, 8, 16, 24}" for n using that assms by auto
  have "k div 8 < 4" using \<open>k < LENGTH(32)\<close> by (simp add: less_mult_imp_div_less)
  then have "8 * (k div 8) \<in> {0, 8, 16, 24}" by auto
  from arg_cong [OF e [OF this], of "\<lambda>w. bit w (k mod 8)"] show "bit x k \<longleftrightarrow> bit y k" by (simp add: b)
qed

lemma v4_quad_inj: "v4_quad x = v4_quad y \<longleftrightarrow> x = y"
  by (auto simp: v4_quad_def number_separator_eq number_inj simp flip: word_unat_eq_iff intro: octets_eq)

lemma v4_quad_hd: "v4_quad ip \<noteq> []" "hd (v4_quad ip) \<noteq> CHR ''[''"
proof -
  let ?d = "dec_string (unat (drop_bit 24 ip AND 255))"
  have "separator CHR ''[''" by (simp add: separator_def)
  then have "hd ?d \<noteq> CHR ''[''" using number_chars [OF hd_in_set [of ?d]] by auto
  then show "v4_quad ip \<noteq> []" "hd (v4_quad ip) \<noteq> CHR ''[''" by (simp_all add: v4_quad_def)
qed

lemma join_groups_no_bracket: "CHR '']'' \<notin> set (join_groups bo gs)"
  by (induction gs rule: rev_induct) (auto simp: number_no_separator)

text \<open>Bit positions as byte and offset.\<close>

lemma bit_255: "bit (255 :: int) k \<longleftrightarrow> k < 8"
  using bit_mask_iff [of 8 k, where 'a = int] by (simp add: mask_eq_exp_minus_1)

lemma pos_less: "j < p \<longleftrightarrow> j div 8 < p div 8 \<or> j div 8 = p div 8 \<and> j mod 8 < p mod (8 :: nat)"
proof -
  have j: "j = 8 * (j div 8) + j mod 8" "j mod 8 < 8" and p: "p = 8 * (p div 8) + p mod 8" "p mod 8 < 8" by simp_all
  consider "j div 8 < p div 8" | "j div 8 = p div 8" | "p div 8 < j div 8" by linarith
  then show ?thesis
  proof cases
    case 1
    then have "8 * (j div 8) + 8 \<le> 8 * (p div 8)" by simp
    then show ?thesis using 1 j p by linarith
  next
    case 3
    then have "8 * (p div 8) + 8 \<le> 8 * (j div 8)" by simp
    then show ?thesis using 3 j p by linarith
  qed (use j p in linarith)
qed

lemma v6_mask_bits:
  fixes p j :: nat
  assumes "p < 128" and "j < 128" and "length bs = 16"
  shows "v6_bit (set_bytes 0 (p div 8) 255 ((replicate 16 0)[p div 8 := NOT (mask (8 - p mod 8))])) j \<longleftrightarrow> j < p"
    and "v6_bit (set_bytes (p div 8 + 1) 16 0 (bs[p div 8 := bs ! (p div 8) AND mask (8 - p mod 8)])) j \<longleftrightarrow>
           v6_bit bs j \<and> j div 8 \<le> p div 8 \<and> (j div 8 = p div 8 \<longrightarrow> p \<le> j)"
    and "v6_bit (set_bytes (p div 8 + 1) 16 255 (bs[p div 8 := bs ! (p div 8) OR NOT (mask (8 - p mod 8))])) j \<longleftrightarrow>
           v6_bit bs j \<or> p div 8 < j div 8 \<or> j div 8 = p div 8 \<and> j < p"
proof -
  define q r P R where d: "q = j div 8" "r = j mod 8" "P = p div 8" "R = p mod 8"
  have l: "q < 16" "P < 16" "r < 8" "R < 8" using assms by (auto simp: d)
  have j: "j < p \<longleftrightarrow> q < P \<or> q = P \<and> r < R" unfolding d by (rule pos_less)
  have p: "p \<le> j \<longleftrightarrow> P < q \<or> q = P \<and> R \<le> r" using j by (auto simp: not_less [symmetric])
  have s: "7 - r < 8 - R \<longleftrightarrow> R \<le> r" using l by linarith
  show "v6_bit (set_bytes 0 (p div 8) 255 ((replicate 16 0)[p div 8 := NOT (mask (8 - p mod 8))])) j \<longleftrightarrow> j < p"
    unfolding v6_bit_def j d [symmetric] using l by (auto simp: nth_set_bytes nth_list_update bit_simps bit_255 s)
  show "v6_bit (set_bytes (p div 8 + 1) 16 0 (bs[p div 8 := bs ! (p div 8) AND mask (8 - p mod 8)])) j \<longleftrightarrow>
           v6_bit bs j \<and> j div 8 \<le> p div 8 \<and> (j div 8 = p div 8 \<longrightarrow> p \<le> j)"
    unfolding v6_bit_def p d [symmetric] using l assms(3) by (auto simp: nth_set_bytes nth_list_update bit_simps s)
  show "v6_bit (set_bytes (p div 8 + 1) 16 255 (bs[p div 8 := bs ! (p div 8) OR NOT (mask (8 - p mod 8))])) j \<longleftrightarrow>
           v6_bit bs j \<or> p div 8 < j div 8 \<or> j div 8 = p div 8 \<and> j < p"
    unfolding v6_bit_def j d [symmetric] using l assms(3) by (auto simp: nth_set_bytes nth_list_update bit_simps bit_255 s)
qed

subsection \<open>Properties\<close>

text \<open>For prefix lengths from 2 to 32, the subnet mask of an IPv4 address has exactly its leading bits
  set, and counting the bits of the stored mask gives the prefix length back; the broadcast
  address agrees with the address on the network part and has all host bits set. The network
  address does not: it keeps the host bits and clears the network part. Prefix lengths 0 and 1
  run into an undefined shift.\<close>

theorem v4_masks:
  assumes "2 \<le> p" and "p \<le> 32"
  shows "\<exists>m b n. v4_subnetMask bo a p = Inr (Some m) \<and> v4_broadCastAddress bo a p = Inr (Some b) \<and>
           v4_networkAddress bo a p = Inr (Some n) \<and>
           v4_ip bo m = NOT (mask (32 - p)) \<and> CountBytes (sin_addr m) = of_nat p \<and>
           v4_ip bo b AND v4_ip bo m = v4_ip bo a AND v4_ip bo m \<and> v4_ip bo b OR v4_ip bo m = - 1 \<and>
           sin_port b = sin_port a \<and>
           v4_ip bo n = v4_ip bo a AND NOT (v4_ip bo m) \<and>
           v4_subnetMask bo a (p mod 2) = Inl BadShift \<and> v4_broadCastAddress bo a (p mod 2) = Inl BadShift"
proof -
  have c: "CountBytes (byteswapOnLittleEndian bo (NOT (mask (32 - p)) :: u32)) = of_nat p"
    using card_set_bits_prefix [OF assms(2)] by (simp add: CountBytes_card byteswapOnLittleEndian_def card_set_bits_byteswap)
  have "x OR mask (32 - p) OR NOT (mask (32 - p)) = - 1" for x :: u32
    by (auto intro!: bit_word_eqI simp: bit_simps)
  moreover have "(x OR mask (32 - p)) AND NOT (mask (32 - p)) = x AND NOT (mask (32 - p))" for x :: u32
    by (auto intro!: bit_word_eqI simp: bit_simps)
  moreover have "31 \<le> 32 - p mod 2" by simp
  ultimately show ?thesis
    using c assms v4_derived [OF assms, of bo a]
    by (auto simp: v4_ip_def new_IPv4Address_def v4_subnetMask_def v4_broadCastAddress_def CreateMask_eq or.assoc)
qed

theorem v4_masks_witness:
  "\<exists>m. v4_subnetMask 1 (new_IPv4Address 1 0xC0A80117 80) 24 = Inr (Some m) \<and> v4_ip 1 m = 0xFFFFFF00 \<and> CountBytes (sin_addr m) = 24"
  using v4_masks [of 24 1 "new_IPv4Address 1 0xC0A80117 80"] by (auto simp: mask_eq_exp_minus_1)

text \<open>For prefix lengths below 128 the subnet mask of an IPv6 address has exactly its leading bits set.
  The network and the broadcast address treat the byte the prefix ends in the wrong way round:
  the first keeps that byte's host bits and clears its network bits, the second sets the network
  bits and leaves the host bits; the bytes before and after it are right. A prefix of the full
  length writes outside the address.\<close>

theorem v6_masks:
  assumes "p < 128" and "length (sin6_addr a) = 16"
  shows "\<exists>m n b. v6_subnetMask a p = Inr (Some m) \<and> v6_networkAddress a p = Inr (Some n) \<and>
           v6_broadCastAddress a p = Inr (Some b) \<and>
           (\<forall>j < 128. (v6_bit (sin6_addr m) j \<longleftrightarrow> j < p) \<and>
              (v6_bit (sin6_addr n) j \<longleftrightarrow> v6_bit (sin6_addr a) j \<and> j div 8 \<le> p div 8 \<and> (j div 8 = p div 8 \<longrightarrow> p \<le> j)) \<and>
              (v6_bit (sin6_addr b) j \<longleftrightarrow> v6_bit (sin6_addr a) j \<or> p div 8 < j div 8 \<or> j div 8 = p div 8 \<and> j < p)) \<and>
           v6_subnetMask a 128 = Inl AddrOutOfBounds"
proof -
  have "v6_subnetMask a 128 = Inl AddrOutOfBounds" by (simp add: v6_subnetMask_def)
  then show ?thesis unfolding v6_derived [OF assms] using v6_mask_bits [OF assms(1) _ assms(2)] by auto
qed

theorem v6_masks_witness:
  "\<exists>m. v6_subnetMask new_IPv6Address 61 = Inr (Some m) \<and> v6_bit (sin6_addr m) 60 \<and> \<not> v6_bit (sin6_addr m) 61"
proof -
  have l: "length (sin6_addr new_IPv6Address) = 16" by (simp add: new_IPv6Address_def)
  obtain m where m: "v6_subnetMask new_IPv6Address 61 = Inr (Some m)" and b: "\<And>j. j < 128 \<Longrightarrow> v6_bit (sin6_addr m) j \<longleftrightarrow> j < 61"
    using v6_masks [of 61, OF _ l] by auto
  then show ?thesis using b [of 60] b [of 61] by simp
qed

text \<open>C38. The comparison of addresses is a strict total order on their bytes, whatever the kinds and
  lengths: it can key an ordered container, and exactly one of less, equal and greater holds.\<close>

theorem address_order:
  assumes "addr_ok a" and "addr_ok b" and "addr_ok c"
  shows "address_less bo a a = Some False \<and>
         (address_less bo a b = Some True \<longrightarrow> address_less bo b c = Some True \<longrightarrow> address_less bo a c = Some True) \<and>
         (\<exists>x y z. address_less bo a b = Some x \<and> address_equal bo a b = Some y \<and> address_less bo b a = Some z \<and>
            address_not_equal bo a b = Some (x \<or> z) \<and> (y \<longleftrightarrow> addr_key bo a = addr_key bo b) \<and>
            (x \<or> y \<or> z) \<and> \<not> (x \<and> y) \<and> \<not> (x \<and> z) \<and> \<not> (y \<and> z))"
  using assms addr.irrefl [where bo = bo] addr.trans [where bo = bo] addr.asym [where bo = bo and x = a and y = b]
    lex_less_total [of "addr_key bo a" "addr_key bo b"]
  by (auto simp: address_less_key address_not_equal_def lex_less_irrefl)

theorem address_order_witness:
  "address_less 1 (IPv4Address (new_IPv4Address 1 1 80)) (IPv4Address (new_IPv4Address 1 2 80)) = Some True \<and>
   address_less 1 (IPv4Address (new_IPv4Address 1 2 80)) (IPv6Address new_IPv6Address) = Some True \<and>
   address_less 1 (IPv4Address (new_IPv4Address 1 1 80)) (IPv6Address new_IPv6Address) = Some True"
proof -
  have "address_less 1 (IPv4Address (new_IPv4Address 1 1 80)) (IPv4Address (new_IPv4Address 1 2 80)) = Some True"
    "address_less 1 (IPv4Address (new_IPv4Address 1 2 80)) (IPv6Address new_IPv6Address) = Some True" by code_simp+
  moreover have "addr_ok (IPv4Address (new_IPv4Address 1 ip 80))" "addr_ok (IPv6Address new_IPv6Address)" for ip
    by (simp_all add: addr_ok_def new_IPv4Address_def new_IPv6Address_def)
  ultimately show ?thesis
    using address_order [of "IPv4Address (new_IPv4Address 1 1 80)" "IPv4Address (new_IPv4Address 1 2 80)" "IPv6Address new_IPv6Address" 1]
    by blast
qed

text \<open>The bytes handed to the system calls give the address back when the system returns them, and a
  port that is set is the port that is read, on machines of either byte order.\<close>

theorem address_create_roundtrip:
  assumes "addr_ok a"
    and "case a of UnixAddress _ _ \<Rightarrow> False | UnknownAddress s \<Rightarrow> sa_family s \<noteq> AF_INET \<and> sa_family s \<noteq> AF_INET6 | _ \<Rightarrow> True"
  shows "Address_Create bo (Some (getAddr bo a)) = Some a \<and>
         (case setPort bo a port of IPv4Address s \<Rightarrow> v4_getPort bo s = ucast port
          | IPv6Address s \<Rightarrow> v6_getPort bo s = ucast port | _ \<Rightarrow> setPort bo a port = a)"
  using assms
  by (cases a) (auto simp: addr_ok_def Address_Create_def Let_def sockaddr_in_of_def sockaddr_in6_of_def sockaddr_of_def
      of_mem_bytes_mem_bytes AF_INET_def AF_INET6_def v4_setPort_def v4_getPort_def v6_setPort_def v6_getPort_def)

theorem address_create_roundtrip_witness:
  "Address_Create 2 (Some (getAddr 2 (IPv4Address (new_IPv4Address 2 0x7F000001 8080)))) =
     Some (IPv4Address (new_IPv4Address 2 0x7F000001 8080))"
  using address_create_roundtrip [of "IPv4Address (new_IPv4Address 2 0x7F000001 8080)" 2 0]
  by (simp add: addr_ok_def new_IPv4Address_def)

text \<open>C37. Looking up the printed form of an IPv4 address asks the resolver for exactly its dotted quad and
  its port, and two addresses print alike only when address and port agree. The printed form of
  an IPv6 address shortens the first run of zero groups only, but its port is asked for with a
  leading blank, and for an unbracketed text with several colons the rest from the first colon on
  is taken as the service.\<close>

theorem printed_address_lookup:
  assumes "length (sin6_addr a6) = 16" and "v6_groups bo a6 = gs"
    and "CHR '':'' \<notin> set xs" and "CHR '':'' \<in> set ys" and "xs \<noteq> []" and "hd xs \<noteq> CHR ''[''"
  shows "split_host (v4_insert bo a) = (v4_quad (v4_ip bo a), Some (dec_string (unat (byteswapOnLittleEndian bo (sin_port a))))) \<and>
         (v4_insert bo a = v4_insert bo b \<longleftrightarrow> sin_addr a = sin_addr b \<and> sin_port a = sin_port b) \<and>
         split_host (v6_insert bo a6) =
           (if 0 \<in> set gs then join_groups bo (before_zeros gs) @ ''::'' @ join_groups bo (after_zeros gs) else join_groups bo gs,
            Some ('' '' @ dec_string (unat (byteswapOnLittleEndian bo (sin6_port a6))))) \<and>
         split_host (xs @ CHR '':'' # ys) = (xs @ CHR '':'' # ys, Some (CHR '':'' # ys))"
proof -
  let ?t = "v6_insert_groups bo gs"
  have gs: "length gs = 8" using assms(2) by (auto simp: v6_groups_def)
  note t = v6_insert_closed [OF gs, of bo]
  have "CHR '']'' \<notin> set ?t" using t by (auto simp: join_groups_no_bracket)
  moreover have "?t \<noteq> []"
  proof (cases "0 \<in> set gs")
    case False
    then show ?thesis using t gs by (cases gs rule: rev_cases) auto
  qed (simp add: t)
  ultimately have "split_host (v6_insert bo a6) = (?t, Some ('' '' @ dec_string (unat (byteswapOnLittleEndian bo (sin6_port a6)))))"
    using split_host_bracket [of ?t "'' '' @ dec_string (unat (byteswapOnLittleEndian bo (sin6_port a6)))"] assms(2)
    by (simp add: v6_insert_def)
  moreover have "v4_insert bo a = v4_insert bo b \<longleftrightarrow> v4_ip bo a = v4_ip bo b \<and>
      byteswapOnLittleEndian bo (sin_port a) = byteswapOnLittleEndian bo (sin_port b)"
    using split_at_first [OF v4_quad_no_colon v4_quad_no_colon]
    by (simp add: v4_insert_quad v4_quad_inj number_inj flip: word_unat_eq_iff)
  moreover have "v4_ip bo a = v4_ip bo b \<longleftrightarrow> sin_addr a = sin_addr b" unfolding v4_ip_def by (metis onLittleEndian_twice(1))
  moreover have "byteswapOnLittleEndian bo (sin_port a) = byteswapOnLittleEndian bo (sin_port b) \<longleftrightarrow> sin_port a = sin_port b"
    by (metis onLittleEndian_twice(2))
  ultimately show ?thesis
    using split_host_colon [OF v4_quad_no_colon _ v4_quad_hd] split_host_colons [OF assms(3-6)] t
    by (simp add: v4_insert_quad number_no_separator)
qed

theorem printed_address_lookup_witness:
  "split_host (v4_insert 1 (new_IPv4Address 1 0x7F000001 80)) = (''127.0.0.1'', Some ''80'') \<and>
   split_host (v6_insert 1 new_IPv6Address) = (''::'', Some '' 0'') \<and>
   split_host ''fe80::1'' = (''fe80::1'', Some ''::1'')"
proof -
  have "v4_quad (v4_ip 1 (new_IPv4Address 1 0x7F000001 80)) = ''127.0.0.1''" by code_simp
  moreover have "dec_string (unat (byteswapOnLittleEndian 1 (sin_port (new_IPv4Address 1 0x7F000001 80)))) = ''80''" by code_simp
  moreover have g: "v6_groups 1 new_IPv6Address = replicate 8 0" by code_simp
  moreover have "join_groups 1 (before_zeros (replicate 8 0)) @ ''::'' @ join_groups 1 (after_zeros (replicate 8 0)) = ''::''" by code_simp
  moreover have "dec_string (unat (byteswapOnLittleEndian 1 (sin6_port new_IPv6Address))) = ''0''" by code_simp
  moreover have "length (sin6_addr new_IPv6Address) = 16" by (simp add: new_IPv6Address_def)
  ultimately show ?thesis
    using printed_address_lookup [OF _ g, of "''fe80''" "'':1''" "new_IPv4Address 1 0x7F000001 80" "new_IPv4Address 1 0x7F000001 80"]
    by simp
qed

end
