(* ===== verification/StdMap.thy ===== *)
theory StdMap
  imports StdSet
begin

text \<open>
  \<^verbatim>\<open>std::map\<close> with a comparator, as the code uses it: the entries in the order of their keys. \<open>map_put\<close>
  is the assignment \<^verbatim>\<open>m[k] = v\<close>, which keeps the spelling of a key that is already there. The
  interface \<open>keyed\<close> is what the clients of a map rely on; it is a consequence of the interface
  \<open>comparator\<close>.
\<close>

fun map_get :: "('k \<Rightarrow> 'k \<Rightarrow> bool) \<Rightarrow> ('k \<times> 'v) list \<Rightarrow> 'k \<Rightarrow> 'v option" where
  "map_get lt [] k = None"
| "map_get lt ((k', v') # m) k = (if lt k' k then map_get lt m k else if lt k k' then None else Some v')"

fun map_put :: "('k \<Rightarrow> 'k \<Rightarrow> bool) \<Rightarrow> 'k \<Rightarrow> 'v \<Rightarrow> ('k \<times> 'v) list \<Rightarrow> ('k \<times> 'v) list" where
  "map_put lt k v [] = [(k, v)]"
| "map_put lt k v ((k', v') # m) =
     (if lt k' k then (k', v') # map_put lt k v m
      else if lt k k' then (k, v) # (k', v') # m
      else (k', v) # m)"

fun map_erase :: "('k \<Rightarrow> 'k \<Rightarrow> bool) \<Rightarrow> 'k \<Rightarrow> ('k \<times> 'v) list \<Rightarrow> ('k \<times> 'v) list" where
  "map_erase lt k [] = []"
| "map_erase lt k ((k', v') # m) =
     (if lt k' k then (k', v') # map_erase lt k m else if lt k k' then (k', v') # m else m)"

definition map_ok :: "('k \<Rightarrow> 'k \<Rightarrow> bool) \<Rightarrow> ('k \<times> 'v) list \<Rightarrow> bool" where
  "map_ok lt m \<longleftrightarrow> sorted_wrt (\<lambda>a b. lt (fst a) (fst b)) m"

definition same_key :: "('k \<Rightarrow> 'k \<Rightarrow> bool) \<Rightarrow> 'k \<Rightarrow> 'k \<Rightarrow> bool" where
  "same_key lt a b \<longleftrightarrow> \<not> lt a b \<and> \<not> lt b a"

subsection \<open>The interface\<close>

locale keyed =
  fixes inv :: "'m \<Rightarrow> bool" and get :: "'m \<Rightarrow> 'k \<Rightarrow> 'v option" and put :: "'k \<Rightarrow> 'v \<Rightarrow> 'm \<Rightarrow> 'm"
    and del :: "'k \<Rightarrow> 'm \<Rightarrow> 'm" and same :: "'k \<Rightarrow> 'k \<Rightarrow> bool"
  assumes same_refl: "same k k"
    and same_sym: "same k k' \<Longrightarrow> same k' k"
    and same_trans: "same k k' \<Longrightarrow> same k' k'' \<Longrightarrow> same k k''"
    and inv_put: "inv m \<Longrightarrow> inv (put k v m)"
    and inv_del: "inv m \<Longrightarrow> inv (del k m)"
    and get_put: "inv m \<Longrightarrow> get (put k v m) k' = (if same k k' then Some v else get m k')"
    and get_del: "inv m \<Longrightarrow> get (del k m) k' = (if same k k' then None else get m k')"
begin

text \<open>A sequence of assignments: the last one with an equivalent key is what is found.\<close>

lemma inv_puts: "inv m \<Longrightarrow> inv (foldl (\<lambda>m (k, v). put k v m) m kvs)"
  by (induction kvs arbitrary: m) (auto simp: inv_put)

lemma get_puts:
  assumes "inv m"
  shows "get (foldl (\<lambda>m (k, v). put k v m) m kvs) k' =
     (case find (\<lambda>(k, v). same k k') (rev kvs) of Some (k, v) \<Rightarrow> Some v | None \<Rightarrow> get m k')"
  using assms
proof (induction kvs rule: rev_induct)
  case (snoc kv kvs)
  then show ?case by (cases kv) (simp add: get_put inv_puts)
qed simp

lemma get_same: "inv m \<Longrightarrow> same k k' \<Longrightarrow> get (put k v (del k'' m)) k' = Some v"
  by (simp add: get_put inv_del)

end

subsection \<open>The laws for ordered maps\<close>

context comparator
begin

lemma same_key_lt: "same_key lt a b \<Longrightarrow> lt a c \<longleftrightarrow> lt b c" "same_key lt a b \<Longrightarrow> lt c a \<longleftrightarrow> lt c b"
  unfolding same_key_def using incomparable_trans by blast+

lemma map_get_put: "map_get lt (map_put lt k v m) k' = (if same_key lt k k' then Some v else map_get lt m k')"
proof (induction m)
  case Nil
  then show ?case by (auto simp: same_key_def)
next
  case (Cons e m)
  obtain a b where e: "e = (a, b)" by (cases e)
  consider (below) "lt a k" | (above) "\<not> lt a k" "lt k a" | (equal) "same_key lt a k" "\<not> lt a k" "\<not> lt k a"
    by (auto simp: same_key_def)
  then show ?case
  proof cases
    case below
    then have "same_key lt k k' \<Longrightarrow> lt a k'" using same_key_lt by blast
    then show ?thesis using below Cons e by auto
  next
    case above
    have 1: "lt k' a \<and> \<not> lt a k' \<and> \<not> lt k k'" if "lt k' k" using that above trans asym by blast
    show ?thesis using above e 1 by (cases "lt k' k") (auto simp: same_key_def)
  next
    case equal
    then show ?thesis using e same_key_lt(1) [OF equal(1), of k'] same_key_lt(2) [OF equal(1), of k'] by (auto simp: same_key_def)
  qed
qed

lemma set_map_put: "e \<in> set (map_put lt k v m) \<Longrightarrow> e \<in> set m \<or> e = (k, v) \<or> snd e = v \<and> same_key lt (fst e) k"
  by (induction m) (auto simp: same_key_def split: if_splits)

lemma set_map_erase: "e \<in> set (map_erase lt k m) \<Longrightarrow> e \<in> set m"
  by (induction m) (auto split: if_splits)

lemma map_ok_put: "map_ok lt m \<Longrightarrow> map_ok lt (map_put lt k v m)"
proof (induction m)
  case (Cons e m)
  obtain a b where e: "e = (a, b)" by (cases e)
  have m: "map_ok lt m" and a: "\<And>x. x \<in> set m \<Longrightarrow> lt a (fst x)" using Cons.prems by (auto simp: map_ok_def e)
  have "lt a (fst x)" if "lt a k" "x \<in> set (map_put lt k v m)" for x
    using set_map_put [OF that(2)] that(1) a [of x] same_key_lt(2) [of "fst x" k a] by auto
  then show ?case using Cons.IH [OF m] m a trans e by (auto simp: map_ok_def)
qed (simp add: map_ok_def)

lemma map_ok_erase: "map_ok lt m \<Longrightarrow> map_ok lt (map_erase lt k m)"
  by (induction m) (auto simp: map_ok_def dest!: set_map_erase)

lemma map_get_absent: "(\<And>x. x \<in> set m \<Longrightarrow> lt k (fst x)) \<Longrightarrow> map_get lt m k = None"
proof (cases m)
  case (Cons e m')
  assume "\<And>x. x \<in> set m \<Longrightarrow> lt k (fst x)"
  then have "lt k (fst e)" using Cons by simp
  then show ?thesis using Cons asym by (cases e) auto
qed simp

lemma map_get_erase:
  "map_ok lt m \<Longrightarrow> map_get lt (map_erase lt k m) k' = (if same_key lt k k' then None else map_get lt m k')"
proof (induction m)
  case (Cons e m)
  obtain a b where e: "e = (a, b)" by (cases e)
  have m: "map_ok lt m" and a: "\<And>x. x \<in> set m \<Longrightarrow> lt a (fst x)" using Cons.prems by (auto simp: map_ok_def e)
  consider (below) "lt a k" | (above) "\<not> lt a k" "lt k a" | (equal) "same_key lt a k" "\<not> lt a k" "\<not> lt k a"
    by (auto simp: same_key_def)
  then show ?case
  proof cases
    case below
    then have "same_key lt k k' \<Longrightarrow> lt a k'" using same_key_lt by blast
    then show ?thesis using below Cons.IH [OF m] e by auto
  next
    case above
    then have 1: "lt k' a \<and> \<not> lt a k'" if "same_key lt k k'" using that same_key_lt asym by blast
    show ?thesis using above e 1 by auto
  next
    case equal
    have "map_get lt m k' = None" if "\<not> lt a k'"
    proof (rule map_get_absent)
      fix x assume "x \<in> set m"
      then have "lt a (fst x)" by (rule a)
      then show "lt k' (fst x)" using that incomparable_trans by blast
    qed
    then show ?thesis
      using equal e same_key_lt(1) [OF equal(1), of k'] same_key_lt(2) [OF equal(1), of k'] by (auto simp: same_key_def)
  qed
qed simp

end

sublocale comparator \<subseteq> ordered_map: keyed "map_ok lt" "map_get lt" "map_put lt" "map_erase lt" "same_key lt"
proof unfold_locales
  fix k k' k''
  assume "same_key lt k k'" and "same_key lt k' k''"
  then show "same_key lt k k''" using incomparable_trans unfolding same_key_def by blast
qed (auto simp: map_ok_put map_ok_erase map_get_put map_get_erase same_key_def irrefl)

end
