(* ===== verification/Http.thy ===== *)
theory Http
  imports StdMap Text Address
begin

text \<open>
  \<^verbatim>\<open>http/http.h\<close> and \<^verbatim>\<open>http/http.cc\<close>: the methods and status codes with their texts, the header maps
  with their case insensitive order, the request and the response with their accessors, and the
  text a message is sent as. A status is an integer, since the response parser stores any number.
\<close>

subsection \<open>Methods and status codes\<close>

datatype http_method =
    DELETE | GET | HEAD | POST | PUT | CONNECT | OPTIONS | TRACE | COPY | LOCK | MKCOL | MOVE |
    PROPFIND | PROPPATCH | SEARCH | UNLOCK | BIND | REBIND | UNBIND | ACL | REPORT | MKACTIVITY |
    CHECKOUT | MERGE | MSEARCH | NOTIFY | SUBSCRIBE | UNSUBSCRIBE | PATCH | PURGE | MKCALENDAR |
    LINK | UNLINK | SOURCE | HTTP_INVALID_METHOD

definition HTTP_METHOD_MAP :: "(nat \<times> http_method \<times> string) list" where
  "HTTP_METHOD_MAP =
     [
      (0, DELETE, ''DELETE''), (1, GET, ''GET''), (2, HEAD, ''HEAD''), (3, POST, ''POST''),
      (4, PUT, ''PUT''), (5, CONNECT, ''CONNECT''), (6, OPTIONS, ''OPTIONS''), (7, TRACE, ''TRACE''),
      (8, COPY, ''COPY''), (9, LOCK, ''LOCK''), (10, MKCOL, ''MKCOL''), (11, MOVE, ''MOVE''),
      (12, PROPFIND, ''PROPFIND''), (13, PROPPATCH, ''PROPPATCH''), (14, SEARCH, ''SEARCH''),
      (15, UNLOCK, ''UNLOCK''), (16, BIND, ''BIND''), (17, REBIND, ''REBIND''), (18, UNBIND, ''UNBIND''),
      (19, ACL, ''ACL''), (20, REPORT, ''REPORT''), (21, MKACTIVITY, ''MKACTIVITY''),
      (22, CHECKOUT, ''CHECKOUT''), (23, MERGE, ''MERGE''), (24, MSEARCH, ''M - SEARCH''),
      (25, NOTIFY, ''NOTIFY''), (26, SUBSCRIBE, ''SUBSCRIBE''), (27, UNSUBSCRIBE, ''UNSUBSCRIBE''),
      (28, PATCH, ''PATCH''), (29, PURGE, ''PURGE''), (30, MKCALENDAR, ''MKCALENDAR''), (31, LINK, ''LINK''),
      (32, UNLINK, ''UNLINK''), (33, SOURCE, ''SOURCE'')
     ]"

definition HTTP_STATUS_MAP :: "(int \<times> string) list" where
  "HTTP_STATUS_MAP =
     [
      (100, ''Continue''), (101, ''Switching Protocols''), (102, ''Processing''), (200, ''OK''),
      (201, ''Created''), (202, ''Accepted''), (203, ''Non - Authoritative Information''),
      (204, ''No Content''), (205, ''Reset Content''), (206, ''Partial Content''), (207, ''Multi - Status''),
      (208, ''Already Reported''), (226, ''IM Used''), (300, ''Multiple Choices''),
      (301, ''Moved Permanently''), (302, ''Found''), (303, ''See Other''), (304, ''Not Modified''),
      (305, ''Use Proxy''), (307, ''Temporary Redirect''), (308, ''Permanent Redirect''),
      (400, ''Bad Request''), (401, ''Unauthorized''), (402, ''Payment Required''), (403, ''Forbidden''),
      (404, ''Not Found''), (405, ''Method Not Allowed''), (406, ''Not Acceptable''),
      (407, ''Proxy Authentication Required''), (408, ''Request Timeout''), (409, ''Conflict''),
      (410, ''Gone''), (411, ''Length Required''), (412, ''Precondition Failed''),
      (413, ''Payload Too Large''), (414, ''URI Too Long''), (415, ''Unsupported Media Type''),
      (416, ''Range Not Satisfiable''), (417, ''Expectation Failed''), (421, ''Misdirected Request''),
      (422, ''Unprocessable Entity''), (423, ''Locked''), (424, ''Failed Dependency''),
      (426, ''Upgrade Required''), (428, ''Precondition Required''), (429, ''Too Many Requests''),
      (431, ''Request Header Fields Too Large''), (451, ''Unavailable For Legal Reasons''),
      (500, ''Internal Server Error''), (501, ''Not Implemented''), (502, ''Bad Gateway''),
      (503, ''Service Unavailable''), (504, ''Gateway Timeout''), (505, ''HTTP Version Not Supported''),
      (506, ''Variant Also Negotiates''), (507, ''Insufficient Storage''), (508, ''Loop Detected''),
      (510, ''Not Extended''), (511, ''Network Authentication Required'')
     ]"

definition StringToHttpMethod :: "string \<Rightarrow> http_method" where
  "StringToHttpMethod method =
     (case find (\<lambda>(_, _, s). s = c_str method) HTTP_METHOD_MAP of
        Some (_, m, _) \<Rightarrow> m | None \<Rightarrow> HTTP_INVALID_METHOD)"

text \<open>\<^verbatim>\<open>strncmp(s, method, strlen(s)) == 0\<close>: the memory from \<open>method\<close> on starts with \<open>s\<close>.\<close>

definition starts_with :: "string \<Rightarrow> string \<Rightarrow> bool" where
  "starts_with s t \<longleftrightarrow> take (length s) t = s"

definition CharsToHttpMethod :: "string \<Rightarrow> http_method" where
  "CharsToHttpMethod method =
     (case find (\<lambda>(_, _, s). starts_with s method) HTTP_METHOD_MAP of
        Some (_, m, _) \<Rightarrow> m | None \<Rightarrow> HTTP_INVALID_METHOD)"

definition method_index :: "http_method \<Rightarrow> nat" where
  "method_index m =
     (case find (\<lambda>(_, m', _). m' = m) HTTP_METHOD_MAP of Some (num, _, _) \<Rightarrow> num | None \<Rightarrow> length HTTP_METHOD_MAP)"

definition s_method_strings :: "string list" where
  "s_method_strings = map (\<lambda>(_, _, s). s) HTTP_METHOD_MAP"

definition HttpMethodToString :: "http_method \<Rightarrow> string" where
  "HttpMethodToString method =
     (let idx = method_index method in
      if length s_method_strings \<le> idx then ''<unknown>'' else s_method_strings ! idx)"

definition HttpStatusToString :: "int \<Rightarrow> string" where
  "HttpStatusToString status =
     (case find (\<lambda>(num, _). num = status) HTTP_STATUS_MAP of Some (_, s) \<Rightarrow> s | None \<Rightarrow> ''<unknown>'')"

subsection \<open>Header maps\<close>

definition tolower :: "char \<Rightarrow> int" where
  "tolower c = (let n = of_char c in if 65 \<le> n \<and> n \<le> 90 then n + 32 else n)"

fun casecmp :: "string \<Rightarrow> string \<Rightarrow> int" where
  "casecmp [] [] = 0"
| "casecmp [] (y # ys) = - tolower y"
| "casecmp (x # xs) [] = tolower x"
| "casecmp (x # xs) (y # ys) = (let d = tolower x - tolower y in if d \<noteq> 0 then d else casecmp xs ys)"

definition strcasecmp :: "string \<Rightarrow> string \<Rightarrow> int" where
  "strcasecmp a b = casecmp (c_str a) (c_str b)"

definition CaseInsensitiveLess :: "string \<Rightarrow> string \<Rightarrow> bool" where
  "CaseInsensitiveLess lhs rhs \<longleftrightarrow> strcasecmp lhs rhs < 0"

type_synonym header_map = "(string \<times> string) list"

definition find_header :: "header_map \<Rightarrow> string \<Rightarrow> string option" where
  "find_header m key = map_get CaseInsensitiveLess m key"

definition set_header :: "string \<Rightarrow> string \<Rightarrow> header_map \<Rightarrow> header_map" where
  "set_header key v m = map_put CaseInsensitiveLess key v m"

definition del_header :: "string \<Rightarrow> header_map \<Rightarrow> header_map" where
  "del_header key m = map_erase CaseInsensitiveLess key m"

text \<open>
  The typed accessors; \<open>lexical_cast\<close> is the conversion of the boost library, \<open>None\<close> when it throws.
\<close>

definition checkGetAs :: "(string \<Rightarrow> 'a option) \<Rightarrow> header_map \<Rightarrow> string \<Rightarrow> 'a \<Rightarrow> bool \<times> 'a" where
  "checkGetAs lexical_cast m key def =
     (case find_header m key of None \<Rightarrow> (False, def)
      | Some s \<Rightarrow> (case lexical_cast s of Some v \<Rightarrow> (True, v) | None \<Rightarrow> (False, def)))"

definition getAs :: "(string \<Rightarrow> 'a option) \<Rightarrow> header_map \<Rightarrow> string \<Rightarrow> 'a \<Rightarrow> 'a" where
  "getAs lexical_cast m key def =
     (case find_header m key of None \<Rightarrow> def
      | Some s \<Rightarrow> (case lexical_cast s of Some v \<Rightarrow> v | None \<Rightarrow> def))"

subsection \<open>Requests\<close>

record http_request =
  m_method :: http_method
  m_version :: u8
  m_close :: bool
  m_path :: string
  m_query :: string
  m_fragment :: string
  m_body :: string
  m_headers :: header_map
  m_params :: header_map
  m_cookies :: header_map

definition new_HttpRequest :: "u8 \<Rightarrow> bool \<Rightarrow> http_request" where
  "new_HttpRequest version close =
     \<lparr>m_method = GET, m_version = version, m_close = close, m_path = ''/'', m_query = [], m_fragment = [],
      m_body = [], m_headers = [], m_params = [], m_cookies = []\<rparr>"

definition get_or :: "header_map \<Rightarrow> string \<Rightarrow> string \<Rightarrow> string" where
  "get_or m key def = (case find_header m key of None \<Rightarrow> def | Some v \<Rightarrow> v)"

definition getHeaders where "getHeaders r key def = get_or (m_headers r) key def"
definition getParams where "getParams r key def = get_or (m_params r) key def"
definition getCookies where "getCookies r key def = get_or (m_cookies r) key def"

definition setHeader where "setHeader r key v = r\<lparr>m_headers := set_header key v (m_headers r)\<rparr>"
definition setParam where "setParam r key v = r\<lparr>m_params := set_header key v (m_params r)\<rparr>"
definition setCookie where "setCookie r key v = r\<lparr>m_cookies := set_header key v (m_cookies r)\<rparr>"

definition delHeader where "delHeader r key = r\<lparr>m_headers := del_header key (m_headers r)\<rparr>"
definition delParam where "delParam r key = r\<lparr>m_params := del_header key (m_params r)\<rparr>"
definition delCookies where "delCookies r key = r\<lparr>m_cookies := del_header key (m_cookies r)\<rparr>"

definition hasHeader where "hasHeader r key = (find_header (m_headers r) key \<noteq> None, find_header (m_headers r) key)"
definition hasParam where "hasParam r key = (find_header (m_params r) key \<noteq> None, find_header (m_params r) key)"
definition hasCookie where "hasCookie r key = (find_header (m_cookies r) key \<noteq> None, find_header (m_cookies r) key)"

definition CRLF :: string where "CRLF = [CHR 0x0D, CHR 0x0A]"

definition version_text :: "u8 \<Rightarrow> string" where
  "version_text v = dec_string (unat (drop_bit 4 (ucast v :: u32))) @ ''.'' @ dec_string (unat (ucast v AND (15 :: u32)))"

definition header_lines :: "header_map \<Rightarrow> string" where
  "header_lines m =
     concat (map (\<lambda>(k, v). if strcasecmp k ''connection'' = 0 then [] else k @ '': '' @ v @ CRLF) m)"

definition request_dump :: "http_request \<Rightarrow> string" where
  "request_dump r =
     HttpMethodToString (m_method r) @ '' '' @ m_path r @ (if m_query r = [] then [] else ''?'') @ m_query r @
     (if m_fragment r = [] then [] else ''#'') @ m_fragment r @ '' HTTP/'' @ version_text (m_version r) @ CRLF @
     ''connection: '' @ (if m_close r then ''close'' else ''keep-alive'') @ CRLF @
     header_lines (m_headers r) @
     (if m_body r \<noteq> [] then ''content-length: '' @ dec_string (length (m_body r)) @ CRLF @ CRLF @ m_body r
      else CRLF @ m_body r)"

subsection \<open>Responses\<close>

record http_response =
  r_status :: int
  r_version :: u8
  r_close :: bool
  r_body :: string
  r_reason :: string
  r_headers :: header_map

definition new_HttpResponse :: "u8 \<Rightarrow> bool \<Rightarrow> http_response" where
  "new_HttpResponse version close =
     \<lparr>r_status = 200, r_version = version, r_close = close, r_body = [], r_reason = [], r_headers = []\<rparr>"

definition response_getHeader where "response_getHeader r key def = get_or (r_headers r) key def"
definition response_setHeader where "response_setHeader r key v = r\<lparr>r_headers := set_header key v (r_headers r)\<rparr>"
definition response_delHeader where "response_delHeader r key = r\<lparr>r_headers := del_header key (r_headers r)\<rparr>"

definition response_dump :: "http_response \<Rightarrow> string" where
  "response_dump r =
     ''HTTP/'' @ version_text (r_version r) @ '' '' @ dec_string (unat (word_of_int (r_status r) :: u32)) @ '' '' @
     (if r_reason r = [] then HttpStatusToString (r_status r) else r_reason r) @ CRLF @
     header_lines (r_headers r) @
     ''connection: '' @ (if r_close r then ''close'' else ''keep-alive'') @ CRLF @
     (if r_body r \<noteq> [] then ''content-length: '' @ dec_string (length (r_body r)) @ CRLF @ CRLF @ r_body r
      else CRLF)"

end
