(* ===== verification/Http11_Table.thy ===== *)
theory Http11_Table
  imports Main
begin

text \<open>
  The transitions of \<^verbatim>\<open>http/http11_paeser.rl.cc\<close>, the machine of the request parser, in the order of the
  file: for each \<^verbatim>\<open>case\<close> label the ranges of the character \<^verbatim>\<open>*p\<close> (a signed \<^verbatim>\<open>char\<close>) that lead on, whether
  the branch needs \<^verbatim>\<open>uri_relaxed\<close> (the \<^verbatim>\<open>_widec\<close> tests), the actions of the \<^verbatim>\<open>tr\<close> label it jumps to, and
  the next state. A character in no range goes to \<^verbatim>\<open>st0\<close>. The ranges of a state are disjoint.
\<close>

datatype action =
    Mark | StartField | WriteField | StartValue | WriteValue | RequestMethod | RequestUri | Fragment
  | StartQuery | QueryString | HttpVersion | RequestPath | Done | Xml | Json

type_synonym row = "int \<times> int \<times> bool \<times> action list \<times> int"

definition http11_rows_1 :: "(int \<times> row list) list" where
  "http11_rows_1 = [
      (1, [
          (48, 57, False, [Mark], 2), (60, 60, False, [Mark], 194), (64, 64, False, [Mark], 198),
          (65, 90, False, [Mark], 2)]),
      (2, [(32, 32, False, [RequestMethod], 3), (48, 57, False, [], 175), (65, 90, False, [], 175)]),
      (3, [
          (32, 32, False, [Mark, RequestPath, RequestUri], 4), (33, 33, False, [Mark], 19),
          (35, 35, False, [Mark, RequestPath, RequestUri], 20), (36, 36, False, [Mark], 19),
          (37, 37, False, [Mark], 24), (38, 46, False, [Mark], 19), (47, 47, False, [Mark], 33),
          (48, 57, False, [Mark], 19), (59, 59, False, [Mark], 19), (61, 61, False, [Mark], 19),
          (63, 63, False, [Mark, RequestPath], 29), (64, 64, False, [Mark], 19), (65, 90, False, [Mark], 173),
          (95, 95, False, [Mark], 19), (97, 122, False, [Mark], 173), (126, 126, False, [Mark], 19),
          (94, 94, True, [Mark], 19), (123, 123, True, [Mark], 19), (125, 125, True, [Mark], 19)])]"

definition http11_rows_2 :: "(int \<times> row list) list" where
  "http11_rows_2 = [
      (4, [(72, 72, False, [Mark], 5)]),
      (5, [(84, 84, False, [], 6)]),
      (6, [(84, 84, False, [], 7)]),
      (7, [(80, 80, False, [], 8)]),
      (8, [(47, 47, False, [], 9)]),
      (9, [(49, 49, False, [], 10)]),
      (10, [(46, 46, False, [], 11)]),
      (11, [(48, 49, False, [], 12)]),
      (12, [(10, 10, False, [HttpVersion], 13), (13, 13, False, [HttpVersion], 17)])]"

definition http11_rows_3 :: "(int \<times> row list) list" where
  "http11_rows_3 = [
      (13, [
          (1, 8, False, [StartField], 14), (10, 10, False, [StartField, Done], 348),
          (11, 12, False, [StartField], 14), (13, 13, False, [StartField], 18),
          (14, 31, False, [StartField], 14), (33, 33, False, [StartField], 14),
          (35, 39, False, [StartField], 14), (42, 43, False, [StartField], 14),
          (45, 46, False, [StartField], 14), (48, 57, False, [StartField], 14),
          (65, 90, False, [StartField], 14), (94, 122, False, [StartField], 14),
          (124, 124, False, [StartField], 14), (126, 126, False, [StartField], 14)]),
      (14, [
          (1, 8, False, [], 14), (10, 31, False, [], 14), (33, 33, False, [], 14), (35, 39, False, [], 14),
          (42, 43, False, [], 14), (45, 46, False, [], 14), (48, 57, False, [], 14),
          (58, 58, False, [WriteField], 15), (65, 90, False, [], 14), (94, 122, False, [], 14),
          (124, 124, False, [], 14), (126, 126, False, [], 14)]),
      (15, [
          (-128, -1, False, [StartValue], 16), (1, 8, False, [StartValue], 16), (9, 9, False, [StartValue], 15),
          (10, 10, False, [StartValue, WriteValue], 13), (11, 12, False, [StartValue], 16),
          (13, 13, False, [StartValue, WriteValue], 17), (14, 31, False, [StartValue], 16),
          (32, 32, False, [StartValue], 15), (33, 126, False, [StartValue], 16)]),
      (16, [
          (-128, -1, False, [], 16), (1, 9, False, [], 16), (10, 10, False, [WriteValue], 13),
          (11, 12, False, [], 16), (13, 13, False, [WriteValue], 17), (14, 126, False, [], 16)])]"

definition http11_rows_4 :: "(int \<times> row list) list" where
  "http11_rows_4 = [
      (17, [(10, 10, False, [], 13)]),
      (348, [
          (1, 8, False, [], 14), (10, 31, False, [], 14), (33, 33, False, [], 14), (35, 39, False, [], 14),
          (42, 43, False, [], 14), (45, 46, False, [], 14), (48, 57, False, [], 14),
          (58, 58, False, [WriteField], 15), (65, 90, False, [], 14), (94, 122, False, [], 14),
          (124, 124, False, [], 14), (126, 126, False, [], 14)]),
      (18, [
          (1, 8, False, [], 14), (10, 10, False, [Done], 348), (11, 31, False, [], 14), (33, 33, False, [], 14),
          (35, 39, False, [], 14), (42, 43, False, [], 14), (45, 46, False, [], 14), (48, 57, False, [], 14),
          (58, 58, False, [WriteField], 15), (65, 90, False, [], 14), (94, 122, False, [], 14),
          (124, 124, False, [], 14), (126, 126, False, [], 14)])]"

definition http11_rows_5 :: "(int \<times> row list) list" where
  "http11_rows_5 = [
      (19, [
          (32, 32, False, [RequestPath, RequestUri], 4), (33, 33, False, [], 19),
          (35, 35, False, [RequestPath, RequestUri], 20), (36, 36, False, [], 19), (37, 37, False, [], 24),
          (38, 46, False, [], 19), (47, 47, False, [], 26), (48, 57, False, [], 19), (59, 59, False, [], 19),
          (61, 61, False, [], 19), (63, 63, False, [RequestPath], 29), (64, 90, False, [], 19),
          (95, 95, False, [], 19), (97, 122, False, [], 19), (126, 126, False, [], 19), (94, 94, True, [], 19),
          (123, 123, True, [], 19), (125, 125, True, [], 19)])]"

definition http11_rows_6 :: "(int \<times> row list) list" where
  "http11_rows_6 = [
      (20, [
          (-128, -1, False, [Mark], 21), (32, 32, False, [Mark, Fragment], 4), (33, 33, False, [Mark], 21),
          (36, 36, False, [Mark], 21), (37, 37, False, [Mark], 22), (38, 59, False, [Mark], 21),
          (61, 61, False, [Mark], 21), (63, 90, False, [Mark], 21), (95, 95, False, [Mark], 21),
          (97, 122, False, [Mark], 21), (126, 126, False, [Mark], 21), (94, 94, True, [Mark], 21),
          (123, 123, True, [Mark], 21), (125, 125, True, [Mark], 21)])]"

definition http11_rows_7 :: "(int \<times> row list) list" where
  "http11_rows_7 = [
      (21, [
          (-128, -1, False, [], 21), (32, 32, False, [Fragment], 4), (33, 33, False, [], 21),
          (36, 36, False, [], 21), (37, 37, False, [], 22), (38, 59, False, [], 21), (61, 61, False, [], 21),
          (63, 90, False, [], 21), (95, 95, False, [], 21), (97, 122, False, [], 21), (126, 126, False, [], 21),
          (94, 94, True, [], 21), (123, 123, True, [], 21), (125, 125, True, [], 21)]),
      (22, [(48, 57, False, [], 23), (65, 70, False, [], 23), (97, 102, False, [], 23)]),
      (23, [(48, 57, False, [], 21), (65, 70, False, [], 21), (97, 102, False, [], 21)]),
      (24, [(48, 57, False, [], 25), (65, 70, False, [], 25), (97, 102, False, [], 25)]),
      (25, [(48, 57, False, [], 19), (65, 70, False, [], 19), (97, 102, False, [], 19)])]"

definition http11_rows_8 :: "(int \<times> row list) list" where
  "http11_rows_8 = [
      (26, [
          (-128, -1, False, [], 26), (32, 32, False, [RequestPath, RequestUri], 4), (33, 33, False, [], 26),
          (35, 35, False, [RequestPath, RequestUri], 20), (36, 36, False, [], 26), (37, 37, False, [], 27),
          (38, 59, False, [], 26), (61, 61, False, [], 26), (63, 63, False, [RequestPath], 29),
          (64, 90, False, [], 26), (95, 95, False, [], 26), (97, 122, False, [], 26), (126, 126, False, [], 26),
          (94, 94, True, [], 26), (123, 123, True, [], 26), (125, 125, True, [], 26)]),
      (27, [(48, 57, False, [], 28), (65, 70, False, [], 28), (97, 102, False, [], 28)]),
      (28, [(48, 57, False, [], 26), (65, 70, False, [], 26), (97, 102, False, [], 26)])]"

definition http11_rows_9 :: "(int \<times> row list) list" where
  "http11_rows_9 = [
      (29, [
          (-128, -1, False, [StartQuery], 30), (32, 32, False, [StartQuery, QueryString, RequestUri], 4),
          (33, 33, False, [StartQuery], 30), (35, 35, False, [StartQuery, QueryString, RequestUri], 20),
          (36, 36, False, [StartQuery], 30), (37, 37, False, [StartQuery], 31),
          (38, 59, False, [StartQuery], 30), (61, 61, False, [StartQuery], 30),
          (63, 90, False, [StartQuery], 30), (95, 95, False, [StartQuery], 30),
          (97, 122, False, [StartQuery], 30), (126, 126, False, [StartQuery], 30),
          (94, 94, True, [StartQuery], 30), (123, 123, True, [StartQuery], 30),
          (125, 125, True, [StartQuery], 30)]),
      (30, [
          (-128, -1, False, [], 30), (32, 32, False, [QueryString, RequestUri], 4), (33, 33, False, [], 30),
          (35, 35, False, [QueryString, RequestUri], 20), (36, 36, False, [], 30), (37, 37, False, [], 31),
          (38, 59, False, [], 30), (61, 61, False, [], 30), (63, 90, False, [], 30), (95, 95, False, [], 30),
          (97, 122, False, [], 30), (126, 126, False, [], 30), (94, 94, True, [], 30), (123, 123, True, [], 30),
          (125, 125, True, [], 30)]),
      (31, [(48, 57, False, [], 32), (65, 70, False, [], 32), (97, 102, False, [], 32)])]"

definition http11_rows_10 :: "(int \<times> row list) list" where
  "http11_rows_10 = [
      (32, [(48, 57, False, [], 30), (65, 70, False, [], 30), (97, 102, False, [], 30)]),
      (33, [
          (-128, -1, False, [], 26), (32, 32, False, [RequestPath, RequestUri], 4), (33, 33, False, [], 26),
          (35, 35, False, [RequestPath, RequestUri], 20), (36, 36, False, [], 26), (37, 37, False, [], 27),
          (38, 46, False, [], 26), (47, 47, False, [], 34), (48, 59, False, [], 26), (61, 61, False, [], 26),
          (63, 63, False, [RequestPath], 29), (64, 90, False, [], 26), (95, 95, False, [], 26),
          (97, 122, False, [], 26), (126, 126, False, [], 26), (94, 94, True, [], 26), (123, 123, True, [], 26),
          (125, 125, True, [], 26)]),
      (34, [
          (32, 32, False, [RequestPath, RequestUri], 4), (33, 33, False, [], 35),
          (35, 35, False, [RequestPath, RequestUri], 20), (36, 36, False, [], 35), (37, 37, False, [], 36),
          (38, 46, False, [], 35), (47, 47, False, [], 26), (48, 57, False, [], 35), (58, 58, False, [], 38),
          (59, 59, False, [], 35), (61, 61, False, [], 35), (63, 63, False, [RequestPath], 29),
          (64, 64, False, [], 42), (65, 90, False, [], 35), (91, 91, False, [], 47), (95, 95, False, [], 35),
          (97, 122, False, [], 35), (126, 126, False, [], 35), (94, 94, True, [], 35), (123, 123, True, [], 35),
          (125, 125, True, [], 35)])]"

definition http11_rows_11 :: "(int \<times> row list) list" where
  "http11_rows_11 = [
      (35, [
          (32, 32, False, [RequestPath, RequestUri], 4), (33, 33, False, [], 35),
          (35, 35, False, [RequestPath, RequestUri], 20), (36, 36, False, [], 35), (37, 37, False, [], 36),
          (38, 46, False, [], 35), (47, 47, False, [], 26), (48, 57, False, [], 35), (58, 58, False, [], 38),
          (59, 59, False, [], 35), (61, 61, False, [], 35), (63, 63, False, [RequestPath], 29),
          (64, 64, False, [], 42), (65, 90, False, [], 35), (95, 95, False, [], 35), (97, 122, False, [], 35),
          (126, 126, False, [], 35), (94, 94, True, [], 35), (123, 123, True, [], 35), (125, 125, True, [], 35)]),
      (36, [(48, 57, False, [], 37), (65, 70, False, [], 37), (97, 102, False, [], 37)]),
      (37, [(48, 57, False, [], 35), (65, 70, False, [], 35), (97, 102, False, [], 35)]),
      (38, [
          (32, 32, False, [RequestPath, RequestUri], 4), (33, 33, False, [], 39),
          (35, 35, False, [RequestPath, RequestUri], 20), (36, 36, False, [], 39), (37, 37, False, [], 40),
          (38, 46, False, [], 39), (47, 47, False, [], 26), (48, 57, False, [], 38), (58, 59, False, [], 39),
          (61, 61, False, [], 39), (63, 63, False, [RequestPath], 29), (64, 64, False, [], 42),
          (65, 90, False, [], 39), (95, 95, False, [], 39), (97, 122, False, [], 39), (126, 126, False, [], 39),
          (94, 94, True, [], 39), (123, 123, True, [], 39), (125, 125, True, [], 39)])]"

definition http11_rows_12 :: "(int \<times> row list) list" where
  "http11_rows_12 = [
      (39, [
          (33, 33, False, [], 39), (36, 36, False, [], 39), (37, 37, False, [], 40), (38, 46, False, [], 39),
          (48, 59, False, [], 39), (61, 61, False, [], 39), (64, 64, False, [], 42), (65, 90, False, [], 39),
          (95, 95, False, [], 39), (97, 122, False, [], 39), (126, 126, False, [], 39), (94, 94, True, [], 39),
          (123, 123, True, [], 39), (125, 125, True, [], 39)]),
      (40, [(48, 57, False, [], 41), (65, 70, False, [], 41), (97, 102, False, [], 41)]),
      (41, [(48, 57, False, [], 39), (65, 70, False, [], 39), (97, 102, False, [], 39)]),
      (42, [
          (32, 32, False, [RequestPath, RequestUri], 4), (33, 33, False, [], 43),
          (35, 35, False, [RequestPath, RequestUri], 20), (36, 36, False, [], 43), (37, 37, False, [], 44),
          (38, 46, False, [], 43), (47, 47, False, [], 26), (48, 57, False, [], 43), (58, 58, False, [], 46),
          (59, 59, False, [], 43), (61, 61, False, [], 43), (63, 63, False, [RequestPath], 29),
          (65, 90, False, [], 43), (91, 91, False, [], 47), (95, 95, False, [], 43), (97, 122, False, [], 43),
          (126, 126, False, [], 43), (94, 94, True, [], 43), (123, 123, True, [], 43), (125, 125, True, [], 43)])]"

definition http11_rows_13 :: "(int \<times> row list) list" where
  "http11_rows_13 = [
      (43, [
          (32, 32, False, [RequestPath, RequestUri], 4), (33, 33, False, [], 43),
          (35, 35, False, [RequestPath, RequestUri], 20), (36, 36, False, [], 43), (37, 37, False, [], 44),
          (38, 46, False, [], 43), (47, 47, False, [], 26), (48, 57, False, [], 43), (58, 58, False, [], 46),
          (59, 59, False, [], 43), (61, 61, False, [], 43), (63, 63, False, [RequestPath], 29),
          (65, 90, False, [], 43), (95, 95, False, [], 43), (97, 122, False, [], 43), (126, 126, False, [], 43),
          (94, 94, True, [], 43), (123, 123, True, [], 43), (125, 125, True, [], 43)]),
      (44, [(48, 57, False, [], 45), (65, 70, False, [], 45), (97, 102, False, [], 45)]),
      (45, [(48, 57, False, [], 43), (65, 70, False, [], 43), (97, 102, False, [], 43)]),
      (46, [
          (32, 32, False, [RequestPath, RequestUri], 4), (35, 35, False, [RequestPath, RequestUri], 20),
          (47, 47, False, [], 26), (48, 57, False, [], 46), (63, 63, False, [RequestPath], 29)]),
      (47, [
          (6, 6, False, [], 48), (48, 57, False, [], 91), (58, 58, False, [], 167), (65, 70, False, [], 91),
          (97, 102, False, [], 91), (118, 118, False, [], 169)]),
      (48, [(48, 57, False, [], 49), (65, 70, False, [], 49), (97, 102, False, [], 49)]),
      (49, [
          (48, 57, False, [], 50), (58, 58, False, [], 53), (65, 70, False, [], 50), (97, 102, False, [], 50)]),
      (50, [
          (48, 57, False, [], 51), (58, 58, False, [], 53), (65, 70, False, [], 51), (97, 102, False, [], 51)])]"

definition http11_rows_14 :: "(int \<times> row list) list" where
  "http11_rows_14 = [
      (51, [
          (48, 57, False, [], 52), (58, 58, False, [], 53), (65, 70, False, [], 52), (97, 102, False, [], 52)]),
      (52, [(58, 58, False, [], 53)]),
      (53, [
          (48, 48, False, [], 54), (49, 49, False, [], 84), (50, 50, False, [], 87), (51, 57, False, [], 54),
          (65, 70, False, [], 90), (97, 102, False, [], 90)]),
      (54, [
          (46, 46, False, [], 55), (48, 57, False, [], 77), (58, 58, False, [], 80), (65, 70, False, [], 77),
          (97, 102, False, [], 77)]),
      (55, [
          (48, 48, False, [], 56), (49, 49, False, [], 72), (50, 50, False, [], 74), (51, 57, False, [], 56)]),
      (56, [(46, 46, False, [], 57)]),
      (57, [
          (48, 48, False, [], 58), (49, 49, False, [], 67), (50, 50, False, [], 69), (51, 57, False, [], 58)]),
      (58, [(46, 46, False, [], 59)]),
      (59, [
          (48, 48, False, [], 60), (49, 49, False, [], 62), (50, 50, False, [], 64), (51, 57, False, [], 60)]),
      (60, [(93, 93, False, [], 61)]),
      (61, [
          (32, 32, False, [RequestPath, RequestUri], 4), (35, 35, False, [RequestPath, RequestUri], 20),
          (47, 47, False, [], 26), (58, 58, False, [], 46), (63, 63, False, [RequestPath], 29)]),
      (62, [(48, 57, False, [], 63), (93, 93, False, [], 61)]),
      (63, [(48, 57, False, [], 60), (93, 93, False, [], 61)]),
      (64, [(48, 48, False, [], 65), (53, 53, False, [], 66), (93, 93, False, [], 61)])]"

definition http11_rows_15 :: "(int \<times> row list) list" where
  "http11_rows_15 = [
      (65, [(48, 57, False, [], 60)]),
      (66, [(48, 48, False, [], 60)]),
      (67, [(46, 46, False, [], 59), (48, 57, False, [], 68)]),
      (68, [(46, 46, False, [], 59), (48, 57, False, [], 58)]),
      (69, [(46, 46, False, [], 59), (48, 48, False, [], 70), (53, 53, False, [], 71)]),
      (70, [(48, 57, False, [], 58)]),
      (71, [(48, 48, False, [], 58)]),
      (72, [(46, 46, False, [], 57), (48, 57, False, [], 73)]),
      (73, [(46, 46, False, [], 57), (48, 57, False, [], 56)]),
      (74, [(46, 46, False, [], 57), (48, 48, False, [], 75), (53, 53, False, [], 76)]),
      (75, [(48, 57, False, [], 56)]),
      (76, [(48, 48, False, [], 56)]),
      (77, [
          (48, 57, False, [], 78), (58, 58, False, [], 80), (65, 70, False, [], 78), (97, 102, False, [], 78)]),
      (78, [
          (48, 57, False, [], 79), (58, 58, False, [], 80), (65, 70, False, [], 79), (97, 102, False, [], 79)]),
      (79, [(58, 58, False, [], 80)]),
      (80, [(48, 57, False, [], 81), (65, 70, False, [], 81), (97, 102, False, [], 81)])]"

definition http11_rows_16 :: "(int \<times> row list) list" where
  "http11_rows_16 = [
      (81, [
          (48, 57, False, [], 82), (65, 70, False, [], 82), (93, 93, False, [], 61), (97, 102, False, [], 82)]),
      (82, [
          (48, 57, False, [], 83), (65, 70, False, [], 83), (93, 93, False, [], 61), (97, 102, False, [], 83)]),
      (83, [
          (48, 57, False, [], 60), (65, 70, False, [], 60), (93, 93, False, [], 61), (97, 102, False, [], 60)]),
      (84, [
          (46, 46, False, [], 55), (48, 57, False, [], 85), (58, 58, False, [], 80), (65, 70, False, [], 77),
          (97, 102, False, [], 77)]),
      (85, [
          (46, 46, False, [], 55), (48, 57, False, [], 86), (58, 58, False, [], 80), (65, 70, False, [], 78),
          (97, 102, False, [], 78)]),
      (86, [
          (46, 46, False, [], 55), (48, 57, False, [], 79), (58, 58, False, [], 80), (65, 70, False, [], 79),
          (97, 102, False, [], 79)]),
      (87, [
          (46, 46, False, [], 55), (48, 48, False, [], 88), (49, 52, False, [], 77), (53, 53, False, [], 89),
          (54, 57, False, [], 77), (58, 58, False, [], 80), (65, 70, False, [], 77), (97, 102, False, [], 77)]),
      (88, [
          (48, 57, False, [], 86), (58, 58, False, [], 80), (65, 70, False, [], 78), (97, 102, False, [], 78)]),
      (89, [
          (48, 48, False, [], 86), (49, 57, False, [], 78), (58, 58, False, [], 80), (65, 70, False, [], 78),
          (97, 102, False, [], 78)])]"

definition http11_rows_17 :: "(int \<times> row list) list" where
  "http11_rows_17 = [
      (90, [
          (48, 57, False, [], 77), (58, 58, False, [], 80), (65, 70, False, [], 77), (97, 102, False, [], 77)]),
      (91, [
          (48, 57, False, [], 92), (58, 58, False, [], 95), (65, 70, False, [], 92), (97, 102, False, [], 92)]),
      (92, [
          (48, 57, False, [], 93), (58, 58, False, [], 95), (65, 70, False, [], 93), (97, 102, False, [], 93)]),
      (93, [
          (48, 57, False, [], 94), (58, 58, False, [], 95), (65, 70, False, [], 94), (97, 102, False, [], 94)]),
      (94, [(58, 58, False, [], 95)]),
      (95, [
          (48, 57, False, [], 96), (58, 58, False, [], 166), (65, 70, False, [], 96), (97, 102, False, [], 96)]),
      (96, [
          (48, 57, False, [], 97), (58, 58, False, [], 100), (65, 70, False, [], 97), (97, 102, False, [], 97)]),
      (97, [
          (48, 57, False, [], 98), (58, 58, False, [], 100), (65, 70, False, [], 98), (97, 102, False, [], 98)]),
      (98, [
          (48, 57, False, [], 99), (58, 58, False, [], 100), (65, 70, False, [], 99), (97, 102, False, [], 99)]),
      (99, [(58, 58, False, [], 100)]),
      (100, [
          (48, 57, False, [], 101), (58, 58, False, [], 165), (65, 70, False, [], 101),
          (97, 102, False, [], 101)])]"

definition http11_rows_18 :: "(int \<times> row list) list" where
  "http11_rows_18 = [
      (101, [
          (48, 57, False, [], 102), (58, 58, False, [], 105), (65, 70, False, [], 102),
          (97, 102, False, [], 102)]),
      (102, [
          (48, 57, False, [], 103), (58, 58, False, [], 105), (65, 70, False, [], 103),
          (97, 102, False, [], 103)]),
      (103, [
          (48, 57, False, [], 104), (58, 58, False, [], 105), (65, 70, False, [], 104),
          (97, 102, False, [], 104)]),
      (104, [(58, 58, False, [], 105)]),
      (105, [
          (48, 57, False, [], 106), (58, 58, False, [], 164), (65, 70, False, [], 106),
          (97, 102, False, [], 106)]),
      (106, [
          (48, 57, False, [], 107), (58, 58, False, [], 110), (65, 70, False, [], 107),
          (97, 102, False, [], 107)]),
      (107, [
          (48, 57, False, [], 108), (58, 58, False, [], 110), (65, 70, False, [], 108),
          (97, 102, False, [], 108)]),
      (108, [
          (48, 57, False, [], 109), (58, 58, False, [], 110), (65, 70, False, [], 109),
          (97, 102, False, [], 109)]),
      (109, [(58, 58, False, [], 110)]),
      (110, [
          (48, 57, False, [], 111), (58, 58, False, [], 163), (65, 70, False, [], 111),
          (97, 102, False, [], 111)]),
      (111, [
          (48, 57, False, [], 112), (58, 58, False, [], 115), (65, 70, False, [], 112),
          (97, 102, False, [], 112)])]"

definition http11_rows_19 :: "(int \<times> row list) list" where
  "http11_rows_19 = [
      (112, [
          (48, 57, False, [], 113), (58, 58, False, [], 115), (65, 70, False, [], 113),
          (97, 102, False, [], 113)]),
      (113, [
          (48, 57, False, [], 114), (58, 58, False, [], 115), (65, 70, False, [], 114),
          (97, 102, False, [], 114)]),
      (114, [(58, 58, False, [], 115)]),
      (115, [
          (48, 57, False, [], 116), (58, 58, False, [], 151), (65, 70, False, [], 116),
          (97, 102, False, [], 116)]),
      (116, [
          (48, 57, False, [], 117), (58, 58, False, [], 120), (65, 70, False, [], 117),
          (97, 102, False, [], 117)]),
      (117, [
          (48, 57, False, [], 118), (58, 58, False, [], 120), (65, 70, False, [], 118),
          (97, 102, False, [], 118)]),
      (118, [
          (48, 57, False, [], 119), (58, 58, False, [], 120), (65, 70, False, [], 119),
          (97, 102, False, [], 119)]),
      (119, [(58, 58, False, [], 120)]),
      (120, [
          (48, 57, False, [], 121), (58, 58, False, [], 150), (65, 70, False, [], 121),
          (97, 102, False, [], 121)]),
      (121, [
          (48, 57, False, [], 122), (58, 58, False, [], 125), (65, 70, False, [], 122),
          (97, 102, False, [], 122)]),
      (122, [
          (48, 57, False, [], 123), (58, 58, False, [], 125), (65, 70, False, [], 123),
          (97, 102, False, [], 123)])]"

definition http11_rows_20 :: "(int \<times> row list) list" where
  "http11_rows_20 = [
      (123, [
          (48, 57, False, [], 124), (58, 58, False, [], 125), (65, 70, False, [], 124),
          (97, 102, False, [], 124)]),
      (124, [(58, 58, False, [], 125)]),
      (125, [
          (48, 57, False, [], 121), (58, 58, False, [], 126), (65, 70, False, [], 121),
          (97, 102, False, [], 121)]),
      (126, [
          (2, 3, False, [], 48), (48, 48, False, [], 127), (49, 49, False, [], 143), (50, 50, False, [], 146),
          (51, 57, False, [], 127), (65, 70, False, [], 149), (93, 93, False, [], 61), (97, 102, False, [], 149)]),
      (127, [
          (46, 46, False, [], 55), (48, 57, False, [], 128), (58, 58, False, [], 131), (65, 70, False, [], 128),
          (93, 93, False, [], 61), (97, 102, False, [], 128)]),
      (128, [
          (48, 57, False, [], 129), (58, 58, False, [], 131), (65, 70, False, [], 129), (93, 93, False, [], 61),
          (97, 102, False, [], 129)]),
      (129, [
          (48, 57, False, [], 130), (58, 58, False, [], 131), (65, 70, False, [], 130), (93, 93, False, [], 61),
          (97, 102, False, [], 130)]),
      (130, [(58, 58, False, [], 131), (93, 93, False, [], 61)]),
      (131, [
          (48, 48, False, [], 132), (49, 49, False, [], 136), (50, 50, False, [], 139),
          (51, 57, False, [], 132), (65, 70, False, [], 142), (97, 102, False, [], 142)])]"

definition http11_rows_21 :: "(int \<times> row list) list" where
  "http11_rows_21 = [
      (132, [
          (46, 46, False, [], 55), (48, 57, False, [], 133), (58, 58, False, [], 80), (65, 70, False, [], 133),
          (93, 93, False, [], 61), (97, 102, False, [], 133)]),
      (133, [
          (48, 57, False, [], 134), (58, 58, False, [], 80), (65, 70, False, [], 134), (93, 93, False, [], 61),
          (97, 102, False, [], 134)]),
      (134, [
          (48, 57, False, [], 135), (58, 58, False, [], 80), (65, 70, False, [], 135), (93, 93, False, [], 61),
          (97, 102, False, [], 135)]),
      (135, [(58, 58, False, [], 80), (93, 93, False, [], 61)]),
      (136, [
          (46, 46, False, [], 55), (48, 57, False, [], 137), (58, 58, False, [], 80), (65, 70, False, [], 133),
          (93, 93, False, [], 61), (97, 102, False, [], 133)]),
      (137, [
          (46, 46, False, [], 55), (48, 57, False, [], 138), (58, 58, False, [], 80), (65, 70, False, [], 134),
          (93, 93, False, [], 61), (97, 102, False, [], 134)]),
      (138, [
          (46, 46, False, [], 55), (48, 57, False, [], 135), (58, 58, False, [], 80), (65, 70, False, [], 135),
          (93, 93, False, [], 61), (97, 102, False, [], 135)]),
      (139, [
          (46, 46, False, [], 55), (48, 48, False, [], 140), (49, 52, False, [], 133), (53, 53, False, [], 141),
          (54, 57, False, [], 133), (58, 58, False, [], 80), (65, 70, False, [], 133), (93, 93, False, [], 61),
          (97, 102, False, [], 133)])]"

definition http11_rows_22 :: "(int \<times> row list) list" where
  "http11_rows_22 = [
      (140, [
          (48, 57, False, [], 138), (58, 58, False, [], 80), (65, 70, False, [], 134), (93, 93, False, [], 61),
          (97, 102, False, [], 134)]),
      (141, [
          (48, 48, False, [], 138), (49, 57, False, [], 134), (58, 58, False, [], 80), (65, 70, False, [], 134),
          (93, 93, False, [], 61), (97, 102, False, [], 134)]),
      (142, [
          (48, 57, False, [], 133), (58, 58, False, [], 80), (65, 70, False, [], 133), (93, 93, False, [], 61),
          (97, 102, False, [], 133)]),
      (143, [
          (46, 46, False, [], 55), (48, 57, False, [], 144), (58, 58, False, [], 131), (65, 70, False, [], 128),
          (93, 93, False, [], 61), (97, 102, False, [], 128)]),
      (144, [
          (46, 46, False, [], 55), (48, 57, False, [], 145), (58, 58, False, [], 131), (65, 70, False, [], 129),
          (93, 93, False, [], 61), (97, 102, False, [], 129)]),
      (145, [
          (46, 46, False, [], 55), (48, 57, False, [], 130), (58, 58, False, [], 131), (65, 70, False, [], 130),
          (93, 93, False, [], 61), (97, 102, False, [], 130)]),
      (146, [
          (46, 46, False, [], 55), (48, 48, False, [], 147), (49, 52, False, [], 128), (53, 53, False, [], 148),
          (54, 57, False, [], 128), (58, 58, False, [], 131), (65, 70, False, [], 128), (93, 93, False, [], 61),
          (97, 102, False, [], 128)]),
      (147, [
          (48, 57, False, [], 145), (58, 58, False, [], 131), (65, 70, False, [], 129), (93, 93, False, [], 61),
          (97, 102, False, [], 129)])]"

definition http11_rows_23 :: "(int \<times> row list) list" where
  "http11_rows_23 = [
      (148, [
          (48, 48, False, [], 145), (49, 57, False, [], 129), (58, 58, False, [], 131),
          (65, 70, False, [], 129), (93, 93, False, [], 61), (97, 102, False, [], 129)]),
      (149, [
          (48, 57, False, [], 128), (58, 58, False, [], 131), (65, 70, False, [], 128), (93, 93, False, [], 61),
          (97, 102, False, [], 128)]),
      (150, [
          (2, 3, False, [], 48), (48, 48, False, [], 127), (49, 49, False, [], 143), (50, 50, False, [], 146),
          (51, 57, False, [], 127), (65, 70, False, [], 149), (97, 102, False, [], 149)]),
      (151, [
          (2, 3, False, [], 48), (48, 48, False, [], 152), (49, 49, False, [], 156), (50, 50, False, [], 159),
          (51, 57, False, [], 152), (65, 70, False, [], 162), (97, 102, False, [], 162)]),
      (152, [
          (46, 46, False, [], 55), (48, 57, False, [], 153), (58, 58, False, [], 131), (65, 70, False, [], 153),
          (97, 102, False, [], 153)]),
      (153, [
          (48, 57, False, [], 154), (58, 58, False, [], 131), (65, 70, False, [], 154),
          (97, 102, False, [], 154)]),
      (154, [
          (48, 57, False, [], 155), (58, 58, False, [], 131), (65, 70, False, [], 155),
          (97, 102, False, [], 155)]),
      (155, [(58, 58, False, [], 131)]),
      (156, [
          (46, 46, False, [], 55), (48, 57, False, [], 157), (58, 58, False, [], 131), (65, 70, False, [], 153),
          (97, 102, False, [], 153)])]"

definition http11_rows_24 :: "(int \<times> row list) list" where
  "http11_rows_24 = [
      (157, [
          (46, 46, False, [], 55), (48, 57, False, [], 158), (58, 58, False, [], 131), (65, 70, False, [], 154),
          (97, 102, False, [], 154)]),
      (158, [
          (46, 46, False, [], 55), (48, 57, False, [], 155), (58, 58, False, [], 131), (65, 70, False, [], 155),
          (97, 102, False, [], 155)]),
      (159, [
          (46, 46, False, [], 55), (48, 48, False, [], 160), (49, 52, False, [], 153), (53, 53, False, [], 161),
          (54, 57, False, [], 153), (58, 58, False, [], 131), (65, 70, False, [], 153),
          (97, 102, False, [], 153)]),
      (160, [
          (48, 57, False, [], 158), (58, 58, False, [], 131), (65, 70, False, [], 154),
          (97, 102, False, [], 154)]),
      (161, [
          (48, 48, False, [], 158), (49, 57, False, [], 154), (58, 58, False, [], 131),
          (65, 70, False, [], 154), (97, 102, False, [], 154)]),
      (162, [
          (48, 57, False, [], 153), (58, 58, False, [], 131), (65, 70, False, [], 153),
          (97, 102, False, [], 153)]),
      (163, [
          (2, 3, False, [], 48), (48, 57, False, [], 49), (65, 70, False, [], 49), (97, 102, False, [], 49)]),
      (164, [(2, 3, False, [], 48)]),
      (165, [(3, 3, False, [], 48)]),
      (166, [(4, 4, False, [], 48)]),
      (167, [(58, 58, False, [], 168)])]"

definition http11_rows_25 :: "(int \<times> row list) list" where
  "http11_rows_25 = [
      (168, [
          (2, 5, False, [], 48), (48, 48, False, [], 127), (49, 49, False, [], 143), (50, 50, False, [], 146),
          (51, 57, False, [], 127), (65, 70, False, [], 149), (93, 93, False, [], 61), (97, 102, False, [], 149)]),
      (169, [(48, 57, False, [], 170), (65, 70, False, [], 170), (97, 102, False, [], 170)]),
      (170, [
          (46, 46, False, [], 171), (48, 57, False, [], 170), (65, 70, False, [], 170),
          (97, 102, False, [], 170)]),
      (171, [
          (33, 33, False, [], 172), (36, 36, False, [], 172), (38, 46, False, [], 172),
          (48, 59, False, [], 172), (61, 61, False, [], 172), (65, 90, False, [], 172),
          (95, 95, False, [], 172), (97, 122, False, [], 172), (126, 126, False, [], 172),
          (94, 94, True, [], 172), (123, 123, True, [], 172), (125, 125, True, [], 172)]),
      (172, [
          (33, 33, False, [], 172), (36, 36, False, [], 172), (38, 46, False, [], 172),
          (48, 59, False, [], 172), (61, 61, False, [], 172), (65, 90, False, [], 172), (93, 93, False, [], 61),
          (95, 95, False, [], 172), (97, 122, False, [], 172), (126, 126, False, [], 172),
          (94, 94, True, [], 172), (123, 123, True, [], 172), (125, 125, True, [], 172)])]"

definition http11_rows_26 :: "(int \<times> row list) list" where
  "http11_rows_26 = [
      (173, [
          (32, 32, False, [RequestPath, RequestUri], 4), (33, 33, False, [], 19),
          (35, 35, False, [RequestPath, RequestUri], 20), (36, 36, False, [], 19), (37, 37, False, [], 24),
          (38, 42, False, [], 19), (43, 43, False, [], 173), (44, 44, False, [], 19), (45, 46, False, [], 173),
          (47, 47, False, [], 26), (48, 57, False, [], 173), (58, 58, False, [], 174), (59, 59, False, [], 19),
          (61, 61, False, [], 19), (63, 63, False, [RequestPath], 29), (64, 64, False, [], 19),
          (65, 90, False, [], 173), (95, 95, False, [], 19), (97, 122, False, [], 173),
          (126, 126, False, [], 19), (94, 94, True, [], 19), (123, 123, True, [], 19), (125, 125, True, [], 19)]),
      (174, [
          (-128, -1, False, [Mark], 26), (32, 32, False, [Mark, RequestPath, RequestUri], 4),
          (33, 33, False, [Mark], 26), (35, 35, False, [Mark, RequestPath, RequestUri], 20),
          (36, 36, False, [Mark], 26), (37, 37, False, [Mark], 27), (38, 46, False, [Mark], 26),
          (47, 47, False, [Mark], 33), (48, 59, False, [Mark], 26), (61, 61, False, [Mark], 26),
          (63, 63, False, [Mark, RequestPath], 29), (64, 90, False, [Mark], 26), (95, 95, False, [Mark], 26),
          (97, 122, False, [Mark], 26), (126, 126, False, [Mark], 26), (94, 94, True, [Mark], 26),
          (123, 123, True, [Mark], 26), (125, 125, True, [Mark], 26)]),
      (175, [(32, 32, False, [RequestMethod], 3), (48, 57, False, [], 176), (65, 90, False, [], 176)]),
      (176, [(32, 32, False, [RequestMethod], 3), (48, 57, False, [], 177), (65, 90, False, [], 177)]),
      (177, [(32, 32, False, [RequestMethod], 3), (48, 57, False, [], 178), (65, 90, False, [], 178)])]"

definition http11_rows_27 :: "(int \<times> row list) list" where
  "http11_rows_27 = [
      (178, [(32, 32, False, [RequestMethod], 3), (48, 57, False, [], 179), (65, 90, False, [], 179)]),
      (179, [(32, 32, False, [RequestMethod], 3), (48, 57, False, [], 180), (65, 90, False, [], 180)]),
      (180, [(32, 32, False, [RequestMethod], 3), (48, 57, False, [], 181), (65, 90, False, [], 181)]),
      (181, [(32, 32, False, [RequestMethod], 3), (48, 57, False, [], 182), (65, 90, False, [], 182)]),
      (182, [(32, 32, False, [RequestMethod], 3), (48, 57, False, [], 183), (65, 90, False, [], 183)]),
      (183, [(32, 32, False, [RequestMethod], 3), (48, 57, False, [], 184), (65, 90, False, [], 184)]),
      (184, [(32, 32, False, [RequestMethod], 3), (48, 57, False, [], 185), (65, 90, False, [], 185)]),
      (185, [(32, 32, False, [RequestMethod], 3), (48, 57, False, [], 186), (65, 90, False, [], 186)]),
      (186, [(32, 32, False, [RequestMethod], 3), (48, 57, False, [], 187), (65, 90, False, [], 187)]),
      (187, [(32, 32, False, [RequestMethod], 3), (48, 57, False, [], 188), (65, 90, False, [], 188)]),
      (188, [(32, 32, False, [RequestMethod], 3), (48, 57, False, [], 189), (65, 90, False, [], 189)]),
      (189, [(32, 32, False, [RequestMethod], 3), (48, 57, False, [], 190), (65, 90, False, [], 190)])]"

definition http11_rows_28 :: "(int \<times> row list) list" where
  "http11_rows_28 = [
      (190, [(32, 32, False, [RequestMethod], 3), (48, 57, False, [], 191), (65, 90, False, [], 191)]),
      (191, [(32, 32, False, [RequestMethod], 3), (48, 57, False, [], 192), (65, 90, False, [], 192)]),
      (192, [(32, 32, False, [RequestMethod], 3), (48, 57, False, [], 193), (65, 90, False, [], 193)]),
      (193, [(32, 32, False, [RequestMethod], 3)]),
      (194, [
          (45, 46, False, [], 195), (48, 57, False, [], 195), (65, 90, False, [], 195),
          (97, 122, False, [], 195)]),
      (195, [
          (9, 13, False, [RequestPath], 196), (32, 32, False, [RequestPath], 196), (45, 46, False, [], 195),
          (47, 47, False, [RequestPath], 196), (48, 57, False, [], 195), (62, 62, False, [RequestPath], 196),
          (65, 90, False, [], 195), (97, 122, False, [], 195)]),
      (196, [(-128, 61, False, [], 196), (62, 62, False, [], 197), (63, 127, False, [], 196)]),
      (197, [
          (-128, -1, False, [], 196), (0, 0, False, [Xml, Done], 349), (1, 61, False, [], 196),
          (62, 62, False, [], 197), (63, 127, False, [], 196)])]"

definition http11_rows_29 :: "(int \<times> row list) list" where
  "http11_rows_29 = [
      (349, []),
      (198, [
          (32, 32, False, [RequestPath], 199), (33, 33, False, [], 202), (36, 36, False, [], 202),
          (37, 37, False, [], 203), (38, 46, False, [], 202), (47, 47, False, [], 208),
          (48, 57, False, [], 202), (59, 59, False, [], 202), (61, 61, False, [], 202),
          (64, 90, False, [], 202), (95, 95, False, [], 202), (97, 122, False, [], 202),
          (126, 126, False, [], 202), (94, 94, True, [], 202), (123, 123, True, [], 202),
          (125, 125, True, [], 202)]),
      (199, [(123, 123, False, [Mark], 200)]),
      (200, [(-128, 124, False, [], 200), (125, 125, False, [], 201), (126, 127, False, [], 200)]),
      (201, [
          (-128, -1, False, [], 200), (0, 0, False, [Json, Done], 349), (1, 124, False, [], 200),
          (125, 125, False, [], 201), (126, 127, False, [], 200)])]"

definition http11_rows_30 :: "(int \<times> row list) list" where
  "http11_rows_30 = [
      (202, [
          (32, 32, False, [RequestPath], 199), (33, 33, False, [], 202), (36, 36, False, [], 202),
          (37, 37, False, [], 203), (38, 46, False, [], 202), (47, 47, False, [], 205),
          (48, 57, False, [], 202), (59, 59, False, [], 202), (61, 61, False, [], 202),
          (64, 90, False, [], 202), (95, 95, False, [], 202), (97, 122, False, [], 202),
          (126, 126, False, [], 202), (94, 94, True, [], 202), (123, 123, True, [], 202),
          (125, 125, True, [], 202)]),
      (203, [(48, 57, False, [], 204), (65, 70, False, [], 204), (97, 102, False, [], 204)]),
      (204, [(48, 57, False, [], 202), (65, 70, False, [], 202), (97, 102, False, [], 202)]),
      (205, [
          (-128, -1, False, [], 205), (32, 32, False, [RequestPath], 199), (33, 33, False, [], 205),
          (36, 36, False, [], 205), (37, 37, False, [], 206), (38, 59, False, [], 205),
          (61, 61, False, [], 205), (64, 90, False, [], 205), (95, 95, False, [], 205),
          (97, 122, False, [], 205), (126, 126, False, [], 205), (94, 94, True, [], 205),
          (123, 123, True, [], 205), (125, 125, True, [], 205)]),
      (206, [(48, 57, False, [], 207), (65, 70, False, [], 207), (97, 102, False, [], 207)]),
      (207, [(48, 57, False, [], 205), (65, 70, False, [], 205), (97, 102, False, [], 205)])]"

definition http11_rows_31 :: "(int \<times> row list) list" where
  "http11_rows_31 = [
      (208, [
          (-128, -1, False, [], 205), (32, 32, False, [RequestPath], 199), (33, 33, False, [], 205),
          (36, 36, False, [], 205), (37, 37, False, [], 206), (38, 46, False, [], 205),
          (47, 47, False, [], 209), (48, 59, False, [], 205), (61, 61, False, [], 205),
          (64, 90, False, [], 205), (95, 95, False, [], 205), (97, 122, False, [], 205),
          (126, 126, False, [], 205), (94, 94, True, [], 205), (123, 123, True, [], 205),
          (125, 125, True, [], 205)]),
      (209, [
          (32, 32, False, [RequestPath], 199), (33, 33, False, [], 210), (36, 36, False, [], 210),
          (37, 37, False, [], 211), (38, 46, False, [], 210), (47, 47, False, [], 205),
          (48, 57, False, [], 210), (58, 58, False, [], 213), (59, 59, False, [], 210),
          (61, 61, False, [], 210), (64, 64, False, [], 217), (65, 90, False, [], 210),
          (91, 91, False, [], 222), (95, 95, False, [], 210), (97, 122, False, [], 210),
          (126, 126, False, [], 210), (94, 94, True, [], 210), (123, 123, True, [], 210),
          (125, 125, True, [], 210)]),
      (210, [
          (32, 32, False, [RequestPath], 199), (33, 33, False, [], 210), (36, 36, False, [], 210),
          (37, 37, False, [], 211), (38, 46, False, [], 210), (47, 47, False, [], 205),
          (48, 57, False, [], 210), (58, 58, False, [], 213), (59, 59, False, [], 210),
          (61, 61, False, [], 210), (64, 64, False, [], 217), (65, 90, False, [], 210),
          (95, 95, False, [], 210), (97, 122, False, [], 210), (126, 126, False, [], 210),
          (94, 94, True, [], 210), (123, 123, True, [], 210), (125, 125, True, [], 210)])]"

definition http11_rows_32 :: "(int \<times> row list) list" where
  "http11_rows_32 = [
      (211, [(48, 57, False, [], 212), (65, 70, False, [], 212), (97, 102, False, [], 212)]),
      (212, [(48, 57, False, [], 210), (65, 70, False, [], 210), (97, 102, False, [], 210)]),
      (213, [
          (32, 32, False, [RequestPath], 199), (33, 33, False, [], 214), (36, 36, False, [], 214),
          (37, 37, False, [], 215), (38, 46, False, [], 214), (47, 47, False, [], 205),
          (48, 57, False, [], 213), (58, 59, False, [], 214), (61, 61, False, [], 214),
          (64, 64, False, [], 217), (65, 90, False, [], 214), (95, 95, False, [], 214),
          (97, 122, False, [], 214), (126, 126, False, [], 214), (94, 94, True, [], 214),
          (123, 123, True, [], 214), (125, 125, True, [], 214)]),
      (214, [
          (33, 33, False, [], 214), (36, 36, False, [], 214), (37, 37, False, [], 215),
          (38, 46, False, [], 214), (48, 59, False, [], 214), (61, 61, False, [], 214),
          (64, 64, False, [], 217), (65, 90, False, [], 214), (95, 95, False, [], 214),
          (97, 122, False, [], 214), (126, 126, False, [], 214), (94, 94, True, [], 214),
          (123, 123, True, [], 214), (125, 125, True, [], 214)]),
      (215, [(48, 57, False, [], 216), (65, 70, False, [], 216), (97, 102, False, [], 216)])]"

definition http11_rows_33 :: "(int \<times> row list) list" where
  "http11_rows_33 = [
      (216, [(48, 57, False, [], 214), (65, 70, False, [], 214), (97, 102, False, [], 214)]),
      (217, [
          (32, 32, False, [RequestPath], 199), (33, 33, False, [], 218), (36, 36, False, [], 218),
          (37, 37, False, [], 219), (38, 46, False, [], 218), (47, 47, False, [], 205),
          (48, 57, False, [], 218), (58, 58, False, [], 221), (59, 59, False, [], 218),
          (61, 61, False, [], 218), (65, 90, False, [], 218), (91, 91, False, [], 222),
          (95, 95, False, [], 218), (97, 122, False, [], 218), (126, 126, False, [], 218),
          (94, 94, True, [], 218), (123, 123, True, [], 218), (125, 125, True, [], 218)]),
      (218, [
          (32, 32, False, [RequestPath], 199), (33, 33, False, [], 218), (36, 36, False, [], 218),
          (37, 37, False, [], 219), (38, 46, False, [], 218), (47, 47, False, [], 205),
          (48, 57, False, [], 218), (58, 58, False, [], 221), (59, 59, False, [], 218),
          (61, 61, False, [], 218), (65, 90, False, [], 218), (95, 95, False, [], 218),
          (97, 122, False, [], 218), (126, 126, False, [], 218), (94, 94, True, [], 218),
          (123, 123, True, [], 218), (125, 125, True, [], 218)]),
      (219, [(48, 57, False, [], 220), (65, 70, False, [], 220), (97, 102, False, [], 220)]),
      (220, [(48, 57, False, [], 218), (65, 70, False, [], 218), (97, 102, False, [], 218)]),
      (221, [(32, 32, False, [RequestPath], 199), (47, 47, False, [], 205), (48, 57, False, [], 221)])]"

definition http11_rows_34 :: "(int \<times> row list) list" where
  "http11_rows_34 = [
      (222, [
          (6, 6, False, [], 223), (48, 57, False, [], 266), (58, 58, False, [], 342), (65, 70, False, [], 266),
          (97, 102, False, [], 266), (118, 118, False, [], 344)]),
      (223, [(48, 57, False, [], 224), (65, 70, False, [], 224), (97, 102, False, [], 224)]),
      (224, [
          (48, 57, False, [], 225), (58, 58, False, [], 228), (65, 70, False, [], 225),
          (97, 102, False, [], 225)]),
      (225, [
          (48, 57, False, [], 226), (58, 58, False, [], 228), (65, 70, False, [], 226),
          (97, 102, False, [], 226)]),
      (226, [
          (48, 57, False, [], 227), (58, 58, False, [], 228), (65, 70, False, [], 227),
          (97, 102, False, [], 227)]),
      (227, [(58, 58, False, [], 228)]),
      (228, [
          (48, 48, False, [], 229), (49, 49, False, [], 259), (50, 50, False, [], 262),
          (51, 57, False, [], 229), (65, 70, False, [], 265), (97, 102, False, [], 265)]),
      (229, [
          (46, 46, False, [], 230), (48, 57, False, [], 252), (58, 58, False, [], 255),
          (65, 70, False, [], 252), (97, 102, False, [], 252)]),
      (230, [
          (48, 48, False, [], 231), (49, 49, False, [], 247), (50, 50, False, [], 249), (51, 57, False, [], 231)]),
      (231, [(46, 46, False, [], 232)]),
      (232, [
          (48, 48, False, [], 233), (49, 49, False, [], 242), (50, 50, False, [], 244), (51, 57, False, [], 233)])]"

definition http11_rows_35 :: "(int \<times> row list) list" where
  "http11_rows_35 = [
      (233, [(46, 46, False, [], 234)]),
      (234, [
          (48, 48, False, [], 235), (49, 49, False, [], 237), (50, 50, False, [], 239), (51, 57, False, [], 235)]),
      (235, [(93, 93, False, [], 236)]),
      (236, [(32, 32, False, [RequestPath], 199), (47, 47, False, [], 205), (58, 58, False, [], 221)]),
      (237, [(48, 57, False, [], 238), (93, 93, False, [], 236)]),
      (238, [(48, 57, False, [], 235), (93, 93, False, [], 236)]),
      (239, [(48, 48, False, [], 240), (53, 53, False, [], 241), (93, 93, False, [], 236)]),
      (240, [(48, 57, False, [], 235)]),
      (241, [(48, 48, False, [], 235)]),
      (242, [(46, 46, False, [], 234), (48, 57, False, [], 243)]),
      (243, [(46, 46, False, [], 234), (48, 57, False, [], 233)]),
      (244, [(46, 46, False, [], 234), (48, 48, False, [], 245), (53, 53, False, [], 246)]),
      (245, [(48, 57, False, [], 233)]),
      (246, [(48, 48, False, [], 233)]),
      (247, [(46, 46, False, [], 232), (48, 57, False, [], 248)]),
      (248, [(46, 46, False, [], 232), (48, 57, False, [], 231)]),
      (249, [(46, 46, False, [], 232), (48, 48, False, [], 250), (53, 53, False, [], 251)])]"

definition http11_rows_36 :: "(int \<times> row list) list" where
  "http11_rows_36 = [
      (250, [(48, 57, False, [], 231)]),
      (251, [(48, 48, False, [], 231)]),
      (252, [
          (48, 57, False, [], 253), (58, 58, False, [], 255), (65, 70, False, [], 253),
          (97, 102, False, [], 253)]),
      (253, [
          (48, 57, False, [], 254), (58, 58, False, [], 255), (65, 70, False, [], 254),
          (97, 102, False, [], 254)]),
      (254, [(58, 58, False, [], 255)]),
      (255, [(48, 57, False, [], 256), (65, 70, False, [], 256), (97, 102, False, [], 256)]),
      (256, [
          (48, 57, False, [], 257), (65, 70, False, [], 257), (93, 93, False, [], 236),
          (97, 102, False, [], 257)]),
      (257, [
          (48, 57, False, [], 258), (65, 70, False, [], 258), (93, 93, False, [], 236),
          (97, 102, False, [], 258)]),
      (258, [
          (48, 57, False, [], 235), (65, 70, False, [], 235), (93, 93, False, [], 236),
          (97, 102, False, [], 235)]),
      (259, [
          (46, 46, False, [], 230), (48, 57, False, [], 260), (58, 58, False, [], 255),
          (65, 70, False, [], 252), (97, 102, False, [], 252)]),
      (260, [
          (46, 46, False, [], 230), (48, 57, False, [], 261), (58, 58, False, [], 255),
          (65, 70, False, [], 253), (97, 102, False, [], 253)])]"

definition http11_rows_37 :: "(int \<times> row list) list" where
  "http11_rows_37 = [
      (261, [
          (46, 46, False, [], 230), (48, 57, False, [], 254), (58, 58, False, [], 255),
          (65, 70, False, [], 254), (97, 102, False, [], 254)]),
      (262, [
          (46, 46, False, [], 230), (48, 48, False, [], 263), (49, 52, False, [], 252),
          (53, 53, False, [], 264), (54, 57, False, [], 252), (58, 58, False, [], 255),
          (65, 70, False, [], 252), (97, 102, False, [], 252)]),
      (263, [
          (48, 57, False, [], 261), (58, 58, False, [], 255), (65, 70, False, [], 253),
          (97, 102, False, [], 253)]),
      (264, [
          (48, 48, False, [], 261), (49, 57, False, [], 253), (58, 58, False, [], 255),
          (65, 70, False, [], 253), (97, 102, False, [], 253)]),
      (265, [
          (48, 57, False, [], 252), (58, 58, False, [], 255), (65, 70, False, [], 252),
          (97, 102, False, [], 252)]),
      (266, [
          (48, 57, False, [], 267), (58, 58, False, [], 270), (65, 70, False, [], 267),
          (97, 102, False, [], 267)]),
      (267, [
          (48, 57, False, [], 268), (58, 58, False, [], 270), (65, 70, False, [], 268),
          (97, 102, False, [], 268)]),
      (268, [
          (48, 57, False, [], 269), (58, 58, False, [], 270), (65, 70, False, [], 269),
          (97, 102, False, [], 269)]),
      (269, [(58, 58, False, [], 270)]),
      (270, [
          (48, 57, False, [], 271), (58, 58, False, [], 341), (65, 70, False, [], 271),
          (97, 102, False, [], 271)])]"

definition http11_rows_38 :: "(int \<times> row list) list" where
  "http11_rows_38 = [
      (271, [
          (48, 57, False, [], 272), (58, 58, False, [], 275), (65, 70, False, [], 272),
          (97, 102, False, [], 272)]),
      (272, [
          (48, 57, False, [], 273), (58, 58, False, [], 275), (65, 70, False, [], 273),
          (97, 102, False, [], 273)]),
      (273, [
          (48, 57, False, [], 274), (58, 58, False, [], 275), (65, 70, False, [], 274),
          (97, 102, False, [], 274)]),
      (274, [(58, 58, False, [], 275)]),
      (275, [
          (48, 57, False, [], 276), (58, 58, False, [], 340), (65, 70, False, [], 276),
          (97, 102, False, [], 276)]),
      (276, [
          (48, 57, False, [], 277), (58, 58, False, [], 280), (65, 70, False, [], 277),
          (97, 102, False, [], 277)]),
      (277, [
          (48, 57, False, [], 278), (58, 58, False, [], 280), (65, 70, False, [], 278),
          (97, 102, False, [], 278)]),
      (278, [
          (48, 57, False, [], 279), (58, 58, False, [], 280), (65, 70, False, [], 279),
          (97, 102, False, [], 279)]),
      (279, [(58, 58, False, [], 280)]),
      (280, [
          (48, 57, False, [], 281), (58, 58, False, [], 339), (65, 70, False, [], 281),
          (97, 102, False, [], 281)]),
      (281, [
          (48, 57, False, [], 282), (58, 58, False, [], 285), (65, 70, False, [], 282),
          (97, 102, False, [], 282)])]"

definition http11_rows_39 :: "(int \<times> row list) list" where
  "http11_rows_39 = [
      (282, [
          (48, 57, False, [], 283), (58, 58, False, [], 285), (65, 70, False, [], 283),
          (97, 102, False, [], 283)]),
      (283, [
          (48, 57, False, [], 284), (58, 58, False, [], 285), (65, 70, False, [], 284),
          (97, 102, False, [], 284)]),
      (284, [(58, 58, False, [], 285)]),
      (285, [
          (48, 57, False, [], 286), (58, 58, False, [], 338), (65, 70, False, [], 286),
          (97, 102, False, [], 286)]),
      (286, [
          (48, 57, False, [], 287), (58, 58, False, [], 290), (65, 70, False, [], 287),
          (97, 102, False, [], 287)]),
      (287, [
          (48, 57, False, [], 288), (58, 58, False, [], 290), (65, 70, False, [], 288),
          (97, 102, False, [], 288)]),
      (288, [
          (48, 57, False, [], 289), (58, 58, False, [], 290), (65, 70, False, [], 289),
          (97, 102, False, [], 289)]),
      (289, [(58, 58, False, [], 290)]),
      (290, [
          (48, 57, False, [], 291), (58, 58, False, [], 326), (65, 70, False, [], 291),
          (97, 102, False, [], 291)]),
      (291, [
          (48, 57, False, [], 292), (58, 58, False, [], 295), (65, 70, False, [], 292),
          (97, 102, False, [], 292)]),
      (292, [
          (48, 57, False, [], 293), (58, 58, False, [], 295), (65, 70, False, [], 293),
          (97, 102, False, [], 293)])]"

definition http11_rows_40 :: "(int \<times> row list) list" where
  "http11_rows_40 = [
      (293, [
          (48, 57, False, [], 294), (58, 58, False, [], 295), (65, 70, False, [], 294),
          (97, 102, False, [], 294)]),
      (294, [(58, 58, False, [], 295)]),
      (295, [
          (48, 57, False, [], 296), (58, 58, False, [], 325), (65, 70, False, [], 296),
          (97, 102, False, [], 296)]),
      (296, [
          (48, 57, False, [], 297), (58, 58, False, [], 300), (65, 70, False, [], 297),
          (97, 102, False, [], 297)]),
      (297, [
          (48, 57, False, [], 298), (58, 58, False, [], 300), (65, 70, False, [], 298),
          (97, 102, False, [], 298)]),
      (298, [
          (48, 57, False, [], 299), (58, 58, False, [], 300), (65, 70, False, [], 299),
          (97, 102, False, [], 299)]),
      (299, [(58, 58, False, [], 300)]),
      (300, [
          (48, 57, False, [], 296), (58, 58, False, [], 301), (65, 70, False, [], 296),
          (97, 102, False, [], 296)]),
      (301, [
          (2, 3, False, [], 223), (48, 48, False, [], 302), (49, 49, False, [], 318), (50, 50, False, [], 321),
          (51, 57, False, [], 302), (65, 70, False, [], 324), (93, 93, False, [], 236),
          (97, 102, False, [], 324)]),
      (302, [
          (46, 46, False, [], 230), (48, 57, False, [], 303), (58, 58, False, [], 306),
          (65, 70, False, [], 303), (93, 93, False, [], 236), (97, 102, False, [], 303)])]"

definition http11_rows_41 :: "(int \<times> row list) list" where
  "http11_rows_41 = [
      (303, [
          (48, 57, False, [], 304), (58, 58, False, [], 306), (65, 70, False, [], 304),
          (93, 93, False, [], 236), (97, 102, False, [], 304)]),
      (304, [
          (48, 57, False, [], 305), (58, 58, False, [], 306), (65, 70, False, [], 305),
          (93, 93, False, [], 236), (97, 102, False, [], 305)]),
      (305, [(58, 58, False, [], 306), (93, 93, False, [], 236)]),
      (306, [
          (48, 48, False, [], 307), (49, 49, False, [], 311), (50, 50, False, [], 314),
          (51, 57, False, [], 307), (65, 70, False, [], 317), (97, 102, False, [], 317)]),
      (307, [
          (46, 46, False, [], 230), (48, 57, False, [], 308), (58, 58, False, [], 255),
          (65, 70, False, [], 308), (93, 93, False, [], 236), (97, 102, False, [], 308)]),
      (308, [
          (48, 57, False, [], 309), (58, 58, False, [], 255), (65, 70, False, [], 309),
          (93, 93, False, [], 236), (97, 102, False, [], 309)]),
      (309, [
          (48, 57, False, [], 310), (58, 58, False, [], 255), (65, 70, False, [], 310),
          (93, 93, False, [], 236), (97, 102, False, [], 310)]),
      (310, [(58, 58, False, [], 255), (93, 93, False, [], 236)]),
      (311, [
          (46, 46, False, [], 230), (48, 57, False, [], 312), (58, 58, False, [], 255),
          (65, 70, False, [], 308), (93, 93, False, [], 236), (97, 102, False, [], 308)])]"

definition http11_rows_42 :: "(int \<times> row list) list" where
  "http11_rows_42 = [
      (312, [
          (46, 46, False, [], 230), (48, 57, False, [], 313), (58, 58, False, [], 255),
          (65, 70, False, [], 309), (93, 93, False, [], 236), (97, 102, False, [], 309)]),
      (313, [
          (46, 46, False, [], 230), (48, 57, False, [], 310), (58, 58, False, [], 255),
          (65, 70, False, [], 310), (93, 93, False, [], 236), (97, 102, False, [], 310)]),
      (314, [
          (46, 46, False, [], 230), (48, 48, False, [], 315), (49, 52, False, [], 308),
          (53, 53, False, [], 316), (54, 57, False, [], 308), (58, 58, False, [], 255),
          (65, 70, False, [], 308), (93, 93, False, [], 236), (97, 102, False, [], 308)]),
      (315, [
          (48, 57, False, [], 313), (58, 58, False, [], 255), (65, 70, False, [], 309),
          (93, 93, False, [], 236), (97, 102, False, [], 309)]),
      (316, [
          (48, 48, False, [], 313), (49, 57, False, [], 309), (58, 58, False, [], 255),
          (65, 70, False, [], 309), (93, 93, False, [], 236), (97, 102, False, [], 309)]),
      (317, [
          (48, 57, False, [], 308), (58, 58, False, [], 255), (65, 70, False, [], 308),
          (93, 93, False, [], 236), (97, 102, False, [], 308)]),
      (318, [
          (46, 46, False, [], 230), (48, 57, False, [], 319), (58, 58, False, [], 306),
          (65, 70, False, [], 303), (93, 93, False, [], 236), (97, 102, False, [], 303)]),
      (319, [
          (46, 46, False, [], 230), (48, 57, False, [], 320), (58, 58, False, [], 306),
          (65, 70, False, [], 304), (93, 93, False, [], 236), (97, 102, False, [], 304)])]"

definition http11_rows_43 :: "(int \<times> row list) list" where
  "http11_rows_43 = [
      (320, [
          (46, 46, False, [], 230), (48, 57, False, [], 305), (58, 58, False, [], 306),
          (65, 70, False, [], 305), (93, 93, False, [], 236), (97, 102, False, [], 305)]),
      (321, [
          (46, 46, False, [], 230), (48, 48, False, [], 322), (49, 52, False, [], 303),
          (53, 53, False, [], 323), (54, 57, False, [], 303), (58, 58, False, [], 306),
          (65, 70, False, [], 303), (93, 93, False, [], 236), (97, 102, False, [], 303)]),
      (322, [
          (48, 57, False, [], 320), (58, 58, False, [], 306), (65, 70, False, [], 304),
          (93, 93, False, [], 236), (97, 102, False, [], 304)]),
      (323, [
          (48, 48, False, [], 320), (49, 57, False, [], 304), (58, 58, False, [], 306),
          (65, 70, False, [], 304), (93, 93, False, [], 236), (97, 102, False, [], 304)]),
      (324, [
          (48, 57, False, [], 303), (58, 58, False, [], 306), (65, 70, False, [], 303),
          (93, 93, False, [], 236), (97, 102, False, [], 303)]),
      (325, [
          (2, 3, False, [], 223), (48, 48, False, [], 302), (49, 49, False, [], 318), (50, 50, False, [], 321),
          (51, 57, False, [], 302), (65, 70, False, [], 324), (97, 102, False, [], 324)]),
      (326, [
          (2, 3, False, [], 223), (48, 48, False, [], 327), (49, 49, False, [], 331), (50, 50, False, [], 334),
          (51, 57, False, [], 327), (65, 70, False, [], 337), (97, 102, False, [], 337)]),
      (327, [
          (46, 46, False, [], 230), (48, 57, False, [], 328), (58, 58, False, [], 306),
          (65, 70, False, [], 328), (97, 102, False, [], 328)])]"

definition http11_rows_44 :: "(int \<times> row list) list" where
  "http11_rows_44 = [
      (328, [
          (48, 57, False, [], 329), (58, 58, False, [], 306), (65, 70, False, [], 329),
          (97, 102, False, [], 329)]),
      (329, [
          (48, 57, False, [], 330), (58, 58, False, [], 306), (65, 70, False, [], 330),
          (97, 102, False, [], 330)]),
      (330, [(58, 58, False, [], 306)]),
      (331, [
          (46, 46, False, [], 230), (48, 57, False, [], 332), (58, 58, False, [], 306),
          (65, 70, False, [], 328), (97, 102, False, [], 328)]),
      (332, [
          (46, 46, False, [], 230), (48, 57, False, [], 333), (58, 58, False, [], 306),
          (65, 70, False, [], 329), (97, 102, False, [], 329)]),
      (333, [
          (46, 46, False, [], 230), (48, 57, False, [], 330), (58, 58, False, [], 306),
          (65, 70, False, [], 330), (97, 102, False, [], 330)]),
      (334, [
          (46, 46, False, [], 230), (48, 48, False, [], 335), (49, 52, False, [], 328),
          (53, 53, False, [], 336), (54, 57, False, [], 328), (58, 58, False, [], 306),
          (65, 70, False, [], 328), (97, 102, False, [], 328)]),
      (335, [
          (48, 57, False, [], 333), (58, 58, False, [], 306), (65, 70, False, [], 329),
          (97, 102, False, [], 329)]),
      (336, [
          (48, 48, False, [], 333), (49, 57, False, [], 329), (58, 58, False, [], 306),
          (65, 70, False, [], 329), (97, 102, False, [], 329)])]"

definition http11_rows_45 :: "(int \<times> row list) list" where
  "http11_rows_45 = [
      (337, [
          (48, 57, False, [], 328), (58, 58, False, [], 306), (65, 70, False, [], 328),
          (97, 102, False, [], 328)]),
      (338, [
          (2, 3, False, [], 223), (48, 57, False, [], 224), (65, 70, False, [], 224), (97, 102, False, [], 224)]),
      (339, [(2, 3, False, [], 223)]),
      (340, [(3, 3, False, [], 223)]),
      (341, [(4, 4, False, [], 223)]),
      (342, [(58, 58, False, [], 343)]),
      (343, [
          (2, 5, False, [], 223), (48, 48, False, [], 302), (49, 49, False, [], 318), (50, 50, False, [], 321),
          (51, 57, False, [], 302), (65, 70, False, [], 324), (93, 93, False, [], 236),
          (97, 102, False, [], 324)]),
      (344, [(48, 57, False, [], 345), (65, 70, False, [], 345), (97, 102, False, [], 345)]),
      (345, [
          (46, 46, False, [], 346), (48, 57, False, [], 345), (65, 70, False, [], 345),
          (97, 102, False, [], 345)])]"

definition http11_rows_46 :: "(int \<times> row list) list" where
  "http11_rows_46 = [
      (346, [
          (33, 33, False, [], 347), (36, 36, False, [], 347), (38, 46, False, [], 347),
          (48, 59, False, [], 347), (61, 61, False, [], 347), (65, 90, False, [], 347),
          (95, 95, False, [], 347), (97, 122, False, [], 347), (126, 126, False, [], 347),
          (94, 94, True, [], 347), (123, 123, True, [], 347), (125, 125, True, [], 347)]),
      (347, [
          (33, 33, False, [], 347), (36, 36, False, [], 347), (38, 46, False, [], 347),
          (48, 59, False, [], 347), (61, 61, False, [], 347), (65, 90, False, [], 347),
          (93, 93, False, [], 236), (95, 95, False, [], 347), (97, 122, False, [], 347),
          (126, 126, False, [], 347), (94, 94, True, [], 347), (123, 123, True, [], 347),
          (125, 125, True, [], 347)])]"

definition http11_table :: "(int \<times> row list) list" where
  "http11_table = concat [
      http11_rows_1, http11_rows_2, http11_rows_3, http11_rows_4, http11_rows_5, http11_rows_6, http11_rows_7,
      http11_rows_8, http11_rows_9, http11_rows_10, http11_rows_11, http11_rows_12, http11_rows_13,
      http11_rows_14, http11_rows_15, http11_rows_16, http11_rows_17, http11_rows_18, http11_rows_19,
      http11_rows_20, http11_rows_21, http11_rows_22, http11_rows_23, http11_rows_24, http11_rows_25,
      http11_rows_26, http11_rows_27, http11_rows_28, http11_rows_29, http11_rows_30, http11_rows_31,
      http11_rows_32, http11_rows_33, http11_rows_34, http11_rows_35, http11_rows_36, http11_rows_37,
      http11_rows_38, http11_rows_39, http11_rows_40, http11_rows_41, http11_rows_42, http11_rows_43,
      http11_rows_44, http11_rows_45, http11_rows_46]"

lemmas http11_rows_defs = http11_rows_1_def http11_rows_2_def http11_rows_3_def http11_rows_4_def
  http11_rows_5_def http11_rows_6_def http11_rows_7_def http11_rows_8_def http11_rows_9_def http11_rows_10_def
  http11_rows_11_def http11_rows_12_def http11_rows_13_def http11_rows_14_def http11_rows_15_def
  http11_rows_16_def http11_rows_17_def http11_rows_18_def http11_rows_19_def http11_rows_20_def
  http11_rows_21_def http11_rows_22_def http11_rows_23_def http11_rows_24_def http11_rows_25_def
  http11_rows_26_def http11_rows_27_def http11_rows_28_def http11_rows_29_def http11_rows_30_def
  http11_rows_31_def http11_rows_32_def http11_rows_33_def http11_rows_34_def http11_rows_35_def
  http11_rows_36_def http11_rows_37_def http11_rows_38_def http11_rows_39_def http11_rows_40_def
  http11_rows_41_def http11_rows_42_def http11_rows_43_def http11_rows_44_def http11_rows_45_def
  http11_rows_46_def

end
