(* ===== verification/Http11_Parser.thy ===== *)
theory Http11_Parser
  imports Prelude Http11_Table
begin

text \<open>
  \<^verbatim>\<open>http/http11_parser.h\<close> and the functions around the machine in \<^verbatim>\<open>http/http11_paeser.rl.cc\<close>. The machine
  runs over the characters from \<^verbatim>\<open>p\<close> to \<^verbatim>\<open>pe\<close>; offsets into the buffer are natural numbers, and \<^verbatim>\<open>LEN\<close> is the
  unsigned 64 bit difference the C code computes. The callbacks do not touch the parser, so the
  calls it makes are collected in order, each with the offsets and lengths it passes. The field
  \<^verbatim>\<open>uri_relaxed\<close> is set nowhere; it is part of the state.
\<close>

record http_parser =
  hp_cs :: int
  hp_body_start :: nat
  hp_content_len :: int
  hp_nread :: nat
  hp_mark :: nat
  hp_field_start :: nat
  hp_field_len :: nat
  hp_query_start :: nat
  hp_xml_sent :: bool
  hp_json_sent :: bool
  hp_uri_relaxed :: bool

datatype http_event =
    OnField nat nat nat u64
  | OnMethod nat u64
  | OnUri nat u64
  | OnFragment nat u64
  | OnPath nat u64
  | OnQuery nat u64
  | OnVersion nat u64
  | OnHeaderDone nat u64

datatype parser_error = ParserAssert string

definition http_parser_start :: int where "http_parser_start = 1"
definition http_parser_first_final :: int where "http_parser_first_final = 348"
definition http_parser_error :: int where "http_parser_error = 0"

definition http_parser_init :: "http_parser \<Rightarrow> http_parser" where
  "http_parser_init parser =
     parser\<lparr>hp_cs := http_parser_start, hp_body_start := 0, hp_content_len := 0, hp_mark := 0, hp_nread := 0,
            hp_field_len := 0, hp_field_start := 0, hp_xml_sent := False, hp_json_sent := False\<rparr>"

definition http_parser_has_error :: "http_parser \<Rightarrow> bool" where
  "http_parser_has_error parser \<longleftrightarrow> hp_cs parser = http_parser_error"

definition http_parser_is_finished :: "http_parser \<Rightarrow> bool" where
  "http_parser_is_finished parser \<longleftrightarrow> hp_cs parser \<ge> http_parser_first_final"

definition http_parser_finish :: "http_parser \<Rightarrow> int" where
  "http_parser_finish parser =
     (if http_parser_has_error parser then - 1 else if http_parser_is_finished parser then 1 else 0)"

subsection \<open>Actions\<close>

text \<open>\<open>p\<close> is the offset of the current character and \<open>pe\<close> the length of the buffer.\<close>

definition LEN :: "nat \<Rightarrow> nat \<Rightarrow> u64" where
  "LEN at p = of_nat p - of_nat at"

fun do_action :: "nat \<Rightarrow> nat \<Rightarrow> http_parser \<times> http_event list \<Rightarrow> action \<Rightarrow> http_parser \<times> http_event list" where
  "do_action p pe (h, es) Mark = (h\<lparr>hp_mark := p\<rparr>, es)"
| "do_action p pe (h, es) StartField = (h\<lparr>hp_field_start := p\<rparr>, es)"
| "do_action p pe (h, es) WriteField = (h\<lparr>hp_field_len := unat (LEN (hp_field_start h) p)\<rparr>, es)"
| "do_action p pe (h, es) StartValue = (h\<lparr>hp_mark := p\<rparr>, es)"
| "do_action p pe (h, es) WriteValue = (h, es @ [OnField (hp_field_start h) (hp_field_len h) (hp_mark h) (LEN (hp_mark h) p)])"
| "do_action p pe (h, es) RequestMethod = (h, es @ [OnMethod (hp_mark h) (LEN (hp_mark h) p)])"
| "do_action p pe (h, es) RequestUri = (h, es @ [OnUri (hp_mark h) (LEN (hp_mark h) p)])"
| "do_action p pe (h, es) Fragment = (h, es @ [OnFragment (hp_mark h) (LEN (hp_mark h) p)])"
| "do_action p pe (h, es) StartQuery = (h\<lparr>hp_query_start := p\<rparr>, es)"
| "do_action p pe (h, es) QueryString = (h, es @ [OnQuery (hp_query_start h) (LEN (hp_query_start h) p)])"
| "do_action p pe (h, es) HttpVersion = (h, es @ [OnVersion (hp_mark h) (LEN (hp_mark h) p)])"
| "do_action p pe (h, es) RequestPath = (h, es @ [OnPath (hp_mark h) (LEN (hp_mark h) p)])"
| "do_action p pe (h, es) Done =
     (if hp_xml_sent h \<or> hp_json_sent h
      then (h\<lparr>hp_body_start := hp_mark h,
              hp_content_len := sint (ucast (LEN (hp_mark h) p + 1) :: u32)\<rparr>, es)
      else (h\<lparr>hp_body_start := p + 1\<rparr>, es @ [OnHeaderDone (p + 1) (of_nat (pe - p - 1))]))"
| "do_action p pe (h, es) Xml = (h\<lparr>hp_xml_sent := True\<rparr>, es)"
| "do_action p pe (h, es) Json = (h\<lparr>hp_json_sent := True\<rparr>, es)"

definition do_actions :: "nat \<Rightarrow> nat \<Rightarrow> action list \<Rightarrow> http_parser \<times> http_event list \<Rightarrow> http_parser \<times> http_event list" where
  "do_actions p pe acts st = foldl (do_action p pe) st acts"

subsection \<open>The machine\<close>

definition schar :: "char \<Rightarrow> int" where
  "schar c = (let n = of_char c in if n < 128 then n else n - 256)"

fun find_row :: "bool \<Rightarrow> int \<Rightarrow> row list \<Rightarrow> (action list \<times> int) option" where
  "find_row relaxed c [] = None"
| "find_row relaxed c ((lo, hi, rel, acts, tgt) # rows) =
     (if lo \<le> c \<and> c \<le> hi \<and> (rel \<longrightarrow> relaxed) then Some (acts, tgt) else find_row relaxed c rows)"

text \<open>
  The loop from state \<open>cs\<close> at offset \<open>p\<close>, with the characters that are left. It ends at the end of the
  buffer, at a character without a transition (\<^verbatim>\<open>st0\<close>), after the action \<open>Done\<close>, and at once in a state
  that is no \<^verbatim>\<open>case\<close> of the switch.
\<close>

fun exec_loop ::
  "nat \<Rightarrow> int \<Rightarrow> nat \<Rightarrow> string \<Rightarrow> http_parser \<times> http_event list \<Rightarrow> int \<times> nat \<times> http_parser \<times> http_event list" where
  "exec_loop pe cs p [] st = (cs, p, st)"
| "exec_loop pe cs p (c # rest) st =
     (case map_of http11_table cs of None \<Rightarrow> (cs, p, st)
      | Some rows \<Rightarrow>
          (case find_row (hp_uri_relaxed (fst st)) (schar c) rows of None \<Rightarrow> (http_parser_error, p, st)
           | Some (acts, tgt) \<Rightarrow>
               let st = do_actions p pe acts st in
               if Done \<in> set acts then (tgt, p + 1, st) else exec_loop pe tgt (p + 1) rest st))"

declare exec_loop.simps(2) [simp del]

definition hp_check :: "bool \<Rightarrow> string \<Rightarrow> parser_error + 'a \<Rightarrow> parser_error + 'a" where
  "hp_check b msg r = (if b then r else Inl (ParserAssert msg))"

definition http_parser_execute ::
  "http_parser \<Rightarrow> string \<Rightarrow> nat \<Rightarrow> parser_error + nat \<times> http_parser \<times> http_event list" where
  "http_parser_execute parser buffer off =
     (let len = length buffer in
      if len = 0 then Inr (0, parser, [])
      else let parser = parser\<lparr>hp_nread := 0, hp_mark := 0, hp_field_len := 0, hp_field_start := 0\<rparr> in
        hp_check (off \<le> len) ''offset past end of buffer''
        (hp_check (int len - int off = sint (of_nat len :: u32) - sint (of_nat off :: u32)) ''pointers aren't same distance''
          (let (cs, p, h, es) = exec_loop len (hp_cs parser) off (drop off buffer) (parser, []);
               h = (if http_parser_has_error h then h else h\<lparr>hp_cs := cs\<rparr>);
               h = h\<lparr>hp_nread := hp_nread h + (p - off)\<rparr>
           in hp_check (p \<le> len) ''Buffer overflow after parsing.''
              (hp_check (hp_nread h \<le> len) ''nread longer than length''
              (hp_check (hp_body_start h \<le> len) ''body starts after buffer end''
              (hp_check (hp_mark h < len) ''mark is after buffer end''
              (hp_check (hp_field_len h \<le> len) ''field has length longer than whole buffer''
              (hp_check (hp_field_start h < len) ''field starts after buffer end''
                (Inr (hp_nread h, h, es))))))))))"

end
