(* ===== verification/HttpClient_Table.thy ===== *)
theory HttpClient_Table
  imports Main
begin

text \<open>
  The transitions of \<^verbatim>\<open>http/httpclient_paeser.rl.cc\<close>, the machine of the response parser, in the order of the
  file: for each \<^verbatim>\<open>case\<close> label the ranges of the character \<^verbatim>\<open>*p\<close> (a signed \<^verbatim>\<open>char\<close>) that lead on, the actions of
  the \<^verbatim>\<open>tr\<close> label it jumps to, and the next state. A character in no range goes to \<^verbatim>\<open>st0\<close>. The ranges of a
  state are disjoint and in increasing order.
\<close>

datatype caction =
    CMark | CStartField | CWriteField | CStartValue | CWriteContentLen | CWriteConnectionClose | CWriteValue
  | CReasonPhrase | CStatusCode | CHttpVersion | CChunkSize | CTransChunked | CDone

type_synonym crow = "int \<times> int \<times> caction list \<times> int"

definition httpclient_rows_1 :: "(int \<times> crow list) list" where
  "httpclient_rows_1 = [
      (1, [(48, 57, [CMark], 2), (65, 70, [CMark], 2), (72, 72, [CMark], 8), (97, 102, [CMark], 2)]),
      (2, [
          (10, 10, [CChunkSize, CDone], 120), (13, 13, [CChunkSize], 3), (48, 57, [], 2),
          (59, 59, [CChunkSize], 4), (65, 70, [], 2), (97, 102, [], 2)]),
      (120, [])]"

definition httpclient_rows_2 :: "(int \<times> crow list) list" where
  "httpclient_rows_2 = [
      (3, [(10, 10, [CDone], 120)]),
      (4, [
          (33, 33, [CStartField], 5), (35, 39, [CStartField], 5), (42, 43, [CStartField], 5),
          (45, 46, [CStartField], 5), (48, 57, [CStartField], 5), (65, 90, [CStartField], 5),
          (94, 122, [CStartField], 5), (124, 124, [CStartField], 5), (126, 126, [CStartField], 5)]),
      (5, [
          (10, 10, [CWriteField, CStartValue, CWriteValue, CDone], 120),
          (13, 13, [CWriteField, CStartValue, CWriteValue], 3), (33, 33, [], 5), (35, 39, [], 5),
          (42, 43, [], 5), (45, 46, [], 5), (48, 57, [], 5),
          (59, 59, [CWriteField, CStartValue, CWriteValue], 4), (61, 61, [CWriteField, CStartValue], 6),
          (65, 90, [], 5), (94, 122, [], 5), (124, 124, [], 5), (126, 126, [], 5)])]"

definition httpclient_rows_3 :: "(int \<times> crow list) list" where
  "httpclient_rows_3 = [
      (6, [
          (33, 33, [CStartValue], 7), (35, 39, [CStartValue], 7), (42, 43, [CStartValue], 7),
          (45, 46, [CStartValue], 7), (48, 57, [CStartValue], 7), (65, 90, [CStartValue], 7),
          (94, 122, [CStartValue], 7), (124, 124, [CStartValue], 7), (126, 126, [CStartValue], 7)]),
      (7, [
          (10, 10, [CWriteValue, CDone], 120), (13, 13, [CWriteValue], 3), (33, 33, [], 7), (35, 39, [], 7),
          (42, 43, [], 7), (45, 46, [], 7), (48, 57, [], 7), (59, 59, [CWriteValue], 4), (65, 90, [], 7),
          (94, 122, [], 7), (124, 124, [], 7), (126, 126, [], 7)]),
      (8, [(84, 84, [], 9)]),
      (9, [(84, 84, [], 10)]),
      (10, [(80, 80, [], 11)]),
      (11, [(47, 47, [], 12)]),
      (12, [(48, 57, [], 13)]),
      (13, [(46, 46, [], 14), (48, 57, [], 13)]),
      (14, [(48, 57, [], 15)]),
      (15, [(32, 32, [CHttpVersion], 16), (48, 57, [], 15)])]"

definition httpclient_rows_4 :: "(int \<times> crow list) list" where
  "httpclient_rows_4 = [
      (16, [(48, 57, [CMark], 17)]),
      (17, [(32, 32, [CStatusCode], 18), (48, 57, [], 17)]),
      (18, [(-128, 9, [CMark], 19), (11, 127, [CMark], 19)]),
      (19, [
          (-128, 9, [], 19), (10, 10, [CReasonPhrase], 20), (11, 12, [], 19), (13, 13, [CReasonPhrase], 24),
          (14, 127, [], 19)]),
      (20, [
          (10, 10, [CDone], 120), (13, 13, [], 3), (33, 33, [CStartField], 21), (35, 39, [CStartField], 21),
          (42, 43, [CStartField], 21), (45, 46, [CStartField], 21), (48, 57, [CStartField], 21),
          (65, 66, [CStartField], 21), (67, 67, [CStartField], 25), (68, 83, [CStartField], 21),
          (84, 84, [CStartField], 44), (85, 90, [CStartField], 21), (94, 98, [CStartField], 21),
          (99, 99, [CStartField], 25), (100, 115, [CStartField], 21), (116, 116, [CStartField], 44),
          (117, 122, [CStartField], 21), (124, 124, [CStartField], 21), (126, 126, [CStartField], 21)])]"

definition httpclient_rows_5 :: "(int \<times> crow list) list" where
  "httpclient_rows_5 = [
      (21, [
          (33, 33, [], 21), (35, 39, [], 21), (42, 43, [], 21), (45, 46, [], 21), (48, 57, [], 21),
          (58, 58, [CWriteField], 22), (65, 90, [], 21), (94, 122, [], 21), (124, 124, [], 21),
          (126, 126, [], 21)]),
      (22, [
          (-128, 8, [CStartValue], 23), (9, 9, [CStartValue], 22), (10, 10, [CStartValue, CWriteValue], 20),
          (11, 12, [CStartValue], 22), (13, 13, [CStartValue, CWriteValue], 24), (14, 31, [CStartValue], 23),
          (32, 32, [CStartValue], 22), (33, 127, [CStartValue], 23)]),
      (23, [
          (-128, 9, [], 23), (10, 10, [CWriteValue], 20), (11, 12, [], 23), (13, 13, [CWriteValue], 24),
          (14, 127, [], 23)]),
      (24, [(10, 10, [], 20)])]"

definition httpclient_rows_6 :: "(int \<times> crow list) list" where
  "httpclient_rows_6 = [
      (25, [
          (33, 33, [], 21), (35, 39, [], 21), (42, 43, [], 21), (45, 46, [], 21), (48, 57, [], 21),
          (58, 58, [CWriteField], 22), (65, 78, [], 21), (79, 79, [], 26), (80, 90, [], 21), (94, 110, [], 21),
          (111, 111, [], 26), (112, 122, [], 21), (124, 124, [], 21), (126, 126, [], 21)]),
      (26, [
          (33, 33, [], 21), (35, 39, [], 21), (42, 43, [], 21), (45, 46, [], 21), (48, 57, [], 21),
          (58, 58, [CWriteField], 22), (65, 77, [], 21), (78, 78, [], 27), (79, 90, [], 21), (94, 109, [], 21),
          (110, 110, [], 27), (111, 122, [], 21), (124, 124, [], 21), (126, 126, [], 21)]),
      (27, [
          (33, 33, [], 21), (35, 39, [], 21), (42, 43, [], 21), (45, 46, [], 21), (48, 57, [], 21),
          (58, 58, [CWriteField], 22), (65, 77, [], 21), (78, 78, [], 28), (79, 83, [], 21), (84, 84, [], 101),
          (85, 90, [], 21), (94, 109, [], 21), (110, 110, [], 28), (111, 115, [], 21), (116, 116, [], 101),
          (117, 122, [], 21), (124, 124, [], 21), (126, 126, [], 21)]),
      (28, [
          (33, 33, [], 21), (35, 39, [], 21), (42, 43, [], 21), (45, 46, [], 21), (48, 57, [], 21),
          (58, 58, [CWriteField], 22), (65, 68, [], 21), (69, 69, [], 29), (70, 90, [], 21), (94, 100, [], 21),
          (101, 101, [], 29), (102, 122, [], 21), (124, 124, [], 21), (126, 126, [], 21)])]"

definition httpclient_rows_7 :: "(int \<times> crow list) list" where
  "httpclient_rows_7 = [
      (29, [
          (33, 33, [], 21), (35, 39, [], 21), (42, 43, [], 21), (45, 46, [], 21), (48, 57, [], 21),
          (58, 58, [CWriteField], 22), (65, 66, [], 21), (67, 67, [], 30), (68, 90, [], 21), (94, 98, [], 21),
          (99, 99, [], 30), (100, 122, [], 21), (124, 124, [], 21), (126, 126, [], 21)]),
      (30, [
          (33, 33, [], 21), (35, 39, [], 21), (42, 43, [], 21), (45, 46, [], 21), (48, 57, [], 21),
          (58, 58, [CWriteField], 22), (65, 83, [], 21), (84, 84, [], 31), (85, 90, [], 21), (94, 115, [], 21),
          (116, 116, [], 31), (117, 122, [], 21), (124, 124, [], 21), (126, 126, [], 21)]),
      (31, [
          (33, 33, [], 21), (35, 39, [], 21), (42, 43, [], 21), (45, 46, [], 21), (48, 57, [], 21),
          (58, 58, [CWriteField], 22), (65, 72, [], 21), (73, 73, [], 32), (74, 90, [], 21), (94, 104, [], 21),
          (105, 105, [], 32), (106, 122, [], 21), (124, 124, [], 21), (126, 126, [], 21)]),
      (32, [
          (33, 33, [], 21), (35, 39, [], 21), (42, 43, [], 21), (45, 46, [], 21), (48, 57, [], 21),
          (58, 58, [CWriteField], 22), (65, 78, [], 21), (79, 79, [], 33), (80, 90, [], 21), (94, 110, [], 21),
          (111, 111, [], 33), (112, 122, [], 21), (124, 124, [], 21), (126, 126, [], 21)]),
      (33, [
          (33, 33, [], 21), (35, 39, [], 21), (42, 43, [], 21), (45, 46, [], 21), (48, 57, [], 21),
          (58, 58, [CWriteField], 22), (65, 77, [], 21), (78, 78, [], 34), (79, 90, [], 21), (94, 109, [], 21),
          (110, 110, [], 34), (111, 122, [], 21), (124, 124, [], 21), (126, 126, [], 21)])]"

definition httpclient_rows_8 :: "(int \<times> crow list) list" where
  "httpclient_rows_8 = [
      (34, [
          (33, 33, [], 21), (35, 39, [], 21), (42, 43, [], 21), (45, 46, [], 21), (48, 57, [], 21),
          (58, 58, [CWriteField], 35), (65, 90, [], 21), (94, 122, [], 21), (124, 124, [], 21),
          (126, 126, [], 21)]),
      (35, [
          (-128, 8, [CStartValue], 23), (9, 9, [CStartValue], 35), (10, 10, [CStartValue, CWriteValue], 36),
          (11, 12, [CStartValue], 35), (13, 13, [CStartValue, CWriteValue], 95), (14, 31, [CStartValue], 23),
          (32, 32, [CStartValue], 35), (33, 66, [CStartValue], 23), (67, 67, [CStartValue], 96),
          (68, 98, [CStartValue], 23), (99, 99, [CStartValue], 96), (100, 127, [CStartValue], 23)]),
      (36, [
          (9, 9, [], 37), (10, 10, [CDone], 122), (11, 12, [], 37), (13, 13, [], 89), (32, 32, [], 37),
          (33, 33, [CStartField], 21), (35, 39, [CStartField], 21), (42, 43, [CStartField], 21),
          (45, 46, [CStartField], 21), (48, 57, [CStartField], 21), (65, 66, [CStartField], 21),
          (67, 67, [CStartField], 90), (68, 83, [CStartField], 21), (84, 84, [CStartField], 44),
          (85, 90, [CStartField], 21), (94, 98, [CStartField], 21), (99, 99, [CStartField], 90),
          (100, 115, [CStartField], 21), (116, 116, [CStartField], 44), (117, 122, [CStartField], 21),
          (124, 124, [CStartField], 21), (126, 126, [CStartField], 21)]),
      (37, [(9, 13, [], 37), (32, 32, [], 37), (67, 67, [], 38), (99, 99, [], 38)]),
      (38, [(76, 76, [], 39), (108, 108, [], 39)]),
      (39, [(79, 79, [], 40), (111, 111, [], 40)]),
      (40, [(83, 83, [], 41), (115, 115, [], 41)]),
      (41, [(69, 69, [], 42), (101, 101, [], 42)])]"

definition httpclient_rows_9 :: "(int \<times> crow list) list" where
  "httpclient_rows_9 = [
      (42, [(10, 10, [], 43), (13, 13, [], 88)]),
      (43, [
          (10, 10, [CWriteConnectionClose, CDone], 120), (13, 13, [CWriteConnectionClose], 3),
          (33, 33, [CWriteConnectionClose, CStartField], 21),
          (35, 39, [CWriteConnectionClose, CStartField], 21),
          (42, 43, [CWriteConnectionClose, CStartField], 21),
          (45, 46, [CWriteConnectionClose, CStartField], 21),
          (48, 57, [CWriteConnectionClose, CStartField], 21),
          (65, 66, [CWriteConnectionClose, CStartField], 21),
          (67, 67, [CWriteConnectionClose, CStartField], 25),
          (68, 83, [CWriteConnectionClose, CStartField], 21),
          (84, 84, [CWriteConnectionClose, CStartField], 44),
          (85, 90, [CWriteConnectionClose, CStartField], 21),
          (94, 98, [CWriteConnectionClose, CStartField], 21),
          (99, 99, [CWriteConnectionClose, CStartField], 25),
          (100, 115, [CWriteConnectionClose, CStartField], 21),
          (116, 116, [CWriteConnectionClose, CStartField], 44),
          (117, 122, [CWriteConnectionClose, CStartField], 21),
          (124, 124, [CWriteConnectionClose, CStartField], 21),
          (126, 126, [CWriteConnectionClose, CStartField], 21)]),
      (44, [
          (33, 33, [], 21), (35, 39, [], 21), (42, 43, [], 21), (45, 46, [], 21), (48, 57, [], 21),
          (58, 58, [CWriteField], 22), (65, 81, [], 21), (82, 82, [], 45), (83, 90, [], 21), (94, 113, [], 21),
          (114, 114, [], 45), (115, 122, [], 21), (124, 124, [], 21), (126, 126, [], 21)]),
      (45, [
          (33, 33, [], 21), (35, 39, [], 21), (42, 43, [], 21), (45, 46, [], 21), (48, 57, [], 21),
          (58, 58, [CWriteField], 22), (65, 65, [], 46), (66, 90, [], 21), (94, 96, [], 21), (97, 97, [], 46),
          (98, 122, [], 21), (124, 124, [], 21), (126, 126, [], 21)])]"

definition httpclient_rows_10 :: "(int \<times> crow list) list" where
  "httpclient_rows_10 = [
      (46, [
          (33, 33, [], 21), (35, 39, [], 21), (42, 43, [], 21), (45, 46, [], 21), (48, 57, [], 21),
          (58, 58, [CWriteField], 22), (65, 77, [], 21), (78, 78, [], 47), (79, 90, [], 21), (94, 109, [], 21),
          (110, 110, [], 47), (111, 122, [], 21), (124, 124, [], 21), (126, 126, [], 21)]),
      (47, [
          (33, 33, [], 21), (35, 39, [], 21), (42, 43, [], 21), (45, 46, [], 21), (48, 57, [], 21),
          (58, 58, [CWriteField], 22), (65, 82, [], 21), (83, 83, [], 48), (84, 90, [], 21), (94, 114, [], 21),
          (115, 115, [], 48), (116, 122, [], 21), (124, 124, [], 21), (126, 126, [], 21)]),
      (48, [
          (33, 33, [], 21), (35, 39, [], 21), (42, 43, [], 21), (45, 46, [], 21), (48, 57, [], 21),
          (58, 58, [CWriteField], 22), (65, 69, [], 21), (70, 70, [], 49), (71, 90, [], 21), (94, 101, [], 21),
          (102, 102, [], 49), (103, 122, [], 21), (124, 124, [], 21), (126, 126, [], 21)]),
      (49, [
          (33, 33, [], 21), (35, 39, [], 21), (42, 43, [], 21), (45, 46, [], 21), (48, 57, [], 21),
          (58, 58, [CWriteField], 22), (65, 68, [], 21), (69, 69, [], 50), (70, 90, [], 21), (94, 100, [], 21),
          (101, 101, [], 50), (102, 122, [], 21), (124, 124, [], 21), (126, 126, [], 21)]),
      (50, [
          (33, 33, [], 21), (35, 39, [], 21), (42, 43, [], 21), (45, 46, [], 21), (48, 57, [], 21),
          (58, 58, [CWriteField], 22), (65, 81, [], 21), (82, 82, [], 51), (83, 90, [], 21), (94, 113, [], 21),
          (114, 114, [], 51), (115, 122, [], 21), (124, 124, [], 21), (126, 126, [], 21)])]"

definition httpclient_rows_11 :: "(int \<times> crow list) list" where
  "httpclient_rows_11 = [
      (51, [
          (33, 33, [], 21), (35, 39, [], 21), (42, 43, [], 21), (45, 45, [], 52), (46, 46, [], 21),
          (48, 57, [], 21), (58, 58, [CWriteField], 22), (65, 90, [], 21), (94, 122, [], 21),
          (124, 124, [], 21), (126, 126, [], 21)]),
      (52, [
          (33, 33, [], 21), (35, 39, [], 21), (42, 43, [], 21), (45, 46, [], 21), (48, 57, [], 21),
          (58, 58, [CWriteField], 22), (65, 68, [], 21), (69, 69, [], 53), (70, 90, [], 21), (94, 100, [], 21),
          (101, 101, [], 53), (102, 122, [], 21), (124, 124, [], 21), (126, 126, [], 21)]),
      (53, [
          (33, 33, [], 21), (35, 39, [], 21), (42, 43, [], 21), (45, 46, [], 21), (48, 57, [], 21),
          (58, 58, [CWriteField], 22), (65, 77, [], 21), (78, 78, [], 54), (79, 90, [], 21), (94, 109, [], 21),
          (110, 110, [], 54), (111, 122, [], 21), (124, 124, [], 21), (126, 126, [], 21)]),
      (54, [
          (33, 33, [], 21), (35, 39, [], 21), (42, 43, [], 21), (45, 46, [], 21), (48, 57, [], 21),
          (58, 58, [CWriteField], 22), (65, 66, [], 21), (67, 67, [], 55), (68, 90, [], 21), (94, 98, [], 21),
          (99, 99, [], 55), (100, 122, [], 21), (124, 124, [], 21), (126, 126, [], 21)]),
      (55, [
          (33, 33, [], 21), (35, 39, [], 21), (42, 43, [], 21), (45, 46, [], 21), (48, 57, [], 21),
          (58, 58, [CWriteField], 22), (65, 78, [], 21), (79, 79, [], 56), (80, 90, [], 21), (94, 110, [], 21),
          (111, 111, [], 56), (112, 122, [], 21), (124, 124, [], 21), (126, 126, [], 21)])]"

definition httpclient_rows_12 :: "(int \<times> crow list) list" where
  "httpclient_rows_12 = [
      (56, [
          (33, 33, [], 21), (35, 39, [], 21), (42, 43, [], 21), (45, 46, [], 21), (48, 57, [], 21),
          (58, 58, [CWriteField], 22), (65, 67, [], 21), (68, 68, [], 57), (69, 90, [], 21), (94, 99, [], 21),
          (100, 100, [], 57), (101, 122, [], 21), (124, 124, [], 21), (126, 126, [], 21)]),
      (57, [
          (33, 33, [], 21), (35, 39, [], 21), (42, 43, [], 21), (45, 46, [], 21), (48, 57, [], 21),
          (58, 58, [CWriteField], 22), (65, 72, [], 21), (73, 73, [], 58), (74, 90, [], 21), (94, 104, [], 21),
          (105, 105, [], 58), (106, 122, [], 21), (124, 124, [], 21), (126, 126, [], 21)]),
      (58, [
          (33, 33, [], 21), (35, 39, [], 21), (42, 43, [], 21), (45, 46, [], 21), (48, 57, [], 21),
          (58, 58, [CWriteField], 22), (65, 77, [], 21), (78, 78, [], 59), (79, 90, [], 21), (94, 109, [], 21),
          (110, 110, [], 59), (111, 122, [], 21), (124, 124, [], 21), (126, 126, [], 21)]),
      (59, [
          (33, 33, [], 21), (35, 39, [], 21), (42, 43, [], 21), (45, 46, [], 21), (48, 57, [], 21),
          (58, 58, [CWriteField], 22), (65, 70, [], 21), (71, 71, [], 60), (72, 90, [], 21), (94, 102, [], 21),
          (103, 103, [], 60), (104, 122, [], 21), (124, 124, [], 21), (126, 126, [], 21)]),
      (60, [
          (33, 33, [], 21), (35, 39, [], 21), (42, 43, [], 21), (45, 46, [], 21), (48, 57, [], 21),
          (58, 58, [CWriteField], 61), (65, 90, [], 21), (94, 122, [], 21), (124, 124, [], 21),
          (126, 126, [], 21)])]"

definition httpclient_rows_13 :: "(int \<times> crow list) list" where
  "httpclient_rows_13 = [
      (61, [
          (-128, 8, [CStartValue], 23), (9, 9, [CStartValue], 61), (10, 10, [CStartValue, CWriteValue], 62),
          (11, 12, [CStartValue], 61), (13, 13, [CStartValue, CWriteValue], 80), (14, 31, [CStartValue], 23),
          (32, 32, [CStartValue], 61), (33, 66, [CStartValue], 23), (67, 67, [CStartValue], 81),
          (68, 98, [CStartValue], 23), (99, 99, [CStartValue], 81), (100, 127, [CStartValue], 23)]),
      (62, [
          (9, 9, [], 63), (10, 10, [CDone], 121), (11, 12, [], 63), (13, 13, [], 72), (32, 32, [], 63),
          (33, 33, [CStartField], 21), (35, 39, [CStartField], 21), (42, 43, [CStartField], 21),
          (45, 46, [CStartField], 21), (48, 57, [CStartField], 21), (65, 66, [CStartField], 21),
          (67, 67, [CStartValue, CStartField], 73), (68, 83, [CStartField], 21), (84, 84, [CStartField], 44),
          (85, 90, [CStartField], 21), (94, 98, [CStartField], 21), (99, 99, [CStartValue, CStartField], 73),
          (100, 115, [CStartField], 21), (116, 116, [CStartField], 44), (117, 122, [CStartField], 21),
          (124, 124, [CStartField], 21), (126, 126, [CStartField], 21)]),
      (63, [(9, 13, [], 63), (32, 32, [], 63), (67, 67, [CStartValue], 64), (99, 99, [CStartValue], 64)]),
      (64, [(72, 72, [], 65), (104, 104, [], 65)]),
      (65, [(85, 85, [], 66), (117, 117, [], 66)]),
      (66, [(78, 78, [], 67), (110, 110, [], 67)]),
      (67, [(75, 75, [], 68), (107, 107, [], 68)]),
      (68, [(69, 69, [], 69), (101, 101, [], 69)]),
      (69, [(68, 68, [], 70), (100, 100, [], 70)])]"

definition httpclient_rows_14 :: "(int \<times> crow list) list" where
  "httpclient_rows_14 = [
      (70, [(10, 10, [CWriteValue, CTransChunked], 20), (13, 13, [CWriteValue], 71)]),
      (71, [(10, 10, [CTransChunked], 20)]),
      (121, [(9, 13, [], 63), (32, 32, [], 63), (67, 67, [CStartValue], 64), (99, 99, [CStartValue], 64)]),
      (72, [
          (9, 9, [], 63), (10, 10, [CDone], 121), (11, 13, [], 63), (32, 32, [], 63),
          (67, 67, [CStartValue], 64), (99, 99, [CStartValue], 64)]),
      (73, [
          (33, 33, [], 21), (35, 39, [], 21), (42, 43, [], 21), (45, 46, [], 21), (48, 57, [], 21),
          (58, 58, [CWriteField], 22), (65, 71, [], 21), (72, 72, [], 74), (73, 78, [], 21), (79, 79, [], 26),
          (80, 90, [], 21), (94, 103, [], 21), (104, 104, [], 74), (105, 110, [], 21), (111, 111, [], 26),
          (112, 122, [], 21), (124, 124, [], 21), (126, 126, [], 21)]),
      (74, [
          (33, 33, [], 21), (35, 39, [], 21), (42, 43, [], 21), (45, 46, [], 21), (48, 57, [], 21),
          (58, 58, [CWriteField], 22), (65, 84, [], 21), (85, 85, [], 75), (86, 90, [], 21), (94, 116, [], 21),
          (117, 117, [], 75), (118, 122, [], 21), (124, 124, [], 21), (126, 126, [], 21)])]"

definition httpclient_rows_15 :: "(int \<times> crow list) list" where
  "httpclient_rows_15 = [
      (75, [
          (33, 33, [], 21), (35, 39, [], 21), (42, 43, [], 21), (45, 46, [], 21), (48, 57, [], 21),
          (58, 58, [CWriteField], 22), (65, 77, [], 21), (78, 78, [], 76), (79, 90, [], 21), (94, 109, [], 21),
          (110, 110, [], 76), (111, 122, [], 21), (124, 124, [], 21), (126, 126, [], 21)]),
      (76, [
          (33, 33, [], 21), (35, 39, [], 21), (42, 43, [], 21), (45, 46, [], 21), (48, 57, [], 21),
          (58, 58, [CWriteField], 22), (65, 74, [], 21), (75, 75, [], 77), (76, 90, [], 21), (94, 106, [], 21),
          (107, 107, [], 77), (108, 122, [], 21), (124, 124, [], 21), (126, 126, [], 21)]),
      (77, [
          (33, 33, [], 21), (35, 39, [], 21), (42, 43, [], 21), (45, 46, [], 21), (48, 57, [], 21),
          (58, 58, [CWriteField], 22), (65, 68, [], 21), (69, 69, [], 78), (70, 90, [], 21), (94, 100, [], 21),
          (101, 101, [], 78), (102, 122, [], 21), (124, 124, [], 21), (126, 126, [], 21)]),
      (78, [
          (33, 33, [], 21), (35, 39, [], 21), (42, 43, [], 21), (45, 46, [], 21), (48, 57, [], 21),
          (58, 58, [CWriteField], 22), (65, 67, [], 21), (68, 68, [], 79), (69, 90, [], 21), (94, 99, [], 21),
          (100, 100, [], 79), (101, 122, [], 21), (124, 124, [], 21), (126, 126, [], 21)]),
      (79, [
          (10, 10, [CWriteValue, CTransChunked], 20), (13, 13, [CWriteValue], 71), (33, 33, [], 21),
          (35, 39, [], 21), (42, 43, [], 21), (45, 46, [], 21), (48, 57, [], 21), (58, 58, [CWriteField], 22),
          (65, 90, [], 21), (94, 122, [], 21), (124, 124, [], 21), (126, 126, [], 21)])]"

definition httpclient_rows_16 :: "(int \<times> crow list) list" where
  "httpclient_rows_16 = [
      (80, [
          (9, 9, [], 63), (10, 10, [], 62), (11, 13, [], 63), (32, 32, [], 63), (67, 67, [CStartValue], 64),
          (99, 99, [CStartValue], 64)]),
      (81, [
          (-128, 9, [], 23), (10, 10, [CWriteValue], 20), (11, 12, [], 23), (13, 13, [CWriteValue], 24),
          (14, 71, [], 23), (72, 72, [], 82), (73, 103, [], 23), (104, 104, [], 82), (105, 127, [], 23)]),
      (82, [
          (-128, 9, [], 23), (10, 10, [CWriteValue], 20), (11, 12, [], 23), (13, 13, [CWriteValue], 24),
          (14, 84, [], 23), (85, 85, [], 83), (86, 116, [], 23), (117, 117, [], 83), (118, 127, [], 23)]),
      (83, [
          (-128, 9, [], 23), (10, 10, [CWriteValue], 20), (11, 12, [], 23), (13, 13, [CWriteValue], 24),
          (14, 77, [], 23), (78, 78, [], 84), (79, 109, [], 23), (110, 110, [], 84), (111, 127, [], 23)]),
      (84, [
          (-128, 9, [], 23), (10, 10, [CWriteValue], 20), (11, 12, [], 23), (13, 13, [CWriteValue], 24),
          (14, 74, [], 23), (75, 75, [], 85), (76, 106, [], 23), (107, 107, [], 85), (108, 127, [], 23)]),
      (85, [
          (-128, 9, [], 23), (10, 10, [CWriteValue], 20), (11, 12, [], 23), (13, 13, [CWriteValue], 24),
          (14, 68, [], 23), (69, 69, [], 86), (70, 100, [], 23), (101, 101, [], 86), (102, 127, [], 23)]),
      (86, [
          (-128, 9, [], 23), (10, 10, [CWriteValue], 20), (11, 12, [], 23), (13, 13, [CWriteValue], 24),
          (14, 67, [], 23), (68, 68, [], 87), (69, 99, [], 23), (100, 100, [], 87), (101, 127, [], 23)]),
      (87, [
          (-128, 9, [], 23), (10, 10, [CWriteValue, CTransChunked], 20), (11, 12, [], 23),
          (13, 13, [CWriteValue], 71), (14, 127, [], 23)]),
      (88, [(10, 10, [], 43)]),
      (122, [(9, 13, [], 37), (32, 32, [], 37), (67, 67, [], 38), (99, 99, [], 38)])]"

definition httpclient_rows_17 :: "(int \<times> crow list) list" where
  "httpclient_rows_17 = [
      (89, [
          (9, 9, [], 37), (10, 10, [CDone], 122), (11, 13, [], 37), (32, 32, [], 37), (67, 67, [], 38),
          (99, 99, [], 38)]),
      (90, [
          (33, 33, [], 21), (35, 39, [], 21), (42, 43, [], 21), (45, 46, [], 21), (48, 57, [], 21),
          (58, 58, [CWriteField], 22), (65, 75, [], 21), (76, 76, [], 91), (77, 78, [], 21), (79, 79, [], 26),
          (80, 90, [], 21), (94, 107, [], 21), (108, 108, [], 91), (109, 110, [], 21), (111, 111, [], 26),
          (112, 122, [], 21), (124, 124, [], 21), (126, 126, [], 21)]),
      (91, [
          (33, 33, [], 21), (35, 39, [], 21), (42, 43, [], 21), (45, 46, [], 21), (48, 57, [], 21),
          (58, 58, [CWriteField], 22), (65, 78, [], 21), (79, 79, [], 92), (80, 90, [], 21), (94, 110, [], 21),
          (111, 111, [], 92), (112, 122, [], 21), (124, 124, [], 21), (126, 126, [], 21)]),
      (92, [
          (33, 33, [], 21), (35, 39, [], 21), (42, 43, [], 21), (45, 46, [], 21), (48, 57, [], 21),
          (58, 58, [CWriteField], 22), (65, 82, [], 21), (83, 83, [], 93), (84, 90, [], 21), (94, 114, [], 21),
          (115, 115, [], 93), (116, 122, [], 21), (124, 124, [], 21), (126, 126, [], 21)]),
      (93, [
          (33, 33, [], 21), (35, 39, [], 21), (42, 43, [], 21), (45, 46, [], 21), (48, 57, [], 21),
          (58, 58, [CWriteField], 22), (65, 68, [], 21), (69, 69, [], 94), (70, 90, [], 21), (94, 100, [], 21),
          (101, 101, [], 94), (102, 122, [], 21), (124, 124, [], 21), (126, 126, [], 21)])]"

definition httpclient_rows_18 :: "(int \<times> crow list) list" where
  "httpclient_rows_18 = [
      (94, [
          (10, 10, [], 43), (13, 13, [], 88), (33, 33, [], 21), (35, 39, [], 21), (42, 43, [], 21),
          (45, 46, [], 21), (48, 57, [], 21), (58, 58, [CWriteField], 22), (65, 90, [], 21), (94, 122, [], 21),
          (124, 124, [], 21), (126, 126, [], 21)]),
      (95, [
          (9, 9, [], 37), (10, 10, [], 36), (11, 13, [], 37), (32, 32, [], 37), (67, 67, [], 38),
          (99, 99, [], 38)]),
      (96, [
          (-128, 9, [], 23), (10, 10, [CWriteValue], 20), (11, 12, [], 23), (13, 13, [CWriteValue], 24),
          (14, 75, [], 23), (76, 76, [], 97), (77, 107, [], 23), (108, 108, [], 97), (109, 127, [], 23)]),
      (97, [
          (-128, 9, [], 23), (10, 10, [CWriteValue], 20), (11, 12, [], 23), (13, 13, [CWriteValue], 24),
          (14, 78, [], 23), (79, 79, [], 98), (80, 110, [], 23), (111, 111, [], 98), (112, 127, [], 23)]),
      (98, [
          (-128, 9, [], 23), (10, 10, [CWriteValue], 20), (11, 12, [], 23), (13, 13, [CWriteValue], 24),
          (14, 82, [], 23), (83, 83, [], 99), (84, 114, [], 23), (115, 115, [], 99), (116, 127, [], 23)]),
      (99, [
          (-128, 9, [], 23), (10, 10, [CWriteValue], 20), (11, 12, [], 23), (13, 13, [CWriteValue], 24),
          (14, 68, [], 23), (69, 69, [], 100), (70, 100, [], 23), (101, 101, [], 100), (102, 127, [], 23)]),
      (100, [
          (-128, 9, [], 23), (10, 10, [CWriteValue], 43), (11, 12, [], 23), (13, 13, [CWriteValue], 88),
          (14, 127, [], 23)]),
      (101, [
          (33, 33, [], 21), (35, 39, [], 21), (42, 43, [], 21), (45, 46, [], 21), (48, 57, [], 21),
          (58, 58, [CWriteField], 22), (65, 68, [], 21), (69, 69, [], 102), (70, 90, [], 21), (94, 100, [], 21),
          (101, 101, [], 102), (102, 122, [], 21), (124, 124, [], 21), (126, 126, [], 21)])]"

definition httpclient_rows_19 :: "(int \<times> crow list) list" where
  "httpclient_rows_19 = [
      (102, [
          (33, 33, [], 21), (35, 39, [], 21), (42, 43, [], 21), (45, 46, [], 21), (48, 57, [], 21),
          (58, 58, [CWriteField], 22), (65, 77, [], 21), (78, 78, [], 103), (79, 90, [], 21), (94, 109, [], 21),
          (110, 110, [], 103), (111, 122, [], 21), (124, 124, [], 21), (126, 126, [], 21)]),
      (103, [
          (33, 33, [], 21), (35, 39, [], 21), (42, 43, [], 21), (45, 46, [], 21), (48, 57, [], 21),
          (58, 58, [CWriteField], 22), (65, 83, [], 21), (84, 84, [], 104), (85, 90, [], 21), (94, 115, [], 21),
          (116, 116, [], 104), (117, 122, [], 21), (124, 124, [], 21), (126, 126, [], 21)]),
      (104, [
          (33, 33, [], 21), (35, 39, [], 21), (42, 43, [], 21), (45, 45, [], 105), (46, 46, [], 21),
          (48, 57, [], 21), (58, 58, [CWriteField], 22), (65, 90, [], 21), (94, 122, [], 21),
          (124, 124, [], 21), (126, 126, [], 21)]),
      (105, [
          (33, 33, [], 21), (35, 39, [], 21), (42, 43, [], 21), (45, 46, [], 21), (48, 57, [], 21),
          (58, 58, [CWriteField], 22), (65, 75, [], 21), (76, 76, [], 106), (77, 90, [], 21), (94, 107, [], 21),
          (108, 108, [], 106), (109, 122, [], 21), (124, 124, [], 21), (126, 126, [], 21)]),
      (106, [
          (33, 33, [], 21), (35, 39, [], 21), (42, 43, [], 21), (45, 46, [], 21), (48, 57, [], 21),
          (58, 58, [CWriteField], 22), (65, 68, [], 21), (69, 69, [], 107), (70, 90, [], 21), (94, 100, [], 21),
          (101, 101, [], 107), (102, 122, [], 21), (124, 124, [], 21), (126, 126, [], 21)])]"

definition httpclient_rows_20 :: "(int \<times> crow list) list" where
  "httpclient_rows_20 = [
      (107, [
          (33, 33, [], 21), (35, 39, [], 21), (42, 43, [], 21), (45, 46, [], 21), (48, 57, [], 21),
          (58, 58, [CWriteField], 22), (65, 77, [], 21), (78, 78, [], 108), (79, 90, [], 21), (94, 109, [], 21),
          (110, 110, [], 108), (111, 122, [], 21), (124, 124, [], 21), (126, 126, [], 21)]),
      (108, [
          (33, 33, [], 21), (35, 39, [], 21), (42, 43, [], 21), (45, 46, [], 21), (48, 57, [], 21),
          (58, 58, [CWriteField], 22), (65, 70, [], 21), (71, 71, [], 109), (72, 90, [], 21), (94, 102, [], 21),
          (103, 103, [], 109), (104, 122, [], 21), (124, 124, [], 21), (126, 126, [], 21)]),
      (109, [
          (33, 33, [], 21), (35, 39, [], 21), (42, 43, [], 21), (45, 46, [], 21), (48, 57, [], 21),
          (58, 58, [CWriteField], 22), (65, 83, [], 21), (84, 84, [], 110), (85, 90, [], 21), (94, 115, [], 21),
          (116, 116, [], 110), (117, 122, [], 21), (124, 124, [], 21), (126, 126, [], 21)]),
      (110, [
          (33, 33, [], 21), (35, 39, [], 21), (42, 43, [], 21), (45, 46, [], 21), (48, 57, [], 21),
          (58, 58, [CWriteField], 22), (65, 71, [], 21), (72, 72, [], 111), (73, 90, [], 21), (94, 103, [], 21),
          (104, 104, [], 111), (105, 122, [], 21), (124, 124, [], 21), (126, 126, [], 21)]),
      (111, [
          (33, 33, [], 21), (35, 39, [], 21), (42, 43, [], 21), (45, 46, [], 21), (48, 57, [], 21),
          (58, 58, [CWriteField], 112), (65, 90, [], 21), (94, 122, [], 21), (124, 124, [], 21),
          (126, 126, [], 21)])]"

definition httpclient_rows_21 :: "(int \<times> crow list) list" where
  "httpclient_rows_21 = [
      (112, [
          (-128, 8, [CStartValue], 23), (9, 9, [CStartValue], 112), (10, 10, [CStartValue, CWriteValue], 113),
          (11, 12, [CStartValue], 112), (13, 13, [CStartValue, CWriteValue], 118), (14, 31, [CStartValue], 23),
          (32, 32, [CStartValue], 112), (33, 47, [CStartValue], 23), (48, 57, [CStartValue], 119),
          (58, 127, [CStartValue], 23)]),
      (113, [
          (9, 9, [], 114), (10, 10, [CDone], 123), (11, 12, [], 114), (13, 13, [], 116), (32, 32, [], 114),
          (33, 33, [CStartField], 21), (35, 39, [CStartField], 21), (42, 43, [CStartField], 21),
          (45, 46, [CStartField], 21), (48, 57, [CStartValue, CStartField], 117), (65, 66, [CStartField], 21),
          (67, 67, [CStartField], 25), (68, 83, [CStartField], 21), (84, 84, [CStartField], 44),
          (85, 90, [CStartField], 21), (94, 98, [CStartField], 21), (99, 99, [CStartField], 25),
          (100, 115, [CStartField], 21), (116, 116, [CStartField], 44), (117, 122, [CStartField], 21),
          (124, 124, [CStartField], 21), (126, 126, [CStartField], 21)]),
      (114, [(9, 13, [], 114), (32, 32, [], 114), (48, 57, [CStartValue], 115)]),
      (115, [
          (10, 10, [CWriteContentLen, CWriteValue], 20), (13, 13, [CWriteContentLen, CWriteValue], 24),
          (48, 57, [], 115)]),
      (123, [(9, 13, [], 114), (32, 32, [], 114), (48, 57, [CStartValue], 115)]),
      (116, [
          (9, 9, [], 114), (10, 10, [CDone], 123), (11, 13, [], 114), (32, 32, [], 114),
          (48, 57, [CStartValue], 115)])]"

definition httpclient_rows_22 :: "(int \<times> crow list) list" where
  "httpclient_rows_22 = [
      (117, [
          (10, 10, [CWriteContentLen, CWriteValue], 20), (13, 13, [CWriteContentLen, CWriteValue], 24),
          (33, 33, [], 21), (35, 39, [], 21), (42, 43, [], 21), (45, 46, [], 21), (48, 57, [], 117),
          (58, 58, [CWriteField], 22), (65, 90, [], 21), (94, 122, [], 21), (124, 124, [], 21),
          (126, 126, [], 21)]),
      (118, [
          (9, 9, [], 114), (10, 10, [], 113), (11, 13, [], 114), (32, 32, [], 114), (48, 57, [CStartValue], 115)]),
      (119, [
          (-128, 9, [], 23), (10, 10, [CWriteContentLen, CWriteValue], 20), (11, 12, [], 23),
          (13, 13, [CWriteContentLen, CWriteValue], 24), (14, 47, [], 23), (48, 57, [], 119), (58, 127, [], 23)])]"

definition httpclient_table :: "(int \<times> crow list) list" where
  "httpclient_table = concat [
      httpclient_rows_1, httpclient_rows_2, httpclient_rows_3, httpclient_rows_4, httpclient_rows_5,
      httpclient_rows_6, httpclient_rows_7, httpclient_rows_8, httpclient_rows_9, httpclient_rows_10,
      httpclient_rows_11, httpclient_rows_12, httpclient_rows_13, httpclient_rows_14, httpclient_rows_15,
      httpclient_rows_16, httpclient_rows_17, httpclient_rows_18, httpclient_rows_19, httpclient_rows_20,
      httpclient_rows_21, httpclient_rows_22]"

end
