(* ===== verification/HttpClient_Parser.thy ===== *)
theory HttpClient_Parser
  imports Http11_Parser HttpClient_Table
begin

text \<open>
  \<^verbatim>\<open>http/httpclient_parser.h\<close> and the functions around the machine in \<^verbatim>\<open>http/httpclient_paeser.rl.cc\<close>. The buffer
  is a list of characters of which the first \<^verbatim>\<open>len\<close> are parsed; \<^verbatim>\<open>execute\<close> also reads the one after them, and
  \<^verbatim>\<open>strtol\<close> reads from the mark on. The client of the machine sets all its callbacks and none of them touches
  it, so the calls are collected in order.
\<close>

record httpclient_parser =
  cp_cs :: int
  cp_body_start :: nat
  cp_content_len :: int
  cp_status :: int
  cp_chunked :: bool
  cp_chunks_done :: bool
  cp_close :: bool
  cp_nread :: nat
  cp_mark :: nat
  cp_field_start :: nat
  cp_field_len :: nat

datatype client_event =
    COnField nat nat nat u64
  | COnReason nat u64
  | COnStatus nat u64
  | COnVersion nat u64
  | COnChunk nat u64
  | COnLastChunk nat u64
  | COnHeaderDone nat u64

datatype client_error =
    ClientAssert string
  | ReadPastEnd

definition httpclient_parser_start :: int where "httpclient_parser_start = 1"
definition httpclient_parser_first_final :: int where "httpclient_parser_first_final = 120"
definition httpclient_parser_error :: int where "httpclient_parser_error = 0"

definition httpclient_parser_init :: "httpclient_parser \<Rightarrow> httpclient_parser" where
  "httpclient_parser_init parser =
     parser\<lparr>cp_cs := httpclient_parser_start, cp_body_start := 0, cp_content_len := - 1, cp_chunked := False,
            cp_chunks_done := False, cp_mark := 0, cp_nread := 0, cp_field_len := 0, cp_field_start := 0, cp_close := False\<rparr>"

definition httpclient_parser_has_error :: "httpclient_parser \<Rightarrow> bool" where
  "httpclient_parser_has_error parser \<longleftrightarrow> cp_cs parser = httpclient_parser_error"

definition httpclient_parser_is_finished :: "httpclient_parser \<Rightarrow> bool" where
  "httpclient_parser_is_finished parser \<longleftrightarrow> cp_cs parser = httpclient_parser_first_final"

definition httpclient_parser_finish :: "httpclient_parser \<Rightarrow> int" where
  "httpclient_parser_finish parser =
     (if httpclient_parser_has_error parser then - 1 else if httpclient_parser_is_finished parser then 1 else 0)"

subsection \<open>Numbers\<close>

text \<open>
  \<^verbatim>\<open>strtol\<close> of the C library: leading white space, a sign, the prefix \<^verbatim>\<open>0x\<close> in base 16, the digits of the
  base, and saturation at the ends of a 64 bit \<^verbatim>\<open>long\<close>. The results are kept in an \<^verbatim>\<open>int\<close>.
\<close>

definition isspace :: "char \<Rightarrow> bool" where
  "isspace c \<longleftrightarrow> (let n = (of_char c :: nat) in n = 32 \<or> 9 \<le> n \<and> n \<le> 13)"

definition digit_code :: "char \<Rightarrow> nat" where
  "digit_code c =
     (let n = of_char c in
      if 48 \<le> n \<and> n \<le> 57 then n - 48 else if 65 \<le> n \<and> n \<le> 90 then n - 55 else if 97 \<le> n \<and> n \<le> 122 then n - 87 else 99)"

definition is_digit :: "nat \<Rightarrow> char \<Rightarrow> bool" where
  "is_digit b c \<longleftrightarrow> digit_code c < b"

definition digits_value :: "nat \<Rightarrow> string \<Rightarrow> int" where
  "digits_value b s = foldl (\<lambda>a c. a * int b + int (digit_code c)) 0 s"

definition skip_prefix :: "nat \<Rightarrow> string \<Rightarrow> string" where
  "skip_prefix b s =
     (case s of z # x # d # _ \<Rightarrow>
        if b = 16 \<and> z = CHR ''0'' \<and> (x = CHR ''x'' \<or> x = CHR ''X'') \<and> is_digit b d then drop 2 s else s
      | _ \<Rightarrow> s)"

definition strtol :: "nat \<Rightarrow> string \<Rightarrow> int" where
  "strtol b s =
     (let s = dropWhile isspace s;
          neg = (s \<noteq> [] \<and> hd s = CHR ''-'');
          s = (if s \<noteq> [] \<and> (hd s = CHR ''-'' \<or> hd s = CHR ''+'') then tl s else s);
          v = digits_value b (takeWhile (is_digit b) (skip_prefix b s));
          v = (if neg then - v else v)
      in max (- (2 ^ 63)) (min (2 ^ 63 - 1) v))"

definition to_int :: "int \<Rightarrow> int" where
  "to_int v = sint (word_of_int v :: u32)"

subsection \<open>Actions\<close>

fun do_caction :: "string \<Rightarrow> nat \<Rightarrow> nat \<Rightarrow> httpclient_parser \<times> client_event list \<Rightarrow> caction \<Rightarrow> httpclient_parser \<times> client_event list" where
  "do_caction buffer p pe (h, es) CMark = (h\<lparr>cp_mark := p\<rparr>, es)"
| "do_caction buffer p pe (h, es) CStartField = (h\<lparr>cp_field_start := p\<rparr>, es)"
| "do_caction buffer p pe (h, es) CWriteField = (h\<lparr>cp_field_len := unat (LEN (cp_field_start h) p)\<rparr>, es)"
| "do_caction buffer p pe (h, es) CStartValue = (h\<lparr>cp_mark := p\<rparr>, es)"
| "do_caction buffer p pe (h, es) CWriteContentLen =
     (h\<lparr>cp_content_len := to_int (strtol 10 (drop (cp_mark h) buffer))\<rparr>, es)"
| "do_caction buffer p pe (h, es) CWriteConnectionClose = (h\<lparr>cp_close := True\<rparr>, es)"
| "do_caction buffer p pe (h, es) CWriteValue =
     (h, es @ [COnField (cp_field_start h) (cp_field_len h) (cp_mark h) (LEN (cp_mark h) p)])"
| "do_caction buffer p pe (h, es) CReasonPhrase = (h, es @ [COnReason (cp_mark h) (LEN (cp_mark h) p)])"
| "do_caction buffer p pe (h, es) CStatusCode =
     (h\<lparr>cp_status := to_int (strtol 10 (drop (cp_mark h) buffer))\<rparr>, es @ [COnStatus (cp_mark h) (LEN (cp_mark h) p)])"
| "do_caction buffer p pe (h, es) CHttpVersion = (h, es @ [COnVersion (cp_mark h) (LEN (cp_mark h) p)])"
| "do_caction buffer p pe (h, es) CChunkSize =
     (let n = to_int (strtol 16 (drop (cp_mark h) buffer)) in
      (h\<lparr>cp_chunked := True, cp_content_len := n, cp_chunks_done := (n \<le> 0)\<rparr>,
       es @ [if n \<le> 0 then COnLastChunk (cp_mark h) (LEN (cp_mark h) p) else COnChunk (cp_mark h) (LEN (cp_mark h) p)]))"
| "do_caction buffer p pe (h, es) CTransChunked = (h\<lparr>cp_chunked := True\<rparr>, es)"
| "do_caction buffer p pe (h, es) CDone = (h\<lparr>cp_body_start := p + 1\<rparr>, es @ [COnHeaderDone (p + 1) (of_nat (pe - p - 1))])"

definition do_cactions ::
  "string \<Rightarrow> nat \<Rightarrow> nat \<Rightarrow> caction list \<Rightarrow> httpclient_parser \<times> client_event list \<Rightarrow> httpclient_parser \<times> client_event list" where
  "do_cactions buffer p pe acts st = foldl (do_caction buffer p pe) st acts"

subsection \<open>The machine\<close>

fun find_crow :: "int \<Rightarrow> crow list \<Rightarrow> (caction list \<times> int) option" where
  "find_crow c [] = None"
| "find_crow c ((lo, hi, acts, tgt) # rows) = (if lo \<le> c \<and> c \<le> hi then Some (acts, tgt) else find_crow c rows)"

definition cdelta :: "int \<Rightarrow> char \<Rightarrow> (caction list \<times> int) option" where
  "cdelta cs c = (case map_of httpclient_table cs of None \<Rightarrow> None | Some rows \<Rightarrow> find_crow (schar c) rows)"

text \<open>A state that is no \<^verbatim>\<open>case\<close> of the switch is kept; a character in no range leads to the error state.\<close>

definition cerr :: "int \<Rightarrow> int" where
  "cerr cs = (if map_of httpclient_table cs = None then cs else httpclient_parser_error)"

fun cexec_loop ::
  "string \<Rightarrow> nat \<Rightarrow> int \<Rightarrow> nat \<Rightarrow> string \<Rightarrow> httpclient_parser \<times> client_event list \<Rightarrow>
   int \<times> nat \<times> httpclient_parser \<times> client_event list" where
  "cexec_loop buffer pe cs p [] st = (cs, p, st)"
| "cexec_loop buffer pe cs p (c # rest) st =
     (case cdelta cs c of None \<Rightarrow> (cerr cs, p, st)
      | Some (acts, tgt) \<Rightarrow>
          if CDone \<in> set acts then (tgt, p + 1, do_cactions buffer p pe acts st)
          else cexec_loop buffer pe tgt (p + 1) rest (do_cactions buffer p pe acts st))"

declare cexec_loop.simps(2) [simp del]

definition cp_assert :: "bool \<Rightarrow> string \<Rightarrow> client_error + 'a \<Rightarrow> client_error + 'a" where
  "cp_assert b msg r = (if b then r else Inl (ClientAssert msg))"

text \<open>
  The lengths are compared as \<^verbatim>\<open>int\<close>: a buffer of \<open>2 ^ 31\<close> characters or more fails the third assertion. The
  \<^verbatim>\<open>check\<close> macros make the result -1, when the parser has been updated already.
\<close>

definition httpclient_parser_execute ::
  "httpclient_parser \<Rightarrow> string \<Rightarrow> nat \<Rightarrow> nat \<Rightarrow> client_error + int \<times> httpclient_parser \<times> client_event list" where
  "httpclient_parser_execute parser buffer len off =
     (let parser = parser\<lparr>cp_nread := 0, cp_mark := 0, cp_field_len := 0, cp_field_start := 0\<rparr> in
      cp_assert (off \<le> len) ''offset past end of buffer''
      (if length buffer \<le> len then Inl ReadPastEnd
       else cp_assert (buffer ! len = CHR 0x00) ''pointer does not end on NUL''
        (cp_assert (int len - int off = sint (of_nat len :: u32) - sint (of_nat off :: u32)) ''pointers aren't same distance''
          (let (cs, p, h, es) = cexec_loop buffer len (cp_cs parser) off (drop off (take len buffer)) (parser, []);
               h = h\<lparr>cp_cs := cs, cp_nread := cp_nread h + (p - off)\<rparr>
           in cp_assert (p \<le> len) ''buffer overflow after parsing execute''
              (cp_assert (cp_nread h \<le> len) ''nread longer than length''
              (cp_assert (cp_body_start h \<le> len) ''body starts after buffer end''
                (Inr (if cp_mark h < len \<and> cp_field_len h \<le> len \<and> cp_field_start h < len
                      then to_int (int (cp_nread h)) else - 1, h, es))))))))"

end
