(* ===== verification/Http_Parser.thy ===== *)
theory Http_Parser
  imports Http Http11_Parser HttpClient_Parser
begin

text \<open>
  \<^verbatim>\<open>HttpRequestParser\<close> and \<^verbatim>\<open>HttpResponseParser\<close> of \<^verbatim>\<open>http/http_parser.cc\<close>: the callbacks that build the message, and
  \<^verbatim>\<open>execute\<close>. The
  memory at \<^verbatim>\<open>data\<close> is a list of characters, of which the first \<^verbatim>\<open>len\<close> were received; a callback gets
  a pointer into it. A \<^verbatim>\<open>std::string\<close> made of a range that the memory does not have is an error (\<open>BadRange\<close>); a length of
  \<open>2 ^ 63\<close> or more, beyond what any string can have, makes the constructor throw \<^verbatim>\<open>length_error\<close> before it reads. The callbacks leave the machine
  alone, so they are run over the collected calls.
\<close>

datatype http_error =
    BadRange
  | LengthError
  | MachineAssert parser_error
  | ClientMachine client_error

record request_parser =
  m_parser :: http_parser
  m_data :: http_request
  m_error :: int

definition setError :: "int \<Rightarrow> request_parser \<Rightarrow> request_parser" where
  "setError v rp = rp\<lparr>m_error := v\<rparr>"

definition mem_string :: "string \<Rightarrow> nat \<Rightarrow> nat \<Rightarrow> http_error + string" where
  "mem_string mem at len =
     (if 2 ^ 63 \<le> len then Inl LengthError
      else if at + len \<le> length mem then Inr (take len (drop at mem)) else Inl BadRange)"

text \<open>\<^verbatim>\<open>strncmp(s, t, n) == 0\<close> for memory \<open>s\<close> and a literal \<open>t\<close> with its terminator.\<close>

fun strncmp_eq :: "string \<Rightarrow> string \<Rightarrow> nat \<Rightarrow> bool" where
  "strncmp_eq s t 0 = True"
| "strncmp_eq (c # s) (d # t) (Suc n) \<longleftrightarrow> c = d \<and> (c = CHR 0x00 \<or> strncmp_eq s t n)"
| "strncmp_eq s t (Suc n) = False"

definition on_request_method :: "string \<Rightarrow> nat \<Rightarrow> nat \<Rightarrow> request_parser \<Rightarrow> http_error + request_parser" where
  "on_request_method mem at len parser =
     (let m = CharsToHttpMethod (drop at mem) in
      if m = HTTP_INVALID_METHOD then err_bind (mem_string mem at len) (\<lambda>_. Inr (setError 1000 parser))
      else Inr (parser\<lparr>m_data := (m_data parser)\<lparr>m_method := m\<rparr>\<rparr>))"

definition on_request_uri :: "string \<Rightarrow> nat \<Rightarrow> nat \<Rightarrow> request_parser \<Rightarrow> http_error + request_parser" where
  "on_request_uri mem at len parser = Inr parser"

definition on_request_fragment :: "string \<Rightarrow> nat \<Rightarrow> nat \<Rightarrow> request_parser \<Rightarrow> http_error + request_parser" where
  "on_request_fragment mem at len parser =
     err_bind (mem_string mem at len) (\<lambda>s. Inr (parser\<lparr>m_data := (m_data parser)\<lparr>m_fragment := s\<rparr>\<rparr>))"

definition on_request_path :: "string \<Rightarrow> nat \<Rightarrow> nat \<Rightarrow> request_parser \<Rightarrow> http_error + request_parser" where
  "on_request_path mem at len parser =
     err_bind (mem_string mem at len) (\<lambda>s. Inr (parser\<lparr>m_data := (m_data parser)\<lparr>m_path := s\<rparr>\<rparr>))"

definition on_request_query :: "string \<Rightarrow> nat \<Rightarrow> nat \<Rightarrow> request_parser \<Rightarrow> http_error + request_parser" where
  "on_request_query mem at len parser =
     err_bind (mem_string mem at len) (\<lambda>s. Inr (parser\<lparr>m_data := (m_data parser)\<lparr>m_query := s\<rparr>\<rparr>))"

definition http_1_1 :: string where "http_1_1 = ''HTTP/1.1'' @ [CHR 0x00]"
definition http_1_0 :: string where "http_1_0 = ''HTTP/1.0'' @ [CHR 0x00]"

definition on_request_version :: "string \<Rightarrow> nat \<Rightarrow> nat \<Rightarrow> request_parser \<Rightarrow> http_error + request_parser" where
  "on_request_version mem at len parser =
     (if strncmp_eq (drop at mem) http_1_1 len then Inr (parser\<lparr>m_data := (m_data parser)\<lparr>m_version := 0x11\<rparr>\<rparr>)
      else if strncmp_eq (drop at mem) http_1_0 len then Inr (parser\<lparr>m_data := (m_data parser)\<lparr>m_version := 0x10\<rparr>\<rparr>)
      else err_bind (mem_string mem at len) (\<lambda>_. Inr (setError 1001 parser)))"

definition on_request_header_done :: "string \<Rightarrow> nat \<Rightarrow> nat \<Rightarrow> request_parser \<Rightarrow> http_error + request_parser" where
  "on_request_header_done mem at len parser = Inr parser"

definition on_request_http_field ::
  "string \<Rightarrow> nat \<Rightarrow> nat \<Rightarrow> nat \<Rightarrow> nat \<Rightarrow> request_parser \<Rightarrow> http_error + request_parser" where
  "on_request_http_field mem field flen val vlen parser =
     (if flen = 0 then Inr (setError 1002 parser)
      else err_bind (mem_string mem field flen) (\<lambda>k. err_bind (mem_string mem val vlen) (\<lambda>v.
             Inr (parser\<lparr>m_data := setHeader (m_data parser) k v\<rparr>))))"

definition new_HttpRequestParser :: "http_parser \<Rightarrow> request_parser" where
  "new_HttpRequestParser raw = \<lparr>m_parser = http_parser_init raw, m_data = new_HttpRequest 0x11 True, m_error = 0\<rparr>"

fun request_callback :: "string \<Rightarrow> http_event \<Rightarrow> request_parser \<Rightarrow> http_error + request_parser" where
  "request_callback mem (OnField f fl v vl) rp = on_request_http_field mem f fl v (unat vl) rp"
| "request_callback mem (OnMethod at n) rp = on_request_method mem at (unat n) rp"
| "request_callback mem (OnUri at n) rp = on_request_uri mem at (unat n) rp"
| "request_callback mem (OnFragment at n) rp = on_request_fragment mem at (unat n) rp"
| "request_callback mem (OnPath at n) rp = on_request_path mem at (unat n) rp"
| "request_callback mem (OnQuery at n) rp = on_request_query mem at (unat n) rp"
| "request_callback mem (OnVersion at n) rp = on_request_version mem at (unat n) rp"
| "request_callback mem (OnHeaderDone at n) rp = on_request_header_done mem at (unat n) rp"

fun request_callbacks :: "string \<Rightarrow> http_event list \<Rightarrow> request_parser \<Rightarrow> http_error + request_parser" where
  "request_callbacks mem [] rp = Inr rp"
| "request_callbacks mem (e # es) rp = err_bind (request_callback mem e rp) (request_callbacks mem es)"

text \<open>\<^verbatim>\<open>memmove(data, data + rt, len - rt)\<close>.\<close>

definition shift_left :: "string \<Rightarrow> nat \<Rightarrow> nat \<Rightarrow> string" where
  "shift_left mem len rt = memcpy_at mem 0 (take (len - rt) (drop rt mem))"

definition request_execute :: "request_parser \<Rightarrow> string \<Rightarrow> nat \<Rightarrow> http_error + nat \<times> request_parser \<times> string" where
  "request_execute rp mem len =
     (case http_parser_execute (m_parser rp) (take len mem) 0 of
        Inl e \<Rightarrow> Inl (MachineAssert e)
      | Inr (rt, h, es) \<Rightarrow>
          err_bind (request_callbacks mem es (rp\<lparr>m_parser := h\<rparr>)) (\<lambda>rp. Inr (rt, rp, shift_left mem len rt)))"

definition request_isFinished :: "request_parser \<Rightarrow> int" where
  "request_isFinished rp = http_parser_finish (m_parser rp)"

definition request_hasError :: "request_parser \<Rightarrow> bool" where
  "request_hasError rp \<longleftrightarrow> m_error rp \<noteq> 0 \<or> http_parser_has_error (m_parser rp)"

text \<open>The conversion \<open>lexical_cast\<close> to a 64 bit number is the one of the boost library.\<close>

definition request_getContentLength :: "(string \<Rightarrow> u64 option) \<Rightarrow> request_parser \<Rightarrow> u64" where
  "request_getContentLength lexical_cast rp = getAs lexical_cast (m_headers (m_data rp)) ''content-length'' 0"

subsection \<open>Responses\<close>

record response_parser =
  rp_parser :: httpclient_parser
  rp_data :: http_response
  rp_error :: int

definition response_setError :: "int \<Rightarrow> response_parser \<Rightarrow> response_parser" where
  "response_setError v rp = rp\<lparr>rp_error := v\<rparr>"

definition on_response_reason :: "string \<Rightarrow> nat \<Rightarrow> nat \<Rightarrow> response_parser \<Rightarrow> http_error + response_parser" where
  "on_response_reason mem at len parser =
     err_bind (mem_string mem at len) (\<lambda>s. Inr (parser\<lparr>rp_data := (rp_data parser)\<lparr>r_reason := s\<rparr>\<rparr>))"

text \<open>\<^verbatim>\<open>atoi\<close> is \<^verbatim>\<open>strtol\<close> in base 10, kept in an \<^verbatim>\<open>int\<close>.\<close>

definition on_response_status :: "string \<Rightarrow> nat \<Rightarrow> nat \<Rightarrow> response_parser \<Rightarrow> http_error + response_parser" where
  "on_response_status mem at len parser =
     Inr (parser\<lparr>rp_data := (rp_data parser)\<lparr>r_status := to_int (strtol 10 (drop at mem))\<rparr>\<rparr>)"

definition on_response_chunk :: "string \<Rightarrow> nat \<Rightarrow> nat \<Rightarrow> response_parser \<Rightarrow> http_error + response_parser" where
  "on_response_chunk mem at len parser = Inr parser"

definition on_response_version :: "string \<Rightarrow> nat \<Rightarrow> nat \<Rightarrow> response_parser \<Rightarrow> http_error + response_parser" where
  "on_response_version mem at len parser =
     (if strncmp_eq (drop at mem) http_1_1 len then Inr (parser\<lparr>rp_data := (rp_data parser)\<lparr>r_version := 0x11\<rparr>\<rparr>)
      else if strncmp_eq (drop at mem) http_1_0 len then Inr (parser\<lparr>rp_data := (rp_data parser)\<lparr>r_version := 0x10\<rparr>\<rparr>)
      else err_bind (mem_string mem at len) (\<lambda>_. Inr (response_setError 1001 parser)))"

definition on_response_header_done :: "string \<Rightarrow> nat \<Rightarrow> nat \<Rightarrow> response_parser \<Rightarrow> http_error + response_parser" where
  "on_response_header_done mem at len parser = Inr parser"

definition on_response_last_chunk :: "string \<Rightarrow> nat \<Rightarrow> nat \<Rightarrow> response_parser \<Rightarrow> http_error + response_parser" where
  "on_response_last_chunk mem at len parser = Inr parser"

definition on_response_http_field ::
  "string \<Rightarrow> nat \<Rightarrow> nat \<Rightarrow> nat \<Rightarrow> nat \<Rightarrow> response_parser \<Rightarrow> http_error + response_parser" where
  "on_response_http_field mem field flen val vlen parser =
     (if flen = 0 then Inr (response_setError 1002 parser)
      else err_bind (mem_string mem field flen) (\<lambda>k. err_bind (mem_string mem val vlen) (\<lambda>v.
             Inr (parser\<lparr>rp_data := response_setHeader (rp_data parser) k v\<rparr>))))"

definition new_HttpResponseParser :: "httpclient_parser \<Rightarrow> response_parser" where
  "new_HttpResponseParser raw =
     \<lparr>rp_parser = httpclient_parser_init raw, rp_data = new_HttpResponse 0x11 True, rp_error = 0\<rparr>"

fun response_callback :: "string \<Rightarrow> client_event \<Rightarrow> response_parser \<Rightarrow> http_error + response_parser" where
  "response_callback mem (COnField f fl v vl) rp = on_response_http_field mem f fl v (unat vl) rp"
| "response_callback mem (COnReason at n) rp = on_response_reason mem at (unat n) rp"
| "response_callback mem (COnStatus at n) rp = on_response_status mem at (unat n) rp"
| "response_callback mem (COnVersion at n) rp = on_response_version mem at (unat n) rp"
| "response_callback mem (COnChunk at n) rp = on_response_chunk mem at (unat n) rp"
| "response_callback mem (COnLastChunk at n) rp = on_response_last_chunk mem at (unat n) rp"
| "response_callback mem (COnHeaderDone at n) rp = on_response_header_done mem at (unat n) rp"

fun response_callbacks :: "string \<Rightarrow> client_event list \<Rightarrow> response_parser \<Rightarrow> http_error + response_parser" where
  "response_callbacks mem [] rp = Inr rp"
| "response_callbacks mem (e # es) rp = err_bind (response_callback mem e rp) (response_callbacks mem es)"

text \<open>
  The machine's result -1 becomes the largest \<^verbatim>\<open>size_t\<close>: the \<^verbatim>\<open>memmove\<close> then reads from before the memory.
\<close>

definition response_execute :: "response_parser \<Rightarrow> string \<Rightarrow> nat \<Rightarrow> http_error + int \<times> response_parser \<times> string" where
  "response_execute rp mem len =
     (case httpclient_parser_execute (rp_parser rp) mem len 0 of
        Inl e \<Rightarrow> Inl (ClientMachine e)
      | Inr (rt, h, es) \<Rightarrow>
          err_bind (response_callbacks mem es (rp\<lparr>rp_parser := h\<rparr>)) (\<lambda>rp.
            if rt < 0 then Inl BadRange else Inr (rt, rp, shift_left mem len (nat rt))))"

definition response_isFinished :: "response_parser \<Rightarrow> bool" where
  "response_isFinished rp = httpclient_parser_is_finished (rp_parser rp)"

definition response_hasError :: "response_parser \<Rightarrow> bool" where
  "response_hasError rp \<longleftrightarrow> rp_error rp \<noteq> 0 \<or> httpclient_parser_has_error (rp_parser rp)"

definition response_getContentLength :: "(string \<Rightarrow> u64 option) \<Rightarrow> response_parser \<Rightarrow> u64" where
  "response_getContentLength lexical_cast rp = getAs lexical_cast (r_headers (rp_data rp)) ''content-length'' 0"

end
