(* ===== verification/Socket.thy ===== *)
theory Socket
  imports Address Hook
begin

text \<open>
  \<^verbatim>\<open>code/socket.h\<close> and \<^verbatim>\<open>code/socket.cc\<close>. The results of the system calls are arguments, in the order
  in which an operation makes them; the operations return the calls they make beside their result, those
  that open a descriptor with the result they had.
  The context that \<^verbatim>\<open>FdMgr\<close> keeps for the descriptor is an argument where it is asked for. An
  address pointer that was not set is \<open>None\<close>.
\<close>

definition SOCK_STREAM :: int where "SOCK_STREAM = 1"
definition SOCK_DGRAM :: int where "SOCK_DGRAM = 2"
definition SOL_SOCKET :: int where "SOL_SOCKET = 1"
definition SO_REUSEADDR :: int where "SO_REUSEADDR = 2"
definition SO_ERROR :: int where "SO_ERROR = 4"
definition IPPROTO_TCP :: int where "IPPROTO_TCP = 6"
definition TCP_NODELAY :: int where "TCP_NODELAY = 1"

text \<open>What \<^verbatim>\<open>setOption\<close> copies from: an \<^verbatim>\<open>int\<close>, a \<^verbatim>\<open>timeval\<close>, or the address of a variable.\<close>

datatype opt_value = OptInt int | OptTimeval int int | OptPointer

datatype sys_call =
    SysSocket int int int int
  | SysSetOpt int int int opt_value
  | SysGetOpt int int int
  | SysBind int "u8 list" nat
  | SysConnect int "u8 list" nat int
  | SysListen int int
  | SysAccept int int
  | SysClose int
  | SysGetPeerName int
  | SysGetSockName int
  | SysSend int nat int
  | SysSendMsg int nat int
  | SysSendTo int nat int "u8 list" nat
  | SysRecv int nat int
  | SysRecvMsg int nat int
  | SysRecvFrom int nat int

record socket =
  so_sock :: int
  so_family :: int
  so_type :: int
  so_protocol :: int
  so_connected :: bool
  so_remoteAddr :: "address option"
  so_localAddr :: "address option"

definition new_Socket :: "int \<Rightarrow> int \<Rightarrow> int \<Rightarrow> socket" where
  "new_Socket family type protocol =
     \<lparr>so_sock = - 1, so_family = family, so_type = type, so_protocol = protocol, so_connected = False,
      so_remoteAddr = None, so_localAddr = None\<rparr>"

definition CreateTCP where "CreateTCP bo addr = new_Socket (getFamily bo addr) SOCK_STREAM 0"
definition CreateUDP where "CreateUDP bo addr = new_Socket (getFamily bo addr) SOCK_DGRAM 0"
definition CreateTCPSocket where "CreateTCPSocket = new_Socket (uint AF_INET) SOCK_STREAM 0"
definition CreateUDPSocket where "CreateUDPSocket = new_Socket (uint AF_INET) SOCK_DGRAM 0"
definition CreateTCPSocket6 where "CreateTCPSocket6 = new_Socket (uint AF_INET6) SOCK_STREAM 0"
definition CreateUDPSocket6 where "CreateUDPSocket6 = new_Socket (uint AF_INET6) SOCK_DGRAM 0"
definition CreateUinxTCPSocket where "CreateUinxTCPSocket = new_Socket (uint AF_UNIX) SOCK_STREAM 0"
definition CreateUinxUDPSocket where "CreateUinxUDPSocket = new_Socket (uint AF_UNIX) SOCK_DGRAM 0"

definition isValid :: "socket \<Rightarrow> bool" where
  "isValid s \<longleftrightarrow> so_sock s \<noteq> - 1"

subsection \<open>Options and timeouts\<close>

definition setOption :: "socket \<Rightarrow> int \<Rightarrow> int \<Rightarrow> opt_value \<Rightarrow> int \<Rightarrow> bool \<times> sys_call list" where
  "setOption s level optname v rt = (rt = 0, [SysSetOpt (so_sock s) level optname v])"

definition getOption :: "socket \<Rightarrow> int \<Rightarrow> int \<Rightarrow> int \<Rightarrow> bool \<times> sys_call list" where
  "getOption s level optname rt = (rt = 0, [SysGetOpt (so_sock s) level optname])"

definition getError :: "socket \<Rightarrow> int \<Rightarrow> int \<Rightarrow> int \<times> sys_call list" where
  "getError s rt err = (let (ok, calls) = getOption s SOL_SOCKET SO_ERROR rt in (if \<not> ok then - 1 else err, calls))"

text \<open>C division and remainder, and the conversion to a 32 bit \<^verbatim>\<open>int\<close>.\<close>

definition c_div :: "int \<Rightarrow> int \<Rightarrow> int" where "c_div a b = sgn a * sgn b * (\<bar>a\<bar> div \<bar>b\<bar>)"
definition c_mod :: "int \<Rightarrow> int \<Rightarrow> int" where "c_mod a b = a - b * c_div a b"
definition to_int32 :: "int \<Rightarrow> int" where "to_int32 v = sint (word_of_int v :: u32)"

definition timeval_of :: "int \<Rightarrow> opt_value" where
  "timeval_of v = OptTimeval (to_int32 (c_div v 1000)) (to_int32 (c_mod v 1000 * 1000))"

text \<open>The call goes through the hooked \<^verbatim>\<open>setsockopt\<close>, which records the timeout in the context.\<close>

fun record_option :: "bool \<Rightarrow> fd_ctx option \<Rightarrow> int \<Rightarrow> int \<Rightarrow> opt_value \<Rightarrow> fd_ctx option" where
  "record_option hook_enable ctx level optname (OptTimeval sec usec) =
     hook_setsockopt hook_enable ctx (level = SOL_SOCKET) optname sec usec"
| "record_option hook_enable ctx level optname v = ctx"

definition setSendTimeOut :: "bool \<Rightarrow> fd_ctx option \<Rightarrow> int \<Rightarrow> fd_ctx option" where
  "setSendTimeOut hook_enable ctx v = record_option hook_enable ctx SOL_SOCKET SO_SNDTIMEO (timeval_of v)"

definition setRecvTimeOut :: "bool \<Rightarrow> fd_ctx option \<Rightarrow> int \<Rightarrow> fd_ctx option" where
  "setRecvTimeOut hook_enable ctx v = record_option hook_enable ctx SOL_SOCKET SO_RCVTIMEO (timeval_of v)"

definition getSendTimeOut :: "fd_ctx option \<Rightarrow> int" where
  "getSendTimeOut ctx = (case ctx of Some c \<Rightarrow> sint (getTimeout c SO_SNDTIMEO) | None \<Rightarrow> - 1)"

definition getRecvTimeOut :: "fd_ctx option \<Rightarrow> int" where
  "getRecvTimeOut ctx = (case ctx of Some c \<Rightarrow> sint (getTimeout c SO_RCVTIMEO) | None \<Rightarrow> - 1)"

subsection \<open>Addresses\<close>

text \<open>
  \<open>name\<close> is the answer of \<^verbatim>\<open>getpeername\<close> or \<^verbatim>\<open>getsockname\<close>: \<open>None\<close> for an error, otherwise the address
  written into the object made for the family, and the length that was reported.
\<close>

definition blank_address :: "nat \<Rightarrow> int \<Rightarrow> address" where
  "blank_address bo family =
     (if family = uint AF_INET then IPv4Address (new_IPv4Address bo 0 0)
      else if family = uint AF_INET6 then IPv6Address new_IPv6Address
      else if family = uint AF_UNIX then new_UnixAddress
      else UnknownAddress (new_UnknownAddress (word_of_int family)))"

definition fetch_address :: "nat \<Rightarrow> int \<Rightarrow> ((address \<Rightarrow> address) \<times> u32) option \<Rightarrow> address option" where
  "fetch_address bo family name =
     (case name of None \<Rightarrow> None
      | Some (fill, addrlen) \<Rightarrow>
          let result = fill (blank_address bo family) in
          Some (if family = uint AF_UNIX then setAddrLen result addrlen else result))"

definition getRemoteAddress ::
  "nat \<Rightarrow> socket \<Rightarrow> ((address \<Rightarrow> address) \<times> u32) option \<Rightarrow> address \<times> socket \<times> sys_call list" where
  "getRemoteAddress bo s name =
     (case so_remoteAddr s of Some a \<Rightarrow> (a, s, [])
      | None \<Rightarrow>
          (case fetch_address bo (so_family s) name of
             None \<Rightarrow> (UnknownAddress (new_UnknownAddress (word_of_int (so_family s))), s, [SysGetPeerName (so_sock s)])
           | Some a \<Rightarrow> (a, s\<lparr>so_remoteAddr := Some a\<rparr>, [SysGetPeerName (so_sock s)])))"

definition getLocalAddress ::
  "nat \<Rightarrow> socket \<Rightarrow> ((address \<Rightarrow> address) \<times> u32) option \<Rightarrow> address \<times> socket \<times> sys_call list" where
  "getLocalAddress bo s name =
     (case so_localAddr s of Some a \<Rightarrow> (a, s, [])
      | None \<Rightarrow>
          (case fetch_address bo (so_family s) name of
             None \<Rightarrow> (UnknownAddress (new_UnknownAddress (word_of_int (so_family s))), s, [SysGetSockName (so_sock s)])
           | Some a \<Rightarrow> (a, s\<lparr>so_localAddr := Some a\<rparr>, [SysGetSockName (so_sock s)])))"

subsection \<open>Opening and closing\<close>

definition initSock :: "socket \<Rightarrow> sys_call list" where
  "initSock s =
     snd (setOption s SOL_SOCKET SO_REUSEADDR (OptInt 1) 0) @
     (if so_type s = SOCK_STREAM then snd (setOption s IPPROTO_TCP TCP_NODELAY OptPointer 0) else [])"

text \<open>\<open>rt\<close> is what \<^verbatim>\<open>socket\<close> returns; the test is true for every value but 0.\<close>

definition newSock :: "socket \<Rightarrow> int \<Rightarrow> socket \<times> sys_call list" where
  "newSock s rt =
     (let call = SysSocket (so_family s) (so_type s) (so_protocol s) rt; s = s\<lparr>so_sock := rt\<rparr> in
      if so_sock s \<noteq> 0 then (s, call # initSock s) else (s, [call]))"

definition socket_init ::
  "nat \<Rightarrow> socket \<Rightarrow> int \<Rightarrow> fd_ctx option \<Rightarrow> ((address \<Rightarrow> address) \<times> u32) option \<Rightarrow> ((address \<Rightarrow> address) \<times> u32) option \<Rightarrow>
     bool \<times> socket \<times> sys_call list" where
  "socket_init bo s sock ctx lname rname =
     (case ctx of None \<Rightarrow> (False, s, [])
      | Some c \<Rightarrow>
          if m_isSocket c \<and> \<not> m_isClose c then
            let s = s\<lparr>so_sock := sock, so_connected := True\<rparr>;
                (_, s', c1) = getLocalAddress bo s lname;
                (_, s', c2) = getRemoteAddress bo s' rname
            in (True, s', initSock s @ c1 @ c2)
          else (False, s, []))"

definition socket_accept ::
  "nat \<Rightarrow> socket \<Rightarrow> int \<Rightarrow> fd_ctx option \<Rightarrow> ((address \<Rightarrow> address) \<times> u32) option \<Rightarrow> ((address \<Rightarrow> address) \<times> u32) option \<Rightarrow>
     socket option \<times> sys_call list" where
  "socket_accept bo s rt ctx lname rname =
     (let sock = new_Socket (so_family s) (so_type s) (so_protocol s) in
      if rt = - 1 then (None, [SysAccept (so_sock s) rt])
      else let (ok, sock, calls) = socket_init bo sock rt ctx lname rname in
        (if ok then Some sock else None, SysAccept (so_sock s) rt # calls))"

definition socket_close :: "socket \<Rightarrow> bool \<times> socket \<times> sys_call list" where
  "socket_close s =
     (if \<not> so_connected s \<and> so_sock s = - 1 then (True, s, [])
      else if so_sock s \<noteq> - 1 then (False, s\<lparr>so_connected := False, so_sock := - 1\<rparr>, [SysClose (so_sock s)])
      else (False, s\<lparr>so_connected := False\<rparr>, []))"

definition ensure_sock :: "socket \<Rightarrow> int \<Rightarrow> socket \<times> sys_call list" where
  "ensure_sock s sock_rt = (if \<not> isValid s then newSock s sock_rt else (s, []))"

definition socket_bind ::
  "nat \<Rightarrow> socket \<Rightarrow> address \<Rightarrow> int \<Rightarrow> int \<Rightarrow> ((address \<Rightarrow> address) \<times> u32) option \<Rightarrow> bool \<times> socket \<times> sys_call list" where
  "socket_bind bo s addr sock_rt bind_rt lname =
     (let (s, c0) = ensure_sock s sock_rt in
      if \<not> isValid s then (False, s, c0)
      else if getFamily bo addr \<noteq> so_family s then (False, s, c0)
      else let c1 = [SysBind (so_sock s) (getAddr bo addr) (getAddrLen addr)] in
        if bind_rt \<noteq> 0 then (False, s, c0 @ c1)
        else let (_, s, c2) = getLocalAddress bo s lname in (True, s, c0 @ c1 @ c2))"

definition socket_connect ::
  "nat \<Rightarrow> socket \<Rightarrow> address \<Rightarrow> int \<Rightarrow> int \<Rightarrow> int \<Rightarrow> ((address \<Rightarrow> address) \<times> u32) option \<Rightarrow> ((address \<Rightarrow> address) \<times> u32) option \<Rightarrow>
     bool \<times> socket \<times> sys_call list" where
  "socket_connect bo s addr timeout_ms sock_rt conn_rt lname rname =
     (let (s, c0) = ensure_sock s sock_rt in
      if \<not> isValid s then (False, s, c0)
      else if getFamily bo addr \<noteq> so_family s then (False, s, c0)
      else let c1 = [SysConnect (so_sock s) (getAddr bo addr) (getAddrLen addr) timeout_ms] in
        if conn_rt \<noteq> 0 then let (_, s, c2) = socket_close s in (False, s, c0 @ c1 @ c2)
        else let s = s\<lparr>so_connected := True\<rparr>;
                 (_, s, c2) = getRemoteAddress bo s rname;
                 (_, s, c3) = getLocalAddress bo s lname
             in (True, s, c0 @ c1 @ c2 @ c3))"

definition socket_listen :: "socket \<Rightarrow> int \<Rightarrow> int \<Rightarrow> bool \<times> sys_call list" where
  "socket_listen s backlog rt =
     (if \<not> isValid s then (False, []) else (rt = 0, [SysListen (so_sock s) backlog]))"

subsection \<open>Transfer and cancellation\<close>

definition if_connected :: "socket \<Rightarrow> int \<Rightarrow> sys_call \<Rightarrow> int \<times> sys_call list" where
  "if_connected s rt call = (if so_connected s then (to_int32 rt, [call]) else (- 1, []))"

definition socket_send where "socket_send s len flags rt = if_connected s rt (SysSend (so_sock s) len flags)"
definition socket_sendv where "socket_sendv s n flags rt = if_connected s rt (SysSendMsg (so_sock s) n flags)"
definition socket_sendTo where
  "socket_sendTo bo s len flags to rt = if_connected s rt (SysSendTo (so_sock s) len flags (getAddr bo to) (getAddrLen to))"
definition socket_sendTov where "socket_sendTov s n flags rt = if_connected s rt (SysSendMsg (so_sock s) n flags)"
definition socket_recv where "socket_recv s len flags rt = if_connected s rt (SysRecv (so_sock s) len flags)"
definition socket_recvv where "socket_recvv s n flags rt = if_connected s rt (SysRecvMsg (so_sock s) n flags)"
definition socket_recvFrom where "socket_recvFrom s len flags rt = if_connected s rt (SysRecvFrom (so_sock s) len flags)"
definition socket_recvFromv where "socket_recvFromv s n flags rt = if_connected s rt (SysRecvMsg (so_sock s) n flags)"

definition socket_cancelRead where "socket_cancelRead ctl io s = cancelEvent ctl io (so_sock s) READ"
definition socket_cancelWrite where "socket_cancelWrite ctl io s = cancelEvent ctl io (so_sock s) WRITE"
definition socket_cancelAccept where "socket_cancelAccept ctl io s = cancelEvent ctl io (so_sock s) READ"
definition socket_cancelAll where "socket_cancelAll ctl io s = cancelAll ctl io (so_sock s)"

definition int_text :: "int \<Rightarrow> string" where
  "int_text n = (if n < 0 then ''-'' @ dec_string (nat (- n)) else dec_string (nat n))"

definition socket_dump :: "nat \<Rightarrow> socket \<Rightarrow> string" where
  "socket_dump bo s =
     ''[sock = '' @ int_text (so_sock s) @ '' isConnected = '' @ (if so_connected s then ''1'' else ''0'') @
     '' faimly = '' @ int_text (so_family s) @ '' type = '' @ int_text (so_type s) @ '' prorocol = '' @ int_text (so_protocol s) @
     (case so_localAddr s of None \<Rightarrow> [] | Some a \<Rightarrow> '' local = '' @ address_toString bo a) @
     (case so_remoteAddr s of None \<Rightarrow> [] | Some a \<Rightarrow> '' remote = '' @ address_toString bo a) @ '']''"

end
