(* ===== verification/Socket_Props.thy ===== *)
theory Socket_Props
  imports Socket "HOL-Library.Multiset"
begin

text \<open>
  The descriptors that the socket objects of a program own, followed through the system calls they make, and
  the timeouts that a socket passes to the hooks.
\<close>

subsection \<open>Open descriptors of a trace\<close>

fun after_call :: "int list \<Rightarrow> sys_call \<Rightarrow> int list" where
  "after_call fds (SysSocket _ _ _ rt) = (if rt = - 1 then fds else rt # fds)"
| "after_call fds (SysAccept _ rt) = (if rt = - 1 then fds else rt # fds)"
| "after_call fds (SysClose fd) = remove1 fd fds"
| "after_call fds _ = fds"

definition open_fds :: "int list \<Rightarrow> sys_call list \<Rightarrow> int list" where
  "open_fds fds calls = foldl after_call fds calls"

lemma open_fds_simps [simp]:
  "open_fds fds [] = fds" "open_fds fds (c # cs) = open_fds (after_call fds c) cs"
  "open_fds fds (cs @ cs') = open_fds (open_fds fds cs) cs'"
  by (simp_all add: open_fds_def)

definition own_fds :: "socket \<Rightarrow> int list" where
  "own_fds s = (if isValid s then [so_sock s] else [])"

text \<open>The operations on one socket, each with the results of the calls it makes.\<close>

inductive socket_step :: "socket \<Rightarrow> sys_call list \<Rightarrow> socket \<Rightarrow> bool" where
  step_bind: "socket_bind bo s addr sock_rt bind_rt lname = (ok, s', calls) \<Longrightarrow> socket_step s calls s'"
| step_connect: "socket_connect bo s addr t sock_rt conn_rt lname rname = (ok, s', calls) \<Longrightarrow> socket_step s calls s'"
| step_listen: "socket_listen s backlog rt = (ok, calls) \<Longrightarrow> socket_step s calls s"
| step_close: "socket_close s = (ok, s', calls) \<Longrightarrow> socket_step s calls s'"
| step_send: "socket_send s len flags rt = (n, calls) \<Longrightarrow> socket_step s calls s"
| step_recv: "socket_recv s len flags rt = (n, calls) \<Longrightarrow> socket_step s calls s"
| step_option: "setOption s level optname v rt = (ok, calls) \<Longrightarrow> socket_step s calls s"
| step_remote: "getRemoteAddress bo s name = (a, s', calls) \<Longrightarrow> socket_step s calls s'"
| step_local: "getLocalAddress bo s name = (a, s', calls) \<Longrightarrow> socket_step s calls s'"

text \<open>The socket objects of a program: they are created, used, accept others and are destroyed. \<open>lost\<close> collects the
  accepted descriptors for which no object was made.\<close>

inductive sockets_run :: "sys_call list \<Rightarrow> socket list \<Rightarrow> int list \<Rightarrow> bool" where
  run_start: "sockets_run [] [] []"
| run_new: "sockets_run calls ss lost \<Longrightarrow> sockets_run calls (new_Socket family type protocol # ss) lost"
| run_op: "sockets_run calls (ss1 @ s # ss2) lost \<Longrightarrow> socket_step s calls' s' \<Longrightarrow>
    sockets_run (calls @ calls') (ss1 @ s' # ss2) lost"
| run_accept: "sockets_run calls ss lost \<Longrightarrow> s \<in> set ss \<Longrightarrow> socket_accept bo s rt ctx lname rname = (Some s', calls') \<Longrightarrow>
    sockets_run (calls @ calls') (s' # ss) lost"
| run_reject: "sockets_run calls ss lost \<Longrightarrow> s \<in> set ss \<Longrightarrow> socket_accept bo s rt ctx lname rname = (None, calls') \<Longrightarrow>
    sockets_run (calls @ calls') ss (if rt = - 1 then lost else rt # lost)"
| run_destroy: "sockets_run calls (ss1 @ s # ss2) lost \<Longrightarrow> socket_close s = (ok, s', calls') \<Longrightarrow>
    sockets_run (calls @ calls') (ss1 @ ss2) lost"

lemma initSock_fds [simp]: "open_fds fds (initSock s) = fds"
  by (simp add: initSock_def setOption_def)

lemma address_calls:
  "getRemoteAddress bo s name = (a, s', calls) \<Longrightarrow>
     open_fds fds calls = fds \<and> so_sock s' = so_sock s \<and> so_connected s' = so_connected s \<and> so_family s' = so_family s"
  "getLocalAddress bo s name = (a, s', calls) \<Longrightarrow>
     open_fds fds calls = fds \<and> so_sock s' = so_sock s \<and> so_connected s' = so_connected s \<and> so_family s' = so_family s"
  by (auto simp: getRemoteAddress_def getLocalAddress_def split: option.splits)

lemma ensure_sock_fds:
  assumes "ensure_sock s rt = (s', calls)"
  shows "open_fds (own_fds s @ fds) calls = own_fds s' @ fds"
  using assms by (auto simp: ensure_sock_def newSock_def own_fds_def isValid_def Let_def split: if_splits)

lemma close_fds:
  assumes "socket_close s = (ok, s', calls)"
  shows "open_fds (own_fds s @ fds) calls = fds \<and> own_fds s' = [] \<and> \<not> so_connected s'"
  using assms by (auto simp: socket_close_def own_fds_def isValid_def split: if_splits)

lemma own_fds_cong: "so_sock s = so_sock s' \<Longrightarrow> own_fds s = own_fds s'"
  by (simp add: own_fds_def isValid_def)

lemma bind_fds:
  assumes "socket_bind bo s addr sock_rt bind_rt lname = (ok, s', calls)"
  shows "open_fds (own_fds s @ fds) calls = own_fds s' @ fds \<and> (ok \<longrightarrow> isValid s')"
proof -
  obtain s1 c0 where e: "ensure_sock s sock_rt = (s1, c0)" by fastforce
  obtain a s2 c2 where l: "getLocalAddress bo s1 lname = (a, s2, c2)" by (cases "getLocalAddress bo s1 lname") auto
  have "own_fds s2 = own_fds s1" "isValid s2 = isValid s1" using address_calls(2) [OF l] by (auto simp: own_fds_def isValid_def)
  then show ?thesis
    using assms e l ensure_sock_fds [OF e, of fds] address_calls(2) [OF l] by (auto simp: socket_bind_def Let_def split: if_splits)
qed

lemma connect_fds:
  assumes "socket_connect bo s addr t sock_rt conn_rt lname rname = (ok, s', calls)"
  shows "open_fds (own_fds s @ fds) calls = own_fds s' @ fds \<and> (ok \<longrightarrow> isValid s' \<and> so_connected s')"
proof -
  obtain s1 c0 where e: "ensure_sock s sock_rt = (s1, c0)" by fastforce
  obtain a s2 c2 where r: "getRemoteAddress bo (s1\<lparr>so_connected := True\<rparr>) rname = (a, s2, c2)"
    by (cases "getRemoteAddress bo (s1\<lparr>so_connected := True\<rparr>) rname") auto
  obtain a' s3 c3 where l: "getLocalAddress bo s2 lname = (a', s3, c3)" by (cases "getLocalAddress bo s2 lname") auto
  obtain ok' s4 c4 where c: "socket_close s1 = (ok', s4, c4)" by (cases "socket_close s1") auto
  have "own_fds s3 = own_fds s1" "isValid s3 = isValid s1" "so_connected s3"
    using address_calls(1) [OF r] address_calls(2) [OF l] by (auto simp: own_fds_def isValid_def)
  then show ?thesis
    using assms e r l c ensure_sock_fds [OF e, of fds] address_calls(1) [OF r] address_calls(2) [OF l] close_fds [OF c, of fds]
    by (auto simp: socket_connect_def Let_def split: if_splits)
qed

lemma step_fds: "socket_step s calls s' \<Longrightarrow> open_fds (own_fds s @ fds) calls = own_fds s' @ fds"
proof (induction rule: socket_step.induct)
  case (step_close s ok s' calls)
  then show ?case using close_fds [OF step_close, of fds] by simp
next
  case (step_remote bo s name a s' calls)
  then show ?case using address_calls(1) [OF step_remote] own_fds_cong [of s s'] by simp
next
  case (step_local bo s name a s' calls)
  then show ?case using address_calls(2) [OF step_local] own_fds_cong [of s s'] by simp
qed (auto simp: socket_listen_def socket_send_def socket_recv_def setOption_def if_connected_def dest: bind_fds connect_fds split: if_splits)

lemma open_fds_mset: "mset fds = mset fds' \<Longrightarrow> mset (open_fds fds calls) = mset (open_fds fds' calls)"
proof (induction calls arbitrary: fds fds')
  case (Cons c calls)
  have "mset (after_call fds c) = mset (after_call fds' c)" using Cons.prems by (cases c) simp_all
  from Cons.IH [OF this] show ?case by simp
qed simp

lemma accept_calls:
  assumes "socket_accept bo s rt ctx lname rname = (r, calls)"
  shows "open_fds fds calls = (if rt = - 1 then fds else rt # fds)"
    and "r = Some s' \<Longrightarrow> own_fds s' = [rt] \<and> so_connected s' \<and> rt \<noteq> - 1"
    and "rt \<noteq> - 1 \<Longrightarrow> r = None \<longleftrightarrow> (case ctx of Some c \<Rightarrow> \<not> m_isSocket c \<or> m_isClose c | None \<Rightarrow> True)"
proof -
  let ?s = "(new_Socket (so_family s) (so_type s) (so_protocol s))\<lparr>so_sock := rt, so_connected := True\<rparr>"
  obtain a s1 c1 where l: "getLocalAddress bo ?s lname = (a, s1, c1)" by (cases "getLocalAddress bo ?s lname") auto
  obtain a' s2 c2 where r: "getRemoteAddress bo s1 rname = (a', s2, c2)" by (cases "getRemoteAddress bo s1 rname") auto
  note facts = assms l r address_calls(2) [OF l] address_calls(1) [OF r]
  show "open_fds fds calls = (if rt = - 1 then fds else rt # fds)"
    using facts by (auto simp: socket_accept_def socket_init_def Let_def split: option.splits if_splits)
  show "r = Some s' \<Longrightarrow> own_fds s' = [rt] \<and> so_connected s' \<and> rt \<noteq> - 1"
    using facts by (auto simp: socket_accept_def socket_init_def Let_def own_fds_def isValid_def split: option.splits if_splits)
  show "rt \<noteq> - 1 \<Longrightarrow> r = None \<longleftrightarrow> (case ctx of Some c \<Rightarrow> \<not> m_isSocket c \<or> m_isClose c | None \<Rightarrow> True)"
    using facts by (auto simp: socket_accept_def socket_init_def Let_def split: option.splits if_splits)
qed

lemma op_fds:
  assumes "mset (open_fds [] calls) = mset (concat (map own_fds (ss1 @ s # ss2)) @ lost)"
    and "\<And>fds. open_fds (own_fds s @ fds) calls' = own @ fds"
  shows "mset (open_fds [] (calls @ calls')) = mset (concat (map own_fds ss1) @ own @ concat (map own_fds ss2) @ lost)"
proof -
  have "mset (open_fds [] calls) = mset (own_fds s @ concat (map own_fds (ss1 @ ss2)) @ lost)" using assms(1) by simp
  from open_fds_mset [OF this, of calls'] show ?thesis using assms(2) by simp
qed

lemma run_fds: "sockets_run calls ss lost \<Longrightarrow> mset (open_fds [] calls) = mset (concat (map own_fds ss) @ lost)"
proof (induction rule: sockets_run.induct)
  case (run_new calls ss lost family type protocol)
  then show ?case by (simp add: own_fds_def new_Socket_def isValid_def)
next
  case (run_op calls ss1 s ss2 lost calls' s')
  then show ?case using op_fds [OF run_op.IH step_fds [OF run_op.hyps(2)]] by simp
next
  case (run_accept calls ss lost s bo rt ctx lname rname s' calls')
  then show ?case using accept_calls(1,2) [OF run_accept.hyps(3)] by simp
next
  case (run_reject calls ss lost s bo rt ctx lname rname calls')
  then show ?case using accept_calls(1) [OF run_reject.hyps(3)] by simp
next
  case (run_destroy calls ss1 s ss2 lost ok s' calls')
  have "open_fds (own_fds s @ fds) calls' = [] @ fds" for fds using close_fds [OF run_destroy.hyps(2)] by simp
  then show ?case using op_fds [OF run_destroy.IH] by simp
qed simp

lemma lost_run:
  assumes "rt \<noteq> - 1"
  shows "\<exists>calls. sockets_run calls [] [rt] \<and> open_fds [] calls = [rt]"
proof -
  let ?s = "new_Socket 2 1 0"
  have "sockets_run [] [?s] []" by (rule run_new [OF run_start])
  from run_reject [OF this, of ?s 1 rt None None None "[SysAccept (- 1) rt]"] assms
  have "sockets_run [SysAccept (- 1) rt] ([] @ ?s # []) [rt]" by (simp add: socket_accept_def socket_init_def new_Socket_def)
  from run_destroy [OF this, of True ?s "[]"] have "sockets_run [SysAccept (- 1) rt] [] [rt]"
    by (simp add: socket_close_def new_Socket_def)
  then show ?thesis using assms by (intro exI [of _ "[SysAccept (- 1) rt]"]) simp
qed

subsection \<open>Properties\<close>

text \<open>C33. A socket object owns at most one descriptor. In a program that creates any number of sockets and runs any
  operations on them, accept and the destructor included, the open descriptors are exactly those that the objects hold,
  one each at most, and those that were accepted without an object. An accept that gets a descriptor returns a
  connected socket that owns it, unless the hooks do not know the descriptor as an open socket: then no object is made, and
  the descriptor stays open with nobody to close it, as the last part shows in a run. A socket that is closed, or destroyed,
  owns nothing, and a connect that succeeds leaves a valid, connected socket.\<close>

theorem socket_owns_descriptor:
  assumes "sockets_run calls ss lost"
  shows "mset (open_fds [] calls) = mset (concat (map own_fds ss)) + mset lost \<and>
    (s \<in> set ss \<and> rt \<noteq> - 1 \<longrightarrow>
       (case socket_accept bo s rt ctx lname rname of (r, calls') \<Rightarrow>
          mset (open_fds [] (calls @ calls')) = {#rt#} + mset (concat (map own_fds ss)) + mset lost \<and>
          (case r of Some s' \<Rightarrow> own_fds s' = [rt] \<and> so_connected s' | None \<Rightarrow> True) \<and>
          (r = None \<longleftrightarrow> (case ctx of Some c \<Rightarrow> \<not> m_isSocket c \<or> m_isClose c | None \<Rightarrow> True)))) \<and>
    (case socket_close s of (_, s', _) \<Rightarrow> \<not> isValid s' \<and> \<not> so_connected s') \<and>
    (case socket_connect bo s addr t sock_rt conn_rt lname rname of (ok, s', _) \<Rightarrow> ok \<longrightarrow> isValid s' \<and> so_connected s') \<and>
    (rt \<noteq> - 1 \<longrightarrow> (\<exists>calls'. sockets_run calls' [] [rt] \<and> open_fds [] calls' = [rt]))"
proof (intro conjI impI)
  note run = run_fds [OF assms]
  show "mset (open_fds [] calls) = mset (concat (map own_fds ss)) + mset lost" using run by simp
  obtain r calls' where acc: "socket_accept bo s rt ctx lname rname = (r, calls')" by fastforce
  show "case socket_accept bo s rt ctx lname rname of (r, calls') \<Rightarrow>
      mset (open_fds [] (calls @ calls')) = {#rt#} + mset (concat (map own_fds ss)) + mset lost \<and>
      (case r of Some s' \<Rightarrow> own_fds s' = [rt] \<and> so_connected s' | None \<Rightarrow> True) \<and>
      (r = None \<longleftrightarrow> (case ctx of Some c \<Rightarrow> \<not> m_isSocket c \<or> m_isClose c | None \<Rightarrow> True))"
    if "s \<in> set ss \<and> rt \<noteq> - 1"
    using that run acc accept_calls(1) [OF acc] accept_calls(3) [OF acc] accept_calls(2) [OF acc] by (cases r) simp_all
  show "case socket_close s of (_, s', _) \<Rightarrow> \<not> isValid s' \<and> \<not> so_connected s'"
    by (auto simp: socket_close_def isValid_def)
  show "case socket_connect bo s addr t sock_rt conn_rt lname rname of (ok, s', _) \<Rightarrow> ok \<longrightarrow> isValid s' \<and> so_connected s'"
    using connect_fds by (fastforce split: prod.split)
  show "\<exists>calls'. sockets_run calls' [] [rt] \<and> open_fds [] calls' = [rt]" if "rt \<noteq> - 1"
    using that by (rule lost_run)
qed

theorem socket_owns_descriptor_witness:
  "mset (open_fds [] (snd (snd (socket_bind 1 (new_Socket 2 1 0) (IPv4Address (new_IPv4Address 1 0 80)) 7 0 None)))) = {#7#} \<and>
   (\<exists>calls. sockets_run calls [] [9] \<and> open_fds [] calls = [9])"
proof -
  let ?r = "socket_bind 1 (new_Socket 2 1 0) (IPv4Address (new_IPv4Address 1 0 80)) 7 0 None"
  obtain ok s calls where r: "?r = (ok, s, calls)" by (cases ?r)
  have "so_sock (fst (snd ?r)) = 7" by code_simp
  then have own: "own_fds s = [7]" using r by (simp add: own_fds_def isValid_def)
  have "sockets_run [] ([] @ new_Socket 2 1 0 # []) []" using run_new [OF run_start] by simp
  from run_op [OF this step_bind [OF r]] have run: "sockets_run calls [s] []" by simp
  show ?thesis using socket_owns_descriptor [OF run, where rt = 9] own r by simp
qed

lemma to_int32_small: "0 \<le> v \<Longrightarrow> v < 2 ^ 31 \<Longrightarrow> to_int32 v = v"
  by (simp add: to_int32_def sint_sbintrunc' signed_take_bit_int_eq_self)

lemma timeval_of_nonneg:
  "0 \<le> v \<Longrightarrow> v < 2147483648000 \<Longrightarrow> timeval_of v = OptTimeval (v div 1000) (v mod 1000 * 1000)"
proof -
  assume v: "0 \<le> v" "v < 2147483648000"
  have "v div 1000 < 2 ^ 31" using v by simp
  moreover have "v mod 1000 * 1000 < 2 ^ 31" using pos_mod_bound [of 1000 v] by simp
  moreover have "c_div v 1000 = v div 1000" "c_mod v 1000 = v mod 1000"
    using v by (auto simp: c_div_def c_mod_def sgn_if minus_mult_div_eq_mod)
  ultimately show ?thesis using v by (simp add: timeval_of_def to_int32_small)
qed

text \<open>A timeout that a client sets on a socket is the one the hooks wait for: reading it back gives the
  same number of milliseconds, up to the range of a 32 bit count of seconds, and the timeout of
  the other direction is kept.\<close>

theorem timeout_roundtrip:
  assumes "0 \<le> v" and "v < 2147483648000"
  shows "getRecvTimeOut (setRecvTimeOut True (Some c) v) = v \<and> getSendTimeOut (setRecvTimeOut True (Some c) v) = getSendTimeOut (Some c) \<and>
         getSendTimeOut (setSendTimeOut True (Some c) v) = v \<and> getRecvTimeOut (setSendTimeOut True (Some c) v) = getRecvTimeOut (Some c)"
proof -
  have "v div 1000 * 1000 + v mod 1000 * 1000 div 1000 = v" by simp
  moreover have "sint (word_of_int v :: u64) = v" using assms by (simp add: sint_sbintrunc' signed_take_bit_int_eq_self)
  ultimately show ?thesis
    using assms
    by (simp add: getRecvTimeOut_def getSendTimeOut_def setRecvTimeOut_def setSendTimeOut_def timeval_of_nonneg hook_setsockopt_def
        setTimeout_def getTimeout_def SO_RCVTIMEO_def SO_SNDTIMEO_def)
qed

theorem timeout_roundtrip_witness: "getRecvTimeOut (setRecvTimeOut True (Some (fst (new_FdCtx 5 (Some True) 0))) 1500) = 1500"
  using timeout_roundtrip [of 1500 "fst (new_FdCtx 5 (Some True) 0)"] by simp

end
