(* ===== verification/SocketStream.thy ===== *)
theory SocketStream
  imports Socket_Props
begin

text \<open>
  \<^verbatim>\<open>code/stream.cc\<close> and \<^verbatim>\<open>code/socket_stream.cc\<close> on plain buffers. A connection is described by the bytes
  the peer has sent, by what each call of \<^verbatim>\<open>recv\<close> and \<^verbatim>\<open>send\<close> does (move up to so many bytes, or fail),
  and by the bytes that went out; when the list of replies is at its end the peer has closed. The loops
  of \<^verbatim>\<open>readFixSize\<close> and \<^verbatim>\<open>writeFixSize\<close> compute with \<^verbatim>\<open>size_t\<close>; a copy outside the buffer is an error.
\<close>

datatype reply = Moved nat | Failed

record connection =
  cn_connected :: bool
  cn_incoming :: string
  cn_recv :: "reply list"
  cn_outgoing :: string
  cn_send :: "reply list"

datatype stream_error = BadWrite | BadRead

definition stream_read :: "nat \<Rightarrow> connection \<Rightarrow> int \<times> string \<times> connection" where
  "stream_read n c =
     (if \<not> cn_connected c then (- 1, [], c)
      else case cn_recv c of [] \<Rightarrow> (0, [], c)
      | Failed # rs \<Rightarrow> (- 1, [], c\<lparr>cn_recv := rs\<rparr>)
      | Moved k # rs \<Rightarrow>
          let d = take (min k n) (cn_incoming c) in
          (to_int32 (int (length d)), d, c\<lparr>cn_incoming := drop (length d) (cn_incoming c), cn_recv := rs\<rparr>))"

definition stream_write :: "string \<Rightarrow> connection \<Rightarrow> int \<times> connection" where
  "stream_write data c =
     (if \<not> cn_connected c then (- 1, c)
      else case cn_send c of [] \<Rightarrow> (0, c)
      | Failed # rs \<Rightarrow> (- 1, c\<lparr>cn_send := rs\<rparr>)
      | Moved k # rs \<Rightarrow>
          let d = take k data in
          (to_int32 (int (length d)), c\<lparr>cn_outgoing := cn_outgoing c @ d, cn_send := rs\<rparr>))"

text \<open>The result \<open>None\<close>: the loop has not ended after \<open>fuel\<close> rounds.\<close>

fun readFix_loop ::
  "nat \<Rightarrow> connection \<Rightarrow> string \<Rightarrow> u64 \<Rightarrow> u64 \<Rightarrow> u64 \<Rightarrow> (stream_error + int \<times> string \<times> connection) option" where
  "readFix_loop 0 c buf offset left sz = None"
| "readFix_loop (Suc fuel) c buf offset left sz =
     (if left = 0 then Some (Inr (sint (ucast sz :: u32), buf, c))
      else let (r, d, c) = stream_read (unat left) c; len = word_of_int r :: u64 in
        if d \<noteq> [] \<and> length buf < unat offset + length d then Some (Inl BadWrite)
        else let buf = memcpy_at buf (unat offset) d in
          if len = 0 then Some (Inr (0, buf, c))
          else readFix_loop fuel c buf (offset + len) (left - len) sz)"

definition readFixSize ::
  "nat \<Rightarrow> connection \<Rightarrow> string \<Rightarrow> u64 \<Rightarrow> (stream_error + int \<times> string \<times> connection) option" where
  "readFixSize fuel c buf sz = readFix_loop fuel c buf 0 sz sz"

fun writeFix_loop ::
  "nat \<Rightarrow> connection \<Rightarrow> string \<Rightarrow> u64 \<Rightarrow> u64 \<Rightarrow> u64 \<Rightarrow> (stream_error + int \<times> connection) option" where
  "writeFix_loop 0 c data offset left sz = None"
| "writeFix_loop (Suc fuel) c data offset left sz =
     (if left = 0 then Some (Inr (sint (ucast sz :: u32), c))
      else if length data < unat offset + unat left then Some (Inl BadRead)
      else let (r, c) = stream_write (take (unat left) (drop (unat offset) data)) c; len = word_of_int r :: u64 in
        if len = 0 then Some (Inr (0, c))
        else writeFix_loop fuel c data (offset + len) (left - len) sz)"

definition writeFixSize :: "nat \<Rightarrow> connection \<Rightarrow> string \<Rightarrow> u64 \<Rightarrow> (stream_error + int \<times> connection) option" where
  "writeFixSize fuel c data sz = writeFix_loop fuel c data 0 sz sz"

definition stream_close :: "connection \<Rightarrow> connection" where
  "stream_close c = c\<lparr>cn_connected := False\<rparr>"

definition stream_destroy :: "bool \<Rightarrow> connection \<Rightarrow> connection" where
  "stream_destroy owner c = (if owner then stream_close c else c)"

subsection \<open>Reads and writes without errors\<close>

definition progress :: "reply \<Rightarrow> bool" where
  "progress r = (case r of Moved k \<Rightarrow> 0 < k | Failed \<Rightarrow> False)"

lemma to_int32_nat: "n < 2 ^ 31 \<Longrightarrow> to_int32 (int n) = int n"
  by (rule to_int32_small) simp_all

lemma of_nat_word_neq_0: "0 < n \<Longrightarrow> n < 2 ^ 64 \<Longrightarrow> (of_nat n :: u64) \<noteq> 0"
proof
  assume n: "0 < n" "n < 2 ^ 64" and "(of_nat n :: u64) = 0"
  then have "unat (of_nat n :: u64) = 0" by simp
  then show False using n by (simp add: unat_of_nat)
qed

lemma stream_read_frame:
  assumes "stream_read n c = (r, d, c')"
  shows "cn_connected c' = cn_connected c" and "cn_outgoing c' = cn_outgoing c" and "cn_send c' = cn_send c"
    and "r \<noteq> 0 \<Longrightarrow> cn_connected c \<Longrightarrow> length (cn_recv c') < length (cn_recv c)"
    and "length (cn_recv c') \<le> length (cn_recv c)" and "length d \<le> n"
  using assms by (auto simp: stream_read_def Let_def split: if_splits list.splits reply.splits)

lemma stream_read_progress:
  assumes "cn_connected c" and "cn_recv c = r # rs" and "progress r" and "0 < n" and "cn_incoming c \<noteq> []" and "n < 2 ^ 31"
  obtains k where "0 < k" and "k \<le> n" and "k \<le> length (cn_incoming c)"
    and "stream_read n c = (int k, take k (cn_incoming c), c\<lparr>cn_incoming := drop k (cn_incoming c), cn_recv := rs\<rparr>)"
proof -
  obtain j where r: "r = Moved j" "0 < j" using assms(3) by (auto simp: progress_def split: reply.splits)
  let ?k = "min (length (cn_incoming c)) (min j n)"
  have "to_int32 (int ?k) = int ?k" using assms(6) by (intro to_int32_nat) simp
  then have "stream_read n c = (int ?k, take ?k (cn_incoming c), c\<lparr>cn_incoming := drop ?k (cn_incoming c), cn_recv := rs\<rparr>)"
    using assms r by (auto simp: stream_read_def Let_def min_def)
  then show thesis using that [of ?k] assms r by auto
qed

lemma readFix_loop_ok:
  assumes "cn_connected c" and "n < 2 ^ 31" and "pos + n < 2 ^ 64" and "pos + n \<le> length buf" and "n \<le> length (cn_incoming c)"
    and "list_all progress (cn_recv c)" and "n \<le> length (cn_recv c)" and "n < fuel"
  shows "\<exists>rs. readFix_loop fuel c buf (of_nat pos) (of_nat n) sz =
     Some (Inr (sint (ucast sz :: u32), memcpy_at buf pos (take n (cn_incoming c)),
                c\<lparr>cn_incoming := drop n (cn_incoming c), cn_recv := rs\<rparr>)) \<and> list_all progress rs"
  using assms
proof (induction fuel arbitrary: c n pos buf)
  case (Suc fuel)
  show ?case
  proof (cases "n = 0")
    case True
    then show ?thesis using Suc.prems by (intro exI [of _ "cn_recv c"]) simp
  next
    case False
    obtain r rs where recv: "cn_recv c = r # rs" using Suc.prems(7) False by (cases "cn_recv c") auto
    have n: "unat (of_nat n :: u64) = n" "unat (of_nat pos :: u64) = pos" "(of_nat n :: u64) \<noteq> 0"
      using Suc.prems(3) False of_nat_word_neq_0 [of n] by (auto simp: unat_of_nat)
    have "cn_incoming c \<noteq> []" using Suc.prems(5) False by auto
    then obtain k where k: "0 < k" "k \<le> n" "k \<le> length (cn_incoming c)"
      "stream_read n c = (int k, take k (cn_incoming c), c\<lparr>cn_incoming := drop k (cn_incoming c), cn_recv := rs\<rparr>)"
      using stream_read_progress [OF Suc.prems(1) recv, of n] Suc.prems False recv by auto
    let ?c = "c\<lparr>cn_incoming := drop k (cn_incoming c), cn_recv := rs\<rparr>" and ?buf = "memcpy_at buf pos (take k (cn_incoming c))"
    have len: "length ?buf = length buf" using Suc.prems k by (intro length_memcpy_at) simp
    have "\<exists>rs'. readFix_loop fuel ?c ?buf (of_nat (pos + k)) (of_nat (n - k)) sz =
        Some (Inr (sint (ucast sz :: u32), memcpy_at ?buf (pos + k) (take (n - k) (cn_incoming ?c)),
          ?c\<lparr>cn_incoming := drop (n - k) (cn_incoming ?c), cn_recv := rs'\<rparr>)) \<and> list_all progress rs'"
      using Suc.prems k recv len by (intro Suc.IH) auto
    moreover have "memcpy_at ?buf (pos + k) (take (n - k) (cn_incoming ?c)) = memcpy_at buf pos (take n (cn_incoming c))"
    proof -
      have "length (take k (cn_incoming c)) = k" "length (take (n - k) (drop k (cn_incoming c))) = n - k"
        "take k (cn_incoming c) @ take (n - k) (drop k (cn_incoming c)) = take n (cn_incoming c)"
        using k Suc.prems(5) take_add [of k "n - k" "cn_incoming c"] by auto
      then show ?thesis
        using memcpy_at_append [of pos "take k (cn_incoming c)" "take (n - k) (drop k (cn_incoming c))" buf] Suc.prems(4) k(2) by simp
    qed
    moreover have "(word_of_int (int k) :: u64) \<noteq> 0" using k Suc.prems of_nat_word_neq_0 [of k] by simp
    ultimately show ?thesis
      using n k Suc.prems by (simp add: Let_def min_def)
  qed
qed simp

lemma stream_write_progress:
  assumes "cn_connected c" and "cn_send c = r # rs" and "progress r" and "data \<noteq> []" and "length data < 2 ^ 31"
  obtains k where "0 < k" and "k \<le> length data"
    and "stream_write data c = (int k, c\<lparr>cn_outgoing := cn_outgoing c @ take k data, cn_send := rs\<rparr>)"
proof -
  obtain j where r: "r = Moved j" "0 < j" using assms(3) by (auto simp: progress_def split: reply.splits)
  let ?k = "min (length data) j"
  have "to_int32 (int ?k) = int ?k" using assms(5) by (intro to_int32_nat) simp
  then have "stream_write data c = (int ?k, c\<lparr>cn_outgoing := cn_outgoing c @ take ?k data, cn_send := rs\<rparr>)"
    using assms r by (auto simp: stream_write_def Let_def min_def)
  then show thesis using that [of ?k] assms r by auto
qed

lemma writeFix_loop_ok:
  assumes "cn_connected c" and "pos + n = length data" and "length data < 2 ^ 31"
    and "list_all progress (cn_send c)" and "n \<le> length (cn_send c)" and "n < fuel"
  shows "\<exists>rs. writeFix_loop fuel c data (of_nat pos) (of_nat n) sz =
     Some (Inr (sint (ucast sz :: u32), c\<lparr>cn_outgoing := cn_outgoing c @ drop pos data, cn_send := rs\<rparr>)) \<and> list_all progress rs"
  using assms
proof (induction fuel arbitrary: c n pos)
  case (Suc fuel)
  show ?case
  proof (cases "n = 0")
    case True
    then show ?thesis using Suc.prems by (intro exI [of _ "cn_send c"]) simp
  next
    case False
    obtain r rs where send: "cn_send c = r # rs" using Suc.prems(5) False by (cases "cn_send c") auto
    have n: "unat (of_nat n :: u64) = n" "unat (of_nat pos :: u64) = pos" "(of_nat n :: u64) \<noteq> 0"
      using Suc.prems(2,3) False of_nat_word_neq_0 [of n] by (auto simp: unat_of_nat)
    have d: "take n (drop pos data) = drop pos data" "drop pos data \<noteq> []" "length (drop pos data) = n" using Suc.prems(2) False by auto
    obtain k where k: "0 < k" "k \<le> n"
      "stream_write (drop pos data) c = (int k, c\<lparr>cn_outgoing := cn_outgoing c @ take k (drop pos data), cn_send := rs\<rparr>)"
      using stream_write_progress [OF Suc.prems(1) send _ d(2)] Suc.prems send d by auto
    let ?c = "c\<lparr>cn_outgoing := cn_outgoing c @ take k (drop pos data), cn_send := rs\<rparr>"
    have "\<exists>rs'. writeFix_loop fuel ?c data (of_nat (pos + k)) (of_nat (n - k)) sz =
        Some (Inr (sint (ucast sz :: u32), ?c\<lparr>cn_outgoing := cn_outgoing ?c @ drop (pos + k) data, cn_send := rs'\<rparr>)) \<and> list_all progress rs'"
      using Suc.prems k send by (intro Suc.IH) auto
    moreover have "take k (drop pos data) @ drop (pos + k) data = drop pos data"
      using append_take_drop_id [of k "drop pos data"] by (simp add: add.commute)
    moreover have "(word_of_int (int k) :: u64) \<noteq> 0" using k Suc.prems of_nat_word_neq_0 [of k] by simp
    ultimately show ?thesis
      using n k d Suc.prems by (simp add: Let_def)
  qed
qed simp

lemma sint_ucast_size: "n < 2 ^ 31 \<Longrightarrow> sint (ucast (of_nat n :: u64) :: u32) = int n"
  using sint_ucast_small [of "of_nat n"] by (simp add: uint_nat unat_of_nat)

subsection \<open>Reads that fail\<close>

lemma unat_max: "unat (- 1 :: u64) = 2 ^ 64 - 1"
  by (simp add: unsigned_minus_1_eq_mask mask_eq_exp_minus_1)

lemma closed_read_loops:
  assumes "\<not> cn_connected c"
  shows "left \<noteq> 0 \<Longrightarrow> fuel + unat left \<le> 2 ^ 64 \<Longrightarrow> readFix_loop fuel c buf offset left sz = None"
proof (induction fuel arbitrary: offset left)
  case (Suc fuel)
  have read: "stream_read (unat left) c = (- 1, [], c)" using assms by (simp add: stream_read_def)
  show ?case
  proof (cases "left + 1 = 0")
    case True
    then have "left = - 1" using add_eq_0_iff2 by blast
    then have "fuel = 0" using Suc.prems(2) unat_max by simp
    then show ?thesis using read Suc.prems by (simp add: Let_def)
  next
    case False
    then have "unat (left + 1) = unat left + 1" using unatSuc [of left] by (simp add: add.commute)
    then have "readFix_loop fuel c buf (offset - 1) (left + 1) sz = None" using Suc False by (intro Suc.IH) simp_all
    then show ?thesis using read Suc.prems by (simp add: Let_def)
  qed
qed simp

subsection \<open>Properties\<close>

text \<open>C29. Reading a fixed number of bytes returns that number and exactly the next bytes of the stream,
  however the bytes are cut into pieces, as long as no read fails or finds the end; writing a fixed
  number of bytes sends exactly these. Both loops end.\<close>

theorem fix_size_exact:
  assumes "cn_connected c" and "n < 2 ^ 31" and "n = length buf" and "n \<le> length (cn_incoming c)" and "list_all progress (cn_recv c)"
    and "n \<le> length (cn_recv c)" and "n < fuel"
    and "length data < 2 ^ 31" and "list_all progress (cn_send c)" and "length data \<le> length (cn_send c)" and "length data < fuel"
  shows "(\<exists>rs. readFixSize fuel c buf (of_nat n) =
            Some (Inr (int n, take n (cn_incoming c), c\<lparr>cn_incoming := drop n (cn_incoming c), cn_recv := rs\<rparr>))) \<and>
         (\<exists>rs. writeFixSize fuel c data (of_nat (length data)) =
            Some (Inr (int (length data), c\<lparr>cn_outgoing := cn_outgoing c @ data, cn_send := rs\<rparr>)))"
proof -
  have "memcpy_at buf 0 (take n (cn_incoming c)) = take n (cn_incoming c)" using assms(3,4) by (simp add: memcpy_at_def)
  then have "\<exists>rs. readFixSize fuel c buf (of_nat n) =
      Some (Inr (int n, take n (cn_incoming c), c\<lparr>cn_incoming := drop n (cn_incoming c), cn_recv := rs\<rparr>))"
    using readFix_loop_ok [of c n 0 buf fuel "of_nat n"] assms by (auto simp: readFixSize_def sint_ucast_size)
  then show ?thesis
    using writeFix_loop_ok [of c 0 "length data" data fuel "of_nat (length data)"] assms by (auto simp: writeFixSize_def sint_ucast_size)
qed

theorem fix_size_exact_witness:
  "\<exists>rs. readFixSize 4 \<lparr>cn_connected = True, cn_incoming = ''abcd'', cn_recv = [Moved 1, Moved 5, Moved 1], cn_outgoing = [], cn_send = [Moved 1]\<rparr>
       ''???'' (of_nat 3) = Some (Inr (3, ''abc'', \<lparr>cn_connected = True, cn_incoming = ''d'', cn_recv = rs, cn_outgoing = [], cn_send = [Moved 1]\<rparr>))"
  using fix_size_exact [of "\<lparr>cn_connected = True, cn_incoming = ''abcd'', cn_recv = [Moved 1, Moved 5, Moved 1], cn_outgoing = [], cn_send = [Moved 1]\<rparr>"
    3 "''???''" 4 "''x''"] by (auto simp: progress_def)

text \<open>C17. The loop of \<^verbatim>\<open>readFixSize\<close> does not notice a failed read: the length -1 is stored without its sign, so the test for an
  error never sees it. When the first read fails and the second one delivers something, these bytes are written in front of
  the buffer. On a stream that is not connected, where every read fails at once, the loop neither returns nor fails for almost \<open>2\<^sup>6\<^sup>4\<close> rounds: the number of
  rounds and the size together have to pass that number.\<close>

theorem failed_read_unnoticed:
  assumes "size_requested \<noteq> 0"
  shows "(cn_connected c \<and> cn_recv c = Failed # Moved k # rs \<and> 0 < k \<and> cn_incoming c \<noteq> [] \<and> size_requested \<noteq> - 1 \<and> length buf < 2 ^ 63 \<and> 2 \<le> fuel \<longrightarrow>
           readFixSize fuel c buf size_requested = Some (Inl BadWrite)) \<and>
         (\<not> cn_connected d \<and> fuel' + unat size_requested \<le> 2 ^ 64 \<longrightarrow> readFixSize fuel' d buf size_requested = None)"
proof (intro conjI impI)
  assume a: "cn_connected c \<and> cn_recv c = Failed # Moved k # rs \<and> 0 < k \<and> cn_incoming c \<noteq> [] \<and> size_requested \<noteq> - 1 \<and> length buf < 2 ^ 63 \<and> 2 \<le> fuel"
  then obtain f where f: "fuel = Suc (Suc f)" by (metis Suc_le_D numeral_2_eq_2 Suc_le_mono)
  have "size_requested + 1 \<noteq> 0" using a add_eq_0_iff2 by blast
  moreover from this have "unat (size_requested + 1) \<noteq> 0" by (simp add: unat_eq_zero)
  moreover have "take (min k (unat (size_requested + 1))) (cn_incoming c) \<noteq> []" using a calculation by simp
  ultimately show "readFixSize fuel c buf size_requested = Some (Inl BadWrite)"
    using assms a unat_max by (simp add: f readFixSize_def stream_read_def Let_def del: take_eq_Nil)
next
  assume "\<not> cn_connected d \<and> fuel' + unat size_requested \<le> 2 ^ 64"
  then show "readFixSize fuel' d buf size_requested = None"
    unfolding readFixSize_def using assms by (intro closed_read_loops) simp_all
qed

theorem failed_read_unnoticed_witness:
  "readFixSize 9 \<lparr>cn_connected = True, cn_incoming = ''abcd'', cn_recv = [Failed, Moved 4], cn_outgoing = [], cn_send = []\<rparr> ''????'' 4 =
     Some (Inl BadWrite) \<and>
   readFixSize 1000000 \<lparr>cn_connected = False, cn_incoming = ''abcd'', cn_recv = [], cn_outgoing = [], cn_send = []\<rparr> ''????'' 4 = None"
  using failed_read_unnoticed [of 4 "\<lparr>cn_connected = True, cn_incoming = ''abcd'', cn_recv = [Failed, Moved 4], cn_outgoing = [], cn_send = []\<rparr>"
    4 "[]" "''????''" 9 "\<lparr>cn_connected = False, cn_incoming = ''abcd'', cn_recv = [], cn_outgoing = [], cn_send = []\<rparr>" 1000000] by simp

end
