(* ===== verification/HttpSession.thy ===== *)
theory HttpSession
  imports Http_Parser SocketStream
begin

text \<open>
  \<^verbatim>\<open>http/http_session.cc\<close> and \<^verbatim>\<open>http/http_server.cc\<close>. The buffer of \<^verbatim>\<open>recvRequest\<close> is 100 bytes of uninitialised
  memory, and the parser's structure is allocated with whatever it holds; both are arguments. The
  remaining part of a body is read into the reserved space behind the end of the string, which the
  string does not contain. Allocation does not fail.
\<close>

datatype session_error = InParser http_error | InStream stream_error | Endless

definition buff_size :: nat where "buff_size = 100"

lemma read_shrinks:
  "stream_read n c = (r, d, c') \<Longrightarrow> \<not> r \<le> 0 \<Longrightarrow> length (cn_recv c') < length (cn_recv c)"
  by (auto simp: stream_read_def Let_def split: if_splits list.splits reply.splits)

function recv_loop ::
  "request_parser \<Rightarrow> string \<Rightarrow> nat \<Rightarrow> connection \<Rightarrow> session_error + (request_parser \<times> string \<times> nat) option \<times> connection" where
  "recv_loop parser data offset c =
     (let (len, d, c) = stream_read (buff_size - offset) c in
      if len \<le> 0 then Inr (None, c)
      else let len = nat len + offset in
        case request_execute parser (memcpy_at data offset d) len of
          Inl e \<Rightarrow> Inl (InParser e)
        | Inr (rtParser, parser, data) \<Rightarrow>
            if request_hasError parser then Inr (None, c)
            else let offset = len - rtParser in
              if offset = buff_size then Inr (None, c)
              else if request_isFinished parser \<noteq> 0 then Inr (Some (parser, data, offset), c)
              else recv_loop parser data offset c)"
  by pat_completeness auto
termination
  by (relation "measure (\<lambda>(_, _, _, c). length (cn_recv c))") (auto dest: read_shrinks [OF sym])

declare recv_loop.simps [simp del]

definition fix_fuel :: "reply list \<Rightarrow> nat" where
  "fix_fuel rs = length rs + 1"

definition recv_body ::
  "(string \<Rightarrow> u64 option) \<Rightarrow> request_parser \<Rightarrow> string \<Rightarrow> nat \<Rightarrow> connection \<Rightarrow> session_error + http_request option \<times> connection" where
  "recv_body lexical_cast parser data offset c =
     (let req = m_data parser; length = sint (request_getContentLength lexical_cast parser) in
      if length \<le> 0 then Inr (Some req, c)
      else let body = (if int offset \<le> length then take offset data else take (nat length) data);
               length = length - int offset in
        if length \<le> 0 then Inr (Some (req\<lparr>m_body := body\<rparr>), c)
        else case readFixSize (fix_fuel (cn_recv c)) c (replicate (nat length) (CHR 0x00)) (word_of_int length) of
               None \<Rightarrow> Inl Endless
             | Some (Inl e) \<Rightarrow> Inl (InStream e)
             | Some (Inr (rt, _, c)) \<Rightarrow> if rt \<le> 0 then Inr (None, c) else Inr (Some (req\<lparr>m_body := body\<rparr>), c))"

definition recvRequest ::
  "(string \<Rightarrow> u64 option) \<Rightarrow> http_parser \<Rightarrow> string \<Rightarrow> connection \<Rightarrow> session_error + http_request option \<times> connection" where
  "recvRequest lexical_cast raw buffer c =
     err_bind (recv_loop (new_HttpRequestParser raw) buffer 0 c) (\<lambda>(r, c).
       case r of None \<Rightarrow> Inr (None, c)
       | Some (parser, data, offset) \<Rightarrow> recv_body lexical_cast parser data offset c)"

definition sendResponse :: "http_response \<Rightarrow> connection \<Rightarrow> session_error + int \<times> connection" where
  "sendResponse response c =
     (let data = response_dump response in
      case writeFixSize (fix_fuel (cn_send c)) c data (of_nat (length data)) of
        None \<Rightarrow> Inl Endless | Some (Inl e) \<Rightarrow> Inl (InStream e) | Some (Inr (rt, c)) \<Rightarrow> Inr (rt, c))"

subsection \<open>Every call returns\<close>

text \<open>
  A connected stream makes the loops of \<^verbatim>\<open>stream.cc\<close> end: every round uses up a reply, and when there are
  none left the peer has closed. The fuel of the calls above is therefore enough.
\<close>

lemma readFix_returns:
  assumes "cn_connected c" and "length (cn_recv c) < fuel"
  shows "readFix_loop fuel c buf offset left sz \<noteq> None \<and>
     (\<forall>r buf' c'. readFix_loop fuel c buf offset left sz = Some (Inr (r, buf', c')) \<longrightarrow>
        cn_connected c' \<and> cn_send c' = cn_send c \<and> cn_outgoing c' = cn_outgoing c \<and> length (cn_recv c') \<le> length (cn_recv c))"
  using assms
proof (induction fuel arbitrary: c buf offset left)
  case (Suc fuel)
  obtain r d c1 where read: "stream_read (unat left) c = (r, d, c1)" by (cases "stream_read (unat left) c")
  have c1: "cn_connected c1" "cn_send c1 = cn_send c" "cn_outgoing c1 = cn_outgoing c" "length (cn_recv c1) \<le> length (cn_recv c)"
    and less: "r \<noteq> 0 \<Longrightarrow> length (cn_recv c1) < length (cn_recv c)"
    using stream_read_frame [OF read] Suc.prems(1) by auto
  have "(word_of_int r :: u64) \<noteq> 0 \<Longrightarrow> r \<noteq> 0" by auto
  then show ?case
    using read c1 Suc.prems(1) less Suc.prems(2) Suc.IH [of c1 "memcpy_at buf (unat offset) d" "offset + word_of_int r" "left - word_of_int r"]
    by (cases "(word_of_int r :: u64) = 0") (auto simp: Let_def)
qed simp

lemma writeFix_returns:
  assumes "cn_connected c" and "length (cn_send c) < fuel"
  shows "writeFix_loop fuel c data offset left sz \<noteq> None \<and>
     (\<forall>r c'. writeFix_loop fuel c data offset left sz = Some (Inr (r, c')) \<longrightarrow>
        cn_connected c' \<and> cn_recv c' = cn_recv c \<and> cn_incoming c' = cn_incoming c)"
  using assms
proof (induction fuel arbitrary: c offset left)
  case (Suc fuel)
  let ?d = "take (unat left) (drop (unat offset) data)"
  obtain r c1 where w: "stream_write ?d c = (r, c1)" by (cases "stream_write ?d c")
  have c1: "cn_connected c1" "cn_recv c1 = cn_recv c" "cn_incoming c1 = cn_incoming c"
    and less: "r \<noteq> 0 \<Longrightarrow> length (cn_send c1) < length (cn_send c)"
    using w Suc.prems(1) by (auto simp: stream_write_def Let_def split: if_splits list.splits reply.splits)
  let ?rec = "writeFix_loop fuel c1 data (offset + word_of_int r) (left - word_of_int r) sz"
  have eq: "writeFix_loop (Suc fuel) c data offset left sz =
      (if left = 0 then Some (Inr (sint (ucast sz :: u32), c)) else if length data < unat offset + unat left then Some (Inl BadRead)
       else if (word_of_int r :: u64) = 0 then Some (Inr (0, c1)) else ?rec)"
    by (simp only: writeFix_loop.simps Let_def w prod.case)
  have "(word_of_int r :: u64) \<noteq> 0 \<Longrightarrow> length (cn_send c1) < fuel" using less Suc.prems(2) by fastforce
  then have rec: "(word_of_int r :: u64) \<noteq> 0 \<Longrightarrow> ?rec \<noteq> None \<and> (\<forall>r c'. ?rec = Some (Inr (r, c')) \<longrightarrow>
        cn_connected c' \<and> cn_recv c' = cn_recv c \<and> cn_incoming c' = cn_incoming c)"
    using Suc.IH [OF c1(1)] c1 by metis
  consider "left = 0" | "left \<noteq> 0" "length data < unat offset + unat left"
    | "left \<noteq> 0" "\<not> length data < unat offset + unat left" "(word_of_int r :: u64) = 0"
    | "left \<noteq> 0" "\<not> length data < unat offset + unat left" "(word_of_int r :: u64) \<noteq> 0" by blast
  then show ?case
  proof cases
    case 1
    then have "writeFix_loop (Suc fuel) c data offset left sz = Some (Inr (sint (ucast sz :: u32), c))" by (subst eq) (simp only: if_True simp_thms)
    then show ?thesis using Suc.prems(1) by (simp del: writeFix_loop.simps)
  next
    case 2
    then have "writeFix_loop (Suc fuel) c data offset left sz = Some (Inl BadRead)" by (simp only: eq if_True if_False)
    then show ?thesis by (simp del: writeFix_loop.simps)
  next
    case 3
    then have "writeFix_loop (Suc fuel) c data offset left sz = Some (Inr (0, c1))" by (simp only: eq if_True if_False simp_thms)
    then show ?thesis using c1 by (simp del: writeFix_loop.simps)
  next
    case 4
    then have e: "writeFix_loop (Suc fuel) c data offset left sz = ?rec" by (simp only: eq if_False)
    show ?thesis unfolding e by (rule rec [OF 4(3)])
  qed
qed simp

lemma recv_loop_step:
  assumes "stream_read (buff_size - offset) c = (len, d, c1)" and "\<not> len \<le> 0"
    and "request_execute parser (memcpy_at data offset d) (nat len + offset) = Inr (rt, parser', data')"
  shows "recv_loop parser data offset c =
    (if request_hasError parser' then Inr (None, c1)
     else if nat len + offset - rt = buff_size then Inr (None, c1)
     else if request_isFinished parser' \<noteq> 0 then Inr (Some (parser', data', nat len + offset - rt), c1)
     else recv_loop parser' data' (nat len + offset - rt) c1)"
  using assms by (subst recv_loop.simps) (simp add: Let_def)

lemma recv_loop_stop:
  "stream_read (buff_size - offset) c = (len, d, c1) \<Longrightarrow> len \<le> 0 \<Longrightarrow> recv_loop parser data offset c = Inr (None, c1)"
  "\<lbrakk>stream_read (buff_size - offset) c = (len, d, c1); \<not> len \<le> 0; request_execute parser (memcpy_at data offset d) (nat len + offset) = Inl e\<rbrakk>
     \<Longrightarrow> recv_loop parser data offset c = Inl (InParser e)"
  by (subst recv_loop.simps, simp)+

lemma recv_loop_frame:
  "recv_loop parser data offset c = Inr (r, c') \<Longrightarrow>
     cn_connected c' = cn_connected c \<and> cn_send c' = cn_send c \<and> cn_outgoing c' = cn_outgoing c \<and>
     length (cn_recv c') \<le> length (cn_recv c) \<and> (r \<noteq> None \<longrightarrow> cn_connected c \<and> length (cn_recv c') < length (cn_recv c))"
proof (induction "length (cn_recv c)" arbitrary: parser data offset c rule: less_induct)
  case less
  obtain len d c1 where read: "stream_read (buff_size - offset) c = (len, d, c1)" by (cases "stream_read (buff_size - offset) c")
  have c1: "cn_connected c1 = cn_connected c" "cn_send c1 = cn_send c" "cn_outgoing c1 = cn_outgoing c"
    "length (cn_recv c1) \<le> length (cn_recv c)" using stream_read_frame [OF read] by auto
  have short: "\<not> len \<le> 0 \<Longrightarrow> cn_connected c \<and> length (cn_recv c1) < length (cn_recv c)"
    using read read_shrinks [OF read] by (auto simp: stream_read_def split: if_splits)
  show ?case
  proof (cases "len \<le> 0")
    case True
    then show ?thesis using less.prems recv_loop_stop(1) [OF read True] c1 by simp
  next
    case False
    note ex = less.prems recv_loop_stop(2) [OF read False] recv_loop_step [OF read False]
    obtain rt p dat where x: "request_execute parser (memcpy_at data offset d) (nat len + offset) = Inr (rt, p, dat)"
      using ex by (cases "request_execute parser (memcpy_at data offset d) (nat len + offset)") auto
    have "recv_loop p dat (nat len + offset - rt) c1 = Inr (r, c') \<Longrightarrow> ?thesis"
      using less.hyps [of c1 p dat "nat len + offset - rt"] short [OF False] c1 by auto
    then show ?thesis using ex(1) c1 short [OF False] unfolding recv_loop_step [OF read False x] by (auto split: if_splits)
  qed
qed

lemma fix_fuel_enough [simp]: "length rs < fix_fuel rs"
  by (simp add: fix_fuel_def)

lemma recv_body_frame:
  assumes "recv_body lexical_cast parser data offset c = Inr (r, c')" and "cn_connected c"
  shows "cn_connected c' \<and> cn_send c' = cn_send c \<and> cn_outgoing c' = cn_outgoing c \<and> length (cn_recv c') \<le> length (cn_recv c)"
  using assms readFix_returns [OF assms(2) fix_fuel_enough]
  by (auto simp: recv_body_def Let_def readFixSize_def split: if_splits option.splits sum.splits)

lemma recvRequest_frame:
  assumes "recvRequest lexical_cast raw buffer c = Inr (r, c')"
  shows "cn_connected c' = cn_connected c \<and> cn_send c' = cn_send c \<and> cn_outgoing c' = cn_outgoing c \<and>
     length (cn_recv c') \<le> length (cn_recv c) \<and> (r \<noteq> None \<longrightarrow> cn_connected c \<and> length (cn_recv c') < length (cn_recv c))"
  using assms
  by (auto simp: recvRequest_def err_bind_eq_Inr split: option.splits dest!: recv_loop_frame recv_body_frame)

lemma sendResponse_frame:
  assumes "sendResponse rsp c = Inr (rt, c')" and "cn_connected c"
  shows "cn_connected c' \<and> cn_recv c' = cn_recv c \<and> cn_incoming c' = cn_incoming c"
  using assms writeFix_returns [OF assms(2) fix_fuel_enough]
  by (auto simp: sendResponse_def Let_def writeFixSize_def split: option.splits sum.splits)

lemma recv_loop_not_endless: "recv_loop parser data offset c \<noteq> Inl Endless"
proof (induction "length (cn_recv c)" arbitrary: parser data offset c rule: less_induct)
  case less
  obtain len d c1 where read: "stream_read (buff_size - offset) c = (len, d, c1)" by (cases "stream_read (buff_size - offset) c")
  show ?case
  proof (cases "len \<le> 0")
    case False
    show ?thesis
    proof (cases "request_execute parser (memcpy_at data offset d) (nat len + offset)")
      case (Inr x)
      then obtain rt p dat where x: "request_execute parser (memcpy_at data offset d) (nat len + offset) = Inr (rt, p, dat)" by (cases x) auto
      show ?thesis using less [of c1 p dat "nat len + offset - rt"] read_shrinks [OF read False] recv_loop_step [OF read False x] by simp
    qed (simp add: recv_loop_stop(2) [OF read False])
  qed (simp add: recv_loop_stop(1) [OF read])
qed

lemma recvRequest_not_endless: "recvRequest lexical_cast raw buffer c \<noteq> Inl Endless"
proof (cases "recv_loop (new_HttpRequestParser raw) buffer 0 c")
  case (Inl e)
  then show ?thesis using recv_loop_not_endless [of "new_HttpRequestParser raw" buffer 0 c] by (simp add: recvRequest_def)
next
  case (Inr x)
  then obtain r c' where x: "recv_loop (new_HttpRequestParser raw) buffer 0 c = Inr (r, c')" by (cases x) auto
  have "r \<noteq> None \<Longrightarrow> cn_connected c'" using recv_loop_frame [OF x] by simp
  then have "r \<noteq> None \<Longrightarrow> readFixSize (fix_fuel (cn_recv c')) c' buf n \<noteq> None" for buf n
    unfolding readFixSize_def using readFix_returns [of c', OF _ fix_fuel_enough] by blast
  then show ?thesis
    using x by (auto simp: recvRequest_def recv_body_def Let_def split: option.splits sum.splits) (metis option.distinct(1))
qed

lemma sendResponse_not_endless: "cn_connected c \<Longrightarrow> sendResponse rsp c \<noteq> Inl Endless"
  using writeFix_returns [of c, OF _ fix_fuel_enough]
  by (auto simp: sendResponse_def Let_def writeFixSize_def split: option.splits sum.splits)

end
