(* ===== verification/Http11_States.thy ===== *)
theory Http11_States
  imports Http11_Parser
begin

text \<open>
  The rows of the request machine for the states that a request without a host in its address passes
  through, looked up in the table once.
\<close>

definition visited :: "int \<Rightarrow> bool" where
  "visited cs \<longleftrightarrow> cs \<le> 18 \<or> cs \<in> set [20, 21, 26, 29, 30, 33] \<or> 175 \<le> cs \<and> cs \<le> 193"

definition visited_rows :: "(int \<times> row list) list" where
  "visited_rows = [
      (1, [(48, 57, False, [Mark], 2), (60, 60, False, [Mark], 194), (64, 64, False, [Mark], 198),
         (65, 90, False, [Mark], 2)]),
      (2, [(32, 32, False, [RequestMethod], 3), (48, 57, False, [], 175), (65, 90, False, [], 175)]),
      (3, [(32, 32, False, [Mark, RequestPath, RequestUri], 4), (33, 33, False, [Mark], 19),
         (35, 35, False, [Mark, RequestPath, RequestUri], 20), (36, 36, False, [Mark], 19),
         (37, 37, False, [Mark], 24), (38, 46, False, [Mark], 19), (47, 47, False, [Mark], 33),
         (48, 57, False, [Mark], 19), (59, 59, False, [Mark], 19), (61, 61, False, [Mark], 19),
         (63, 63, False, [Mark, RequestPath], 29), (64, 64, False, [Mark], 19), (65, 90, False, [Mark], 173),
         (95, 95, False, [Mark], 19), (97, 122, False, [Mark], 173), (126, 126, False, [Mark], 19),
         (94, 94, True, [Mark], 19), (123, 123, True, [Mark], 19), (125, 125, True, [Mark], 19)]),
      (4, [(72, 72, False, [Mark], 5)]),
      (5, [(84, 84, False, [], 6)]),
      (6, [(84, 84, False, [], 7)]),
      (7, [(80, 80, False, [], 8)]),
      (8, [(47, 47, False, [], 9)]),
      (9, [(49, 49, False, [], 10)]),
      (10, [(46, 46, False, [], 11)]),
      (11, [(48, 49, False, [], 12)]),
      (12, [(10, 10, False, [HttpVersion], 13), (13, 13, False, [HttpVersion], 17)]),
      (13, [(1, 8, False, [StartField], 14), (10, 10, False, [StartField, Done], 348),
         (11, 12, False, [StartField], 14), (13, 13, False, [StartField], 18), (14, 31, False, [StartField], 14),
         (33, 33, False, [StartField], 14), (35, 39, False, [StartField], 14), (42, 43, False, [StartField], 14),
         (45, 46, False, [StartField], 14), (48, 57, False, [StartField], 14), (65, 90, False, [StartField], 14),
         (94, 122, False, [StartField], 14), (124, 124, False, [StartField], 14),
         (126, 126, False, [StartField], 14)]),
      (14, [(1, 8, False, [], 14), (10, 31, False, [], 14), (33, 33, False, [], 14), (35, 39, False, [], 14),
         (42, 43, False, [], 14), (45, 46, False, [], 14), (48, 57, False, [], 14),
         (58, 58, False, [WriteField], 15), (65, 90, False, [], 14), (94, 122, False, [], 14),
         (124, 124, False, [], 14), (126, 126, False, [], 14)]),
      (15, [(-128, -1, False, [StartValue], 16), (1, 8, False, [StartValue], 16), (9, 9, False, [StartValue], 15),
         (10, 10, False, [StartValue, WriteValue], 13), (11, 12, False, [StartValue], 16),
         (13, 13, False, [StartValue, WriteValue], 17), (14, 31, False, [StartValue], 16),
         (32, 32, False, [StartValue], 15), (33, 126, False, [StartValue], 16)]),
      (16, [(-128, -1, False, [], 16), (1, 9, False, [], 16), (10, 10, False, [WriteValue], 13),
         (11, 12, False, [], 16), (13, 13, False, [WriteValue], 17), (14, 126, False, [], 16)]),
      (17, [(10, 10, False, [], 13)]),
      (18, [(1, 8, False, [], 14), (10, 10, False, [Done], 348), (11, 31, False, [], 14), (33, 33, False, [], 14),
         (35, 39, False, [], 14), (42, 43, False, [], 14), (45, 46, False, [], 14), (48, 57, False, [], 14),
         (58, 58, False, [WriteField], 15), (65, 90, False, [], 14), (94, 122, False, [], 14),
         (124, 124, False, [], 14), (126, 126, False, [], 14)]),
      (20, [(-128, -1, False, [Mark], 21), (32, 32, False, [Mark, Fragment], 4), (33, 33, False, [Mark], 21),
         (36, 36, False, [Mark], 21), (37, 37, False, [Mark], 22), (38, 59, False, [Mark], 21),
         (61, 61, False, [Mark], 21), (63, 90, False, [Mark], 21), (95, 95, False, [Mark], 21),
         (97, 122, False, [Mark], 21), (126, 126, False, [Mark], 21), (94, 94, True, [Mark], 21),
         (123, 123, True, [Mark], 21), (125, 125, True, [Mark], 21)]),
      (21, [(-128, -1, False, [], 21), (32, 32, False, [Fragment], 4), (33, 33, False, [], 21),
         (36, 36, False, [], 21), (37, 37, False, [], 22), (38, 59, False, [], 21), (61, 61, False, [], 21),
         (63, 90, False, [], 21), (95, 95, False, [], 21), (97, 122, False, [], 21), (126, 126, False, [], 21),
         (94, 94, True, [], 21), (123, 123, True, [], 21), (125, 125, True, [], 21)]),
      (26, [(-128, -1, False, [], 26), (32, 32, False, [RequestPath, RequestUri], 4), (33, 33, False, [], 26),
         (35, 35, False, [RequestPath, RequestUri], 20), (36, 36, False, [], 26), (37, 37, False, [], 27),
         (38, 59, False, [], 26), (61, 61, False, [], 26), (63, 63, False, [RequestPath], 29),
         (64, 90, False, [], 26), (95, 95, False, [], 26), (97, 122, False, [], 26), (126, 126, False, [], 26),
         (94, 94, True, [], 26), (123, 123, True, [], 26), (125, 125, True, [], 26)]),
      (29, [(-128, -1, False, [StartQuery], 30), (32, 32, False, [StartQuery, QueryString, RequestUri], 4),
         (33, 33, False, [StartQuery], 30), (35, 35, False, [StartQuery, QueryString, RequestUri], 20),
         (36, 36, False, [StartQuery], 30), (37, 37, False, [StartQuery], 31), (38, 59, False, [StartQuery], 30),
         (61, 61, False, [StartQuery], 30), (63, 90, False, [StartQuery], 30), (95, 95, False, [StartQuery], 30),
         (97, 122, False, [StartQuery], 30), (126, 126, False, [StartQuery], 30),
         (94, 94, True, [StartQuery], 30), (123, 123, True, [StartQuery], 30), (125, 125, True, [StartQuery], 30)]),
      (30, [(-128, -1, False, [], 30), (32, 32, False, [QueryString, RequestUri], 4), (33, 33, False, [], 30),
         (35, 35, False, [QueryString, RequestUri], 20), (36, 36, False, [], 30), (37, 37, False, [], 31),
         (38, 59, False, [], 30), (61, 61, False, [], 30), (63, 90, False, [], 30), (95, 95, False, [], 30),
         (97, 122, False, [], 30), (126, 126, False, [], 30), (94, 94, True, [], 30), (123, 123, True, [], 30),
         (125, 125, True, [], 30)]),
      (33, [(-128, -1, False, [], 26), (32, 32, False, [RequestPath, RequestUri], 4), (33, 33, False, [], 26),
         (35, 35, False, [RequestPath, RequestUri], 20), (36, 36, False, [], 26), (37, 37, False, [], 27),
         (38, 46, False, [], 26), (47, 47, False, [], 34), (48, 59, False, [], 26), (61, 61, False, [], 26),
         (63, 63, False, [RequestPath], 29), (64, 90, False, [], 26), (95, 95, False, [], 26),
         (97, 122, False, [], 26), (126, 126, False, [], 26), (94, 94, True, [], 26), (123, 123, True, [], 26),
         (125, 125, True, [], 26)]),
      (175, [(32, 32, False, [RequestMethod], 3), (48, 57, False, [], 176), (65, 90, False, [], 176)]),
      (176, [(32, 32, False, [RequestMethod], 3), (48, 57, False, [], 177), (65, 90, False, [], 177)]),
      (177, [(32, 32, False, [RequestMethod], 3), (48, 57, False, [], 178), (65, 90, False, [], 178)]),
      (178, [(32, 32, False, [RequestMethod], 3), (48, 57, False, [], 179), (65, 90, False, [], 179)]),
      (179, [(32, 32, False, [RequestMethod], 3), (48, 57, False, [], 180), (65, 90, False, [], 180)]),
      (180, [(32, 32, False, [RequestMethod], 3), (48, 57, False, [], 181), (65, 90, False, [], 181)]),
      (181, [(32, 32, False, [RequestMethod], 3), (48, 57, False, [], 182), (65, 90, False, [], 182)]),
      (182, [(32, 32, False, [RequestMethod], 3), (48, 57, False, [], 183), (65, 90, False, [], 183)]),
      (183, [(32, 32, False, [RequestMethod], 3), (48, 57, False, [], 184), (65, 90, False, [], 184)]),
      (184, [(32, 32, False, [RequestMethod], 3), (48, 57, False, [], 185), (65, 90, False, [], 185)]),
      (185, [(32, 32, False, [RequestMethod], 3), (48, 57, False, [], 186), (65, 90, False, [], 186)]),
      (186, [(32, 32, False, [RequestMethod], 3), (48, 57, False, [], 187), (65, 90, False, [], 187)]),
      (187, [(32, 32, False, [RequestMethod], 3), (48, 57, False, [], 188), (65, 90, False, [], 188)]),
      (188, [(32, 32, False, [RequestMethod], 3), (48, 57, False, [], 189), (65, 90, False, [], 189)]),
      (189, [(32, 32, False, [RequestMethod], 3), (48, 57, False, [], 190), (65, 90, False, [], 190)]),
      (190, [(32, 32, False, [RequestMethod], 3), (48, 57, False, [], 191), (65, 90, False, [], 191)]),
      (191, [(32, 32, False, [RequestMethod], 3), (48, 57, False, [], 192), (65, 90, False, [], 192)]),
      (192, [(32, 32, False, [RequestMethod], 3), (48, 57, False, [], 193), (65, 90, False, [], 193)]),
      (193, [(32, 32, False, [RequestMethod], 3)])]"

lemma map_of_filter_key: "P k \<Longrightarrow> map_of (filter (\<lambda>(k, _). P k) xs) k = map_of xs k"
  by (induction xs) auto

lemma filter_visited: "filter (\<lambda>(cs, _). visited cs) http11_table = visited_rows"
  by code_simp

lemma visited_rows_distinct: "list_all (\<lambda>(cs, rows). visited cs \<and> map_of visited_rows cs = Some rows) visited_rows"
  by code_simp

lemma visited_rows_lookup: "list_all (\<lambda>(cs, rows). map_of http11_table cs = Some rows) visited_rows"
  using visited_rows_distinct map_of_filter_key [of visited _ http11_table]
  by (fastforce simp: list_all_iff filter_visited)

lemmas state_rows = visited_rows_lookup [unfolded visited_rows_def list.pred_inject prod.case simp_thms]

end
