(* ===== verification/Machine.thy ===== *)
theory Machine
  imports Main
begin

text \<open>
  What the two generated parsers share: a loop over the characters from \<^verbatim>\<open>p\<close> to \<^verbatim>\<open>pe\<close> that looks a transition up,
  runs its actions, and ends at the end of the buffer, at a character without a transition, or after the
  action that leaves the machine (\<^verbatim>\<open>fbreak\<close>). The locale states the loop's equations; both machines interpret
  it, and its lemmas carry invariants and stretches of characters through a run.
\<close>

locale goto_machine =
  fixes delta :: "'s \<Rightarrow> int \<Rightarrow> char \<Rightarrow> ('a list \<times> int) option"
    and acts :: "nat \<Rightarrow> nat \<Rightarrow> 'a list \<Rightarrow> 's \<Rightarrow> 's"
    and leave :: 'a
    and err :: "int \<Rightarrow> int"
    and loop :: "nat \<Rightarrow> int \<Rightarrow> nat \<Rightarrow> string \<Rightarrow> 's \<Rightarrow> int \<times> nat \<times> 's"
  assumes acts_Nil: "acts p pe [] st = st"
    and loop_Nil: "loop pe cs p [] st = (cs, p, st)"
    and loop_Cons: "loop pe cs p (c # rest) st =
      (case delta st cs c of None \<Rightarrow> (err cs, p, st)
       | Some (as, tgt) \<Rightarrow>
           if leave \<in> set as then (tgt, p + 1, acts p pe as st) else loop pe tgt (p + 1) rest (acts p pe as st))"
begin

lemma loop_invariant:
  assumes step: "\<And>cs p st c as tgt. I cs p st \<Longrightarrow> p < pe \<Longrightarrow> delta st cs c = Some (as, tgt) \<Longrightarrow> I tgt (p + 1) (acts p pe as st)"
    and fail: "\<And>cs p st. I cs p st \<Longrightarrow> I (err cs) p st"
    and start: "I cs p st" "p + length rest = pe"
  shows "case loop pe cs p rest st of (cs', p', st') \<Rightarrow> p \<le> p' \<and> p' \<le> pe \<and> I cs' p' st'"
  using start
proof (induction rest arbitrary: cs p st)
  case Nil
  then show ?case by (simp add: loop_Nil)
next
  case (Cons c rest)
  show ?case
  proof (cases "delta st cs c")
    case None
    then show ?thesis using Cons.prems fail by (simp add: loop_Cons)
  next
    case (Some t)
    obtain as tgt where t: "t = (as, tgt)" by (cases t)
    then have "I tgt (p + 1) (acts p pe as st)" using step [OF Cons.prems(1)] Some Cons.prems(2) by simp
    then show ?thesis using Cons.IH [of tgt "p + 1" "acts p pe as st"] Cons.prems(2) Some t
      by (auto simp: loop_Cons)
  qed
qed

lemma loop_step:
  assumes "delta st cs c = Some (as, tgt)" and "leave \<notin> set as"
  shows "loop pe cs p (c # rest) st = loop pe tgt (p + 1) rest (acts p pe as st)"
  using assms by (simp add: loop_Cons)

lemma loop_stretch:
  assumes quiet: "\<And>cs c st. cs \<in> S \<Longrightarrow> P c \<Longrightarrow> \<exists>cs' \<in> S. delta st cs c = Some ([], cs')"
    and "\<forall>c \<in> set xs. P c" and "cs \<in> S"
  shows "\<exists>cs' \<in> S. loop pe cs p (xs @ rest) st = loop pe cs' (p + length xs) rest st"
  using assms(2,3)
proof (induction xs arbitrary: cs p)
  case Nil
  then show ?case by auto
next
  case (Cons c xs)
  then obtain cs1 where "cs1 \<in> S" "delta st cs c = Some ([], cs1)" using quiet by (metis list.set_intros(1))
  then show ?case using Cons.IH [of cs1 "p + 1"] Cons.prems by (simp add: loop_step acts_Nil)
qed

lemma loop_token:
  assumes "delta st cs0 c = Some (as, cs)" and "leave \<notin> set as" and "cs \<in> S"
    and "\<And>cs c st. cs \<in> S \<Longrightarrow> P c \<Longrightarrow> \<exists>cs' \<in> S. delta st cs c = Some ([], cs')" and "\<forall>c \<in> set xs. P c"
  shows "\<exists>cs' \<in> S. loop pe cs0 p ((c # xs) @ rest) st = loop pe cs' (p + 1 + length xs) rest (acts p pe as st)"
  using loop_step [OF assms(1,2)] loop_stretch [where S = S and P = P and xs = xs and cs = cs, OF assms(4,5,3), of pe "p + 1" rest "acts p pe as st"]
  by simp

end

end
