(* ===== verification/Http11_Safety.thy ===== *)
theory Http11_Safety
  imports Http11_Parser Machine
begin

text \<open>
  The ranges that the request machine reports to its callbacks lie inside the buffer. The proof follows
  two bits through the table: whether the query's start, and whether the name of the current field, were
  set for the buffer at hand.
\<close>

subsection \<open>The loop as a machine\<close>

definition delta :: "bool \<Rightarrow> int \<Rightarrow> char \<Rightarrow> (action list \<times> int) option" where
  "delta rel cs c = (case map_of http11_table cs of None \<Rightarrow> None | Some rows \<Rightarrow> find_row rel (schar c) rows)"

lemma exec_delta:
  "exec_loop pe cs p (c # rest) st =
     (case delta (hp_uri_relaxed (fst st)) cs c of
        None \<Rightarrow> (if map_of http11_table cs = None then cs else http_parser_error, p, st)
      | Some (acts, tgt) \<Rightarrow>
          if Done \<in> set acts then (tgt, p + 1, do_actions p pe acts st)
          else exec_loop pe tgt (p + 1) rest (do_actions p pe acts st))"
  by (auto simp: exec_loop.simps(2) delta_def Let_def split: option.splits)

interpretation h11: goto_machine "\<lambda>st. delta (hp_uri_relaxed (fst st))" do_actions Done
    "\<lambda>cs. if map_of http11_table cs = None then cs else http_parser_error" exec_loop
  by unfold_locales (simp_all add: exec_delta do_actions_def)

subsection \<open>Abstract run over the table\<close>

definition query_states :: "int list" where "query_states = [30, 31, 32]"
definition field_states :: "int list" where "field_states = [15, 16]"

fun abs_action :: "bool \<times> bool \<Rightarrow> action \<Rightarrow> (bool \<times> bool) option" where
  "abs_action (q, f) StartQuery = Some (True, f)"
| "abs_action (q, f) QueryString = (if q then Some (q, f) else None)"
| "abs_action (q, f) StartField = Some (q, False)"
| "abs_action (q, f) WriteField = Some (q, True)"
| "abs_action (q, f) WriteValue = (if f then Some (q, f) else None)"
| "abs_action (q, f) _ = Some (q, f)"

fun abs_actions :: "bool \<times> bool \<Rightarrow> action list \<Rightarrow> (bool \<times> bool) option" where
  "abs_actions b [] = Some b"
| "abs_actions b (a # acts) = (case abs_action b a of None \<Rightarrow> None | Some b \<Rightarrow> abs_actions b acts)"

definition bits_of :: "int \<Rightarrow> bool \<times> bool" where
  "bits_of cs = (cs \<in> set query_states, cs \<in> set field_states)"

definition row_ok :: "int \<Rightarrow> row \<Rightarrow> bool" where
  "row_ok cs r = (case r of (_, _, _, acts, tgt) \<Rightarrow>
     tgt \<noteq> 0 \<and> (tgt \<ge> 348 \<longleftrightarrow> Done \<in> set acts) \<and>
     (case abs_actions (bits_of cs) acts of None \<Rightarrow> False
      | Some (q, f) \<Rightarrow> (tgt \<in> set query_states \<longrightarrow> q) \<and> (tgt \<in> set field_states \<longrightarrow> f)))"

lemma table_ok: "list_all (\<lambda>(cs, rows). list_all (row_ok cs) rows) http11_table"
  by code_simp

lemma find_row_in: "find_row relaxed c rows = Some (acts, tgt) \<Longrightarrow> \<exists>lo hi rel. (lo, hi, rel, acts, tgt) \<in> set rows"
  by (induction relaxed c rows rule: find_row.induct) (auto split: if_splits)

lemma row_of_delta:
  assumes "delta relaxed cs c = Some (acts, tgt)"
  obtains lo hi rel where "row_ok cs (lo, hi, rel, acts, tgt)"
proof -
  obtain rows where "map_of http11_table cs = Some rows" "find_row relaxed (schar c) rows = Some (acts, tgt)"
    using assms by (auto simp: delta_def split: option.splits)
  then show thesis
    using that table_ok map_of_SomeD [of http11_table cs rows] find_row_in [of relaxed "schar c" rows acts tgt]
    by (fastforce simp: list_all_iff)
qed

subsection \<open>Ranges\<close>

fun event_ok :: "nat \<Rightarrow> http_event \<Rightarrow> bool" where
  "event_ok pe (OnField fs fl vs vl) \<longleftrightarrow> fs + fl \<le> pe \<and> vs + unat vl \<le> pe"
| "event_ok pe (OnMethod at n) \<longleftrightarrow> at + unat n \<le> pe"
| "event_ok pe (OnUri at n) \<longleftrightarrow> at + unat n \<le> pe"
| "event_ok pe (OnFragment at n) \<longleftrightarrow> at + unat n \<le> pe"
| "event_ok pe (OnPath at n) \<longleftrightarrow> at + unat n \<le> pe"
| "event_ok pe (OnQuery at n) \<longleftrightarrow> at + unat n \<le> pe"
| "event_ok pe (OnVersion at n) \<longleftrightarrow> at + unat n \<le> pe"
| "event_ok pe (OnHeaderDone at n) \<longleftrightarrow> at + unat n \<le> pe"

definition parser_ok :: "nat \<Rightarrow> nat \<Rightarrow> bool \<times> bool \<Rightarrow> http_parser \<times> http_event list \<Rightarrow> bool" where
  "parser_ok pe p b st = (case (b, st) of ((q, f), (h, es)) \<Rightarrow>
     hp_mark h \<le> p \<and> hp_mark h < pe \<and> hp_field_start h \<le> p \<and> hp_field_start h < pe \<and> hp_field_len h \<le> pe \<and>
     hp_body_start h \<le> pe \<and> (q \<longrightarrow> hp_query_start h \<le> p) \<and> (f \<longrightarrow> hp_field_start h + hp_field_len h \<le> p) \<and>
     list_all (event_ok pe) es)"

lemma LEN_of_nat: "at \<le> p \<Longrightarrow> LEN at p = of_nat (p - at)"
  by (simp add: LEN_def)

lemma unat_of_nat_le: "unat (of_nat n :: u64) \<le> n"
  by (simp add: unat_of_nat)

lemma unat_LEN: "at \<le> p \<Longrightarrow> unat (LEN at p) \<le> p - at"
  unfolding LEN_of_nat by (rule unat_of_nat_le)

lemma do_action_ok:
  assumes "parser_ok pe p b st" and "p < pe" and "abs_action b a = Some b'"
  shows "parser_ok pe p b' (do_action p pe st a)"
proof -
  obtain q f h es where b: "b = (q, f)" "st = (h, es)" by (cases b; cases st)
  have ranges: "hp_mark h \<le> p \<Longrightarrow> hp_mark h + unat (LEN (hp_mark h) p) \<le> pe"
    "hp_query_start h \<le> p \<Longrightarrow> hp_query_start h + unat (LEN (hp_query_start h) p) \<le> pe"
    "hp_field_start h \<le> p \<Longrightarrow> unat (LEN (hp_field_start h) p) \<le> p - hp_field_start h"
    using unat_LEN [of "hp_mark h" p] unat_LEN [of "hp_query_start h" p] unat_LEN [of "hp_field_start h" p] assms(2) by auto
  have rest: "Suc (p + unat (of_nat (pe - Suc p) :: u64)) \<le> pe" using unat_of_nat_le [of "pe - Suc p"] assms(2) by simp
  show ?thesis using assms ranges rest unfolding b by (cases a) (auto simp: parser_ok_def simp del: of_nat_diff split: if_splits)
qed

lemma do_actions_ok:
  assumes "parser_ok pe p b st" and "p < pe" and "abs_actions b acts = Some b'"
  shows "parser_ok pe p b' (do_actions p pe acts st)"
  using assms
proof (induction acts arbitrary: b st)
  case (Cons a acts)
  then obtain b1 where b1: "abs_action b a = Some b1" "abs_actions b1 acts = Some b'" by (auto split: option.splits)
  then show ?case
    using Cons.IH [OF do_action_ok [OF Cons.prems(1,2) b1(1)] Cons.prems(2) b1(2)] by (simp add: do_actions_def)
qed (simp add: do_actions_def)

lemma parser_ok_weaken:
  assumes "parser_ok pe p (q, f) st" and "p \<le> p'" and "q' \<longrightarrow> q" and "f' \<longrightarrow> f"
  shows "parser_ok pe p' (q', f') st"
  using assms by (auto simp: parser_ok_def)

lemma delta_ok:
  assumes "parser_ok pe p (bits_of cs) st" and "p < pe" and "delta relaxed cs c = Some (acts, tgt)"
  shows "parser_ok pe (p + 1) (bits_of tgt) (do_actions p pe acts st)"
proof -
  obtain lo hi rel where "row_ok cs (lo, hi, rel, acts, tgt)" using assms(3) by (rule row_of_delta)
  then obtain q f where abs: "abs_actions (bits_of cs) acts = Some (q, f)"
    and tgt: "tgt \<in> set query_states \<longrightarrow> q" "tgt \<in> set field_states \<longrightarrow> f" by (auto simp: row_ok_def split: option.splits)
  show ?thesis using do_actions_ok [OF assms(1,2) abs] tgt by (auto simp: bits_of_def elim: parser_ok_weaken)
qed

lemma exec_loop_ok:
  assumes "parser_ok pe p (bits_of cs) st" and "p + length rest = pe"
  shows "case exec_loop pe cs p rest st of (cs', p', st') \<Rightarrow> p \<le> p' \<and> p' \<le> pe \<and> parser_ok pe p' (bits_of cs') st'"
proof (rule h11.loop_invariant [where I = "\<lambda>cs p st. parser_ok pe p (bits_of cs) st", OF _ _ assms])
  fix cs p st c acts tgt
  assume "parser_ok pe p (bits_of cs) st" "p < pe" "delta (hp_uri_relaxed (fst st)) cs c = Some (acts, tgt)"
  then show "parser_ok pe (p + 1) (bits_of tgt) (do_actions p pe acts st)" by (rule delta_ok)
next
  fix cs p st assume "parser_ok pe p (bits_of cs) st"
  then show "parser_ok pe p (bits_of (if map_of http11_table cs = None then cs else http_parser_error)) st"
    by (auto simp: bits_of_def http_parser_error_def query_states_def field_states_def elim: parser_ok_weaken)
qed

text \<open>The marks stay inside the buffer in every state, also when a query is resumed.\<close>

definition marks_ok :: "nat \<Rightarrow> nat \<Rightarrow> http_parser \<Rightarrow> bool" where
  "marks_ok pe p h \<longleftrightarrow> hp_mark h \<le> p \<and> hp_mark h < pe \<and> hp_field_start h \<le> p \<and> hp_field_start h < pe \<and>
     hp_field_len h \<le> pe \<and> hp_body_start h \<le> pe"

lemma do_action_marks:
  assumes "marks_ok pe p (fst st)" and "p < pe"
  shows "marks_ok pe p (fst (do_action p pe st a)) \<and> hp_cs (fst (do_action p pe st a)) = hp_cs (fst st) \<and>
         hp_nread (fst (do_action p pe st a)) = hp_nread (fst st)"
  using assms unat_LEN [of "hp_field_start (fst st)" p] by (cases st; cases a) (auto simp: marks_ok_def)

lemma do_actions_marks:
  assumes "marks_ok pe p (fst st)" and "p < pe"
  shows "marks_ok pe p (fst (do_actions p pe acts st)) \<and> hp_cs (fst (do_actions p pe acts st)) = hp_cs (fst st) \<and>
         hp_nread (fst (do_actions p pe acts st)) = hp_nread (fst st)"
  using assms(1)
proof (induction acts arbitrary: st)
  case (Cons a acts)
  then show ?case using do_action_marks [OF Cons.prems assms(2), of a] Cons.IH [of "do_action p pe st a"] by (simp add: do_actions_def)
qed (simp add: do_actions_def)

lemma exec_loop_marks:
  assumes "marks_ok pe p (fst st)" and "p + length rest = pe"
  shows "case exec_loop pe cs p rest st of (cs', p', st') \<Rightarrow> p \<le> p' \<and> p' \<le> pe \<and> marks_ok pe p' (fst st') \<and>
           hp_cs (fst st') = hp_cs (fst st) \<and> hp_nread (fst st') = hp_nread (fst st)"
proof (rule h11.loop_invariant [where I = "\<lambda>cs p st'. marks_ok pe p (fst st') \<and>
    hp_cs (fst st') = hp_cs (fst st) \<and> hp_nread (fst st') = hp_nread (fst st)", OF _ _ _ assms(2)])
  fix p acts and st' :: "http_parser \<times> http_event list"
  assume "marks_ok pe p (fst st') \<and> hp_cs (fst st') = hp_cs (fst st) \<and> hp_nread (fst st') = hp_nread (fst st)" and "p < pe"
  then show "marks_ok pe (p + 1) (fst (do_actions p pe acts st')) \<and> hp_cs (fst (do_actions p pe acts st')) = hp_cs (fst st) \<and>
      hp_nread (fst (do_actions p pe acts st')) = hp_nread (fst st)"
    using do_actions_marks [of pe p st' acts] by (auto simp: marks_ok_def)
qed (use assms(1) in simp_all)

lemma http_parser_execute_run:
  assumes "buf \<noteq> []" and "hp_body_start h \<le> length buf" and "off \<le> length buf" and "length buf < 2 ^ 31"
    and run: "exec_loop (length buf) (hp_cs h) off (drop off buf) (h\<lparr>hp_nread := 0, hp_mark := 0, hp_field_len := 0, hp_field_start := 0\<rparr>, []) =
      (cs, p, h', es)"
  shows "http_parser_execute h buf off =
     Inr (p - off, h'\<lparr>hp_cs := if hp_cs h = 0 then 0 else cs, hp_nread := p - off\<rparr>, es) \<and> off \<le> p \<and> p \<le> length buf"
proof -
  have "off \<le> p \<and> p \<le> length buf \<and> marks_ok (length buf) p h' \<and> hp_cs h' = hp_cs h \<and> hp_nread h' = 0"
    using exec_loop_marks [of "length buf" off "(h\<lparr>hp_nread := 0, hp_mark := 0, hp_field_len := 0, hp_field_start := 0\<rparr>, [])" "drop off buf" "hp_cs h"]
      assms by (simp add: marks_ok_def)
  then show ?thesis
    using assms sint_of_nat_small [OF assms(4)] sint_of_nat_small [of off]
    by (auto simp: http_parser_execute_def Let_def hp_check_def marks_ok_def http_parser_has_error_def http_parser_error_def)
qed

subsection \<open>Properties\<close>



end
