(* ===== verification/Http_Props.thy ===== *)
theory Http_Props
  imports Http
begin

text \<open>
  The order of the header maps, the texts of methods, and what a receiver reads back from the
  text of a message.
\<close>

subsection \<open>Case insensitive keys\<close>

definition ci_key :: "string \<Rightarrow> int list" where
  "ci_key s = map tolower (c_str s)"

lemma c_str_no_zero: "c \<in> set (c_str s) \<Longrightarrow> 0 < tolower c"
proof -
  assume "c \<in> set (c_str s)"
  then have "c \<noteq> CHR 0x00" by (auto simp: c_str_def dest: set_takeWhileD)
  then have "(of_char c :: int) \<noteq> of_char CHR 0x00" by (simp only: of_char_eq_iff not_False_eq_True)
  then have "(of_char c :: int) \<noteq> 0" by simp
  moreover have "0 \<le> (of_char c :: int)" by (metis of_nat_of_char of_nat_0_le_iff)
  ultimately show ?thesis by (auto simp: tolower_def Let_def)
qed

lemma casecmp_lex:
  assumes "\<And>c. c \<in> set xs \<union> set ys \<Longrightarrow> 0 < tolower c"
  shows "(casecmp xs ys < 0 \<longleftrightarrow> lex_less (map tolower xs) (map tolower ys)) \<and>
         (casecmp xs ys = 0 \<longleftrightarrow> map tolower xs = map tolower ys)"
  using assms
proof (induction xs ys rule: casecmp.induct)
  case (4 x xs y ys)
  then show ?case by (auto simp: Let_def)
next
  case (2 y ys)
  then have "0 < tolower y" by simp
  then show ?case by simp
next
  case (3 x xs)
  then have "0 < tolower x" by simp
  then show ?case by simp
qed simp

lemma CaseInsensitiveLess_lex: "CaseInsensitiveLess a b \<longleftrightarrow> lex_less (ci_key a) (ci_key b)"
  and strcasecmp_zero: "strcasecmp a b = 0 \<longleftrightarrow> ci_key a = ci_key b"
  using casecmp_lex [of "c_str a" "c_str b"] c_str_no_zero
  by (auto simp: CaseInsensitiveLess_def strcasecmp_def ci_key_def)

interpretation hdr: comparator CaseInsensitiveLess
  by unfold_locales
    (auto simp: CaseInsensitiveLess_lex lex_less_irrefl dest: lex_less_trans lex_less_incomparable)

lemma same_header: "same_key CaseInsensitiveLess a b \<longleftrightarrow> ci_key a = ci_key b"
  using lex_less_total [of "ci_key a" "ci_key b"]
  by (auto simp: same_key_def CaseInsensitiveLess_lex lex_less_irrefl)

definition headers_ok :: "header_map \<Rightarrow> bool" where
  "headers_ok m = map_ok CaseInsensitiveLess m"

lemma find_set_header: "find_header (set_header k v m) k' = (if ci_key k = ci_key k' then Some v else find_header m k')"
  by (simp add: find_header_def set_header_def hdr.map_get_put same_header)

lemma find_del_header:
  "headers_ok m \<Longrightarrow> find_header (del_header k m) k' = (if ci_key k = ci_key k' then None else find_header m k')"
  by (simp add: headers_ok_def find_header_def del_header_def hdr.map_get_erase same_header)

lemma headers_ok_simps [simp]:
  "headers_ok []" "headers_ok m \<Longrightarrow> headers_ok (set_header k v m)" "headers_ok m \<Longrightarrow> headers_ok (del_header k m)"
  by (simp_all add: headers_ok_def set_header_def del_header_def hdr.map_ok_put hdr.map_ok_erase) (simp add: map_ok_def)

subsection \<open>Method texts\<close>

lemma find_unique:
  assumes "i < length xs" and "P (xs ! i)" and "\<And>j. j < length xs \<Longrightarrow> P (xs ! j) \<Longrightarrow> j = i"
  shows "find P xs = Some (xs ! i)"
  using assms nat_neq_iff unfolding find_Some_iff by (metis order.strict_trans)

lemma methods_in_order:
  "map (\<lambda>(_, m, _). m) HTTP_METHOD_MAP =
     [DELETE, GET, HEAD, POST, PUT, CONNECT, OPTIONS, TRACE, COPY,
      LOCK, MKCOL, MOVE, PROPFIND, PROPPATCH, SEARCH, UNLOCK, BIND, REBIND,
      UNBIND, ACL, REPORT, MKACTIVITY, CHECKOUT, MERGE, MSEARCH, NOTIFY, SUBSCRIBE,
      UNSUBSCRIBE, PATCH, PURGE, MKCALENDAR, LINK, UNLINK, SOURCE]"
  by code_simp

lemma methods_listed: "m \<noteq> HTTP_INVALID_METHOD \<Longrightarrow> m \<in> set (map (\<lambda>(_, m, _). m) HTTP_METHOD_MAP)"
  unfolding methods_in_order by (cases m) simp_all

lemma method_table_check:
  "list_all (\<lambda>m. method_index m < 34 \<and>
     HTTP_METHOD_MAP ! method_index m = (method_index m, m, s_method_strings ! method_index m)) (map (\<lambda>(_, m, _). m) HTTP_METHOD_MAP)"
  by code_simp

lemma method_table:
  "m \<noteq> HTTP_INVALID_METHOD \<Longrightarrow> method_index m < 34 \<and>
     HTTP_METHOD_MAP ! method_index m = (method_index m, m, s_method_strings ! method_index m)"
  using methods_listed [of m] method_table_check unfolding list_all_iff by blast

lemma length_method_table [simp]: "length HTTP_METHOD_MAP = 34" "length s_method_strings = 34"
  by (simp_all add: s_method_strings_def HTTP_METHOD_MAP_def)

text \<open>No method text is a prefix of another, and none contains a zero byte.\<close>

lemma method_strings_prefix_free:
  "list_all (\<lambda>i. list_all (\<lambda>j. i = j \<or> \<not> starts_with (s_method_strings ! i) (s_method_strings ! j)) [0..<34]) [0..<34]"
  by code_simp

lemma method_strings_c_str: "list_all (\<lambda>s. c_str s = s) s_method_strings"
  by code_simp

lemma prefix_free:
  "i < 34 \<Longrightarrow> j < 34 \<Longrightarrow> starts_with (s_method_strings ! i) (s_method_strings ! j) \<Longrightarrow> i = j"
  using method_strings_prefix_free unfolding list_all_iff set_upt by (meson atLeastLessThan_iff le0)

lemma starts_with_append: "starts_with s (t @ r) \<Longrightarrow> starts_with s t \<or> starts_with t s"
proof (cases "length s \<le> length t")
  case False
  assume "starts_with s (t @ r)"
  then have "s = t @ take (length s - length t) r" using False by (auto simp: starts_with_def)
  then show ?thesis by (metis append_eq_conv_conj starts_with_def)
qed (simp add: starts_with_def)

lemma nth_method_table: "i < 34 \<Longrightarrow> (case HTTP_METHOD_MAP ! i of (_, _, s) \<Rightarrow> s) = s_method_strings ! i"
  by (simp add: s_method_strings_def)

lemma method_of_text:
  assumes m: "m \<noteq> HTTP_INVALID_METHOD"
  shows "HttpMethodToString m = s_method_strings ! method_index m"
    and "StringToHttpMethod (HttpMethodToString m) = m"
    and "CharsToHttpMethod (HttpMethodToString m @ rest) = m"
proof -
  let ?i = "method_index m"
  have i: "?i < 34" and e: "HTTP_METHOD_MAP ! ?i = (?i, m, s_method_strings ! ?i)" using method_table [OF m] by auto
  show t: "HttpMethodToString m = s_method_strings ! ?i" using i by (simp add: HttpMethodToString_def Let_def)
  have c: "c_str (s_method_strings ! ?i) = s_method_strings ! ?i"
    using method_strings_c_str i by (simp add: list_all_length)
  have self: "starts_with s (s @ r)" for s r by (simp add: starts_with_def)
  have "find (\<lambda>(_, _, s). s = c_str (HttpMethodToString m)) HTTP_METHOD_MAP = Some (HTTP_METHOD_MAP ! ?i)"
  proof (rule find_unique)
    fix j assume j: "j < length HTTP_METHOD_MAP" and "(\<lambda>(_, _, s). s = c_str (HttpMethodToString m)) (HTTP_METHOD_MAP ! j)"
    then have "s_method_strings ! j = s_method_strings ! ?i" using nth_method_table [of j] t c by (auto split: prod.splits)
    then show "j = ?i" using prefix_free [of j ?i] i j self [of "s_method_strings ! ?i" "[]"] by simp
  qed (use i e t c in auto)
  then show "StringToHttpMethod (HttpMethodToString m) = m" by (simp add: StringToHttpMethod_def e)
  have "find (\<lambda>(_, _, s). starts_with s (HttpMethodToString m @ rest)) HTTP_METHOD_MAP = Some (HTTP_METHOD_MAP ! ?i)"
  proof (rule find_unique)
    fix j assume j: "j < length HTTP_METHOD_MAP" and "(\<lambda>(_, _, s). starts_with s (HttpMethodToString m @ rest)) (HTTP_METHOD_MAP ! j)"
    then have "starts_with (s_method_strings ! j) (s_method_strings ! ?i @ rest)" using nth_method_table [of j] t by (auto split: prod.splits)
    then show "j = ?i" using starts_with_append prefix_free i j by (metis length_method_table(1))
  qed (use i e t self in auto)
  then show "CharsToHttpMethod (HttpMethodToString m @ rest) = m" by (simp add: CharsToHttpMethod_def e)
qed

subsection \<open>Reading a message back\<close>

text \<open>
  The reference reader: lines ended by carriage return and line feed up to an empty line, each
  split at its first colon, and the rest is the body.
\<close>

fun line_split :: "string \<Rightarrow> (string \<times> string) option" where
  "line_split [] = None"
| "line_split [c] = None"
| "line_split (c # d # s) =
     (if c = CHR 0x0D \<and> d = CHR 0x0A then Some ([], s) else map_option (\<lambda>(l, r). (c # l, r)) (line_split (d # s)))"

lemma line_split_less: "line_split s = Some (l, r) \<Longrightarrow> length r < length s"
  by (induction s arbitrary: l rule: line_split.induct) (auto split: if_splits)

function read_lines :: "string \<Rightarrow> (string list \<times> string) option" where
  "read_lines s =
     (case line_split s of None \<Rightarrow> None
      | Some (l, r) \<Rightarrow> if l = [] then Some ([], r) else map_option (\<lambda>(ls, b). (l # ls, b)) (read_lines r))"
  by pat_completeness auto
termination
  by (relation "measure length") (auto dest: line_split_less)

declare read_lines.simps [simp del]

definition field_split :: "string \<Rightarrow> string \<times> string" where
  "field_split l = (takeWhile (\<lambda>c. c \<noteq> CHR '':'') l, drop 2 (dropWhile (\<lambda>c. c \<noteq> CHR '':'') l))"

definition read_message :: "string \<Rightarrow> (string \<times> (string \<times> string) list \<times> string) option" where
  "read_message s = (case read_lines s of Some (l # ls, b) \<Rightarrow> Some (l, map field_split ls, b) | _ \<Rightarrow> None)"

lemma line_split_line: "CHR 0x0D \<notin> set l \<Longrightarrow> line_split (l @ CRLF @ r) = Some (l, r)"
proof (induction l)
  case (Cons c l)
  then show ?case by (cases l) (auto simp: CRLF_def)
qed (simp add: CRLF_def)

lemma read_lines_text:
  assumes "\<And>l. l \<in> set ls \<Longrightarrow> l \<noteq> [] \<and> CHR 0x0D \<notin> set l"
  shows "read_lines (concat (map (\<lambda>l. l @ CRLF) ls) @ CRLF @ b) = Some (ls, b)"
  using assms
proof (induction ls)
  case Nil
  then show ?case using line_split_line [of "[]" b] by (simp add: read_lines.simps)
next
  case (Cons l ls)
  then have "line_split (l @ CRLF @ concat (map (\<lambda>l. l @ CRLF) ls) @ CRLF @ b) = Some (l, concat (map (\<lambda>l. l @ CRLF) ls) @ CRLF @ b)"
    by (intro line_split_line) simp
  then show ?case using Cons by (subst read_lines.simps) simp
qed

lemma field_split_line: "CHR '':'' \<notin> set k \<Longrightarrow> field_split (k @ '': '' @ v) = (k, v)"
  by (auto simp: field_split_def takeWhile_append dropWhile_append)

subsection \<open>The text of a message\<close>

definition clean :: "string \<Rightarrow> bool" where
  "clean s \<longleftrightarrow> CHR 0x0D \<notin> set s"

definition fields_ok :: "header_map \<Rightarrow> bool" where
  "fields_ok m \<longleftrightarrow> list_all (\<lambda>(k, v). clean k \<and> clean v \<and> CHR '':'' \<notin> set k) m"

definition plain_fields :: "header_map \<Rightarrow> header_map" where
  "plain_fields m = filter (\<lambda>(k, v). strcasecmp k ''connection'' \<noteq> 0) m"

definition connection_field :: "bool \<Rightarrow> string \<times> string" where
  "connection_field close = (''connection'', if close then ''close'' else ''keep-alive'')"

definition length_field :: "string \<Rightarrow> header_map" where
  "length_field body = (if body = [] then [] else [(''content-length'', dec_string (length body))])"

definition field_line :: "string \<times> string \<Rightarrow> string" where
  "field_line kv = fst kv @ '': '' @ snd kv"

lemma clean_simps [simp]:
  "clean (xs @ ys) \<longleftrightarrow> clean xs \<and> clean ys" "clean []" "clean (c # xs) \<longleftrightarrow> c \<noteq> CHR 0x0D \<and> clean xs"
  by (auto simp: clean_def)

lemma clean_number [simp]: "clean (dec_string n)"
  unfolding clean_def by (rule number_no_separator) (simp add: separator_def)

lemma header_lines_fields: "header_lines m = concat (map (\<lambda>f. field_line f @ CRLF) (plain_fields m))"
  by (induction m) (auto simp: header_lines_def plain_fields_def field_line_def)

lemma fields_ok_plain: "fields_ok m \<Longrightarrow> fields_ok (plain_fields m)"
  by (auto simp: fields_ok_def plain_fields_def list_all_iff)

lemma read_message_text:
  assumes "fields_ok fs" and "l \<noteq> []" and "clean l"
  shows "read_message (l @ CRLF @ concat (map (\<lambda>f. field_line f @ CRLF) fs) @ CRLF @ b) = Some (l, fs, b)"
proof -
  let ?ls = "l # map field_line fs"
  have ok: "l' \<noteq> [] \<and> CHR 0x0D \<notin> set l'" if "l' \<in> set ?ls" for l'
    using that assms by (auto simp: fields_ok_def list_all_iff clean_def field_line_def)
  have "l @ CRLF @ concat (map (\<lambda>f. field_line f @ CRLF) fs) @ CRLF @ b = concat (map (\<lambda>l. l @ CRLF) ?ls) @ CRLF @ b"
    by (simp add: comp_def)
  then have "read_lines (l @ CRLF @ concat (map (\<lambda>f. field_line f @ CRLF) fs) @ CRLF @ b) = Some (?ls, b)"
    using read_lines_text [of ?ls b, OF ok] by simp
  moreover have "map field_split (map field_line fs) = fs"
    using assms(1) by (induction fs) (auto simp: fields_ok_def field_line_def field_split_line [simplified])
  ultimately show ?thesis by (simp add: read_message_def)
qed

lemma method_strings_clean: "list_all clean s_method_strings \<and> list_all (\<lambda>(_, s). clean s) HTTP_STATUS_MAP"
  by code_simp

lemma clean_texts: "clean (HttpMethodToString m)" "clean (HttpStatusToString st)"
proof -
  show "clean (HttpMethodToString m)"
    using method_strings_clean by (auto simp: HttpMethodToString_def Let_def list_all_length)
  have "find P xs = Some x \<Longrightarrow> x \<in> set xs" for P x and xs :: "(int \<times> string) list"
    by (induction xs) (auto split: if_splits)
  then show "clean (HttpStatusToString st)"
    using method_strings_clean by (fastforce simp: HttpStatusToString_def list_all_iff split: option.splits)
qed

lemma clean_version [simp]: "clean (version_text v)"
  by (simp add: version_text_def)

lemma own_fields_ok: "fields_ok (connection_field c # length_field b)"
  by (simp add: fields_ok_def connection_field_def length_field_def number_no_separator)

lemma fields_ok_append [simp]: "fields_ok (xs @ ys) \<longleftrightarrow> fields_ok xs \<and> fields_ok ys"
  by (simp add: fields_ok_def)

definition status_line :: "http_response \<Rightarrow> string" where
  "status_line r =
     ''HTTP/'' @ version_text (r_version r) @ '' '' @ dec_string (unat (word_of_int (r_status r) :: u32)) @ '' '' @
     (if r_reason r = [] then HttpStatusToString (r_status r) else r_reason r)"

definition request_line :: "http_request \<Rightarrow> string" where
  "request_line q =
     HttpMethodToString (m_method q) @ '' '' @ m_path q @ (if m_query q = [] then [] else ''?'') @ m_query q @
     (if m_fragment q = [] then [] else ''#'') @ m_fragment q @ '' HTTP/'' @ version_text (m_version q)"

lemma response_text_read:
  assumes "fields_ok (r_headers r)" and "clean (r_reason r)"
  shows "read_message (response_dump r) =
           Some (status_line r, plain_fields (r_headers r) @ connection_field (r_close r) # length_field (r_body r), r_body r)"
proof -
  let ?fs = "plain_fields (r_headers r) @ connection_field (r_close r) # length_field (r_body r)"
  have "fields_ok ?fs" using assms(1) own_fields_ok by (simp add: fields_ok_plain)
  moreover have "clean (status_line r)" "status_line r \<noteq> []" using assms(2) by (simp_all add: status_line_def clean_texts)
  moreover have "response_dump r = status_line r @ CRLF @ concat (map (\<lambda>f. field_line f @ CRLF) ?fs) @ CRLF @ r_body r"
    by (simp add: response_dump_def status_line_def header_lines_fields connection_field_def length_field_def field_line_def)
  ultimately show ?thesis using read_message_text [of ?fs "status_line r"] by simp
qed

lemma request_text_read:
  assumes "fields_ok (m_headers q)" and "clean (m_path q)" and "clean (m_query q)" and "clean (m_fragment q)"
  shows "read_message (request_dump q) =
           Some (request_line q, connection_field (m_close q) # plain_fields (m_headers q) @ length_field (m_body q), m_body q)"
proof -
  let ?fs = "connection_field (m_close q) # plain_fields (m_headers q) @ length_field (m_body q)"
  have "fields_ok ?fs"
    using fields_ok_plain [OF assms(1)] own_fields_ok [of "m_close q" "m_body q"] by (simp add: fields_ok_def)
  moreover have "clean (request_line q)" "request_line q \<noteq> []" using assms by (simp_all add: request_line_def clean_texts)
  moreover have "request_dump q = request_line q @ CRLF @ concat (map (\<lambda>f. field_line f @ CRLF) ?fs) @ CRLF @ m_body q"
    by (simp add: request_dump_def request_line_def header_lines_fields connection_field_def length_field_def field_line_def)
  ultimately show ?thesis using read_message_text [of ?fs "request_line q"] by simp
qed

subsection \<open>Properties\<close>

text \<open>C36. The header, parameter and cookie maps find a value under any spelling of its name: after a
  sequence of assignments the last one whose name agrees up to case is found, the map stays
  ordered, and deleting a name removes every spelling of it and nothing else.\<close>

theorem header_map_behaviour:
  assumes "headers_ok m"
  shows "find_header (foldl (\<lambda>m (k, v). set_header k v m) m kvs) k' =
           (case find (\<lambda>(k, v). ci_key k = ci_key k') (rev kvs) of Some (k, v) \<Rightarrow> Some v | None \<Rightarrow> find_header m k') \<and>
         headers_ok (foldl (\<lambda>m (k, v). set_header k v m) m kvs) \<and> headers_ok (del_header k m) \<and>
         find_header (del_header k m) k' = (if ci_key k = ci_key k' then None else find_header m k')"
  using hdr.ordered_map.get_puts [of m kvs k'] hdr.ordered_map.inv_puts [of m kvs] assms
  unfolding find_header_def set_header_def headers_ok_def del_header_def
  by (simp add: same_header hdr.map_ok_erase hdr.map_get_erase)

theorem header_map_behaviour_witness:
  "find_header (foldl (\<lambda>m (k, v). set_header k v m) [] [(''Host'', ''a''), (''HOST'', ''b''), (''Via'', ''c'')]) ''host'' = Some ''b''"
proof -
  have k: "ci_key ''Host'' = ci_key ''host''" "ci_key ''HOST'' = ci_key ''host''" "ci_key ''Via'' \<noteq> ci_key ''host''" by code_simp+
  show ?thesis using header_map_behaviour [of "[]" "[(''Host'', ''a''), (''HOST'', ''b''), (''Via'', ''c'')]" "''host''" "[]"] k by simp
qed

text \<open>Every method is recovered from its text, alone or followed by anything else; the latter means
  that the parser's callback accepts a longer word that begins with a method.\<close>

theorem method_text_roundtrip:
  assumes "m \<noteq> HTTP_INVALID_METHOD"
  shows "StringToHttpMethod (HttpMethodToString m) = m \<and> CharsToHttpMethod (HttpMethodToString m @ rest) = m"
  using method_of_text [OF assms] by simp

theorem method_text_roundtrip_witness: "CharsToHttpMethod (HttpMethodToString GET @ ''X / HTTP/1.1'') = GET"
  using method_text_roundtrip [of GET "''X / HTTP/1.1''"] by simp

text \<open>A receiver that reads lines up to the blank one recovers a response from its text: the status
  line, every header in the order of the map, exactly one connection header that says what the
  response says, the length of the body, and the body itself. The same holds for a request.\<close>

theorem message_text_roundtrip:
  assumes "fields_ok (r_headers r)" and "clean (r_reason r)" and "fields_ok (m_headers q)" and "clean (m_path q)"
    and "clean (m_query q)" and "clean (m_fragment q)"
  shows "read_message (response_dump r) =
           Some (status_line r, plain_fields (r_headers r) @ connection_field (r_close r) # length_field (r_body r), r_body r) \<and>
         read_message (request_dump q) =
           Some (request_line q, connection_field (m_close q) # plain_fields (m_headers q) @ length_field (m_body q), m_body q)"
  using response_text_read [OF assms(1,2)] request_text_read [OF assms(3-6)] by simp

theorem message_text_roundtrip_witness:
  "read_message (response_dump ((new_HttpResponse 0x11 True)\<lparr>r_body := ''Hello''\<rparr>)) =
     Some (''HTTP/1.1 200 OK'', [(''connection'', ''close''), (''content-length'', ''5'')], ''Hello'')"
proof -
  let ?r = "(new_HttpResponse 0x11 True)\<lparr>r_body := ''Hello''\<rparr>"
  have "length_field (r_body ?r) = [(''content-length'', ''5'')]" "status_line ?r = ''HTTP/1.1 200 OK''" by code_simp+
  then show ?thesis
    using message_text_roundtrip [of ?r "new_HttpRequest 0x11 True"]
    by (simp add: new_HttpResponse_def new_HttpRequest_def fields_ok_def plain_fields_def connection_field_def)
qed

end
