(* ===== verification/Http11_Run.thy ===== *)
theory Http11_Run
  imports Http11_States Http11_Safety Http_Props
begin

text \<open>
  Runs of the request machine on the parts of a well formed request: stretches of characters on which
  a state is kept, and the run over the request line and over a header line.
\<close>

subsection \<open>Character classes\<close>

text \<open>
  The classes are sets of the values of a signed \<^verbatim>\<open>char\<close>. A path consists of unescaped characters; a value
  contains no line ends.
\<close>

definition path_code :: "int \<Rightarrow> bool" where
  "path_code n \<longleftrightarrow> n < 0 \<or> n \<in> set [33, 36, 61, 95, 126] \<or> 38 \<le> n \<and> n \<le> 59 \<or> 64 \<le> n \<and> n \<le> 90 \<or> 97 \<le> n \<and> n \<le> 122"

definition query_code :: "int \<Rightarrow> bool" where
  "query_code n \<longleftrightarrow> path_code n \<or> n = 63"

definition method_code :: "int \<Rightarrow> bool" where
  "method_code n \<longleftrightarrow> 48 \<le> n \<and> n \<le> 57 \<or> 65 \<le> n \<and> n \<le> 90"

definition name_code :: "int \<Rightarrow> bool" where
  "name_code n \<longleftrightarrow> n \<in> set [33, 42, 43, 45, 46, 124, 126] \<or> 35 \<le> n \<and> n \<le> 39 \<or> 48 \<le> n \<and> n \<le> 57 \<or>
     65 \<le> n \<and> n \<le> 90 \<or> 94 \<le> n \<and> n \<le> 122"

definition value_code :: "int \<Rightarrow> bool" where
  "value_code n \<longleftrightarrow> n \<notin> set [0, 10, 13, 127]"

definition start_code :: "int \<Rightarrow> bool" where
  "start_code n \<longleftrightarrow> value_code n \<and> n \<noteq> 9 \<and> n \<noteq> 32"

lemma of_char_range: "0 \<le> (of_char c :: int)" "(of_char c :: int) < 256"
proof -
  have "(of_char c :: nat) < 256" by simp
  then show "0 \<le> (of_char c :: int)" "(of_char c :: int) < 256"
    by (metis of_nat_of_char of_nat_0_le_iff, metis of_nat_of_char of_nat_less_iff of_nat_numeral)
qed

lemma schar_range: "- 128 \<le> schar c" "schar c \<le> 127"
  using of_char_range [of c] by (auto simp: schar_def Let_def)

text \<open>A transition on a whole class is checked on the 256 values of a character.\<close>

definition class_check :: "(int \<Rightarrow> bool) \<Rightarrow> int \<Rightarrow> action list \<Rightarrow> int \<Rightarrow> bool" where
  "class_check P cs acts tgt \<longleftrightarrow>
     (case map_of visited_rows cs of None \<Rightarrow> False
      | Some rows \<Rightarrow>
          list_all (\<lambda>n. P n \<longrightarrow> find_row True n rows = Some (acts, tgt) \<and> find_row False n rows = Some (acts, tgt)) [-128 .. 127])"

lemma visited_lookup: "map_of visited_rows cs = Some rows \<Longrightarrow> map_of http11_table cs = Some rows"
  using visited_rows_lookup by (auto simp: list_all_iff dest!: map_of_SomeD)

lemma class_checkD:
  assumes "class_check P cs acts tgt" and "P (schar c)"
  shows "delta rel cs c = Some (acts, tgt)"
proof -
  obtain rows where "map_of http11_table cs = Some rows" and rows:
    "list_all (\<lambda>n. P n \<longrightarrow> find_row True n rows = Some (acts, tgt) \<and> find_row False n rows = Some (acts, tgt)) [-128 .. 127]"
    using assms(1) visited_lookup by (auto simp: class_check_def split: option.splits)
  then have "delta rel cs c = find_row rel (schar c) rows" by (simp add: delta_def)
  moreover have "schar c \<in> set [-128 .. 127]" using schar_range by (simp only: set_upto atLeastAtMost_iff)
  ultimately show ?thesis using rows assms(2) by (cases rel) (simp_all only: list_all_iff Ball_def)
qed

lemma class_checks:
  "class_check (\<lambda>n. path_code n \<and> n \<noteq> 47) 33 [] 26" "class_check path_code 26 [] 26"
  "class_check query_code 29 [StartQuery] 30" "class_check query_code 30 [] 30"
  "class_check query_code 20 [Mark] 21" "class_check query_code 21 [] 21"
  "class_check name_code 13 [StartField] 14" "class_check name_code 14 [] 14"
  "class_check start_code 15 [StartValue] 16" "class_check value_code 16 [] 16"
  "class_check method_code 1 [Mark] 2"
  by code_simp+

lemmas delta_class = class_checks [THEN class_checkD]

subsection \<open>Single characters\<close>

lemma schar_values [simp]:
  "schar CHR 0x0D = 13" "schar CHR 0x0A = 10" "schar CHR '' '' = 32" "schar CHR '':'' = 58" "schar CHR ''?'' = 63"
  "schar CHR ''#'' = 35" "schar CHR ''/'' = 47" "schar CHR ''H'' = 72" "schar CHR ''T'' = 84" "schar CHR ''P'' = 80"
  "schar CHR ''.'' = 46" "schar CHR ''1'' = 49" "schar CHR ''0'' = 48"
  by (simp_all add: schar_def)

lemma delta_separators:
  "delta rel 13 CHR 0x0D = Some ([StartField], 18)" "delta rel 18 CHR 0x0A = Some ([Done], 348)"
  "delta rel 14 CHR '':'' = Some ([WriteField], 15)" "delta rel 15 CHR '' '' = Some ([StartValue], 15)"
  "delta rel 15 CHR 0x0D = Some ([StartValue, WriteValue], 17)" "delta rel 16 CHR 0x0D = Some ([WriteValue], 17)"
  "delta rel 17 CHR 0x0A = Some ([], 13)" "delta rel 12 CHR 0x0D = Some ([HttpVersion], 17)"
  "delta rel 3 CHR ''/'' = Some ([Mark], 33)"
  "delta rel 33 CHR '' '' = Some ([RequestPath, RequestUri], 4)" "delta rel 26 CHR '' '' = Some ([RequestPath, RequestUri], 4)"
  "delta rel 33 CHR ''#'' = Some ([RequestPath, RequestUri], 20)" "delta rel 26 CHR ''#'' = Some ([RequestPath, RequestUri], 20)"
  "delta rel 33 CHR ''?'' = Some ([RequestPath], 29)" "delta rel 26 CHR ''?'' = Some ([RequestPath], 29)"
  "delta rel 30 CHR '' '' = Some ([QueryString, RequestUri], 4)" "delta rel 30 CHR ''#'' = Some ([QueryString, RequestUri], 20)"
  "delta rel 21 CHR '' '' = Some ([Fragment], 4)"
  by (simp_all add: delta_def state_rows)

lemma delta_version:
  "delta rel 4 CHR ''H'' = Some ([Mark], 5)" "delta rel 5 CHR ''T'' = Some ([], 6)" "delta rel 6 CHR ''T'' = Some ([], 7)"
  "delta rel 7 CHR ''P'' = Some ([], 8)" "delta rel 8 CHR ''/'' = Some ([], 9)" "delta rel 9 CHR ''1'' = Some ([], 10)"
  "delta rel 10 CHR ''.'' = Some ([], 11)" "delta rel 11 CHR ''1'' = Some ([], 12)" "delta rel 11 CHR ''0'' = Some ([], 12)"
  by (simp_all add: delta_def state_rows)

subsection \<open>Runs\<close>

lemma exec_stretch:
  assumes "class_check P cs [] cs" and "\<forall>c \<in> set xs. P (schar c)"
  shows "exec_loop pe cs p (xs @ rest) st = exec_loop pe cs (p + length xs) rest st"
  using assms(2)
  by (induction xs arbitrary: p) (simp_all add: exec_delta class_checkD [OF assms(1)] do_actions_def)

lemma exec_token:
  assumes "class_check P0 cs0 acts cs" and "class_check P cs [] cs" and "Done \<notin> set acts"
    and "xs \<noteq> []" and "P0 (schar (hd xs))" and "\<forall>c \<in> set (tl xs). P (schar c)"
  shows "exec_loop pe cs0 p (xs @ rest) st = exec_loop pe cs (p + length xs) rest (do_actions p pe acts st)"
proof (cases xs)
  case (Cons c xs')
  then have "exec_loop pe cs0 p (xs @ rest) st = exec_loop pe cs (p + 1) (xs' @ rest) (do_actions p pe acts st)"
    using assms class_checkD [OF assms(1)] by (simp add: exec_delta)
  also have "\<dots> = exec_loop pe cs (p + 1 + length xs') rest (do_actions p pe acts st)"
    using assms Cons by (intro exec_stretch) simp_all
  finally show ?thesis using Cons by simp
qed (use assms in simp)

lemma LEN_add [simp]: "LEN p p = 0" "LEN p (p + n) = of_nat n" "LEN p (Suc (p + n)) = of_nat (Suc n)" "LEN p (Suc p) = 1"
  by (simp_all add: LEN_def)

lemmas run_simps = exec_delta delta_separators do_actions_def CRLF_def numeral_eq_Suc

subsubsection \<open>Header lines\<close>

definition field_well :: "string \<times> string \<Rightarrow> bool" where
  "field_well kv = (case kv of (k, v) \<Rightarrow> k \<noteq> [] \<and> list_all (\<lambda>c. name_code (schar c)) k \<and>
     list_all (\<lambda>c. value_code (schar c)) v \<and> (v \<noteq> [] \<longrightarrow> start_code (schar (hd v))))"

definition sized :: "nat \<Rightarrow> nat" where
  "sized n = unat (of_nat n :: u64)"

definition after_field :: "nat \<Rightarrow> string \<times> string \<Rightarrow> http_parser \<Rightarrow> http_parser" where
  "after_field p kv h = h\<lparr>hp_field_start := p, hp_field_len := sized (length (fst kv)), hp_mark := p + length (fst kv) + 2\<rparr>"

definition field_event :: "nat \<Rightarrow> string \<times> string \<Rightarrow> http_event" where
  "field_event p kv = OnField p (sized (length (fst kv))) (p + length (fst kv) + 2) (of_nat (length (snd kv)))"

lemma tl_all: "list_all P xs \<Longrightarrow> list_all P (tl xs)"
  by (cases xs) auto

lemma run_field:
  assumes "field_well kv"
  shows "exec_loop pe 13 p (field_line kv @ CRLF @ rest) (h, es) =
     exec_loop pe 13 (p + length (field_line kv) + 2) rest (after_field p kv h, es @ [field_event p kv])"
proof -
  obtain k v where kv: "kv = (k, v)" by (cases kv)
  then have k: "k \<noteq> []" "list_all (\<lambda>c. name_code (schar c)) k" and v: "list_all (\<lambda>c. value_code (schar c)) v"
    "v \<noteq> [] \<longrightarrow> start_code (schar (hd v))" using assms by (simp_all add: field_well_def)
  have "exec_loop pe 13 p (k @ '': '' @ v @ CRLF @ rest) (h, es) =
    exec_loop pe 15 (p + length k + 2) (v @ CRLF @ rest)
      (h\<lparr>hp_field_start := p, hp_field_len := sized (length k), hp_mark := p + length k + 1\<rparr>, es)"
    using k tl_all [OF k(2)]
    by (subst exec_token [OF class_checks(7,8)]) (auto simp: run_simps sized_def list_all_iff)
  also have "\<dots> = exec_loop pe 13 (p + length (field_line kv) + 2) rest (after_field p kv h, es @ [field_event p kv])"
  proof (cases "v = []")
    case True
    then show ?thesis by (simp add: kv run_simps field_line_def after_field_def field_event_def)
  next
    case False
    then show ?thesis using v tl_all [OF v(1)]
      by (subst exec_token [OF class_checks(9,10)])
        (auto simp: kv run_simps list_all_iff field_line_def after_field_def field_event_def LEN_def add.assoc)
  qed
  finally show ?thesis by (simp add: kv field_line_def)
qed

fun after_fields :: "nat \<Rightarrow> (string \<times> string) list \<Rightarrow> http_parser \<Rightarrow> http_parser" where
  "after_fields p [] h = h"
| "after_fields p (kv # kvs) h = after_fields (p + length (field_line kv) + 2) kvs (after_field p kv h)"

fun field_events :: "nat \<Rightarrow> (string \<times> string) list \<Rightarrow> http_event list" where
  "field_events p [] = []"
| "field_events p (kv # kvs) = field_event p kv # field_events (p + length (field_line kv) + 2) kvs"

definition field_lines :: "(string \<times> string) list \<Rightarrow> string" where
  "field_lines kvs = concat (map (\<lambda>kv. field_line kv @ CRLF) kvs)"

lemma run_fields:
  "list_all field_well kvs \<Longrightarrow>
   exec_loop pe 13 p (field_lines kvs @ rest) (h, es) =
     exec_loop pe 13 (p + length (field_lines kvs)) rest (after_fields p kvs h, es @ field_events p kvs)"
proof (induction kvs arbitrary: p h es)
  case (Cons kv kvs)
  have "exec_loop pe 13 p (field_lines (kv # kvs) @ rest) (h, es) =
     exec_loop pe 13 (p + length (field_line kv) + 2) (field_lines kvs @ rest) (after_field p kv h, es @ [field_event p kv])"
    using run_field [of kv pe p "field_lines kvs @ rest"] Cons.prems by (simp add: field_lines_def)
  then show ?case using Cons by (simp add: field_lines_def CRLF_def ac_simps)
qed (simp add: field_lines_def)

lemma run_blank:
  "exec_loop pe 13 p (CRLF @ rest) (h, es) =
     (if hp_xml_sent h \<or> hp_json_sent h
      then (348, p + 2, h\<lparr>hp_field_start := p, hp_body_start := hp_mark h,
                hp_content_len := sint (ucast (LEN (hp_mark h) (p + 1) + 1) :: u32)\<rparr>, es)
      else (348, p + 2, h\<lparr>hp_field_start := p, hp_body_start := p + 2\<rparr>, es @ [OnHeaderDone (p + 2) (of_nat (pe - p - 2))]))"
  by (simp add: run_simps)

subsubsection \<open>The request line\<close>

definition method_state :: "int \<Rightarrow> int" where
  "method_state k = (if k = 1 then 2 else 173 + k)"

lemma method_checks:
  "list_all (\<lambda>k. class_check method_code (method_state k) [] (method_state (k + 1))) [1 .. 19]"
  "list_all (\<lambda>k. class_check (\<lambda>n. n = 32) (method_state k) [RequestMethod] 3) [1 .. 20]"
  by code_simp+

lemma method_next:
  assumes "1 \<le> k" and "k < 20" and "method_code (schar c)"
  shows "delta rel (method_state k) c = Some ([], method_state (k + 1))"
proof -
  have "k \<in> set [1 .. 19]" using assms(1,2) unfolding set_upto atLeastAtMost_iff by simp
  then show ?thesis using method_checks(1) assms(3) class_checkD unfolding list_all_iff by blast
qed

lemma method_end:
  assumes "1 \<le> k" and "k \<le> 20"
  shows "delta rel (method_state k) CHR '' '' = Some ([RequestMethod], 3)"
proof -
  have "k \<in> set [1 .. 20]" using assms by (simp only: set_upto atLeastAtMost_iff)
  then show ?thesis using method_checks(2) class_checkD [of "\<lambda>n. n = 32"] unfolding list_all_iff by (metis schar_values(3))
qed

lemma run_method_tail:
  "\<lbrakk>list_all (\<lambda>c. method_code (schar c)) xs; 1 \<le> k; k + int (length xs) \<le> 20\<rbrakk> \<Longrightarrow>
   exec_loop pe (method_state k) p (xs @ '' '' @ rest) st =
     exec_loop pe 3 (p + length xs + 1) rest (do_actions (p + length xs) pe [RequestMethod] st)"
proof (induction xs arbitrary: k p)
  case Nil
  then show ?case by (simp add: exec_delta method_end)
next
  case (Cons c xs)
  then show ?case using Cons.IH [of "k + 1" "p + 1"] by (simp add: exec_delta method_next do_actions_def)
qed

lemma run_method:
  assumes "list_all (\<lambda>c. method_code (schar c)) m" and "m \<noteq> []" and "length m \<le> 20"
  shows "exec_loop pe 1 p (m @ '' '' @ rest) (h, es) =
     exec_loop pe 3 (p + length m + 1) rest (h\<lparr>hp_mark := p\<rparr>, es @ [OnMethod p (of_nat (length m))])"
proof (cases m)
  case (Cons c m')
  have "exec_loop pe 1 p (m @ '' '' @ rest) (h, es) = exec_loop pe (method_state 1) (p + 1) (m' @ '' '' @ rest) (h\<lparr>hp_mark := p\<rparr>, es)"
    using Cons assms(1) class_checkD [OF class_checks(11)] by (simp add: exec_delta do_actions_def method_state_def)
  also have "\<dots> = exec_loop pe 3 (p + 1 + length m' + 1) rest (do_actions (p + 1 + length m') pe [RequestMethod] (h\<lparr>hp_mark := p\<rparr>, es))"
    using Cons assms by (intro run_method_tail) simp_all
  finally show ?thesis using Cons by (simp add: do_actions_def)
qed (use assms in simp)

definition path_well :: "string \<Rightarrow> bool" where
  "path_well s \<longleftrightarrow> (case s of [] \<Rightarrow> False
     | c # w \<Rightarrow> c = CHR ''/'' \<and> list_all (\<lambda>c. path_code (schar c)) w \<and> (w \<noteq> [] \<longrightarrow> hd w \<noteq> CHR ''/''))"

definition query_well :: "string \<Rightarrow> bool" where
  "query_well s \<longleftrightarrow> list_all (\<lambda>c. query_code (schar c)) s"

lemma schar_slash: "schar c = 47 \<longleftrightarrow> c = CHR ''/''"
proof
  assume "schar c = 47"
  then have "(of_char c :: int) = of_char CHR ''/''" using of_char_range [of c] by (auto simp: schar_def Let_def split: if_splits)
  then show "c = CHR ''/''" by (simp only: of_char_eq_iff)
qed simp

lemma run_path:
  assumes "path_well path"
  shows "exec_loop pe 3 p (path @ rest) (h, es) =
     exec_loop pe (if tl path = [] then 33 else 26) (p + length path) rest (h\<lparr>hp_mark := p\<rparr>, es)"
proof -
  obtain w where path: "path = CHR ''/'' # w" and w: "list_all (\<lambda>c. path_code (schar c)) w" "w \<noteq> [] \<longrightarrow> hd w \<noteq> CHR ''/''"
    using assms by (auto simp: path_well_def split: list.splits)
  have "exec_loop pe 3 p (path @ rest) (h, es) = exec_loop pe 33 (p + 1) (w @ rest) (h\<lparr>hp_mark := p\<rparr>, es)"
    by (simp add: path run_simps)
  also have "\<dots> = exec_loop pe (if tl path = [] then 33 else 26) (p + length path) rest (h\<lparr>hp_mark := p\<rparr>, es)"
  proof (cases "w = []")
    case False
    then have "path_code (schar (hd w)) \<and> schar (hd w) \<noteq> 47" using w by (simp add: list_all_iff schar_slash)
    then show ?thesis using False w tl_all [OF w(1)]
      by (subst exec_token [OF class_checks(1,2)]) (auto simp: path do_actions_def list_all_iff)
  qed (simp add: path)
  finally show ?thesis .
qed

definition uri_text :: "string \<Rightarrow> string \<Rightarrow> string" where
  "uri_text path query = path @ (if query = [] then [] else ''?'' @ query)"

definition uri_events :: "nat \<Rightarrow> string \<Rightarrow> string \<Rightarrow> http_event list" where
  "uri_events p path query =
     OnPath p (of_nat (length path)) # (if query = [] then [] else [OnQuery (p + length path + 1) (of_nat (length query))]) @
     [OnUri p (of_nat (length (uri_text path query)))]"

definition after_uri :: "nat \<Rightarrow> string \<Rightarrow> string \<Rightarrow> http_parser \<Rightarrow> http_parser" where
  "after_uri p path query h =
     (if query = [] then h\<lparr>hp_mark := p\<rparr> else h\<lparr>hp_mark := p, hp_query_start := p + length path + 1\<rparr>)"

lemma run_uri:
  assumes "path_well path" and "query_well query" and "(c = CHR '' '' \<and> cs = 4) \<or> (c = CHR ''#'' \<and> cs = 20)"
  shows "exec_loop pe 3 p (uri_text path query @ c # rest) (h, es) =
     exec_loop pe cs (p + length (uri_text path query) + 1) rest (after_uri p path query h, es @ uri_events p path query)"
proof (cases "query = []")
  case True
  then show ?thesis using assms(3)
    by (auto simp: run_path [OF assms(1)] uri_text_def uri_events_def after_uri_def run_simps)
next
  case False
  have "exec_loop pe 3 p (uri_text path query @ c # rest) (h, es) =
      exec_loop pe 29 (p + length path + 1) (query @ c # rest) (h\<lparr>hp_mark := p\<rparr>, es @ [OnPath p (of_nat (length path))])"
    using False by (simp add: run_path [OF assms(1)] uri_text_def run_simps)
  also have "\<dots> = exec_loop pe 30 (p + length path + 1 + length query) (c # rest)
      (do_actions (p + length path + 1) pe [StartQuery] (h\<lparr>hp_mark := p\<rparr>, es @ [OnPath p (of_nat (length path))]))"
    using False assms(2) tl_all [of _ query]
    by (intro exec_token [OF class_checks(3,4)]) (auto simp: query_well_def list_all_iff dest: list.set_sel(2))
  finally show ?thesis using False assms(3)
    by (auto simp: uri_text_def uri_events_def after_uri_def run_simps LEN_def add.assoc)
qed

end
