(* ===== verification/Http_Parser_Props.thy ===== *)
theory Http_Parser_Props
  imports Http_Parser Http11_Run
begin

text \<open>
  The request parser on a complete request: the machine reports each part of the text of a request in
  order, and the callbacks put the parts together again. Then what is left of a part that is
  split over two reads.
\<close>

subsection \<open>The request line\<close>

definition target_text :: "string \<Rightarrow> string \<Rightarrow> string \<Rightarrow> string" where
  "target_text path query fragment = uri_text path query @ (if fragment = [] then [] else ''#'' @ fragment)"

definition target_events :: "nat \<Rightarrow> string \<Rightarrow> string \<Rightarrow> string \<Rightarrow> http_event list" where
  "target_events p path query fragment = uri_events p path query @
     (if fragment = [] then [] else [OnFragment (p + length (uri_text path query) + 1) (of_nat (length fragment))])"

lemma run_target:
  assumes "path_well path" and "query_well query" and "query_well fragment"
  obtains h' where
    "exec_loop pe 3 p (target_text path query fragment @ '' '' @ rest) (h, es) =
       exec_loop pe 4 (p + length (target_text path query fragment) + 1) rest (h', es @ target_events p path query fragment)"
    "hp_xml_sent h' = hp_xml_sent h" "hp_json_sent h' = hp_json_sent h" "hp_cs h' = hp_cs h" "hp_nread h' = hp_nread h"
proof (cases "fragment = []")
  case True
  show thesis
    by (rule that [of "after_uri p path query h"])
      (auto simp: True target_text_def target_events_def run_uri [OF assms(1,2)] after_uri_def)
next
  case False
  let ?u = "p + length (uri_text path query) + 1"
  have "exec_loop pe 3 p (target_text path query fragment @ '' '' @ rest) (h, es) =
      exec_loop pe 20 ?u (fragment @ '' '' @ rest) (after_uri p path query h, es @ uri_events p path query)"
    using False run_uri [OF assms(1,2), of "CHR ''#''" 20 pe p "fragment @ '' '' @ rest" h es] by (simp add: target_text_def)
  also have "\<dots> = exec_loop pe 21 (?u + length fragment) ('' '' @ rest)
      (do_actions ?u pe [Mark] (after_uri p path query h, es @ uri_events p path query))"
    using False assms(3) by (intro exec_token [OF class_checks(5,6)]) (auto simp: query_well_def list_all_iff dest: list.set_sel(2))
  finally have run: "exec_loop pe 3 p (target_text path query fragment @ '' '' @ rest) (h, es) =
      exec_loop pe 4 (p + length (target_text path query fragment) + 1) rest
        ((after_uri p path query h)\<lparr>hp_mark := ?u\<rparr>, es @ target_events p path query fragment)"
    using False by (simp add: run_simps target_text_def target_events_def add.assoc LEN_def)
  show thesis by (rule that [OF run]) (simp_all add: after_uri_def)
qed

lemma run_version:
  assumes "d = CHR ''0'' \<or> d = CHR ''1''"
  shows "exec_loop pe 4 p (''HTTP/1.'' @ [d] @ CRLF @ rest) (h, es) =
     exec_loop pe 13 (p + 10) rest (h\<lparr>hp_mark := p\<rparr>, es @ [OnVersion p 8])"
  using assms by (auto simp: run_simps delta_version LEN_def)

lemma after_fields_frame [simp]:
  "hp_xml_sent (after_fields p kvs h) = hp_xml_sent h" "hp_json_sent (after_fields p kvs h) = hp_json_sent h"
  "hp_cs (after_fields p kvs h) = hp_cs h" "hp_nread (after_fields p kvs h) = hp_nread h"
  by (induction kvs arbitrary: p h) (simp_all add: after_field_def)

subsection \<open>A complete request\<close>

definition head_text :: "string \<Rightarrow> string \<Rightarrow> string \<Rightarrow> string \<Rightarrow> char \<Rightarrow> string" where
  "head_text m path query fragment d = m @ '' '' @ target_text path query fragment @ '' HTTP/1.'' @ [d] @ CRLF"

definition head_events :: "string \<Rightarrow> string \<Rightarrow> string \<Rightarrow> string \<Rightarrow> http_event list" where
  "head_events m path query fragment =
     OnMethod 0 (of_nat (length m)) # target_events (length m + 1) path query fragment @
     [OnVersion (length m + length (target_text path query fragment) + 2) 8]"

lemma run_request:
  assumes m: "list_all (\<lambda>c. method_code (schar c)) m" "m \<noteq> []" "length m \<le> 20"
    and t: "path_well path" "query_well query" "query_well fragment"
    and d: "d = CHR ''0'' \<or> d = CHR ''1''" and kvs: "list_all field_well kvs"
    and h: "\<not> hp_xml_sent h" "\<not> hp_json_sent h"
  defines "head \<equiv> head_text m path query fragment d"
  defines "n \<equiv> length head + length (field_lines kvs) + 2"
  obtains h' where
    "exec_loop pe 1 0 (head @ field_lines kvs @ CRLF @ body) (h, []) =
       (348, n, h', head_events m path query fragment @ field_events (length head) kvs @ [OnHeaderDone n (of_nat (pe - n))])"
    "hp_cs h' = hp_cs h" "hp_nread h' = hp_nread h"
proof -
  let ?t = "target_text path query fragment" and ?rest = "field_lines kvs @ CRLF @ body"
  obtain h1 where t1:
    "exec_loop pe 3 (length m + 1) (?t @ '' '' @ (''HTTP/1.'' @ [d] @ CRLF @ ?rest)) (h\<lparr>hp_mark := 0\<rparr>, [OnMethod 0 (of_nat (length m))]) =
       exec_loop pe 4 (length m + 1 + length ?t + 1) (''HTTP/1.'' @ [d] @ CRLF @ ?rest)
         (h1, [OnMethod 0 (of_nat (length m))] @ target_events (length m + 1) path query fragment)"
    and h1: "hp_xml_sent h1 = hp_xml_sent h" "hp_json_sent h1 = hp_json_sent h" "hp_cs h1 = hp_cs h" "hp_nread h1 = hp_nread h"
    using run_target [OF t, of pe "length m + 1" "''HTTP/1.'' @ [d] @ CRLF @ ?rest" "h\<lparr>hp_mark := 0\<rparr>"
      "[OnMethod 0 (of_nat (length m))]"] by auto
  let ?h2 = "h1\<lparr>hp_mark := length m + length ?t + 2\<rparr>"
  let ?h3 = "after_fields (length head) kvs ?h2"
  have "exec_loop pe 1 0 (head @ ?rest) (h, []) =
      exec_loop pe 3 (length m + 1) (?t @ '' '' @ (''HTTP/1.'' @ [d] @ CRLF @ ?rest)) (h\<lparr>hp_mark := 0\<rparr>, [OnMethod 0 (of_nat (length m))])"
    using run_method [OF m, of pe 0 "?t @ '' '' @ (''HTTP/1.'' @ [d] @ CRLF @ ?rest)" h "[]"] by (simp add: head_def head_text_def)
  also have "\<dots> = exec_loop pe 13 (length head) ?rest (?h2, head_events m path query fragment)"
    unfolding t1 run_version [OF d] by (simp add: head_def head_text_def head_events_def CRLF_def numeral_eq_Suc)
  also have "\<dots> = exec_loop pe 13 (length head + length (field_lines kvs)) (CRLF @ body)
      (?h3, head_events m path query fragment @ field_events (length head) kvs)"
    by (rule run_fields [OF kvs])
  finally have run: "exec_loop pe 1 0 (head @ field_lines kvs @ CRLF @ body) (h, []) =
      (348, n, ?h3\<lparr>hp_field_start := n - 2, hp_body_start := n\<rparr>,
       head_events m path query fragment @ field_events (length head) kvs @ [OnHeaderDone n (of_nat (pe - n))])"
    using h h1 by (simp add: run_blank n_def del: of_nat_diff)
  show thesis by (rule that [OF run]) (simp_all add: h1)
qed

subsection \<open>The callbacks on a complete request\<close>

lemma request_callbacks_append:
  "request_callbacks mem (es @ es') rp = err_bind (request_callbacks mem es rp) (request_callbacks mem es')"
  by (induction es arbitrary: rp) (auto simp: err_bind_def split: sum.splits)

lemma sized_eq: "n < 2 ^ 64 \<Longrightarrow> sized n = n" "n < 2 ^ 64 \<Longrightarrow> unat (of_nat n :: u64) = n"
  by (simp_all add: sized_def unat_of_nat)

lemma mem_part:
  assumes "mem = xs @ s @ ys" and "length mem < 2 ^ 63" and "at = length xs"
  shows "mem_string mem at (unat (of_nat (length s) :: u64)) = Inr s"
proof -
  have "unat (of_nat (length s) :: u64) = length s" using assms by (intro sized_eq) simp
  then show ?thesis using assms by (simp add: mem_string_def)
qed

definition set_headers :: "(string \<times> string) list \<Rightarrow> header_map \<Rightarrow> header_map" where
  "set_headers kvs m = foldl (\<lambda>m (k, v). set_header k v m) m kvs"

lemma callbacks_fields:
  assumes "list_all field_well kvs" and "mem = xs @ field_lines kvs @ ys" and "length mem < 2 ^ 63"
  shows "request_callbacks mem (field_events (length xs) kvs) rp =
     Inr (rp\<lparr>m_data := (m_data rp)\<lparr>m_headers := set_headers kvs (m_headers (m_data rp))\<rparr>\<rparr>)"
  using assms
proof (induction kvs arbitrary: xs rp)
  case Nil
  then show ?case by (simp add: set_headers_def)
next
  case (Cons kv kvs)
  obtain k v where kv: "kv = (k, v)" by (cases kv)
  have k: "k \<noteq> []" "sized (length k) = length k"
    using Cons.prems kv by (auto simp: field_well_def field_lines_def field_line_def intro!: sized_eq)
  have "mem_string mem (length xs) (sized (length k)) = Inr k"
    unfolding sized_def using Cons.prems kv
    by (intro mem_part [where ys = "'': '' @ v @ CRLF @ field_lines kvs @ ys"]) (simp_all add: field_lines_def field_line_def)
  moreover have "mem_string mem (length xs + length k + 2) (unat (of_nat (length v) :: u64)) = Inr v"
    using Cons.prems kv
    by (intro mem_part [where xs = "xs @ k @ '': ''" and ys = "CRLF @ field_lines kvs @ ys"]) (simp_all add: field_lines_def field_line_def)
  moreover have "mem = (xs @ field_line kv @ CRLF) @ field_lines kvs @ ys"
    using Cons.prems(2) by (simp add: field_lines_def)
  then have "request_callbacks mem (field_events (length xs + length (field_line kv) + 2) kvs) rp =
      Inr (rp\<lparr>m_data := (m_data rp)\<lparr>m_headers := set_headers kvs (m_headers (m_data rp))\<rparr>\<rparr>)" for rp
    using Cons.IH [of "xs @ field_line kv @ CRLF"] Cons.prems by (simp add: CRLF_def)
  ultimately show ?case
    using k by (simp add: kv field_event_def on_request_http_field_def setHeader_def set_headers_def)
qed

lemma callbacks_target:
  assumes "mem = xs @ target_text path query fragment @ ys" and "length mem < 2 ^ 63"
  shows "request_callbacks mem (target_events (length xs) path query fragment) rp =
     Inr (rp\<lparr>m_data := (m_data rp)\<lparr>m_path := path, m_query := (if query = [] then m_query (m_data rp) else query),
                 m_fragment := (if fragment = [] then m_fragment (m_data rp) else fragment)\<rparr>\<rparr>)"
proof -
  let ?f = "(if fragment = [] then [] else ''#'' @ fragment) @ ys"
  have "mem_string mem (length xs) (unat (of_nat (length path) :: u64)) = Inr path"
    by (rule mem_part [OF _ assms(2)]) (use assms(1) in \<open>simp_all add: target_text_def uri_text_def\<close>)
  moreover have "query \<noteq> [] \<Longrightarrow> mem_string mem (length xs + length path + 1) (unat (of_nat (length query) :: u64)) = Inr query"
    by (rule mem_part [OF _ assms(2), where xs = "xs @ path @ ''?''" and ys = ?f])
      (use assms(1) in \<open>simp_all add: target_text_def uri_text_def\<close>)
  moreover have "fragment \<noteq> [] \<Longrightarrow>
      mem_string mem (length xs + length (uri_text path query) + 1) (unat (of_nat (length fragment) :: u64)) = Inr fragment"
    by (rule mem_part [OF _ assms(2), where xs = "xs @ uri_text path query @ ''#''" and ys = ys])
      (use assms(1) in \<open>simp_all add: target_text_def\<close>)
  ultimately show ?thesis
    by (cases "query = []"; cases "fragment = []")
      (simp_all add: target_events_def uri_events_def on_request_path_def on_request_query_def on_request_uri_def on_request_fragment_def)
qed

definition version_digit :: "u8 \<Rightarrow> char" where
  "version_digit v = (if v = 0x11 then CHR ''1'' else CHR ''0'')"

lemma callback_version:
  assumes "v = 0x11 \<or> v = 0x10" and "drop at mem = ''HTTP/1.'' @ [version_digit v] @ ys"
  shows "on_request_version mem at 8 rp = Inr (rp\<lparr>m_data := (m_data rp)\<lparr>m_version := v\<rparr>\<rparr>)"
  using assms by (auto simp: on_request_version_def http_1_1_def http_1_0_def version_digit_def numeral_eq_Suc)

definition method_well :: "http_method \<Rightarrow> bool" where
  "method_well m \<longleftrightarrow> list_all (\<lambda>c. method_code (schar c)) (HttpMethodToString m) \<and> HttpMethodToString m \<noteq> [] \<and>
     length (HttpMethodToString m) \<le> 20"

lemma method_well_check: "list_all (\<lambda>m. m = MSEARCH \<or> method_well m) (map (\<lambda>(_, m, _). m) HTTP_METHOD_MAP)"
  by code_simp

lemma method_wellI: "m \<noteq> HTTP_INVALID_METHOD \<Longrightarrow> m \<noteq> MSEARCH \<Longrightarrow> method_well m"
  using method_well_check methods_listed [of m] unfolding list_all_iff by blast

lemma dec_string_chars: "c \<in> set (dec_string n) \<Longrightarrow> \<exists>k < 10. c = digit k"
proof -
  have "c \<in> set (base_string b n) \<Longrightarrow> b = 10 \<Longrightarrow> \<exists>k < 10. c = digit k" for b
  proof (induction b n rule: base_string.induct)
    case (1 b n)
    then show ?case
      by (cases "n < b") (auto simp: base_string.simps [of 10 n] intro: exI [of _ "n mod 10"])
  qed
  then show "c \<in> set (dec_string n) \<Longrightarrow> ?thesis" by (simp add: dec_string_def)
qed

lemma schar_digit: "k < 10 \<Longrightarrow> schar (digit k) = 48 + int k"
proof -
  assume k: "k < 10"
  then have "(of_char (digit k) :: nat) = 48 + k" by (simp add: digit_def)
  then have "(of_char (digit k) :: int) = 48 + int k" using of_nat_of_char [of "digit k", where 'a = int] by simp
  then show ?thesis using k by (simp add: schar_def)
qed

lemma dec_string_codes: "c \<in> set (dec_string n) \<Longrightarrow> start_code (schar c) \<and> value_code (schar c)"
  using dec_string_chars [of c n] by (auto simp: schar_digit start_code_def value_code_def)

lemma own_fields_well: "field_well (connection_field close)" "list_all field_well (length_field body)"
proof -
  have "field_well (''connection'', ''close'')" "field_well (''connection'', ''keep-alive'')" by code_simp+
  then show "field_well (connection_field close)" by (simp add: connection_field_def)
  have "list_all (\<lambda>c. name_code (schar c)) ''content-length''" by code_simp
  then show "list_all field_well (length_field body)"
    using dec_string_codes [of _ "length body"] by (auto simp: length_field_def field_well_def list_all_iff)
qed

definition message_fields :: "http_request \<Rightarrow> header_map" where
  "message_fields q = connection_field (m_close q) # plain_fields (m_headers q) @ length_field (m_body q)"

lemma version_texts: "version_text 0x11 = ''1.1''" "version_text 0x10 = ''1.0''"
  by code_simp+

lemma request_dump_parts:
  assumes "m_version q = 0x11 \<or> m_version q = 0x10"
  shows "request_dump q =
     head_text (HttpMethodToString (m_method q)) (m_path q) (m_query q) (m_fragment q) (version_digit (m_version q)) @
     field_lines (message_fields q) @ CRLF @ m_body q"
  using assms
  by (auto simp: request_dump_def head_text_def target_text_def uri_text_def message_fields_def field_lines_def header_lines_fields
      version_digit_def version_texts connection_field_def length_field_def field_line_def)

lemma init_reset:
  "(http_parser_init raw)\<lparr>hp_nread := 0, hp_mark := 0, hp_field_len := 0, hp_field_start := 0\<rparr> = http_parser_init raw"
  "hp_cs (http_parser_init raw) = 1" "hp_body_start (http_parser_init raw) = 0"
  "\<not> hp_xml_sent (http_parser_init raw)" "\<not> hp_json_sent (http_parser_init raw)" "hp_nread (http_parser_init raw) = 0"
  by (cases raw, simp_all add: http_parser_init_def http_parser_start_def)

lemma callbacks_head:
  assumes "mem = head_text (HttpMethodToString m) path query fragment (version_digit v) @ ys" and "length mem < 2 ^ 63"
    and "m \<noteq> HTTP_INVALID_METHOD" and "v = 0x11 \<or> v = 0x10"
  shows "request_callbacks mem (head_events (HttpMethodToString m) path query fragment) rp =
     Inr (rp\<lparr>m_data := (m_data rp)\<lparr>m_method := m, m_path := path, m_query := (if query = [] then m_query (m_data rp) else query),
                 m_fragment := (if fragment = [] then m_fragment (m_data rp) else fragment), m_version := v\<rparr>\<rparr>)"
proof -
  let ?m = "HttpMethodToString m" and ?t = "target_text path query fragment"
  let ?v = "''HTTP/1.'' @ [version_digit v] @ CRLF @ ys"
  have mem: "mem = ?m @ '' '' @ ?t @ '' '' @ ?v" using assms(1) by (simp add: head_text_def)
  have meth: "on_request_method mem 0 k rp = Inr (rp\<lparr>m_data := (m_data rp)\<lparr>m_method := m\<rparr>\<rparr>)" for k
    using assms(3) method_of_text(3) [OF assms(3)] by (simp add: on_request_method_def Let_def mem)
  have targ: "request_callbacks mem (target_events (length ?m + 1) path query fragment) rp =
     Inr (rp\<lparr>m_data := (m_data rp)\<lparr>m_path := path, m_query := (if query = [] then m_query (m_data rp) else query),
                 m_fragment := (if fragment = [] then m_fragment (m_data rp) else fragment)\<rparr>\<rparr>)" for rp
    using callbacks_target [of mem "?m @ '' ''" path query fragment "'' '' @ ?v"] assms(2) by (simp add: mem)
  have "drop (length ?m + length ?t + 2) mem = ''HTTP/1.'' @ [version_digit v] @ CRLF @ ys" unfolding mem by simp
  then have vers: "on_request_version mem (length ?m + length ?t + 2) 8 rp = Inr (rp\<lparr>m_data := (m_data rp)\<lparr>m_version := v\<rparr>\<rparr>)" for rp
    using callback_version [OF assms(4)] by blast
  show ?thesis unfolding head_events_def
    by (simp add: request_callbacks_append meth targ [unfolded Suc_eq_plus1 [symmetric]] vers [simplified])
qed

subsection \<open>Tokens split over two reads\<close>

definition resumed :: "http_parser \<Rightarrow> http_parser" where
  "resumed h = h\<lparr>hp_nread := 0, hp_mark := 0, hp_field_len := 0, hp_field_start := 0\<rparr>"

definition tail_text :: string where
  "tail_text = '' HTTP/1.1'' @ CRLF @ CRLF"

lemma split_first:
  assumes "method_well m" and "path_well path" and "tl path \<noteq> []" and "query_well q1"
    and small: "length (HttpMethodToString m @ '' '' @ path @ (if q1 = [] then [] else ''?'' @ q1)) < 2 ^ 31"
  defines "c1 \<equiv> HttpMethodToString m @ '' '' @ path @ (if q1 = [] then [] else ''?'' @ q1)"
  obtains h es where "http_parser_execute (http_parser_init raw) c1 0 = Inr (length c1, h, es)"
    and "hp_cs h = (if q1 = [] then 26 else 30)" and "hp_body_start h = 0" and "\<not> hp_xml_sent h" and "\<not> hp_json_sent h"
    and "q1 \<noteq> [] \<longrightarrow> hp_query_start h = length (HttpMethodToString m) + length path + 2"
    and "es = OnMethod 0 (of_nat (length (HttpMethodToString m))) #
           (if q1 = [] then [] else [OnPath (length (HttpMethodToString m) + 1) (of_nat (length path))])"
proof -
  let ?m = "HttpMethodToString m" and ?raw = "http_parser_init raw"
  let ?h1 = "?raw\<lparr>hp_mark := length ?m + 1\<rparr>" and ?e = "OnMethod 0 (of_nat (length ?m))"
  have m: "exec_loop pe 1 0 (c1) (?raw, []) =
      exec_loop pe 26 (length ?m + 1 + length path) (if q1 = [] then [] else ''?'' @ q1) (?h1, [?e])" for pe
    using run_method [of ?m pe 0 "path @ (if q1 = [] then [] else ''?'' @ q1)" ?raw "[]"] assms(1,3)
    unfolding c1_def by (simp add: method_well_def run_path [OF assms(2)])
  have ne: "c1 \<noteq> []" and len: "length c1 < 2 ^ 31" using small unfolding c1_def by simp_all
  show thesis
  proof (cases "q1 = []")
    case True
    have "exec_loop (length c1) (hp_cs ?raw) 0 (drop 0 c1) (resumed ?raw, []) = (26, length c1, ?h1, [?e])"
      using m True by (simp add: c1_def resumed_def init_reset)
    then have ex: "http_parser_execute ?raw c1 0 = Inr (length c1, ?h1\<lparr>hp_cs := 26, hp_nread := length c1\<rparr>, [?e])"
      using http_parser_execute_run [OF ne, of ?raw 0] len by (simp add: init_reset resumed_def)
    show thesis using True by (intro that [OF ex]) (simp_all add: init_reset)
  next
    case False
    let ?p = "length ?m + length path + 2"
    have "exec_loop pe 1 0 c1 (?raw, []) = exec_loop pe 29 ?p (q1 @ []) (?h1, [?e, OnPath (length ?m + 1) (of_nat (length path))])" for pe
      using m False by (simp add: run_simps LEN_def)
    also have "\<dots> pe = exec_loop pe 30 (?p + length q1) [] (do_actions ?p pe [StartQuery] (?h1, [?e, OnPath (length ?m + 1) (of_nat (length path))]))" for pe
      using False assms(4) by (intro exec_token [OF class_checks(3,4)]) (auto simp: query_well_def list_all_iff dest: list.set_sel(2))
    finally have "exec_loop (length c1) (hp_cs ?raw) 0 (drop 0 c1) (resumed ?raw, []) =
        (30, length c1, ?h1\<lparr>hp_query_start := ?p\<rparr>, [?e, OnPath (length ?m + 1) (of_nat (length path))])"
      using False by (simp add: c1_def resumed_def init_reset do_actions_def)
    then have ex: "http_parser_execute ?raw c1 0 = Inr (length c1, ?h1\<lparr>hp_query_start := ?p, hp_cs := 30, hp_nread := length c1\<rparr>,
        [?e, OnPath (length ?m + 1) (of_nat (length path))])"
      using http_parser_execute_run [OF ne, of ?raw 0] len by (simp add: init_reset resumed_def)
    show thesis using False by (intro that [OF ex]) (simp_all add: init_reset)
  qed
qed

lemma run_tail:
  assumes "\<not> hp_xml_sent h" and "\<not> hp_json_sent h"
  obtains h' where "exec_loop pe 4 p (''HTTP/1.1'' @ CRLF @ CRLF) (h, es) =
      (348, p + 12, h', es @ [OnVersion p 8, OnHeaderDone (p + 12) (of_nat (pe - p - 12))])"
proof -
  have "exec_loop pe 4 p (''HTTP/1.1'' @ CRLF @ CRLF) (h, es) = exec_loop pe 13 (p + 10) (CRLF @ []) (h\<lparr>hp_mark := p\<rparr>, es @ [OnVersion p 8])"
    using run_version [of "CHR ''1''" pe p "CRLF @ []" h es] by simp
  then show thesis using assms run_blank [of pe "p + 10" "[]"]
    by (intro that [of "h\<lparr>hp_mark := p, hp_field_start := p + 10, hp_body_start := p + 12\<rparr>"]) (simp add: add.commute del: of_nat_diff)
qed

lemma LEN_underflow:
  assumes "p < at" and "at < 2 ^ 64"
  shows "unat (LEN at p) = 2 ^ 64 + p - at"
proof -
  have len: "LEN at p = word_of_int (int p - int at)" by (simp add: LEN_def)
  have "uint (LEN at p) = (int p - int at) mod 2 ^ 64" unfolding len uint_word_of_int_eq take_bit_eq_mod by simp
  also have "\<dots> = (int p - int at + 2 ^ 64) mod 2 ^ 64" by simp
  also have "\<dots> = int p - int at + 2 ^ 64" using assms by (intro mod_pos_pos_trivial) simp_all
  finally have "int (unat (LEN at p)) = int (2 ^ 64 + p - at)" using assms by simp
  then show ?thesis by (simp only: of_nat_eq_iff)
qed

lemma split_path:
  assumes "hp_cs h = 26" and "hp_body_start h = 0" and "\<not> hp_xml_sent h" and "\<not> hp_json_sent h"
    and "list_all (\<lambda>c. path_code (schar c)) w" and small: "length (w @ tail_text) < 2 ^ 31"
  obtains h' n where "http_parser_execute h (w @ tail_text) 0 = Inr (length w + 13, h',
      [OnPath 0 (of_nat (length w)), OnUri 0 (of_nat (length w)), OnVersion (length w + 1) 8, OnHeaderDone (length w + 13) n])"
    and "hp_cs h' = 348"
proof -
  let ?c = "w @ tail_text" and ?es = "[OnPath 0 (of_nat (length w)), OnUri 0 (of_nat (length w))]"
  have "exec_loop (length ?c) 26 0 (w @ tail_text) (resumed h, []) =
      exec_loop (length ?c) 26 (0 + length w) tail_text (resumed h, [])"
    using assms(5) by (intro exec_stretch [OF class_checks(2)]) (simp add: list_all_iff)
  also have "\<dots> = exec_loop (length ?c) 4 (length w + 1) (''HTTP/1.1'' @ CRLF @ CRLF) (resumed h, ?es)"
    by (simp add: tail_text_def exec_delta delta_separators do_actions_def resumed_def LEN_def)
  also obtain h' where "\<dots> = (348, length w + 1 + 12, h', ?es @ [OnVersion (length w + 1) 8,
      OnHeaderDone (length w + 1 + 12) (of_nat (length ?c - (length w + 1) - 12))])"
    using run_tail [of "resumed h" "length ?c" "length w + 1" ?es] assms(3,4) by (auto simp: resumed_def)
  finally have run: "exec_loop (length ?c) (hp_cs h) 0 (drop 0 ?c) (resumed h, []) = (348, length w + 13, h', ?es @
      [OnVersion (length w + 1) 8, OnHeaderDone (length w + 13) (of_nat (length ?c - (length w + 1) - 12))])"
    using assms(1) by (simp del: of_nat_diff)
  show thesis
    using http_parser_execute_run [OF _ _ _ small run [unfolded resumed_def]] assms(1,2) that by (simp add: tail_text_def)
qed

lemma split_query:
  assumes "hp_cs h = 30" and "hp_body_start h = 0" and "\<not> hp_xml_sent h" and "\<not> hp_json_sent h" and "query_well q"
    and small: "length (q @ tail_text) < 2 ^ 31"
  obtains n h' es where "http_parser_execute h (q @ tail_text) 0 =
      Inr (n, h', OnQuery (hp_query_start h) (LEN (hp_query_start h) (length q)) # es)"
proof -
  let ?c = "q @ tail_text"
  let ?e = "[OnQuery (hp_query_start h) (LEN (hp_query_start h) (length q)), OnUri 0 (of_nat (length q))]"
  have "exec_loop (length ?c) 30 0 (q @ tail_text) (resumed h, []) =
      exec_loop (length ?c) 30 (0 + length q) tail_text (resumed h, [])"
    using assms(5) by (intro exec_stretch [OF class_checks(4)]) (simp add: query_well_def list_all_iff)
  also have "\<dots> = exec_loop (length ?c) 4 (length q + 1) (''HTTP/1.1'' @ CRLF @ CRLF) (resumed h, ?e)"
    by (simp add: tail_text_def exec_delta delta_separators do_actions_def resumed_def LEN_def)
  also obtain h' where "\<dots> = (348, length q + 1 + 12, h', ?e @ [OnVersion (length q + 1) 8,
      OnHeaderDone (length q + 1 + 12) (of_nat (length ?c - (length q + 1) - 12))])"
    using run_tail [of "resumed h" "length ?c" "length q + 1" ?e] assms(3,4) by (auto simp: resumed_def)
  finally have run: "exec_loop (length ?c) (hp_cs h) 0 (drop 0 ?c) (resumed h, []) = (348, length q + 13, h', ?e @
      [OnVersion (length q + 1) 8, OnHeaderDone (length q + 13) (of_nat (length ?c - (length q + 1) - 12))])"
    using assms(1) by (simp del: of_nat_diff)
  show thesis
    using http_parser_execute_run [OF _ _ _ small run [unfolded resumed_def]] assms(1,2) that by (simp add: tail_text_def)
qed

subsection \<open>A concrete request\<close>

definition blank_parser :: http_parser where
  "blank_parser = \<lparr>hp_cs = 0, hp_body_start = 0, hp_content_len = 0, hp_nread = 0, hp_mark = 0, hp_field_start = 0,
     hp_field_len = 0, hp_query_start = 0, hp_xml_sent = False, hp_json_sent = False, hp_uri_relaxed = False\<rparr>"

definition demo_request :: http_request where
  "demo_request = (new_HttpRequest 0x11 False)
     \<lparr>m_path := ''/a'', m_query := ''x=1'', m_body := ''hi'', m_headers := [(''Host'', ''b'')]\<rparr>"

definition request_well :: "http_request \<Rightarrow> bool" where
  "request_well q \<longleftrightarrow> m_method q \<noteq> HTTP_INVALID_METHOD \<and> m_method q \<noteq> MSEARCH \<and> path_well (m_path q) \<and> query_well (m_query q) \<and>
     query_well (m_fragment q) \<and> (m_version q = 0x11 \<or> m_version q = 0x10) \<and> list_all field_well (m_headers q)"

definition request_head :: "http_request \<Rightarrow> string" where
  "request_head q =
     head_text (HttpMethodToString (m_method q)) (m_path q) (m_query q) (m_fragment q) (version_digit (m_version q)) @
     field_lines (message_fields q) @ CRLF"

definition parsed :: "http_request \<Rightarrow> http_request" where
  "parsed q = q\<lparr>m_headers := set_headers (message_fields q) [], m_body := [], m_close := True, m_params := [], m_cookies := []\<rparr>"

lemma request_dump_head: "request_well q \<Longrightarrow> request_dump q = request_head q @ m_body q"
  using request_dump_parts [of q] by (simp add: request_well_def request_head_def)

lemma parse_head:
  assumes "request_well q" and mem: "mem = request_head q @ ys" and "length mem < 2 ^ 31" and "j \<le> length ys"
  shows "\<exists>rp. request_execute (new_HttpRequestParser raw) mem (length (request_head q) + j) =
           Inr (length (request_head q), rp, shift_left mem (length (request_head q) + j) (length (request_head q))) \<and>
         request_isFinished rp = 1 \<and> \<not> request_hasError rp \<and> m_data rp = parsed q"
proof -
  let ?m = "HttpMethodToString (m_method q)" and ?kvs = "message_fields q" and ?b = "take j ys"
  let ?head = "head_text ?m (m_path q) (m_query q) (m_fragment q) (version_digit (m_version q))"
  let ?n = "length (request_head q)" and ?t = "request_head q @ ?b"
  let ?raw = "http_parser_init raw"
  have well: "method_well (m_method q)" "path_well (m_path q)" "query_well (m_query q)" "query_well (m_fragment q)"
    "version_digit (m_version q) = CHR ''0'' \<or> version_digit (m_version q) = CHR ''1''"
    and v: "m_version q = 0x11 \<or> m_version q = 0x10"
    using assms(1) by (auto simp: request_well_def method_wellI version_digit_def)
  have kvs: "list_all field_well ?kvs"
    using assms(1) own_fields_well by (auto simp: request_well_def message_fields_def plain_fields_def list_all_iff)
  have t: "?t = ?head @ field_lines ?kvs @ CRLF @ ?b" by (simp add: request_head_def)
  have n: "?n = length ?head + length (field_lines ?kvs) + 2" by (simp add: request_head_def CRLF_def)
  let ?es = "head_events ?m (m_path q) (m_query q) (m_fragment q) @ field_events (length ?head) ?kvs @ [OnHeaderDone ?n (of_nat (length ?t - ?n))]"
  obtain h' where run: "exec_loop (length ?t) 1 0 ?t (?raw, []) = (348, ?n, h', ?es)"
    using run_request [OF _ _ _ well(2-5) kvs, of ?m ?raw "length ?t" ?b] well(1)
    unfolding t [symmetric] n [symmetric] by (auto simp: method_well_def init_reset)
  have "?t \<noteq> []" by (simp add: request_head_def CRLF_def)
  then obtain h where ex: "http_parser_execute ?raw ?t 0 = Inr (?n, h, ?es)" and h: "hp_cs h = 348"
    using http_parser_execute_run [of ?t ?raw 0 348 ?n h'] run assms(3,4) mem by (auto simp: init_reset)
  have m63: "length mem < 2 ^ 63" using assms(3) by simp
  have m1: "mem = ?head @ field_lines ?kvs @ CRLF @ ys" "mem = ?head @ (field_lines ?kvs @ CRLF @ ys)" using mem by (simp_all add: request_head_def)
  have "request_callbacks mem ?es ((new_HttpRequestParser raw)\<lparr>m_parser := h\<rparr>) = Inr \<lparr>m_parser = h, m_data = parsed q, m_error = 0\<rparr>"
    using callbacks_head [OF m1(2) m63 _ v] callbacks_fields [OF kvs m1(1) m63] assms(1)
    by (simp add: request_callbacks_append on_request_header_done_def new_HttpRequestParser_def new_HttpRequest_def request_well_def parsed_def)
  moreover have "take (?n + j) mem = ?t" using mem assms(4) by simp
  ultimately show ?thesis
    using ex h
    by (simp add: request_execute_def new_HttpRequestParser_def request_isFinished_def request_hasError_def http_parser_finish_def
        http_parser_has_error_def http_parser_is_finished_def http_parser_error_def http_parser_first_final_def)
qed

subsection \<open>Properties\<close>

text \<open>C11. The text that a request of a valid form is sent as, shorter than \<open>2 ^ 31\<close> characters and read in one piece, is parsed back: the parser ends
  finished and without an error, it has consumed exactly the head, the body is what remains at
  the front of the memory, and method, path, query, fragment and version are those of the request.
  The headers are the ones written, a connection header and the length of the body included.\<close>

theorem request_parse_roundtrip:
  assumes "request_well q" and "length (request_dump q) < 2 ^ 31"
  shows "\<exists>rp mem. request_execute (new_HttpRequestParser raw) (request_dump q) (length (request_dump q)) =
           Inr (length (request_dump q) - length (m_body q), rp, mem) \<and>
         request_isFinished rp = 1 \<and> \<not> request_hasError rp \<and> take (length (m_body q)) mem = m_body q \<and>
         m_data rp = q\<lparr>m_headers := set_headers (message_fields q) [], m_body := [], m_close := True, m_params := [], m_cookies := []\<rparr>"
  using parse_head [OF assms(1) request_dump_head [OF assms(1)] assms(2) order_refl, of raw]
  by (auto simp: request_dump_head [OF assms(1)] parsed_def shift_left_def memcpy_at_def)

theorem request_parse_roundtrip_witness:
  "\<exists>rp mem. request_execute (new_HttpRequestParser blank_parser) (request_dump demo_request) (length (request_dump demo_request)) =
       Inr (length (request_dump demo_request) - 2, rp, mem) \<and>
     request_isFinished rp = 1 \<and> take 2 mem = ''hi'' \<and> m_query (m_data rp) = ''x=1''"
proof -
  have "request_well demo_request" by code_simp
  moreover have "length (request_dump demo_request) = length (''GET /a?x=1 HTTP/1.1'' @ CRLF @ ''connection: keep-alive'' @ CRLF @
      ''Host: b'' @ CRLF @ ''content-length: 2'' @ CRLF @ CRLF @ ''hi'')"
    by (rule arg_cong [of _ _ length]) code_simp
  then have "length (request_dump demo_request) < 2 ^ 31" by (simp add: CRLF_def)
  moreover have "m_body demo_request = ''hi''" "m_query demo_request = ''x=1''" by (simp_all add: demo_request_def)
  ultimately show ?thesis
    using request_parse_roundtrip [of demo_request blank_parser] by (auto simp: numeral_2_eq_2)
qed

text \<open>C26. A read that ends inside a token loses the part before it: the marks are set back at every call,
  so of a path split over two reads only the second part is kept, without an error; of a query
  the start is not set back, and when the second part is shorter than that offset the length
  of the query wraps around to almost \<open>2 ^ 64\<close>, so that the construction of the string throws \<^verbatim>\<open>length_error\<close> out of the callback.
  The reads are shorter than \<open>2 ^ 31\<close> bytes.\<close>

theorem split_token_lost:
  assumes "m \<noteq> HTTP_INVALID_METHOD" and "m \<noteq> MSEARCH" and "path_well path" and "tl path \<noteq> []"
    and "list_all (\<lambda>c. path_code (schar c)) w" and "q1 \<noteq> []" and "query_well q1" and "query_well q2"
    and "length q2 < length (HttpMethodToString m @ '' '' @ path @ ''?'')"
    and "length (HttpMethodToString m @ '' '' @ path @ ''?'' @ q1) < 2 ^ 31" and "length (w @ tail_text) < 2 ^ 31"
    and "length (q2 @ tail_text) < 2 ^ 31"
  shows "(\<exists>rp1 mem1 rp2 mem2.
            request_execute (new_HttpRequestParser raw) (HttpMethodToString m @ '' '' @ path) (length (HttpMethodToString m @ '' '' @ path)) =
              Inr (length (HttpMethodToString m @ '' '' @ path), rp1, mem1) \<and> \<not> request_hasError rp1 \<and>
            request_execute rp1 (w @ tail_text) (length (w @ tail_text)) = Inr (length (w @ tail_text), rp2, mem2) \<and>
            request_isFinished rp2 = 1 \<and> \<not> request_hasError rp2 \<and> m_path (m_data rp2) = w) \<and>
         (\<exists>rp1 mem1.
            request_execute (new_HttpRequestParser raw) (HttpMethodToString m @ '' '' @ path @ ''?'' @ q1)
                (length (HttpMethodToString m @ '' '' @ path @ ''?'' @ q1)) =
              Inr (length (HttpMethodToString m @ '' '' @ path @ ''?'' @ q1), rp1, mem1) \<and> \<not> request_hasError rp1 \<and>
            request_execute rp1 (q2 @ tail_text) (length (q2 @ tail_text)) = Inl LengthError)"
proof
  let ?m = "HttpMethodToString m"
  note well = method_wellI [OF assms(1,2)]
  have meth: "on_request_method (?m @ ys) 0 k rp = Inr (rp\<lparr>m_data := (m_data rp)\<lparr>m_method := m\<rparr>\<rparr>)" for k ys rp
    using assms(1) method_of_text(3) [OF assms(1)] by (simp add: on_request_method_def Let_def)
  show "\<exists>rp1 mem1 rp2 mem2.
            request_execute (new_HttpRequestParser raw) (?m @ '' '' @ path) (length (?m @ '' '' @ path)) =
              Inr (length (?m @ '' '' @ path), rp1, mem1) \<and> \<not> request_hasError rp1 \<and>
            request_execute rp1 (w @ tail_text) (length (w @ tail_text)) = Inr (length (w @ tail_text), rp2, mem2) \<and>
            request_isFinished rp2 = 1 \<and> \<not> request_hasError rp2 \<and> m_path (m_data rp2) = w"
  proof -
    obtain h es where ex: "http_parser_execute (http_parser_init raw) (?m @ '' '' @ path) 0 = Inr (length (?m @ '' '' @ path), h, [OnMethod 0 (of_nat (length ?m))])"
      and h: "hp_cs h = 26" "hp_body_start h = 0" "\<not> hp_xml_sent h" "\<not> hp_json_sent h"
      using split_first [OF well assms(3,4), of "[]" raw] assms(10) by (auto simp: query_well_def)
    obtain h' n where ex': "http_parser_execute h (w @ tail_text) 0 = Inr (length w + 13, h',
      [OnPath 0 (of_nat (length w)), OnUri 0 (of_nat (length w)), OnVersion (length w + 1) 8, OnHeaderDone (length w + 13) n])"
      "hp_cs h' = 348" using split_path [OF h assms(5,11)] by blast
    have p: "mem_string (w @ tail_text) 0 (unat (of_nat (length w) :: u64)) = Inr w"
      by (rule mem_part [of _ "[]" w tail_text]) (use assms(11) in simp_all)
    have "drop (length w + 1) (w @ tail_text) = ''HTTP/1.'' @ [version_digit 0x11] @ CRLF @ CRLF"
      by (simp add: tail_text_def version_digit_def)
    then have v: "on_request_version (w @ tail_text) (length w + 1) 8 rp = Inr (rp\<lparr>m_data := (m_data rp)\<lparr>m_version := 0x11\<rparr>\<rparr>)" for rp
      by (intro callback_version) auto
    let ?rp1 = "\<lparr>m_parser = h, m_data = (new_HttpRequest 0x11 True)\<lparr>m_method := m\<rparr>, m_error = 0\<rparr>"
    have "request_execute (new_HttpRequestParser raw) (?m @ '' '' @ path) (length (?m @ '' '' @ path)) =
       Inr (length (?m @ '' '' @ path), ?rp1, shift_left (?m @ '' '' @ path) (length (?m @ '' '' @ path)) (length (?m @ '' '' @ path)))"
      using ex meth [of "'' '' @ path"] by (simp add: request_execute_def new_HttpRequestParser_def)
    moreover have "\<exists>rp2 mem2. request_execute ?rp1 (w @ tail_text) (length (w @ tail_text)) = Inr (length (w @ tail_text), rp2, mem2) \<and>
            request_isFinished rp2 = 1 \<and> \<not> request_hasError rp2 \<and> m_path (m_data rp2) = w"
      using ex' p v
      by (simp add: request_execute_def on_request_path_def on_request_uri_def on_request_header_done_def request_isFinished_def
         request_hasError_def http_parser_finish_def http_parser_has_error_def http_parser_is_finished_def http_parser_error_def
         http_parser_first_final_def tail_text_def CRLF_def)
    moreover have "\<not> request_hasError ?rp1" using h by (simp add: request_hasError_def http_parser_has_error_def http_parser_error_def)
    ultimately show ?thesis by blast
  qed
  show "\<exists>rp1 mem1.
            request_execute (new_HttpRequestParser raw) (?m @ '' '' @ path @ ''?'' @ q1) (length (?m @ '' '' @ path @ ''?'' @ q1)) =
              Inr (length (?m @ '' '' @ path @ ''?'' @ q1), rp1, mem1) \<and> \<not> request_hasError rp1 \<and>
            request_execute rp1 (q2 @ tail_text) (length (q2 @ tail_text)) = Inl LengthError"
  proof -
    let ?c = "?m @ '' '' @ path @ ''?'' @ q1" and ?qs = "length ?m + length path + 2"
    obtain h where ex: "http_parser_execute (http_parser_init raw) ?c 0 =
        Inr (length ?c, h, [OnMethod 0 (of_nat (length ?m)), OnPath (length ?m + 1) (of_nat (length path))])"
      and h: "hp_cs h = 30" "hp_body_start h = 0" "\<not> hp_xml_sent h" "\<not> hp_json_sent h" "hp_query_start h = ?qs"
      using split_first [OF well assms(3,4,7), of raw] assms(6,10) by auto
    obtain n h' es where ex': "http_parser_execute h (q2 @ tail_text) 0 = Inr (n, h', OnQuery ?qs (LEN ?qs (length q2)) # es)"
      using split_query [OF h(1-4) assms(8,12)] h(5) by metis
    have p: "mem_string ?c (length ?m + 1) (unat (of_nat (length path) :: u64)) = Inr path"
      by (rule mem_part [of _ "?m @ '' ''" path "''?'' @ q1"]) (use assms(10) in simp_all)
    have qs: "?qs < 2 ^ 31" "length q2 < ?qs" using assms(9,10) by simp_all
    then have "unat (LEN ?qs (length q2)) = 2 ^ 64 + length q2 - ?qs" by (intro LEN_underflow) simp_all
    then have "mem_string (q2 @ tail_text) ?qs (unat (LEN ?qs (length q2))) = Inl LengthError"
      using qs by (simp add: mem_string_def)
    moreover have "\<not> request_hasError \<lparr>m_parser = h, m_data = d, m_error = 0\<rparr>" for d
      using h by (simp add: request_hasError_def http_parser_has_error_def http_parser_error_def)
    ultimately show ?thesis
      using ex ex' p meth [of "'' '' @ path @ ''?'' @ q1"]
      by (simp add: request_execute_def new_HttpRequestParser_def on_request_path_def on_request_query_def)
  qed
qed

theorem split_token_lost_witness:
  "\<exists>rp1 mem1 rp2 mem2.
      request_execute (new_HttpRequestParser blank_parser) ''GET /ind'' (length ''GET /ind'') = Inr (length ''GET /ind'', rp1, mem1) \<and>
      request_execute rp1 (''ex'' @ tail_text) (length (''ex'' @ tail_text)) = Inr (length (''ex'' @ tail_text), rp2, mem2) \<and> request_isFinished rp2 = 1 \<and> m_path (m_data rp2) = ''ex''"
proof -
  have "HttpMethodToString GET = ''GET''" "path_well ''/ind''" "list_all (\<lambda>c. path_code (schar c)) ''ex''" "query_well ''a=1''" "query_well ''23''"
    by code_simp+
  then show ?thesis
    using split_token_lost [of GET "''/ind''" "''ex''" "''a=1''" "''23''" blank_parser] by (auto simp: tail_text_def CRLF_def)
qed

end
