(* ===== verification/HttpServer.thy ===== *)
theory HttpServer
  imports HttpSession Http_Parser_Props
begin

text \<open>
  \<^verbatim>\<open>HttpServer::handleClient\<close> of \<^verbatim>\<open>http/http_server.cc\<close>, and what a client gets from the session and the
  server: the request the server reads, and the answer it sends.
\<close>

definition server_response :: "bool \<Rightarrow> http_request \<Rightarrow> http_response" where
  "server_response keepalive req =
     (new_HttpResponse (m_version req) (m_close req \<or> \<not> keepalive))\<lparr>r_body := ''Hello, world!''\<rparr>"

function handle_loop ::
  "bool \<Rightarrow> (string \<Rightarrow> u64 option) \<Rightarrow> http_parser \<Rightarrow> string \<Rightarrow> connection \<Rightarrow> session_error + connection" where
  "handle_loop keepalive lexical_cast raw buffer c =
     (case recvRequest lexical_cast raw buffer c of
        Inl e \<Rightarrow> Inl e
      | Inr (None, c) \<Rightarrow> Inr c
      | Inr (Some req, c) \<Rightarrow>
          (case sendResponse (server_response keepalive req) c of
             Inl e \<Rightarrow> Inl e
           | Inr (_, c) \<Rightarrow> if keepalive then handle_loop keepalive lexical_cast raw buffer c else Inr c))"
  by pat_completeness auto
termination
  by (relation "measure (\<lambda>(_, _, _, _, c). length (cn_recv c))") (auto dest!: recvRequest_frame sendResponse_frame)

declare handle_loop.simps [simp del]

definition handleClient ::
  "bool \<Rightarrow> (string \<Rightarrow> u64 option) \<Rightarrow> http_parser \<Rightarrow> string \<Rightarrow> connection \<Rightarrow> session_error + connection" where
  "handleClient keepalive lexical_cast raw buffer c =
     err_bind (handle_loop keepalive lexical_cast raw buffer c) (\<lambda>c. Inr (stream_close c))"

subsection \<open>Reading a request\<close>

text \<open>
  The boost library reads back the decimal text of a 64 bit number. The client names no length of its own.
\<close>

definition reads_decimals :: "(string \<Rightarrow> u64 option) \<Rightarrow> bool" where
  "reads_decimals lexical_cast \<longleftrightarrow> (\<forall>n < 2 ^ 64. lexical_cast (dec_string n) = Some (of_nat n))"

definition no_length :: "header_map \<Rightarrow> bool" where
  "no_length m \<longleftrightarrow> list_all (\<lambda>(k, v). ci_key k \<noteq> ci_key ''content-length'') m"

lemma find_set_headers:
  "find_header (set_headers kvs []) k' = (case find (\<lambda>(k, v). ci_key k = ci_key k') (rev kvs) of Some (k, v) \<Rightarrow> Some v | None \<Rightarrow> None)"
proof -
  have "find_header [] k' = None" by (simp add: find_header_def)
  then show ?thesis
    using hdr.ordered_map.get_puts [of "[]" kvs k'] headers_ok_simps(1)
    unfolding find_header_def set_headers_def set_header_def headers_ok_def
    by (simp add: same_header split: option.split)
qed

lemma parsed_length:
  assumes "no_length (m_headers q)"
  shows "find_header (m_headers (parsed q)) ''content-length'' = (if m_body q = [] then None else Some (dec_string (length (m_body q))))"
proof -
  have "ci_key ''connection'' \<noteq> ci_key ''content-length''" by code_simp
  then have none: "find (\<lambda>(k, v). ci_key k = ci_key ''content-length'') (rev (connection_field (m_close q) # plain_fields (m_headers q))) = None"
    using assms by (auto simp: find_None_iff connection_field_def plain_fields_def no_length_def list_all_iff)
  show ?thesis
    using none by (auto simp: parsed_def find_set_headers message_fields_def length_field_def)
qed

lemma sint_of_nat: "n < 2 ^ 63 \<Longrightarrow> sint (of_nat n :: u64) = int n"
  using sint_sbintrunc' [of "int n", where 'a = 64] by (simp add: signed_take_bit_int_eq_self)

lemma recvRequest_arrival:
  assumes q: "request_well q" "no_length (m_headers q)" and cast: "reads_decimals lexical_cast"
    and buf: "length buffer = buff_size" and k: "k = length (request_head q) + j" "k \<le> buff_size" "j \<le> length (m_body q)"
    and c: "cn_connected c" "cn_incoming c = request_dump q @ after" "cn_recv c = Moved k # rs"
    and body: "length (m_body q) < 2 ^ 31" "list_all progress rs" "length (m_body q) \<le> length rs"
  shows "\<exists>rs'. recvRequest lexical_cast raw buffer c =
     Inr (Some ((parsed q)\<lparr>m_body := take j (m_body q)\<rparr>), c\<lparr>cn_incoming := after, cn_recv := rs'\<rparr>)"
proof -
  let ?n = "length (request_head q)" and ?b = "m_body q"
  let ?d = "request_head q @ take j ?b" and ?c1 = "c\<lparr>cn_incoming := drop j ?b @ after, cn_recv := rs\<rparr>"
  let ?mem = "memcpy_at buffer 0 ?d"
  have dump: "cn_incoming c = request_head q @ ?b @ after" using c(2) request_dump_head [OF q(1)] by simp
  have n: "0 < ?n" by (simp add: request_head_def CRLF_def)
  have d: "take k (cn_incoming c) = ?d" "length ?d = k" "drop k (cn_incoming c) = drop j ?b @ after" using dump k by simp_all
  have read: "stream_read (buff_size - 0) c = (int k, ?d, ?c1)"
    using c(1,3) d k(2) to_int32_nat [of k] by (simp add: stream_read_def Let_def buff_size_def min_def)
  have mem: "?mem = request_head q @ (take j ?b @ drop k buffer)" using d(2) by (simp add: memcpy_at_def)
  have "length ?mem = buff_size" using buf d(2) k(2) by (subst length_memcpy_at) simp_all
  then have "length ?mem < 2 ^ 31" by (simp add: buff_size_def)
  then obtain rp where rp: "request_execute (new_HttpRequestParser raw) ?mem (?n + j) = Inr (?n, rp, shift_left ?mem (?n + j) ?n)"
    "request_isFinished rp = 1" "\<not> request_hasError rp" "m_data rp = parsed q"
    using parse_head [OF q(1) mem, of j raw] k(3) by auto
  let ?data = "shift_left ?mem (?n + j) ?n"
  have ex: "request_execute (new_HttpRequestParser raw) ?mem (nat (int k) + 0) = Inr (?n, rp, ?data)"
    unfolding nat_int add_0_right k(1) by (rule rp(1))
  have "0 < k" using n k(1) by linarith
  then have "\<not> int k \<le> 0" by simp
  moreover have "nat (int k) + 0 - ?n = j" "j \<noteq> buff_size" using n k(1,2) by auto
  ultimately have "recv_loop (new_HttpRequestParser raw) buffer 0 c = Inr (Some (rp, ?data, j), ?c1)"
    using recv_loop_step [OF read _ ex] rp(2,3) by simp
  then have recv: "recvRequest lexical_cast raw buffer c = recv_body lexical_cast rp ?data j ?c1" by (simp add: recvRequest_def)
  have data: "take j ?data = take j ?b" using k(3) unfolding mem by (simp add: shift_left_def memcpy_at_def)
  show ?thesis
  proof (cases "?b = []")
    case True
    then have "request_getContentLength lexical_cast rp = 0"
      using parsed_length [OF q(2)] by (simp add: request_getContentLength_def getAs_def rp(4))
    then show ?thesis using recv True k(3) rp(4) by (intro exI [of _ rs]) (simp add: recv_body_def Let_def parsed_def)
  next
    case False
    have "lexical_cast (dec_string (length ?b)) = Some (of_nat (length ?b))" using cast body(1) by (simp add: reads_decimals_def)
    then have len: "sint (request_getContentLength lexical_cast rp) = int (length ?b)"
      using parsed_length [OF q(2)] False body(1) by (simp add: request_getContentLength_def getAs_def rp(4) sint_of_nat)
    show ?thesis
    proof (cases "j = length ?b")
      case True
      then show ?thesis using recv len False data rp(4) by (intro exI [of _ rs]) (simp add: recv_body_def Let_def)
    next
      case jl: False
      let ?r = "length ?b - j"
      have "\<exists>rs'. readFixSize (fix_fuel rs) ?c1 (replicate ?r (CHR 0x00)) (of_nat ?r) =
          Some (Inr (int ?r, take ?r (cn_incoming ?c1), ?c1\<lparr>cn_incoming := drop ?r (cn_incoming ?c1), cn_recv := rs'\<rparr>))"
      proof -
        have "\<exists>rs'. readFix_loop (fix_fuel rs) ?c1 (replicate ?r (CHR 0x00)) (of_nat 0) (of_nat ?r) (of_nat ?r) =
          Some (Inr (sint (ucast (of_nat ?r :: u64) :: u32), memcpy_at (replicate ?r (CHR 0x00)) 0 (take ?r (cn_incoming ?c1)),
            ?c1\<lparr>cn_incoming := drop ?r (cn_incoming ?c1), cn_recv := rs'\<rparr>)) \<and> list_all progress rs'"
          using c(1) body by (intro readFix_loop_ok) (auto simp: fix_fuel_def)
        then show ?thesis
          using body(1) sint_ucast_size [of ?r] by (auto simp: readFixSize_def memcpy_at_def simp del: of_nat_diff)
      qed
      then obtain rs' where got: "readFixSize (fix_fuel rs) ?c1 (replicate ?r (CHR 0x00)) (of_nat ?r) =
          Some (Inr (int ?r, drop j ?b, c\<lparr>cn_incoming := after, cn_recv := rs'\<rparr>))" by auto
      moreover have "nat (int (length ?b) - int j) = ?r" "(word_of_int (int (length ?b) - int j) :: u64) = of_nat ?r" "0 < ?r"
        using jl k(3) by (simp_all add: of_nat_diff [symmetric] del: of_nat_diff) 
      ultimately show ?thesis
        using recv len data rp(4) k(3) False by (intro exI [of _ rs']) (simp add: recv_body_def Let_def)
    qed
  qed
qed

subsection \<open>Properties\<close>

text \<open>The fuel of the loops is enough: a connection is given with the finite list of the results of its calls, and for every such
  list the model of serving a client comes to a result, the error \<open>Endless\<close> is never met. This says nothing about a
  peer that goes on sending, nor about the loops on a closed stream, which go round for almost \<open>2\<^sup>6\<^sup>4\<close> times.\<close>

theorem serving_ends: "handleClient keepalive lexical_cast raw buffer c \<noteq> Inl Endless"
proof -
  have "handle_loop keepalive lexical_cast raw buffer c \<noteq> Inl Endless"
  proof (induction "length (cn_recv c)" arbitrary: c rule: less_induct)
    case less
    show ?case
    proof (cases "recvRequest lexical_cast raw buffer c")
      case (Inl e)
      then show ?thesis using recvRequest_not_endless [of lexical_cast raw buffer c] by (subst handle_loop.simps) simp
    next
      case (Inr x)
      obtain r c1 where x: "x = (r, c1)" by (cases x)
      show ?thesis
      proof (cases r)
        case None
        then show ?thesis using Inr x by (subst handle_loop.simps) simp
      next
        case (Some req)
        have c1: "cn_connected c1" "length (cn_recv c1) < length (cn_recv c)" using recvRequest_frame [OF Inr [unfolded x]] Some by auto
        let ?rsp = "server_response keepalive req"
        have "length (cn_recv c2) < length (cn_recv c)" if "sendResponse ?rsp c1 = Inr (rt, c2)" for rt c2
          using sendResponse_frame [OF that c1(1)] c1(2) by simp
        then show ?thesis
          using Inr x Some less sendResponse_not_endless [OF c1(1), of ?rsp]
          by (subst handle_loop.simps) (auto split: sum.splits)
      qed
    qed
  qed
  then show ?thesis by (cases "handle_loop keepalive lexical_cast raw buffer c") (auto simp: handleClient_def)
qed

text \<open>C15. When the head of a request and the first \<open>j\<close> bytes of its body arrive with the first read, the
  server reads the request with its method, path, query, fragment, version and headers, and takes
  exactly the request from the stream. The body it keeps is those first \<open>j\<close> bytes only: the rest is
  read and dropped, without an error.\<close>

theorem request_received:
  assumes "request_well q" and "no_length (m_headers q)" and "reads_decimals lexical_cast"
    and "length buffer = buff_size" and "length (request_head q) + j \<le> buff_size" and "j \<le> length (m_body q)"
    and "cn_connected c" and "cn_incoming c = request_dump q @ after" and "cn_recv c = Moved (length (request_head q) + j) # rs"
    and "length (m_body q) < 2 ^ 31" and "list_all progress rs" and "length (m_body q) \<le> length rs"
  shows "\<exists>rs'. recvRequest lexical_cast raw buffer c =
     Inr (Some (q\<lparr>m_headers := set_headers (message_fields q) [], m_close := True, m_params := [], m_cookies := [], m_body := take j (m_body q)\<rparr>),
          c\<lparr>cn_incoming := after, cn_recv := rs'\<rparr>)"
  using recvRequest_arrival [OF assms(1-4) refl assms(5-12), of raw] by (simp add: parsed_def)

definition decimal_cast :: "string \<Rightarrow> u64 option" where
  "decimal_cast s = Some (of_nat (base_val 10 s))"

lemma decimal_cast_reads: "reads_decimals decimal_cast"
  by (simp add: reads_decimals_def decimal_cast_def base_val_numbers)

lemma demo_request_ok:
  "request_well demo_request" "no_length (m_headers demo_request)" "m_body demo_request = ''hi''"
  "length (request_head demo_request) = 75"
  by code_simp+

theorem request_received_witness:
  "\<exists>rs'. recvRequest decimal_cast blank_parser (replicate 100 (CHR ''x''))
       \<lparr>cn_connected = True, cn_incoming = request_dump demo_request @ [], cn_recv = [Moved 76, Moved 9, Moved 9], cn_outgoing = [], cn_send = []\<rparr> =
     Inr (Some (demo_request\<lparr>m_headers := set_headers (message_fields demo_request) [], m_close := True, m_params := [], m_cookies := [], m_body := ''h''\<rparr>),
          \<lparr>cn_connected = True, cn_incoming = [], cn_recv = rs', cn_outgoing = [], cn_send = []\<rparr>)"
  using request_received [of demo_request decimal_cast "replicate 100 (CHR ''x'')" 1
      "\<lparr>cn_connected = True, cn_incoming = request_dump demo_request @ [], cn_recv = [Moved 76, Moved 9, Moved 9], cn_outgoing = [], cn_send = []\<rparr>"
      "[]" "[Moved 9, Moved 9]" blank_parser]
    demo_request_ok decimal_cast_reads
  by (simp add: buff_size_def progress_def)

lemma answer_text:
  assumes "v = 0x11 \<or> v = 0x10"
  defines "r \<equiv> (new_HttpResponse v True)\<lparr>r_body := ''Hello, world!''\<rparr>"
  shows "length (response_dump r) \<le> 200 \<and> read_message (response_dump r) =
     Some (''HTTP/'' @ version_text v @ '' 200 OK'', [(''connection'', ''close''), (''content-length'', ''13'')], ''Hello, world!'')"
proof -
  have "length (response_dump ((new_HttpResponse 0x11 True)\<lparr>r_body := ''Hello, world!''\<rparr>)) \<le> 200"
    "length (response_dump ((new_HttpResponse 0x10 True)\<lparr>r_body := ''Hello, world!''\<rparr>)) \<le> 200"
    "length_field ''Hello, world!'' = [(''content-length'', ''13'')]"
    "HttpStatusToString 200 = ''OK''" "dec_string (unat (word_of_int 200 :: u32)) = ''200''" by code_simp+
  then show ?thesis
    using assms response_text_read [of r]
    by (auto simp: r_def new_HttpResponse_def fields_ok_def plain_fields_def connection_field_def status_line_def)
qed

lemma sendResponse_ok:
  assumes "cn_connected c" and "length (response_dump r) < 2 ^ 31" and "list_all progress (cn_send c)"
    and "length (response_dump r) \<le> length (cn_send c)"
  shows "\<exists>rs. sendResponse r c = Inr (int (length (response_dump r)), c\<lparr>cn_outgoing := cn_outgoing c @ response_dump r, cn_send := rs\<rparr>)"
proof -
  let ?d = "response_dump r"
  have "\<exists>rs. writeFix_loop (fix_fuel (cn_send c)) c ?d (of_nat 0) (of_nat (length ?d)) (of_nat (length ?d)) =
     Some (Inr (sint (ucast (of_nat (length ?d) :: u64) :: u32), c\<lparr>cn_outgoing := cn_outgoing c @ drop 0 ?d, cn_send := rs\<rparr>)) \<and> list_all progress rs"
    using assms by (intro writeFix_loop_ok) (auto simp: fix_fuel_def)
  then show ?thesis using assms(2) by (auto simp: sendResponse_def Let_def writeFixSize_def sint_ucast_size)
qed

text \<open>C10. A client that sends one request to a server without keep-alive gets exactly one answer, its request is taken from the stream
  as a whole, and the connection is closed: the answer is the text of the server's response, from which a reader recovers the
  status line with the version of the request, the announcement that the connection closes, the length, and the body. The
  conditions: the first read delivers the whole head of the request, which fits the server's buffer of 100 characters, with the first \<open>j\<close> bytes
  of the body (a head that is cut into several reads can be misread); the request has a valid
  form and no content-length header of its own beside the one that is printed; none of the later reads and writes fails; and the answer
  takes at most 200 of them.\<close>

theorem serve_one_request:
  assumes "request_well q" and "no_length (m_headers q)" and "reads_decimals lexical_cast"
    and "length buffer = buff_size" and "length (request_head q) + j \<le> buff_size" and "j \<le> length (m_body q)" and "length (m_body q) < 2 ^ 31"
    and "cn_connected c" and "cn_incoming c = request_dump q" and "cn_recv c = Moved (length (request_head q) + j) # rs"
    and "list_all progress rs" and "length (m_body q) \<le> length rs" and "list_all progress (cn_send c)" and "200 \<le> length (cn_send c)"
  shows "\<exists>c'. handleClient False lexical_cast raw buffer c = Inr c' \<and> \<not> cn_connected c' \<and> cn_incoming c' = [] \<and>
     cn_outgoing c' = cn_outgoing c @ response_dump (server_response False q) \<and>
     read_message (response_dump (server_response False q)) =
       Some (''HTTP/'' @ version_text (m_version q) @ '' 200 OK'', [(''connection'', ''close''), (''content-length'', ''13'')], ''Hello, world!'')"
proof -
  let ?b = "take j (m_body q)" and ?r = "server_response False q"
  obtain rs' where recv: "recvRequest lexical_cast raw buffer c =
      Inr (Some ((parsed q)\<lparr>m_body := ?b\<rparr>), c\<lparr>cn_incoming := [], cn_recv := rs'\<rparr>)"
    using recvRequest_arrival [OF assms(1-4) refl assms(5,6,8), of "[]" rs raw] assms(7,9-12) by auto
  have v: "m_version q = 0x11 \<or> m_version q = 0x10" using assms(1) by (auto simp: request_well_def)
  have r: "server_response False ((parsed q)\<lparr>m_body := ?b\<rparr>) = ?r" "?r = (new_HttpResponse (m_version q) True)\<lparr>r_body := ''Hello, world!''\<rparr>"
    by (simp_all add: server_response_def parsed_def)
  obtain rs'' where "sendResponse ?r (c\<lparr>cn_incoming := [], cn_recv := rs'\<rparr>) =
      Inr (int (length (response_dump ?r)), c\<lparr>cn_incoming := [], cn_recv := rs', cn_outgoing := cn_outgoing c @ response_dump ?r, cn_send := rs''\<rparr>)"
    using sendResponse_ok [of "c\<lparr>cn_incoming := [], cn_recv := rs'\<rparr>" ?r] answer_text [OF v] assms(8,13,14) unfolding r(2) by auto
  then have "handle_loop False lexical_cast raw buffer c =
      Inr (c\<lparr>cn_incoming := [], cn_recv := rs', cn_outgoing := cn_outgoing c @ response_dump ?r, cn_send := rs''\<rparr>)"
    by (subst handle_loop.simps) (simp add: recv r(1))
  then show ?thesis using answer_text [OF v] unfolding r(2) by (simp add: handleClient_def stream_close_def)
qed

theorem serve_one_request_witness:
  "\<exists>c'. handleClient False decimal_cast blank_parser (replicate 100 (CHR ''x''))
       \<lparr>cn_connected = True, cn_incoming = request_dump demo_request, cn_recv = [Moved 76, Moved 9, Moved 9], cn_outgoing = [],
        cn_send = replicate 200 (Moved 50)\<rparr> = Inr c' \<and> \<not> cn_connected c' \<and>
     cn_outgoing c' = response_dump (server_response False demo_request)"
  using serve_one_request [of demo_request decimal_cast "replicate 100 (CHR ''x'')" 1
      "\<lparr>cn_connected = True, cn_incoming = request_dump demo_request, cn_recv = [Moved 76, Moved 9, Moved 9], cn_outgoing = [],
        cn_send = replicate 200 (Moved 50)\<rparr>" "[Moved 9, Moved 9]" blank_parser]
    demo_request_ok decimal_cast_reads
  by (auto simp: buff_size_def progress_def list_all_iff)

end
