(* ===== verification/TcpServer.thy ===== *)
theory TcpServer
  imports Socket_Props "HOL-Library.Multiset"
begin

text \<open>
  \<^verbatim>\<open>code/tcp_server.h\<close> and \<^verbatim>\<open>code/tcp_server.cc\<close>. Binding an address takes the results of the calls
  it makes; dropping the last pointer to a socket closes it. What the server hands to its schedulers is
  a list of tasks.
\<close>

record tcp_server =
  ts_socks :: "socket list"
  ts_readTimeout :: u64
  ts_name :: string
  ts_isStop :: bool

datatype server_task =
    AcceptTask socket
  | HandleTask socket "fd_ctx option"
  | CloseTask

definition new_TCPServer :: "u64 \<Rightarrow> tcp_server" where
  "new_TCPServer read_timeout = \<lparr>ts_socks = [], ts_readTimeout = read_timeout, ts_name = ''CXS/1.0.0'', ts_isStop = True\<rparr>"

definition destroy :: "socket \<Rightarrow> sys_call list" where
  "destroy s = snd (snd (socket_close s))"

definition destroy_all :: "socket list \<Rightarrow> sys_call list" where
  "destroy_all ss = concat (map destroy ss)"

type_synonym bind_results = "int \<times> int \<times> ((address \<Rightarrow> address) \<times> u32) option \<times> int"

fun bind_loop ::
  "nat \<Rightarrow> (address \<times> bind_results) list \<Rightarrow> socket list \<Rightarrow> address list \<Rightarrow> socket list \<times> address list \<times> sys_call list" where
  "bind_loop bo [] socks fails = (socks, fails, [])"
| "bind_loop bo ((addr, sock_rt, bind_rt, lname, listen_rt) # rest) socks fails =
     (let (ok, sock, c1) = socket_bind bo (CreateTCP bo addr) addr sock_rt bind_rt lname in
      if \<not> ok then let (socks, fails, cs) = bind_loop bo rest socks (fails @ [addr]) in (socks, fails, c1 @ destroy sock @ cs)
      else let (ok, c2) = socket_listen sock 1024 listen_rt in
        if \<not> ok then let (socks, fails, cs) = bind_loop bo rest socks (fails @ [addr]) in (socks, fails, c1 @ c2 @ destroy sock @ cs)
        else let (socks, fails, cs) = bind_loop bo rest (socks @ [sock]) fails in (socks, fails, c1 @ c2 @ cs))"

definition tcp_bind_all ::
  "nat \<Rightarrow> tcp_server \<Rightarrow> (address \<times> bind_results) list \<Rightarrow> address list \<Rightarrow> bool \<times> tcp_server \<times> address list \<times> sys_call list" where
  "tcp_bind_all bo srv addrs fails =
     (let (socks, fails, cs) = bind_loop bo addrs (ts_socks srv) fails in
      if fails \<noteq> [] then (False, srv\<lparr>ts_socks := []\<rparr>, fails, cs @ destroy_all socks)
      else (True, srv\<lparr>ts_socks := socks\<rparr>, fails, cs))"

definition tcp_bind ::
  "nat \<Rightarrow> tcp_server \<Rightarrow> address \<Rightarrow> bind_results \<Rightarrow> bool \<times> tcp_server \<times> address list \<times> sys_call list" where
  "tcp_bind bo srv addr res = tcp_bind_all bo srv [(addr, res)] []"

definition tcp_start :: "tcp_server \<Rightarrow> bool \<times> tcp_server \<times> server_task list" where
  "tcp_start srv =
     (if \<not> ts_isStop srv then (True, srv, [])
      else (True, srv\<lparr>ts_isStop := False\<rparr>, map AcceptTask (ts_socks srv)))"

definition tcp_stop :: "tcp_server \<Rightarrow> tcp_server \<times> server_task list" where
  "tcp_stop srv = (srv\<lparr>ts_isStop := True\<rparr>, [CloseTask])"

text \<open>The task that \<^verbatim>\<open>stop\<close> schedules; \<open>io\<close> is the manager of the thread that runs it.\<close>

fun close_loop ::
  "(epoll_op \<Rightarrow> nat \<Rightarrow> u32 \<Rightarrow> bool) \<Rightarrow> iomanager \<Rightarrow> socket list \<Rightarrow> io_error + iomanager \<times> sys_call list" where
  "close_loop ctl io [] = Inr (io, [])"
| "close_loop ctl io (s # ss) =
     err_bind (socket_cancelAll ctl io s) (\<lambda>(_, io).
     err_bind (close_loop ctl io ss) (\<lambda>(io, cs). Inr (io, destroy s @ cs)))"

definition close_task ::
  "(epoll_op \<Rightarrow> nat \<Rightarrow> u32 \<Rightarrow> bool) \<Rightarrow> iomanager \<Rightarrow> tcp_server \<Rightarrow> io_error + tcp_server \<times> iomanager \<times> sys_call list" where
  "close_task ctl io srv =
     err_bind (close_loop ctl io (ts_socks srv)) (\<lambda>(io, cs). Inr (srv\<lparr>ts_socks := []\<rparr>, io, cs))"

text \<open>
  The accept loop. Each round is given by what the loop finds: whether the server was stopped, the
  descriptor returned by \<^verbatim>\<open>accept\<close>, the context kept for it, and the answers about its addresses. \<open>None\<close>:
  the loop goes on beyond the given rounds.
\<close>

type_synonym accept_round = "bool \<times> int \<times> fd_ctx option \<times> ((address \<Rightarrow> address) \<times> u32) option \<times> ((address \<Rightarrow> address) \<times> u32) option"

fun startAccept :: "nat \<Rightarrow> bool \<Rightarrow> u64 \<Rightarrow> socket \<Rightarrow> accept_round list \<Rightarrow> server_task list option" where
  "startAccept bo hook_enable read_timeout s [] = None"
| "startAccept bo hook_enable read_timeout s ((stopped, rt, ctx, lname, rname) # rounds) =
     (if stopped then Some []
      else map_option (\<lambda>tasks.
             (case fst (socket_accept bo s rt ctx lname rname) of
                Some client \<Rightarrow> [HandleTask client (setRecvTimeOut hook_enable ctx (sint read_timeout))]
              | None \<Rightarrow> []) @ tasks)
           (startAccept bo hook_enable read_timeout s rounds))"

subsection \<open>Descriptors of a server\<close>

definition owned :: "socket list \<Rightarrow> int list" where
  "owned ss = concat (map own_fds ss)"

lemma destroy_fds: "open_fds (own_fds s @ fds) (destroy s) = fds"
  unfolding destroy_def using close_fds [of s] by (cases "socket_close s") auto

lemma destroy_all_fds: "open_fds (owned ss @ fds) (destroy_all ss) = fds"
  by (induction ss arbitrary: fds) (simp_all add: owned_def destroy_all_def destroy_fds)

lemma listen_fds: "socket_listen s b rt = (ok, cs) \<Longrightarrow> open_fds fds cs = fds"
  by (auto simp: socket_listen_def split: if_splits)

definition address_ok :: "nat \<Rightarrow> address \<times> bind_results \<Rightarrow> bool" where
  "address_ok bo ar = (case ar of (addr, sock_rt, bind_rt, lname, listen_rt) \<Rightarrow> sock_rt \<noteq> - 1 \<and> bind_rt = 0 \<and> listen_rt = 0)"

lemma bind_ok_iff:
  assumes "socket_bind bo (CreateTCP bo addr) addr sock_rt bind_rt lname = (ok, sock, c)"
  shows "(ok \<longleftrightarrow> sock_rt \<noteq> - 1 \<and> bind_rt = 0) \<and> (ok \<longrightarrow> own_fds sock = [sock_rt])"
proof -
  obtain s0 c0 where e: "ensure_sock (CreateTCP bo addr) sock_rt = (s0, c0)" by fastforce
  have s0: "so_sock s0 = sock_rt" "so_family s0 = getFamily bo addr"
    using e by (auto simp: ensure_sock_def newSock_def CreateTCP_def new_Socket_def isValid_def Let_def split: if_splits)
  obtain a s2 c2 where l: "getLocalAddress bo s0 lname = (a, s2, c2)" by (cases "getLocalAddress bo s0 lname") auto
  show ?thesis
    using assms s0 e l address_calls(2) [OF l]
    by (auto simp: socket_bind_def Let_def own_fds_def isValid_def split: if_splits)
qed

lemma destroy_all_mset: "mset (open_fds fds (destroy_all ss)) = mset fds - mset (owned ss)"
proof (induction ss arbitrary: fds)
  case (Cons s ss)
  have "mset (open_fds fds (destroy s)) = mset fds - mset (own_fds s)"
    by (auto simp: destroy_def socket_close_def own_fds_def isValid_def)
  then show ?case using Cons.IH [of "open_fds fds (destroy s)"] by (simp add: destroy_all_def owned_def)
qed (simp add: destroy_all_def owned_def)

lemma bind_loop_ok:
  assumes "bind_loop bo addrs socks fails = (socks', fails', cs)"
  shows "fails' = fails @ map fst (filter (\<lambda>a. \<not> address_ok bo a) addrs) \<and>
         owned socks' = owned socks @ map (fst \<circ> snd) (filter (address_ok bo) addrs) \<and>
         mset (open_fds fds cs) = mset fds + mset (map (fst \<circ> snd) (filter (address_ok bo) addrs))"
  using assms
proof (induction addrs arbitrary: socks fails socks' fails' cs fds)
  case (Cons a addrs)
  obtain addr sock_rt bind_rt lname listen_rt where a: "a = (addr, sock_rt, bind_rt, lname, listen_rt)" by (cases a)
  obtain ok sock c1 where b: "socket_bind bo (CreateTCP bo addr) addr sock_rt bind_rt lname = (ok, sock, c1)"
    by (cases "socket_bind bo (CreateTCP bo addr) addr sock_rt bind_rt lname")
  obtain ok2 c2 where l: "socket_listen sock 1024 listen_rt = (ok2, c2)" by fastforce
  have new: "own_fds (CreateTCP bo addr) = []" by (simp add: own_fds_def isValid_def CreateTCP_def new_Socket_def)
  have fds: "open_fds fds c1 = own_fds sock @ fds" "open_fds (own_fds sock @ fds) c2 = own_fds sock @ fds"
    using bind_fds [OF b, of fds] listen_fds [OF l] new by simp_all
  have ok2: "ok \<Longrightarrow> ok2 \<longleftrightarrow> listen_rt = 0" using l bind_fds [OF b] by (auto simp: socket_listen_def split: if_splits)
  show ?case
  proof (cases "ok \<and> ok2")
    case True
    obtain socks1 fails1 cs1 where r: "bind_loop bo addrs (socks @ [sock]) fails = (socks1, fails1, cs1)"
      by (cases "bind_loop bo addrs (socks @ [sock]) fails")
    have "address_ok bo a" "own_fds sock = [sock_rt]" using True ok2 bind_ok_iff [OF b] by (simp_all add: a address_ok_def)
    moreover have "cs = c1 @ c2 @ cs1" "socks' = socks1" "fails' = fails1" using Cons.prems True b l r by (simp_all add: a)
    ultimately show ?thesis using Cons.IH [OF r, of "sock_rt # fds"] fds by (simp add: a owned_def)
  next
    case False
    obtain socks1 fails1 cs1 where r: "bind_loop bo addrs socks (fails @ [addr]) = (socks1, fails1, cs1)"
      by (cases "bind_loop bo addrs socks (fails @ [addr])")
    have "\<not> address_ok bo a" using False ok2 bind_ok_iff [OF b] by (auto simp: a address_ok_def)
    moreover have "cs = c1 @ (if ok then c2 else []) @ destroy sock @ cs1" "socks' = socks1" "fails' = fails1"
      using Cons.prems False b l r by (auto simp: a split: if_splits)
    ultimately show ?thesis using Cons.IH [OF r, of fds] fds destroy_fds [of sock fds] by (auto simp: a)
  qed
qed simp

text \<open>Binding a server to addresses is all or nothing: it succeeds exactly when every address could
  be bound and listened on, the addresses that could not are reported in order, and afterwards the
  descriptors left open are exactly those of the sockets the server keeps, which after a failure are
  none, not even those it had before.\<close>

theorem tcp_bind_outcome:
  assumes "mset fds = mset (owned (ts_socks srv))"
  shows "case tcp_bind_all bo srv addrs [] of (ok, srv', fails, cs) \<Rightarrow>
           (ok \<longleftrightarrow> list_all (address_ok bo) addrs) \<and> fails = map fst (filter (\<lambda>a. \<not> address_ok bo a) addrs) \<and>
           (ok \<longrightarrow> owned (ts_socks srv') = owned (ts_socks srv) @ map (fst \<circ> snd) addrs) \<and>
           (\<not> ok \<longrightarrow> ts_socks srv' = []) \<and> mset (open_fds fds cs) = mset (owned (ts_socks srv'))"
proof -
  obtain socks fails cs where r: "bind_loop bo addrs (ts_socks srv) [] = (socks, fails, cs)"
    by (cases "bind_loop bo addrs (ts_socks srv) []")
  have all: "fails = [] \<longleftrightarrow> list_all (address_ok bo) addrs"
    using bind_loop_ok [OF r] by (auto simp: list_all_iff filter_empty_conv)
  then have "fails = [] \<Longrightarrow> filter (address_ok bo) addrs = addrs" by (simp add: list_all_iff)
  moreover have m: "mset (open_fds fds cs) = mset (owned socks)" using bind_loop_ok [OF r, of fds] assms by simp
  moreover have "open_fds (open_fds fds cs) (destroy_all socks) = []"
    using destroy_all_mset [of "open_fds fds cs" socks] m by (simp flip: mset_zero_iff)
  ultimately show ?thesis
    using r all conjunct1 [OF bind_loop_ok [OF r]] conjunct1 [OF conjunct2 [OF bind_loop_ok [OF r]]]
    by (auto simp: tcp_bind_all_def owned_def [of "[]"] simp del: mset_append)
qed

theorem tcp_bind_outcome_witness:
  "fst (tcp_bind_all 1 (new_TCPServer 120000)
     [(IPv4Address (new_IPv4Address 1 0 80), 7, 0, None, 0), (IPv4Address (new_IPv4Address 1 0 81), 8, - 1, None, 0)] []) = False"
  using tcp_bind_outcome [of "[]" "new_TCPServer 120000" 1
    "[(IPv4Address (new_IPv4Address 1 0 80), 7, 0, None, 0), (IPv4Address (new_IPv4Address 1 0 81), 8, - 1, None, 0)]"]
  by (auto simp: new_TCPServer_def owned_def address_ok_def split: prod.splits)

end
