(* ===== verification/HttpClient_Safety.thy ===== *)
theory HttpClient_Safety
  imports HttpClient_Parser Machine Http11_Safety
begin

text \<open>
  The ranges that the response machine reports to its callbacks. All of them lie inside the buffer but
  one: after \<^verbatim>\<open>Content-Length:\<close> or \<^verbatim>\<open>Transfer-Encoding:\<close> with a line end for a value, a next line that is a number or
  \<^verbatim>\<open>chunked\<close> is taken for the value, although its start has been marked as that of a name. The name is then
  reported from there with the length of the old one. The proof follows three bounds through the table: how
  far the name has been read, its length, and how far the reported name reaches past the current character.
\<close>

interpretation cli: goto_machine "\<lambda>st. cdelta" "do_cactions buffer" CDone cerr "cexec_loop buffer" for buffer
  by unfold_locales (simp_all add: do_cactions_def cexec_loop.simps(2))

subsection \<open>Bounds of a state\<close>

type_synonym bounds = "nat option \<times> nat option \<times> nat option"

definition name_read :: "int \<Rightarrow> nat option" where
  "name_read cs =
     (if 25 \<le> cs \<and> cs \<le> 34 then Some (nat (cs - 24)) else if 44 \<le> cs \<and> cs \<le> 60 then Some (nat (cs - 43))
      else if 101 \<le> cs \<and> cs \<le> 111 then Some (nat (cs - 97)) else if 73 \<le> cs \<and> cs \<le> 79 then Some (nat (cs - 72))
      else if 90 \<le> cs \<and> cs \<le> 94 then Some (nat (cs - 89)) else None)"

definition name_over :: "int \<Rightarrow> nat option" where
  "name_over cs =
     (if 73 \<le> cs \<and> cs \<le> 79 then Some (nat (89 - cs)) else if cs = 117 then Some 13
      else if cs \<in> set [6, 7, 22, 23, 35, 72, 118, 119, 121, 123] \<or> 61 \<le> cs \<and> cs \<le> 70 \<or> 80 \<le> cs \<and> cs \<le> 87 \<or>
        96 \<le> cs \<and> cs \<le> 100 \<or> 112 \<le> cs \<and> cs \<le> 116 then Some 0
      else None)"

definition name_len :: "int \<Rightarrow> nat option" where
  "name_len cs = (if cs \<in> set [61, 62, 80] then Some 17 else if cs \<in> set [112, 113, 118] then Some 14 else None)"

definition bounds_of :: "int \<Rightarrow> bounds" where
  "bounds_of cs = (name_read cs, name_over cs, name_len cs)"

fun cabs_action :: "bounds \<Rightarrow> caction \<Rightarrow> bounds option" where
  "cabs_action (d, s, f) CStartField = Some (Some 0, f, f)"
| "cabs_action (d, s, f) CWriteField = Some (d, Some 0, d)"
| "cabs_action (d, s, f) CWriteValue = (case s of None \<Rightarrow> None | Some k \<Rightarrow> if k \<le> 13 then Some (d, s, f) else None)"
| "cabs_action b _ = Some b"

fun cabs_actions :: "bounds \<Rightarrow> caction list \<Rightarrow> bounds option" where
  "cabs_actions b [] = Some b"
| "cabs_actions b (a # acts) = (case cabs_action b a of None \<Rightarrow> None | Some b \<Rightarrow> cabs_actions b acts)"

fun weaker :: "nat option \<Rightarrow> nat option \<Rightarrow> bool" where
  "weaker _ None = True"
| "weaker None (Some _) = False"
| "weaker (Some k) (Some k') \<longleftrightarrow> k \<le> k'"

fun next_ok :: "bounds \<Rightarrow> bounds \<Rightarrow> bool" where
  "next_ok (d, s, f) (d', s', f') \<longleftrightarrow>
     weaker (map_option Suc d) d' \<and> weaker (map_option (\<lambda>k. k - 1) s) s' \<and> weaker f f'"

definition crow_ok :: "int \<Rightarrow> crow \<Rightarrow> bool" where
  "crow_ok cs r = (case r of (_, _, acts, tgt) \<Rightarrow>
     0 < tgt \<and> tgt \<le> 123 \<and> (tgt \<ge> 120 \<longleftrightarrow> CDone \<in> set acts) \<and>
     (case cabs_actions (bounds_of cs) acts of None \<Rightarrow> False | Some b \<Rightarrow> next_ok b (bounds_of tgt)))"

lemma ctable_ok: "list_all (\<lambda>(cs, rows). list_all (crow_ok cs) rows) httpclient_table"
  by code_simp

lemma find_crow_in: "find_crow c rows = Some (acts, tgt) \<Longrightarrow> \<exists>lo hi. (lo, hi, acts, tgt) \<in> set rows"
  by (induction c rows rule: find_crow.induct) (auto split: if_splits)

lemma crow_of_delta:
  assumes "cdelta cs c = Some (acts, tgt)"
  obtains lo hi where "crow_ok cs (lo, hi, acts, tgt)"
proof -
  obtain rows where "map_of httpclient_table cs = Some rows" "find_crow (schar c) rows = Some (acts, tgt)"
    using assms by (auto simp: cdelta_def split: option.splits)
  then show thesis
    using that ctable_ok map_of_SomeD [of httpclient_table cs rows] find_crow_in [of "schar c" rows acts tgt]
    by (fastforce simp: list_all_iff)
qed

subsection \<open>Ranges\<close>

definition within :: "nat option \<Rightarrow> nat \<Rightarrow> bool" where
  "within b n = weaker (Some n) b"

lemma within_simps [simp]: "within None n" "within (Some k) n \<longleftrightarrow> n \<le> k" "within b 0"
  by (simp_all add: within_def, cases b, simp_all)

lemma within_weaker: "weaker b b' \<Longrightarrow> within b n \<Longrightarrow> within b' n"
  by (cases b; cases b') auto

fun cevent_ok :: "nat \<Rightarrow> client_event \<Rightarrow> bool" where
  "cevent_ok pe (COnField fs fl vs vl) \<longleftrightarrow> fs < pe \<and> fs + fl \<le> pe + 12 \<and> vs + unat vl \<le> pe"
| "cevent_ok pe (COnReason at n) \<longleftrightarrow> at + unat n \<le> pe"
| "cevent_ok pe (COnStatus at n) \<longleftrightarrow> at + unat n \<le> pe"
| "cevent_ok pe (COnVersion at n) \<longleftrightarrow> at + unat n \<le> pe"
| "cevent_ok pe (COnChunk at n) \<longleftrightarrow> at + unat n \<le> pe"
| "cevent_ok pe (COnLastChunk at n) \<longleftrightarrow> at + unat n \<le> pe"
| "cevent_ok pe (COnHeaderDone at n) \<longleftrightarrow> at + unat n \<le> pe"

definition cparser_ok :: "nat \<Rightarrow> nat \<Rightarrow> bounds \<Rightarrow> httpclient_parser \<times> client_event list \<Rightarrow> bool" where
  "cparser_ok pe p b st = (case (b, st) of ((d, s, f), (h, es)) \<Rightarrow>
     cp_mark h \<le> p \<and> cp_mark h < pe \<and> cp_field_start h \<le> p \<and> cp_field_start h < pe \<and> cp_field_len h \<le> pe \<and>
     cp_body_start h \<le> pe \<and> within d (p - cp_field_start h) \<and> within s (cp_field_start h + cp_field_len h - p) \<and>
     within f (cp_field_len h) \<and> list_all (cevent_ok pe) es)"

lemma within_trans: "within b n \<Longrightarrow> m \<le> n \<Longrightarrow> within b m"
  by (cases b) auto

lemma do_caction_ok:
  assumes "cparser_ok pe p b st" and "p < pe" and "cabs_action b a = Some b'"
  shows "cparser_ok pe p b' (do_caction buffer p pe st a)"
proof -
  obtain d s f h es where b: "b = (d, s, f)" "st = (h, es)" by (cases b; cases st)
  have ranges: "cp_mark h \<le> p \<Longrightarrow> cp_mark h + unat (LEN (cp_mark h) p) \<le> pe"
    "cp_field_start h \<le> p \<Longrightarrow> unat (LEN (cp_field_start h) p) \<le> p - cp_field_start h"
    using unat_LEN [of "cp_mark h" p] unat_LEN [of "cp_field_start h" p] assms(2) by auto
  have rest: "Suc (p + unat (of_nat (pe - Suc p) :: u64)) \<le> pe" using unat_of_nat_le [of "pe - Suc p"] assms(2) by simp
  show ?thesis using assms ranges rest unfolding b
    by (cases a)
      (auto simp: cparser_ok_def Let_def simp del: of_nat_diff split: if_splits option.splits elim: within_trans)
qed

lemma do_cactions_ok:
  assumes "cparser_ok pe p b st" and "p < pe" and "cabs_actions b acts = Some b'"
  shows "cparser_ok pe p b' (do_cactions buffer p pe acts st)"
  using assms
proof (induction acts arbitrary: b st)
  case (Cons a acts)
  then obtain b1 where b1: "cabs_action b a = Some b1" "cabs_actions b1 acts = Some b'" by (auto split: option.splits)
  then show ?case
    using Cons.IH [OF do_caction_ok [OF Cons.prems(1,2) b1(1)] Cons.prems(2) b1(2)] by (simp add: do_cactions_def)
qed (simp add: do_cactions_def)

lemma within_Suc: "within d (p - a) \<Longrightarrow> within (map_option Suc d) (Suc p - a)"
  by (cases d) auto

lemma within_pred: "within s (n - p) \<Longrightarrow> within (map_option (\<lambda>k. k - 1) s) (n - Suc p)"
  by (cases s) auto

lemma cparser_ok_next:
  assumes "cparser_ok pe p b st" and "next_ok b b'"
  shows "cparser_ok pe (p + 1) b' st"
proof -
  obtain d s f d' s' f' h es where b: "b = (d, s, f)" "b' = (d', s', f')" "st = (h, es)" by (cases b; cases b'; cases st)
  have "within d' (Suc p - cp_field_start h)" "within s' (cp_field_start h + cp_field_len h - Suc p)" "within f' (cp_field_len h)"
    using assms within_Suc [of d p "cp_field_start h"] within_pred [of s "cp_field_start h + cp_field_len h" p]
    by (auto simp: b cparser_ok_def elim: within_weaker)
  then show ?thesis using assms(1) by (simp add: b cparser_ok_def)
qed

lemma cdelta_ok:
  assumes "cparser_ok pe p (bounds_of cs) st" and "p < pe" and "cdelta cs c = Some (acts, tgt)"
  shows "cparser_ok pe (p + 1) (bounds_of tgt) (do_cactions buffer p pe acts st)"
proof -
  obtain lo hi where "crow_ok cs (lo, hi, acts, tgt)" using assms(3) by (rule crow_of_delta)
  then obtain b where "cabs_actions (bounds_of cs) acts = Some b" "next_ok b (bounds_of tgt)"
    by (auto simp: crow_ok_def split: option.splits)
  then show ?thesis using do_cactions_ok [OF assms(1,2)] cparser_ok_next by blast
qed

lemma bounds_of_error [simp]: "bounds_of 0 = (None, None, None)"
  by (simp add: bounds_of_def name_read_def name_over_def name_len_def)

lemma cexec_loop_ok:
  assumes "cparser_ok pe p (bounds_of cs) st" and "p + length rest = pe"
  shows "case cexec_loop buffer pe cs p rest st of (cs', p', st') \<Rightarrow> p \<le> p' \<and> p' \<le> pe \<and> cparser_ok pe p' (bounds_of cs') st'"
proof (rule cli.loop_invariant [where I = "\<lambda>cs p st. cparser_ok pe p (bounds_of cs) st", OF _ _ assms])
  fix cs p st c acts tgt
  assume "cparser_ok pe p (bounds_of cs) st" "p < pe" "cdelta cs c = Some (acts, tgt)"
  then show "cparser_ok pe (p + 1) (bounds_of tgt) (do_cactions buffer p pe acts st)" by (rule cdelta_ok)
next
  fix cs p st assume "cparser_ok pe p (bounds_of cs) st"
  then show "cparser_ok pe p (bounds_of (cerr cs)) st"
    by (cases st) (auto simp: cerr_def httpclient_parser_error_def cparser_ok_def)
qed

subsection \<open>The result of a call\<close>

lemma do_cactions_frame:
  "cp_nread (fst (do_cactions buffer p pe acts st)) = cp_nread (fst st)"
proof (induction acts arbitrary: st)
  case (Cons a acts)
  have "cp_nread (fst (do_caction buffer p pe st a)) = cp_nread (fst st)" by (cases st; cases a) (simp_all add: Let_def)
  then show ?case using Cons by (simp add: do_cactions_def)
qed (simp add: do_cactions_def)

lemma cexec_loop_nread:
  assumes "p + length rest = pe"
  shows "case cexec_loop buffer pe cs p rest st of (cs', p', st') \<Rightarrow> p \<le> p' \<and> p' \<le> pe \<and> cp_nread (fst st') = cp_nread (fst st)"
  by (rule cli.loop_invariant [where I = "\<lambda>cs p st'. cp_nread (fst st') = cp_nread (fst st)", OF _ _ _ assms])
    (simp_all add: do_cactions_frame)

definition creset :: "httpclient_parser \<Rightarrow> httpclient_parser" where
  "creset h = h\<lparr>cp_nread := 0, cp_mark := 0, cp_field_len := 0, cp_field_start := 0\<rparr>"

lemma to_int_small: "- (2 ^ 31) \<le> v \<Longrightarrow> v < 2 ^ 31 \<Longrightarrow> to_int v = v"
  by (simp add: to_int_def sint_sbintrunc' signed_take_bit_int_eq_self)

lemma httpclient_execute_run:
  assumes "0 < len" and "len < 2 ^ 31" and "len < length buffer" and "buffer ! len = CHR 0x00" and "cp_body_start parser \<le> len"
    and run: "cexec_loop buffer len (cp_cs parser) 0 (take len buffer) (creset parser, []) = (cs, p, h, es)"
  shows "httpclient_parser_execute parser buffer len 0 = Inr (int p, h\<lparr>cp_cs := cs, cp_nread := p\<rparr>, es) \<and> p \<le> len \<and>
         list_all (cevent_ok len) es"
proof -
  have start: "cparser_ok len 0 (bounds_of (cp_cs parser)) (creset parser, [])"
    using assms(1,5) by (cases "bounds_of (cp_cs parser)")
      (simp add: cparser_ok_def creset_def)
  have ok: "cparser_ok len p (bounds_of cs) (h, es)" and p: "p \<le> len"
    using cexec_loop_ok [OF start, where rest = "take len buffer" and buffer = buffer] assms(3) run by simp_all
  moreover have "cp_nread h = 0"
    using cexec_loop_nread [where p = 0 and rest = "take len buffer" and pe = len and buffer = buffer and cs = "cp_cs parser" and st = "(creset parser, [])"] assms(3) run by (simp add: creset_def)
  ultimately show ?thesis
    using assms to_int_small [of "int p"] unfolding creset_def
    by (auto simp: httpclient_parser_execute_def cp_assert_def cparser_ok_def sint_of_nat_small)
qed

subsection \<open>Properties\<close>

text \<open>C14. A call of the response machine, in whatever state the machine is, on a buffer of between 1 and \<open>2\<^sup>3\<^sup>1 - 1\<close> characters that
  are followed by a NUL, from offset 0 as the program calls it, when the recorded start of the body is not beyond the length: no assertion and no check fails,
  at most the buffer is consumed, and the ranges reported to the callbacks are inside the buffer, with one exception: a field
  name starts inside the buffer but may reach up to 12 characters past its end. The conditions on the length and the NUL are
  necessary: a call without the NUL and a call with \<open>2\<^sup>3\<^sup>1\<close> characters or more fail an assertion, and an empty buffer
  fails the checks or an assertion, so that no call on it gives a length.\<close>

theorem httpclient_execute_bounds:
  assumes "len < length buffer"
  shows "(0 < len \<and> len < 2 ^ 31 \<and> buffer ! len = CHR 0x00 \<and> cp_body_start parser \<le> len \<longrightarrow>
      (\<exists>n h es. httpclient_parser_execute parser buffer len 0 = Inr (int n, h, es) \<and> n \<le> len \<and> list_all (cevent_ok len) es)) \<and>
    (buffer ! len \<noteq> CHR 0x00 \<or> 2 ^ 31 \<le> len \<longrightarrow> (\<exists>msg. httpclient_parser_execute parser buffer len 0 = Inl (ClientAssert msg))) \<and>
    (len = 0 \<longrightarrow> (\<forall>n h es. httpclient_parser_execute parser buffer len 0 = Inr (n, h, es) \<longrightarrow> n = - 1))"
proof (intro conjI impI)
  assume a: "0 < len \<and> len < 2 ^ 31 \<and> buffer ! len = CHR 0x00 \<and> cp_body_start parser \<le> len"
  obtain cs p h es where "cexec_loop buffer len (cp_cs parser) 0 (take len buffer) (creset parser, []) = (cs, p, h, es)"
    by (cases "cexec_loop buffer len (cp_cs parser) 0 (take len buffer) (creset parser, [])") auto
  then show "\<exists>n h es. httpclient_parser_execute parser buffer len 0 = Inr (int n, h, es) \<and> n \<le> len \<and> list_all (cevent_ok len) es"
    using httpclient_execute_run assms a by blast
next
  assume a: "buffer ! len \<noteq> CHR 0x00 \<or> 2 ^ 31 \<le> len"
  have "int len \<noteq> sint (of_nat len :: u32)" if "2 ^ 31 \<le> len"
    using sint_lt [of "of_nat len :: u32"] that by (auto simp: less_le_trans)
  then show "\<exists>msg. httpclient_parser_execute parser buffer len 0 = Inl (ClientAssert msg)"
    using a assms by (auto simp: httpclient_parser_execute_def cp_assert_def Let_def)
next
  assume "len = 0"
  then show "\<forall>n h es. httpclient_parser_execute parser buffer len 0 = Inr (n, h, es) \<longrightarrow> n = - 1"
    by (auto simp: httpclient_parser_execute_def cp_assert_def Let_def split: if_splits prod.splits)
qed

theorem httpclient_execute_bounds_witness:
  "\<exists>n h es. httpclient_parser_execute \<lparr>cp_cs = 117, cp_body_start = 0, cp_content_len = 0, cp_status = 0, cp_chunked = False,
     cp_chunks_done = False, cp_close = False, cp_nread = 5, cp_mark = 9, cp_field_start = 9, cp_field_len = 9\<rparr>
     [CHR ''7'', CHR 0x0D, CHR 0x00] 2 0 = Inr (int n, h, es) \<and> n \<le> 2 \<and> list_all (cevent_ok 2) es"
  using httpclient_execute_bounds [of 2 "[CHR ''7'', CHR 0x0D, CHR 0x00]" "\<lparr>cp_cs = 117, cp_body_start = 0, cp_content_len = 0,
     cp_status = 0, cp_chunked = False, cp_chunks_done = False, cp_close = False, cp_nread = 5, cp_mark = 9, cp_field_start = 9,
     cp_field_len = 9\<rparr>"] by simp

end
