(* ===== verification/HttpClient_Run.thy ===== *)
theory HttpClient_Run
  imports HttpClient_Safety Http11_Run
begin

text \<open>
  Runs of the response machine on the parts of a well formed response. The machine follows the names
  \<^verbatim>\<open>Connection\<close>, \<^verbatim>\<open>Content-Length\<close> and \<^verbatim>\<open>Transfer-Encoding\<close> through states of their own, so a run over a header line is
  stated over groups of states that agree on what they report.
\<close>

subsection \<open>Groups of states\<close>

text \<open>\<open>covers lo hi Q rows\<close>: every character from \<open>lo\<close> to \<open>hi\<close> has a row, and the row satisfies \<open>Q\<close>.\<close>

fun covers :: "int \<Rightarrow> int \<Rightarrow> (caction list \<Rightarrow> int \<Rightarrow> bool) \<Rightarrow> crow list \<Rightarrow> bool" where
  "covers lo hi Q [] \<longleftrightarrow> hi < lo"
| "covers lo hi Q ((a, b, acts, tgt) # rows) \<longleftrightarrow>
     (if b < lo then covers lo hi Q rows else hi < lo \<or> a \<le> lo \<and> Q acts tgt \<and> covers (b + 1) hi Q rows)"

lemma covers_find:
  "covers lo hi Q rows \<Longrightarrow> lo \<le> n \<Longrightarrow> n \<le> hi \<Longrightarrow> \<exists>acts tgt. find_crow n rows = Some (acts, tgt) \<and> Q acts tgt"
proof (induction lo hi Q rows rule: covers.induct)
  case (2 lo hi Q a b acts tgt rows)
  then show ?case by (cases "b < lo"; cases "n \<le> b") (auto split: if_splits)
qed auto

definition in_class :: "(int \<times> int) list \<Rightarrow> char \<Rightarrow> bool" where
  "in_class ivs c \<longleftrightarrow> list_ex (\<lambda>(lo, hi). lo \<le> schar c \<and> schar c \<le> hi) ivs"

definition group_step :: "int list \<Rightarrow> (int \<times> int) list \<Rightarrow> caction list list \<Rightarrow> int list \<Rightarrow> bool" where
  "group_step S ivs ass S' \<longleftrightarrow> list_all (\<lambda>cs. 1 \<le> cs \<and> cs \<le> 123) S \<and>
     list_all (\<lambda>(cs, rows). cs \<in> set S \<longrightarrow>
       list_all (\<lambda>(lo, hi). covers lo hi (\<lambda>acts tgt. acts \<in> set ass \<and> tgt \<in> set S') rows) ivs) httpclient_table"

definition ctable_keys :: "int list" where
  "ctable_keys = [
     1, 2, 120, 3, 4, 5, 6, 7, 8, 9, 10, 11, 12, 13, 14, 15, 16, 17, 18, 19, 20, 21, 22, 23, 24, 25, 26, 27,
     28, 29, 30, 31, 32, 33, 34, 35, 36, 37, 38, 39, 40, 41, 42, 43, 44, 45, 46, 47, 48, 49, 50, 51, 52, 53,
     54, 55, 56, 57, 58, 59, 60, 61, 62, 63, 64, 65, 66, 67, 68, 69, 70, 71, 121, 72, 73, 74, 75, 76, 77, 78,
     79, 80, 81, 82, 83, 84, 85, 86, 87, 88, 122, 89, 90, 91, 92, 93, 94, 95, 96, 97, 98, 99, 100, 101, 102,
     103, 104, 105, 106, 107, 108, 109, 110, 111, 112, 113, 114, 115, 123, 116, 117, 118, 119]"

lemma ctable_keys: "map fst httpclient_table = ctable_keys"
  by code_simp

lemma ctable_all: "list_all (\<lambda>cs. cs \<in> set ctable_keys) [1 .. 123]"
  by code_simp

lemma ctable_states: "1 \<le> cs \<Longrightarrow> cs \<le> 123 \<Longrightarrow> \<exists>rows. map_of httpclient_table cs = Some rows"
proof -
  assume "1 \<le> cs" "cs \<le> 123"
  then have "cs \<in> set [1 .. 123]" by (simp only: set_upto atLeastAtMost_iff)
  then have "cs \<in> fst ` set httpclient_table" using ctable_all unfolding list_all_iff ctable_keys [symmetric] set_map by blast
  then show ?thesis using map_of_eq_None_iff [of httpclient_table cs] by auto
qed

lemma group_stepD:
  assumes "group_step S ivs ass S'" and "cs \<in> set S" and "in_class ivs c"
  shows "\<exists>acts tgt. cdelta cs c = Some (acts, tgt) \<and> acts \<in> set ass \<and> tgt \<in> set S'"
proof -
  obtain rows where rows: "map_of httpclient_table cs = Some rows" 
    using ctable_states [of cs] assms(1,2) unfolding group_step_def list_all_iff by blast
  obtain lo hi where iv: "(lo, hi) \<in> set ivs" "lo \<le> schar c" "schar c \<le> hi" using assms(3) by (auto simp: in_class_def list_ex_iff)
  have "covers lo hi (\<lambda>acts tgt. acts \<in> set ass \<and> tgt \<in> set S') rows"
    using assms(1,2) map_of_SomeD [OF rows] iv(1) unfolding group_step_def list_all_iff by blast
  from covers_find [OF this iv(2,3)] show ?thesis using rows by (auto simp: cdelta_def)
qed

definition line_main :: "int list" where "line_main = [20, 43]"
definition line_states :: "int list" where "line_states = [20, 43, 36, 62, 113]"
definition name_states :: "int list" where
  "name_states = [21, 117] @ [25 .. 34] @ [44 .. 60] @ [73 .. 79] @ [90 .. 94] @ [101 .. 111]"
definition colon_states :: "int list" where "colon_states = [22, 35, 61, 112]"
definition value_states :: "int list" where "value_states = [23, 119] @ [81 .. 87] @ [96 .. 100]"
definition cr_main :: "int list" where "cr_main = [24, 71, 88]"
definition cr_states :: "int list" where "cr_states = [24, 71, 88, 80, 95, 118]"
definition blank_states :: "int list" where "blank_states = [3, 72, 89, 116]"

lemmas group_defs = line_main_def line_states_def name_states_def colon_states_def value_states_def cr_main_def cr_states_def blank_states_def

definition name_class :: "(int \<times> int) list" where
  "name_class = [(33, 33), (35, 39), (42, 43), (45, 46), (48, 57), (65, 90), (94, 122), (124, 124), (126, 126)]"
definition value_class :: "(int \<times> int) list" where "value_class = [(-128, 9), (11, 12), (14, 127)]"
definition start_class :: "(int \<times> int) list" where "start_class = [(-128, 8), (14, 31), (33, 127)]"

lemma group_steps:
  "group_step line_states name_class [[CStartField], [CWriteConnectionClose, CStartField], [CStartValue, CStartField]] name_states"
  "group_step name_states name_class [[]] name_states"
  "group_step name_states [(58, 58)] [[CWriteField]] colon_states"
  "group_step colon_states [(32, 32)] [[CStartValue]] colon_states"
  "group_step colon_states start_class [[CStartValue]] value_states"
  "group_step colon_states [(13, 13)] [[CStartValue, CWriteValue]] cr_states"
  "group_step value_states value_class [[]] value_states"
  "group_step value_states [(13, 13)] [[CWriteValue], [CWriteContentLen, CWriteValue]] cr_main"
  "group_step cr_states [(10, 10)] [[], [CTransChunked]] line_states"
  "group_step cr_main [(10, 10)] [[], [CTransChunked]] line_main"
  "group_step line_states [(13, 13)] [[], [CWriteConnectionClose]] blank_states"
  "group_step line_main [(13, 13)] [[], [CWriteConnectionClose]] [3]"
  "group_step blank_states [(10, 10)] [[CDone]] [120, 121, 122, 123]"
  "group_step [3] [(10, 10)] [[CDone]] [120]"
  by code_simp+

lemmas group_next = group_steps [THEN group_stepD]

lemma in_class_single: "in_class [(n, n)] c \<longleftrightarrow> schar c = n"
  by (auto simp: in_class_def)

lemma in_name_class: "name_code (schar c) \<Longrightarrow> in_class name_class c"
  unfolding name_code_def in_class_def name_class_def by simp linarith

lemma in_value_class: "schar c \<noteq> 10 \<Longrightarrow> schar c \<noteq> 13 \<Longrightarrow> in_class value_class c"
  using schar_range [of c] unfolding in_class_def value_class_def by simp linarith

definition blank_code :: "int \<Rightarrow> bool" where
  "blank_code n \<longleftrightarrow> n = 32 \<or> 9 \<le> n \<and> n \<le> 13"

lemma in_start_class: "\<not> blank_code (schar c) \<Longrightarrow> in_class start_class c"
  using schar_range [of c] unfolding in_class_def start_class_def blank_code_def by simp linarith

subsection \<open>Header lines\<close>

definition cfield_well :: "string \<times> string \<Rightarrow> bool" where
  "cfield_well kv = (case kv of (k, v) \<Rightarrow> k \<noteq> [] \<and> list_all (\<lambda>c. name_code (schar c)) k \<and>
     list_all (\<lambda>c. schar c \<noteq> 10 \<and> schar c \<noteq> 13) v \<and> (v \<noteq> [] \<longrightarrow> \<not> blank_code (schar (hd v))))"

definition cfield_event :: "nat \<Rightarrow> string \<times> string \<Rightarrow> client_event" where
  "cfield_event p kv = COnField p (sized (length (fst kv))) (p + length (fst kv) + 2) (of_nat (length (snd kv)))"

lemma run_name:
  assumes "cs \<in> set line_states" and "k \<noteq> []" and "list_all (\<lambda>c. name_code (schar c)) k"
  obtains cs' h' where "cs' \<in> set colon_states"
    "cexec_loop buf pe cs p (k @ '': '' @ rest) (h, es) = cexec_loop buf pe cs' (p + length k + 2) rest (h', es)"
    "cp_field_start h' = p" "cp_field_len h' = sized (length k)"
proof -
  obtain c k' where k: "k = c # k'" using assms(2) by (cases k) auto
  then have cs: "in_class name_class c" "\<forall>c \<in> set k'. in_class name_class c" using assms(3) by (auto simp: list_all_iff in_name_class)
  obtain acts cs1 where s1: "cdelta cs c = Some (acts, cs1)" "cs1 \<in> set name_states"
    and acts: "acts = [CStartField] \<or> acts = [CWriteConnectionClose, CStartField] \<or> acts = [CStartValue, CStartField]"
    using group_next(1) [OF assms(1) cs(1)] by auto
  define h1 where "h1 = fst (do_cactions buf p pe acts (h, es))"
  have h1: "do_cactions buf p pe acts (h, es) = (h1, es)" "cp_field_start h1 = p" "CDone \<notin> set acts"
    using acts by (auto simp: h1_def do_cactions_def)
  obtain cs2 where cs2: "cs2 \<in> set name_states"
    "cexec_loop buf pe cs1 (p + 1) (k' @ '': '' @ rest) (h1, es) = cexec_loop buf pe cs2 (p + 1 + length k') ('': '' @ rest) (h1, es)"
    using cli.loop_stretch [where S = "set name_states" and P = "in_class name_class" and xs = k' and cs = cs1 and pe = pe
      and p = "p + 1" and rest = "'': '' @ rest" and st = "(h1, es)" and buffer = buf] group_next(2) cs(2) s1(2) by fastforce
  obtain cs3 where cs3: "cs3 \<in> set colon_states" "cdelta cs2 CHR '':'' = Some ([CWriteField], cs3)"
    using group_next(3) [OF cs2(1), of "CHR '':''"] by (auto simp: in_class_single)
  obtain cs4 where cs4: "cs4 \<in> set colon_states" "cdelta cs3 CHR '' '' = Some ([CStartValue], cs4)"
    using group_next(4) [OF cs3(1), of "CHR '' ''"] by (auto simp: in_class_single)
  have "cexec_loop buf pe cs p (k @ '': '' @ rest) (h, es) =
    cexec_loop buf pe cs4 (p + length k + 2) rest
      (h1\<lparr>cp_field_len := sized (length k), cp_mark := p + length k + 1\<rparr>, es)"
    using s1 h1 cs2(2) cs3(2) cs4(2) by (simp add: k cexec_loop.simps(2) do_cactions_def sized_def LEN_def)
  then show thesis using that cs4(1) h1(2) by simp
qed

lemma run_lf:
  assumes "cs \<in> set cr_states"
  obtains cs' h' where "cs' \<in> set line_states" "cs \<in> set cr_main \<longrightarrow> cs' \<in> set line_main"
    "cexec_loop buf pe cs p (CHR 0x0A # rest) (h, es) = cexec_loop buf pe cs' (p + 1) rest (h', es)"
proof -
  obtain acts cs' where s: "cdelta cs CHR 0x0A = Some (acts, cs')" "acts = [] \<or> acts = [CTransChunked]" "cs' \<in> set line_states"
    using group_next(9) [OF assms, of "CHR 0x0A"] by (auto simp: in_class_single)
  have main: "cs \<in> set cr_main \<longrightarrow> cs' \<in> set line_main"
  proof
    assume "cs \<in> set cr_main"
    from group_next(10) [OF this, of "CHR 0x0A"] show "cs' \<in> set line_main" using s(1) by (auto simp: in_class_single)
  qed
  show thesis
    by (rule that [OF s(3) main, of "fst (do_cactions buf p pe acts (h, es))"])
      (use s in \<open>auto simp: cexec_loop.simps(2) do_cactions_def\<close>)
qed

lemma run_value:
  assumes "cs \<in> set colon_states" and v: "list_all (\<lambda>c. schar c \<noteq> 10 \<and> schar c \<noteq> 13) v" "v \<noteq> [] \<longrightarrow> \<not> blank_code (schar (hd v))"
  obtains cs' h' where "cs' \<in> set line_states" "v \<noteq> [] \<longrightarrow> cs' \<in> set line_main"
    "cexec_loop buf pe cs p (v @ CRLF @ rest) (h, es) =
       cexec_loop buf pe cs' (p + length v + 2) rest
         (h', es @ [COnField (cp_field_start h) (cp_field_len h) p (of_nat (length v))])"
proof -
  let ?es = "es @ [COnField (cp_field_start h) (cp_field_len h) p (of_nat (length v))]"
  obtain cs1 h1 where cs1: "cs1 \<in> set cr_states" "v \<noteq> [] \<longrightarrow> cs1 \<in> set cr_main"
    and run: "cexec_loop buf pe cs p (v @ CRLF @ rest) (h, es) = cexec_loop buf pe cs1 (p + length v + 1) (CHR 0x0A # rest) (h1, ?es)"
  proof (cases v)
    case Nil
    obtain cs1 where "cs1 \<in> set cr_states" "cdelta cs CHR 0x0D = Some ([CStartValue, CWriteValue], cs1)"
      using group_next(6) [OF assms(1), of "CHR 0x0D"] by (auto simp: in_class_single)
    then show thesis using that [of cs1] Nil by (simp add: CRLF_def cexec_loop.simps(2) do_cactions_def)
  next
    case (Cons c v')
    then have cls: "in_class start_class c" "\<forall>c \<in> set v'. in_class value_class c"
      using v by (auto simp: list_all_iff in_start_class in_value_class)
    obtain cs2 where cs2: "cs2 \<in> set value_states" "cdelta cs c = Some ([CStartValue], cs2)"
      using group_next(5) [OF assms(1) cls(1)] by auto
    obtain cs3 where cs3: "cs3 \<in> set value_states"
      "cexec_loop buf pe cs2 (p + 1) (v' @ CRLF @ rest) (h\<lparr>cp_mark := p\<rparr>, es) =
         cexec_loop buf pe cs3 (p + 1 + length v') (CRLF @ rest) (h\<lparr>cp_mark := p\<rparr>, es)"
      using cli.loop_stretch [where S = "set value_states" and P = "in_class value_class" and xs = v' and cs = cs2 and pe = pe
        and p = "p + 1" and rest = "CRLF @ rest" and st = "(h\<lparr>cp_mark := p\<rparr>, es)" and buffer = buf] group_next(7) cls(2) cs2(1)
      by fastforce
    obtain acts cs1 where cs1: "cs1 \<in> set cr_main" "cdelta cs3 CHR 0x0D = Some (acts, cs1)"
      and acts: "acts = [CWriteValue] \<or> acts = [CWriteContentLen, CWriteValue]"
      using group_next(8) [OF cs3(1), of "CHR 0x0D"] by (auto simp: in_class_single)
    define h1 where "h1 = fst (do_cactions buf (p + 1 + length v') pe acts (h\<lparr>cp_mark := p\<rparr>, es))"
    have "do_cactions buf (p + 1 + length v') pe acts (h\<lparr>cp_mark := p\<rparr>, es) = (h1, ?es)" "CDone \<notin> set acts"
      using acts Cons by (auto simp: h1_def do_cactions_def LEN_def)
    then have "cexec_loop buf pe cs p (v @ CRLF @ rest) (h, es) = cexec_loop buf pe cs1 (p + length v + 1) (CHR 0x0A # rest) (h1, ?es)"
      using cs2(2) cs3(2) cs1(2) Cons by (simp add: CRLF_def cexec_loop.simps(2) do_cactions_def)
    moreover have "cs1 \<in> set cr_states" using cs1(1) by (auto simp: cr_main_def cr_states_def)
    ultimately show thesis using that cs1(1) by blast
  qed
  show thesis
    by (rule run_lf [OF cs1(1), of buf pe "p + length v + 1" rest h1 ?es], rule that)
      (use cs1(2) run in \<open>auto simp: add.assoc\<close>)
qed

lemma run_cfield:
  assumes "cs \<in> set line_states" and "cfield_well kv"
  obtains cs' h' where "cs' \<in> set line_states" "snd kv \<noteq> [] \<longrightarrow> cs' \<in> set line_main"
    "cexec_loop buf pe cs p (field_line kv @ CRLF @ rest) (h, es) =
       cexec_loop buf pe cs' (p + length (field_line kv) + 2) rest (h', es @ [cfield_event p kv])"
proof -
  obtain k v where kv: "kv = (k, v)" by (cases kv)
  then have k: "k \<noteq> []" "list_all (\<lambda>c. name_code (schar c)) k"
    and v: "list_all (\<lambda>c. schar c \<noteq> 10 \<and> schar c \<noteq> 13) v" "v \<noteq> [] \<longrightarrow> \<not> blank_code (schar (hd v))"
    using assms(2) by (simp_all add: cfield_well_def)
  obtain cs1 h1 where 1: "cs1 \<in> set colon_states"
    "cexec_loop buf pe cs p (k @ '': '' @ v @ CRLF @ rest) (h, es) = cexec_loop buf pe cs1 (p + length k + 2) (v @ CRLF @ rest) (h1, es)"
    "cp_field_start h1 = p" "cp_field_len h1 = sized (length k)"
    using run_name [OF assms(1) k] by blast
  obtain cs2 h2 where "cs2 \<in> set line_states" "v \<noteq> [] \<longrightarrow> cs2 \<in> set line_main"
    "cexec_loop buf pe cs1 (p + length k + 2) (v @ CRLF @ rest) (h1, es) =
       cexec_loop buf pe cs2 (p + length k + 2 + length v + 2) rest (h2, es @ [cfield_event p kv])"
    using run_value [OF 1(1) v, of buf pe "p + length k + 2" rest h1 es] 1(3,4) by (auto simp: cfield_event_def kv)
  then show thesis using that 1(2) by (simp add: kv field_line_def add.assoc add.left_commute)
qed

fun cfield_events :: "nat \<Rightarrow> (string \<times> string) list \<Rightarrow> client_event list" where
  "cfield_events p [] = []"
| "cfield_events p (kv # kvs) = cfield_event p kv # cfield_events (p + length (field_line kv) + 2) kvs"

lemma run_cfields:
  assumes "cs \<in> set line_states" and "list_all cfield_well kvs"
  shows "\<exists>cs' h'. cs' \<in> set line_states \<and> ((if kvs = [] then cs \<in> set line_main else snd (last kvs) \<noteq> []) \<longrightarrow> cs' \<in> set line_main) \<and>
    cexec_loop buf pe cs p (field_lines kvs @ rest) (h, es) =
      cexec_loop buf pe cs' (p + length (field_lines kvs)) rest (h', es @ cfield_events p kvs)"
  using assms
proof (induction kvs arbitrary: cs p h es)
  case Nil
  then show ?case by (auto simp: field_lines_def)
next
  case (Cons kv kvs)
  obtain cs1 h1 where 1: "cs1 \<in> set line_states" "snd kv \<noteq> [] \<longrightarrow> cs1 \<in> set line_main"
    "cexec_loop buf pe cs p (field_line kv @ CRLF @ field_lines kvs @ rest) (h, es) =
       cexec_loop buf pe cs1 (p + length (field_line kv) + 2) (field_lines kvs @ rest) (h1, es @ [cfield_event p kv])"
  proof (rule run_cfield [OF Cons.prems(1), of kv buf pe p "field_lines kvs @ rest" h es])
    show "cfield_well kv" using Cons.prems(2) by simp
  qed
  obtain cs2 h2 where 2: "cs2 \<in> set line_states"
    "(if kvs = [] then cs1 \<in> set line_main else snd (last kvs) \<noteq> []) \<longrightarrow> cs2 \<in> set line_main"
    "cexec_loop buf pe cs1 (p + length (field_line kv) + 2) (field_lines kvs @ rest) (h1, es @ [cfield_event p kv]) =
       cexec_loop buf pe cs2 (p + length (field_line kv) + 2 + length (field_lines kvs)) rest
         (h2, (es @ [cfield_event p kv]) @ cfield_events (p + length (field_line kv) + 2) kvs)"
    using Cons.IH [OF 1(1), of "p + length (field_line kv) + 2" h1 "es @ [cfield_event p kv]"] Cons.prems(2) by auto
  have "field_lines (kv # kvs) = field_line kv @ CRLF @ field_lines kvs" by (simp add: field_lines_def)
  then have "cexec_loop buf pe cs p (field_lines (kv # kvs) @ rest) (h, es) =
      cexec_loop buf pe cs2 (p + length (field_lines (kv # kvs))) rest (h2, es @ cfield_events p (kv # kvs))"
    using 1(3) 2(3) by (simp add: CRLF_def add.assoc)
  moreover have "(if kv # kvs = [] then cs \<in> set line_main else snd (last (kv # kvs)) \<noteq> []) \<longrightarrow> cs2 \<in> set line_main"
    using 1(2) 2(2) by simp
  ultimately show ?case using 2(1) by blast
qed

lemma run_cblank:
  assumes "cs \<in> set line_states"
  obtains cs' h' where "cs' \<in> {120, 121, 122, 123}" "cs \<in> set line_main \<longrightarrow> cs' = 120"
    "cexec_loop buf pe cs p (CRLF @ rest) (h, es) = (cs', p + 2, h', es @ [COnHeaderDone (p + 2) (of_nat (pe - p - 2))])"
proof -
  obtain acts cs1 where 1: "cdelta cs CHR 0x0D = Some (acts, cs1)" "acts = [] \<or> acts = [CWriteConnectionClose]" "cs1 \<in> set blank_states"
    using group_next(11) [OF assms, of "CHR 0x0D"] by (auto simp: in_class_single)
  obtain cs2 where 2: "cdelta cs1 CHR 0x0A = Some ([CDone], cs2)" "cs2 \<in> {120, 121, 122, 123}"
    using group_next(13) [OF 1(3), of "CHR 0x0A"] by (auto simp: in_class_single)
  have main: "cs \<in> set line_main \<longrightarrow> cs2 = 120"
  proof
    assume "cs \<in> set line_main"
    from group_next(12) [OF this, of "CHR 0x0D"] have "cs1 = 3" using 1(1) by (auto simp: in_class_single)
    then show "cs2 = 120" using group_next(14) [of cs1 "CHR 0x0A"] 2(1) by (auto simp: in_class_single)
  qed
  show thesis
    by (rule that [OF 2(2) main, of "(fst (do_cactions buf p pe acts (h, es)))\<lparr>cp_body_start := p + 2\<rparr>"])
      (use 1(1,2) 2(1) in \<open>auto simp: CRLF_def cexec_loop.simps(2) do_cactions_def\<close>)
qed

subsection \<open>Words\<close>

text \<open>The transitions along the words that the library itself writes, looked up in one pass over the table.\<close>

definition word_steps :: "(int \<times> char \<times> caction list \<times> int) list" where
  "word_steps = [
      (1, CHR ''H'', [CMark], 8), (3, CHR 0x0A, [CDone], 120), (8, CHR ''T'', [], 9), (9, CHR ''T'', [], 10),
      (10, CHR ''P'', [], 11), (11, CHR ''/'', [], 12), (12, CHR ''1'', [], 13), (13, CHR ''.'', [], 14),
      (14, CHR ''0'', [], 15), (14, CHR ''1'', [], 15), (15, CHR '' '', [CHttpVersion], 16),
      (17, CHR '' '', [CStatusCode], 18), (19, CHR 0x0D, [CReasonPhrase], 24), (20, CHR 0x0D, [], 3),
      (20, CHR ''c'', [CStartField], 25), (20, CHR ''t'', [CStartField], 44), (24, CHR 0x0A, [], 20),
      (25, CHR ''o'', [], 26), (26, CHR ''n'', [], 27), (27, CHR ''n'', [], 28), (27, CHR ''t'', [], 101),
      (28, CHR ''e'', [], 29), (29, CHR ''c'', [], 30), (30, CHR ''t'', [], 31), (31, CHR ''i'', [], 32),
      (32, CHR ''o'', [], 33), (33, CHR ''n'', [], 34), (34, CHR '':'', [CWriteField], 35),
      (35, CHR 0x0D, [CStartValue, CWriteValue], 95), (35, CHR '' '', [CStartValue], 35),
      (35, CHR ''c'', [CStartValue], 96), (36, CHR 0x0D, [], 89), (36, CHR ''c'', [CStartField], 90),
      (36, CHR ''t'', [CStartField], 44), (43, CHR 0x0D, [CWriteConnectionClose], 3),
      (43, CHR ''c'', [CWriteConnectionClose, CStartField], 25),
      (43, CHR ''t'', [CWriteConnectionClose, CStartField], 44), (44, CHR ''r'', [], 45),
      (45, CHR ''a'', [], 46), (46, CHR ''n'', [], 47), (47, CHR ''s'', [], 48), (48, CHR ''f'', [], 49),
      (49, CHR ''e'', [], 50), (50, CHR ''r'', [], 51), (51, CHR ''-'', [], 52), (52, CHR ''e'', [], 53),
      (53, CHR ''n'', [], 54), (54, CHR ''c'', [], 55), (55, CHR ''o'', [], 56), (56, CHR ''d'', [], 57),
      (57, CHR ''i'', [], 58), (58, CHR ''n'', [], 59), (59, CHR ''g'', [], 60),
      (60, CHR '':'', [CWriteField], 61), (61, CHR 0x0D, [CStartValue, CWriteValue], 80),
      (61, CHR '' '', [CStartValue], 61), (62, CHR 0x0D, [], 72),
      (62, CHR ''c'', [CStartValue, CStartField], 73), (62, CHR ''t'', [CStartField], 44),
      (72, CHR 0x0A, [CDone], 121), (73, CHR ''o'', [], 26), (80, CHR 0x0A, [], 62), (88, CHR 0x0A, [], 43),
      (89, CHR 0x0A, [CDone], 122), (90, CHR ''o'', [], 26), (95, CHR 0x0A, [], 36), (96, CHR ''l'', [], 97),
      (97, CHR ''o'', [], 98), (98, CHR ''s'', [], 99), (99, CHR ''e'', [], 100),
      (100, CHR 0x0D, [CWriteValue], 88), (101, CHR ''e'', [], 102), (102, CHR ''n'', [], 103),
      (103, CHR ''t'', [], 104), (104, CHR ''-'', [], 105), (105, CHR ''l'', [], 106),
      (106, CHR ''e'', [], 107), (107, CHR ''n'', [], 108), (108, CHR ''g'', [], 109),
      (109, CHR ''t'', [], 110), (110, CHR ''h'', [], 111), (111, CHR '':'', [CWriteField], 112),
      (112, CHR 0x0D, [CStartValue, CWriteValue], 118), (112, CHR '' '', [CStartValue], 112),
      (113, CHR 0x0D, [], 116), (113, CHR ''7'', [CStartValue, CStartField], 117),
      (113, CHR ''c'', [CStartField], 25), (113, CHR ''t'', [CStartField], 44), (116, CHR 0x0A, [CDone], 123),
      (117, CHR 0x0D, [CWriteContentLen, CWriteValue], 24), (118, CHR 0x0A, [], 113),
      (119, CHR 0x0D, [CWriteContentLen, CWriteValue], 24)]"

definition rows_have :: "(int \<times> char \<times> caction list \<times> int) list \<Rightarrow> bool" where
  "rows_have es \<longleftrightarrow> list_all (\<lambda>(cs, rows). list_all (\<lambda>(cs', c, acts, tgt). cs' = cs \<longrightarrow>
     find_crow (schar c) rows = Some (acts, tgt)) es) httpclient_table"

lemma word_steps_ok: "rows_have word_steps" "list_all (\<lambda>(cs, _). 1 \<le> cs \<and> cs \<le> 123) word_steps"
  by code_simp+

lemma word_steps_delta: "list_all (\<lambda>(cs, c, acts, tgt). cdelta cs c = Some (acts, tgt)) word_steps"
proof -
  have "cdelta cs c = Some (acts, tgt)" if e: "(cs, c, acts, tgt) \<in> set word_steps" for cs c acts tgt
  proof -
    have "1 \<le> cs \<and> cs \<le> 123" using word_steps_ok(2) e unfolding list_all_iff by fast
    then obtain rows where rows: "map_of httpclient_table cs = Some rows" using ctable_states by blast
    then have "find_crow (schar c) rows = Some (acts, tgt)"
      using word_steps_ok(1) e map_of_SomeD [OF rows] unfolding rows_have_def list_all_iff by fast
    then show ?thesis by (simp add: cdelta_def rows)
  qed
  then show ?thesis unfolding list_all_iff by blast
qed

lemmas cdelta_words = word_steps_delta [unfolded word_steps_def list.pred_inject prod.case simp_thms]

text \<open>The run over a given word, as the list of the actions at each of its characters.\<close>

fun walk :: "int \<Rightarrow> string \<Rightarrow> (caction list list \<times> int) option" where
  "walk cs [] = Some ([], cs)"
| "walk cs (c # xs) =
     (case cdelta cs c of None \<Rightarrow> None
      | Some (acts, tgt) \<Rightarrow>
          if CDone \<in> set acts then None else map_option (\<lambda>(as, cs'). (acts # as, cs')) (walk tgt xs))"

fun walk_acts ::
  "string \<Rightarrow> nat \<Rightarrow> nat \<Rightarrow> caction list list \<Rightarrow> httpclient_parser \<times> client_event list \<Rightarrow> httpclient_parser \<times> client_event list" where
  "walk_acts buf pe p [] st = st"
| "walk_acts buf pe p (a # as) st = walk_acts buf pe (p + 1) as (do_cactions buf p pe a st)"

lemma walk_run:
  "walk cs xs = Some (as, cs') \<Longrightarrow>
   cexec_loop buf pe cs p (xs @ rest) st = cexec_loop buf pe cs' (p + length xs) rest (walk_acts buf pe p as st)"
proof (induction cs xs arbitrary: as p st rule: walk.induct)
  case (2 cs c xs)
  obtain acts tgt where c: "cdelta cs c = Some (acts, tgt)" "CDone \<notin> set acts"
    using 2(2) by (auto split: option.splits if_splits)
  obtain as' where as: "as = acts # as'" "walk tgt xs = Some (as', cs')"
    using 2(2) c by auto
  have "cexec_loop buf pe tgt (p + 1) (xs @ rest) st' = cexec_loop buf pe cs' (p + 1 + length xs) rest (walk_acts buf pe (p + 1) as' st')" for st'
    using 2(1) [OF c(1) refl c(2) as(2)] .
  then show ?case using c as by (simp add: cexec_loop.simps(2))
qed simp

subsection \<open>The status line\<close>

definition digit_class :: "(int \<times> int) list" where "digit_class = [(48, 57)]"
definition reason_class :: "(int \<times> int) list" where "reason_class = [(-128, 9), (11, 127)]"

lemma status_steps:
  "group_step [16] digit_class [[CMark]] [17]" "group_step [17] digit_class [[]] [17]"
  "group_step [18] reason_class [[CMark]] [19]" "group_step [19] value_class [[]] [19]"
  by code_simp+

lemmas status_next = status_steps [THEN group_stepD]

definition reason_well :: "string \<Rightarrow> bool" where
  "reason_well s \<longleftrightarrow> s \<noteq> [] \<and> list_all (\<lambda>c. schar c \<noteq> 10 \<and> schar c \<noteq> 13) s"

definition status_text :: "char \<Rightarrow> string \<Rightarrow> string \<Rightarrow> string" where
  "status_text d code reason = ''HTTP/1.'' @ [d] @ '' '' @ code @ '' '' @ reason @ CRLF"

definition status_events :: "string \<Rightarrow> string \<Rightarrow> client_event list" where
  "status_events code reason =
     [COnVersion 0 8, COnStatus 9 (of_nat (length code)), COnReason (10 + length code) (of_nat (length reason))]"

lemma run_code:
  assumes "code \<noteq> []" and "list_all (in_class digit_class) code"
  shows "cexec_loop buf pe 16 p (code @ '' '' @ rest) (h, es) =
    cexec_loop buf pe 18 (p + length code + 1) rest
      (h\<lparr>cp_mark := p, cp_status := to_int (strtol 10 (drop p buf))\<rparr>, es @ [COnStatus p (of_nat (length code))])"
proof -
  obtain c xs where code: "code = c # xs" using assms(1) by (cases code) auto
  have c: "cdelta 16 c = Some ([CMark], 17)" using status_next(1) [of 16 c] assms(2) code by auto
  have "\<exists>cs' \<in> {17}. cexec_loop buf pe 16 p ((c # xs) @ '' '' @ rest) (h, es) =
      cexec_loop buf pe cs' (p + 1 + length xs) ('' '' @ rest) (do_cactions buf p pe [CMark] (h, es))"
    by (rule cli.loop_token [where P = "in_class digit_class"])
      (use c status_next(2) [of 17] assms(2) code in \<open>auto simp: list_all_iff\<close>)
  then show ?thesis by (simp add: code cexec_loop.simps(2) cdelta_words do_cactions_def LEN_def)
qed

lemma run_reason:
  assumes "reason_well reason"
  shows "cexec_loop buf pe 18 p (reason @ CRLF @ rest) (h, es) =
    cexec_loop buf pe 20 (p + length reason + 2) rest (h\<lparr>cp_mark := p\<rparr>, es @ [COnReason p (of_nat (length reason))])"
proof -
  obtain c xs where r: "reason = c # xs" using assms by (cases reason) (auto simp: reason_well_def)
  have "in_class reason_class c" using assms r schar_range [of c] unfolding reason_well_def in_class_def reason_class_def
    by simp linarith
  then have c: "cdelta 18 c = Some ([CMark], 19)" using status_next(3) [of 18 c] by auto
  have "\<exists>cs' \<in> {19}. cexec_loop buf pe 18 p ((c # xs) @ CRLF @ rest) (h, es) =
      cexec_loop buf pe cs' (p + 1 + length xs) (CRLF @ rest) (do_cactions buf p pe [CMark] (h, es))"
    by (rule cli.loop_token [where P = "in_class value_class"])
      (use c status_next(4) [of 19] assms r in \<open>auto simp: list_all_iff reason_well_def in_value_class\<close>)
  then show ?thesis by (simp add: r CRLF_def cexec_loop.simps(2) cdelta_words do_cactions_def LEN_def)
qed

lemma run_status:
  assumes "d = CHR ''0'' \<or> d = CHR ''1''" and "code \<noteq> []" and "list_all (in_class digit_class) code" and "reason_well reason"
  obtains h' where
    "cexec_loop buf pe 1 0 (status_text d code reason @ rest) (h, []) =
       cexec_loop buf pe 20 (length (status_text d code reason)) rest (h', status_events code reason)"
proof -
  have "cexec_loop buf pe 1 0 (status_text d code reason @ rest) (h, []) =
      cexec_loop buf pe 16 9 (code @ '' '' @ reason @ CRLF @ rest) (h\<lparr>cp_mark := 0\<rparr>, [COnVersion 0 8])"
    using assms(1) by (auto simp: status_text_def cexec_loop.simps(2) cdelta_words do_cactions_def LEN_def numeral_eq_Suc)
  then show thesis
    using that run_code [OF assms(2,3), of buf pe 9 "reason @ CRLF @ rest"] run_reason [OF assms(4), of buf pe "10 + length code" rest]
    by (simp add: status_text_def status_events_def CRLF_def add.commute numeral_eq_Suc)
qed

subsection \<open>A complete head\<close>

lemma run_head:
  assumes "d = CHR ''0'' \<or> d = CHR ''1''" and "code \<noteq> []" and "list_all (in_class digit_class) code" and "reason_well reason"
    and "list_all cfield_well kvs"
  defines "head \<equiv> status_text d code reason"
  defines "n \<equiv> length head + length (field_lines kvs) + 2"
  obtains cs h' where "cs \<in> {120, 121, 122, 123}" "(kvs = [] \<or> snd (last kvs) \<noteq> []) \<longrightarrow> cs = 120"
    "cexec_loop buf pe 1 0 (head @ field_lines kvs @ CRLF @ body) (h, []) =
       (cs, n, h', status_events code reason @ cfield_events (length head) kvs @ [COnHeaderDone n (of_nat (pe - n))])"
proof -
  obtain h1 where 1: "cexec_loop buf pe 1 0 (head @ field_lines kvs @ CRLF @ body) (h, []) =
      cexec_loop buf pe 20 (length head) (field_lines kvs @ CRLF @ body) (h1, status_events code reason)"
    using run_status [OF assms(1-4)] unfolding head_def by blast
  have "20 \<in> set line_states" "20 \<in> set line_main" by (simp_all add: line_states_def line_main_def)
  then obtain cs2 h2 where 2: "cs2 \<in> set line_states"
    "(if kvs = [] then 20 \<in> set line_main else snd (last kvs) \<noteq> []) \<longrightarrow> cs2 \<in> set line_main"
    "cexec_loop buf pe 20 (length head) (field_lines kvs @ CRLF @ body) (h1, status_events code reason) =
      cexec_loop buf pe cs2 (length head + length (field_lines kvs)) (CRLF @ body)
        (h2, status_events code reason @ cfield_events (length head) kvs)"
    using run_cfields [OF _ assms(5), of 20 buf pe "length head" "CRLF @ body" h1 "status_events code reason"] by blast
  have main: "(kvs = [] \<or> snd (last kvs) \<noteq> []) \<longrightarrow> cs2 \<in> set line_main"
    using 2(2) \<open>20 \<in> set line_main\<close> by (cases "kvs = []") simp_all
  show thesis
  proof (rule run_cblank [OF 2(1), of buf pe "length head + length (field_lines kvs)" body h2
        "status_events code reason @ cfield_events (length head) kvs"], rule that)
    fix cs' h'
    assume "cs' \<in> {120, 121, 122, 123}" "cs2 \<in> set line_main \<longrightarrow> cs' = 120"
      and run: "cexec_loop buf pe cs2 (length head + length (field_lines kvs)) (CRLF @ body)
        (h2, status_events code reason @ cfield_events (length head) kvs) =
        (cs', length head + length (field_lines kvs) + 2, h', (status_events code reason @ cfield_events (length head) kvs) @
          [COnHeaderDone (length head + length (field_lines kvs) + 2) (of_nat (pe - (length head + length (field_lines kvs)) - 2))])"
    then show "cs' \<in> {120, 121, 122, 123}" "(kvs = [] \<or> snd (last kvs) \<noteq> []) \<longrightarrow> cs' = 120" using main by blast+
    show "cexec_loop buf pe 1 0 (head @ field_lines kvs @ CRLF @ body) (h, []) =
       (cs', n, h', status_events code reason @ cfield_events (length head) kvs @ [COnHeaderDone n (of_nat (pe - n))])"
      unfolding 1 2(3) run by (simp add: n_def del: of_nat_diff)
  qed
qed

end
