(* ===== verification/Http_Response_Props.thy ===== *)
theory Http_Response_Props
  imports Http_Parser_Props HttpClient_Run
begin

text \<open>
  The response parser on a complete response: what \<^verbatim>\<open>HttpResponse::dump\<close> writes, \<^verbatim>\<open>HttpResponseParser\<close> reads back.
  Then the inputs it mishandles: an empty buffer, a last header without a value, a value on the next line.
\<close>

subsection \<open>Numbers\<close>

lemma of_char_digit: "k < 16 \<Longrightarrow> (of_char (digit k) :: nat) = (if k < 10 then 48 + k else 87 + k)"
  by (simp add: digit_def)

lemma digit_code_digit: "k < 16 \<Longrightarrow> digit_code (digit k) = k"
  by (simp add: digit_code_def of_char_digit)

lemma digit_facts: "k < b \<Longrightarrow> k < 16 \<Longrightarrow> is_digit b (digit k)" "k < 16 \<Longrightarrow> \<not> isspace (digit k)"
  "k < 16 \<Longrightarrow> digit k \<noteq> CHR ''-''" "k < 16 \<Longrightarrow> digit k \<noteq> CHR ''+''" "k < 16 \<Longrightarrow> digit k \<noteq> CHR ''x''" "k < 16 \<Longrightarrow> digit k \<noteq> CHR ''X''"
proof -
  show "k < b \<Longrightarrow> k < 16 \<Longrightarrow> is_digit b (digit k)" by (simp add: is_digit_def digit_code_digit)
  assume k: "k < 16"
  note code = of_char_digit [OF k]
  show "\<not> isspace (digit k)" using code k by (simp add: isspace_def)
  show "digit k \<noteq> CHR ''-''" "digit k \<noteq> CHR ''+''" "digit k \<noteq> CHR ''x''" "digit k \<noteq> CHR ''X''" using code k by (auto split: if_splits)
qed

lemma base_string_chars: "c \<in> set (base_string b n) \<Longrightarrow> 2 \<le> b \<Longrightarrow> \<exists>k < b. c = digit k"
proof (induction b n rule: base_string.induct)
  case (1 b n)
  have "\<exists>k < b. digit (n mod b) = digit k" using 1(3) by (intro exI [of _ "n mod b"]) simp
  then show ?case using 1 by (cases "n < b") (auto simp: base_string.simps [of b n])
qed

lemma digit_class_dec: "list_all (in_class digit_class) (dec_string n)"
  unfolding list_all_iff by (auto dest!: dec_string_chars simp: in_class_def digit_class_def schar_digit)

lemma digits_value_append: "digits_value b (xs @ [c]) = digits_value b xs * int b + int (digit_code c)"
  by (simp add: digits_value_def)

lemma digits_value_base: "2 \<le> b \<Longrightarrow> b \<le> 16 \<Longrightarrow> digits_value b (base_string b n) = int n"
proof (induction b n rule: base_string.induct)
  case (1 b n)
  show ?case
  proof (cases "n < b")
    case True
    then show ?thesis using 1 by (subst base_string.simps) (simp add: digits_value_def digit_code_digit)
  next
    case False
    then have "digits_value b (base_string b (n div b)) = int (n div b)" using 1 by simp
    moreover have "int (n div b) * int b + int (n mod b) = int n" by (metis div_mult_mod_eq of_nat_add of_nat_mult)
    moreover have "digit_code (digit (n mod b)) = n mod b"
      using 1(2,3) by (intro digit_code_digit) (simp add: less_le_trans [OF mod_less_divisor])
    ultimately show ?thesis using False 1(2) by (subst base_string.simps) (simp add: digits_value_append)
  qed
qed

lemma strtol_base:
  assumes b: "2 \<le> b" "b \<le> 16" and c: "\<not> is_digit b c" "c \<noteq> CHR ''x''" "c \<noteq> CHR ''X''" and "n < 2 ^ 63"
  shows "strtol b (base_string b n @ c # rest) = int n"
proof -
  have ds: "is_digit b x \<and> \<not> isspace x \<and> x \<noteq> CHR ''-'' \<and> x \<noteq> CHR ''+'' \<and> x \<noteq> CHR ''x'' \<and> x \<noteq> CHR ''X''"
    if x: "x \<in> set (base_string b n)" for x
  proof -
    obtain k where k: "k < b" "x = digit k" using base_string_chars [OF x b(1)] by blast
    then show ?thesis using digit_facts [of k] b(2) by simp
  qed
  obtain d ds' where d: "base_string b n = d # ds'" by (cases "base_string b n") auto
  then have hd: "\<not> isspace d" "d \<noteq> CHR ''-''" "d \<noteq> CHR ''+''" using ds [of d] by simp_all
  have "takeWhile (is_digit b) (base_string b n) = base_string b n" using ds by (simp add: takeWhile_eq_all_conv)
  then have tw: "takeWhile (is_digit b) (base_string b n @ c # rest) = base_string b n" using c(1) by (simp add: takeWhile_append)
  have "skip_prefix b (d # ds' @ c # rest) = d # ds' @ c # rest"
    using ds d c by (cases ds') (auto simp: skip_prefix_def split: list.splits)
  then show ?thesis using hd tw assms(6) digits_value_base [OF b, of n] unfolding strtol_def Let_def by (simp add: d)
qed

lemma strtol_dec: "\<not> is_digit 10 c \<Longrightarrow> c \<noteq> CHR ''x'' \<Longrightarrow> c \<noteq> CHR ''X'' \<Longrightarrow> n < 2 ^ 63 \<Longrightarrow> strtol 10 (dec_string n @ c # rest) = int n"
  using strtol_base [of 10 c n rest] by (simp add: dec_string_def)

lemma to_int_u32: "to_int (int (unat (word_of_int v :: u32))) = to_int v"
  by (simp add: to_int_def)

subsection \<open>The callbacks\<close>

lemma response_callbacks_append:
  "response_callbacks mem (es @ es') rp = err_bind (response_callbacks mem es rp) (response_callbacks mem es')"
  by (induction es arbitrary: rp) (auto simp: err_bind_def split: sum.splits)

lemma callbacks_cfields:
  assumes "list_all cfield_well kvs" and "mem = xs @ field_lines kvs @ ys" and "length mem < 2 ^ 63"
  shows "response_callbacks mem (cfield_events (length xs) kvs) rp =
     Inr (rp\<lparr>rp_data := (rp_data rp)\<lparr>r_headers := set_headers kvs (r_headers (rp_data rp))\<rparr>\<rparr>)"
  using assms
proof (induction kvs arbitrary: xs rp)
  case Nil
  then show ?case by (simp add: set_headers_def)
next
  case (Cons kv kvs)
  obtain k v where kv: "kv = (k, v)" by (cases kv)
  have k: "k \<noteq> []" "sized (length k) = length k"
    using Cons.prems kv by (auto simp: cfield_well_def field_lines_def field_line_def intro!: sized_eq)
  have "mem_string mem (length xs) (sized (length k)) = Inr k"
    unfolding sized_def using Cons.prems kv
    by (intro mem_part [where ys = "'': '' @ v @ CRLF @ field_lines kvs @ ys"]) (simp_all add: field_lines_def field_line_def)
  moreover have "mem_string mem (length xs + length k + 2) (unat (of_nat (length v) :: u64)) = Inr v"
    using Cons.prems kv
    by (intro mem_part [where xs = "xs @ k @ '': ''" and ys = "CRLF @ field_lines kvs @ ys"]) (simp_all add: field_lines_def field_line_def)
  moreover have "mem = (xs @ field_line kv @ CRLF) @ field_lines kvs @ ys"
    using Cons.prems(2) by (simp add: field_lines_def)
  then have "response_callbacks mem (cfield_events (length xs + length (field_line kv) + 2) kvs) rp =
      Inr (rp\<lparr>rp_data := (rp_data rp)\<lparr>r_headers := set_headers kvs (r_headers (rp_data rp))\<rparr>\<rparr>)" for rp
    using Cons.IH [of "xs @ field_line kv @ CRLF"] Cons.prems by (simp add: CRLF_def)
  ultimately show ?case
    using k by (simp add: kv cfield_event_def on_response_http_field_def response_setHeader_def set_headers_def)
qed

lemma callbacks_status:
  assumes "mem = status_text (version_digit v) (dec_string n) reason @ ys" and "length mem < 2 ^ 63"
    and "v = 0x11 \<or> v = 0x10" and "n < 2 ^ 32"
  shows "response_callbacks mem (status_events (dec_string n) reason) rp =
     Inr (rp\<lparr>rp_data := (rp_data rp)\<lparr>r_version := v, r_status := to_int (int n), r_reason := reason\<rparr>\<rparr>)"
proof -
  have "on_response_version mem 0 8 rp = Inr (rp\<lparr>rp_data := (rp_data rp)\<lparr>r_version := v\<rparr>\<rparr>)" for rp
    using assms(1,3)
    by (auto simp: on_response_version_def http_1_1_def http_1_0_def version_digit_def status_text_def numeral_eq_Suc)
  moreover have "drop 9 mem = dec_string n @ CHR '' '' # (reason @ CRLF @ ys)" by (simp add: assms(1) status_text_def)
  then have "strtol 10 (drop 9 mem) = int n"
    using strtol_dec [of "CHR '' ''" n "reason @ CRLF @ ys"] assms(4) by (simp add: is_digit_def digit_code_def)
  moreover have "mem_string mem (10 + length (dec_string n)) (unat (of_nat (length reason) :: u64)) = Inr reason"
    by (rule mem_part [OF _ assms(2), where xs = "''HTTP/1.'' @ [version_digit v] @ '' '' @ dec_string n @ '' ''" and ys = "CRLF @ ys"])
      (simp_all add: assms(1) status_text_def)
  ultimately show ?thesis
    by (simp add: status_events_def on_response_status_def on_response_reason_def)
qed

subsection \<open>A complete response\<close>

definition response_fields :: "http_response \<Rightarrow> header_map" where
  "response_fields r = plain_fields (r_headers r) @ connection_field (r_close r) # length_field (r_body r)"

definition response_reason :: "http_response \<Rightarrow> string" where
  "response_reason r = (if r_reason r = [] then HttpStatusToString (r_status r) else r_reason r)"

lemma own_cfields_well: "cfield_well (connection_field close)" "list_all cfield_well (length_field body)"
proof -
  have "cfield_well (''connection'', ''close'')" "cfield_well (''connection'', ''keep-alive'')" by code_simp+
  then show "cfield_well (connection_field close)" by (simp add: connection_field_def)
  have k: "list_all (\<lambda>c. name_code (schar c)) ''content-length''" by code_simp
  have d: "c \<in> set (dec_string n) \<Longrightarrow> schar c \<noteq> 10 \<and> schar c \<noteq> 13 \<and> \<not> blank_code (schar c)" for c n
    using dec_string_chars [of c n] by (auto simp: schar_digit blank_code_def)
  have "\<not> blank_code (schar (hd (dec_string n)))" for n using d [of "hd (dec_string n)" n] by simp
  then show "list_all cfield_well (length_field body)"
    using k d by (auto simp: length_field_def cfield_well_def list_all_iff)
qed

lemma status_reasons: "list_all (\<lambda>(_, s). reason_well s) HTTP_STATUS_MAP" "reason_well ''<unknown>''"
  by code_simp+

lemma status_reason_well: "reason_well (HttpStatusToString st)"
proof -
  have "find P xs = Some x \<Longrightarrow> x \<in> set xs" for P x and xs :: "(int \<times> string) list"
    by (induction xs) (auto split: if_splits)
  then show ?thesis
    using status_reasons by (fastforce simp: HttpStatusToString_def list_all_iff split: option.splits)
qed

lemma response_dump_parts:
  assumes "r_version r = 0x11 \<or> r_version r = 0x10"
  shows "response_dump r =
     status_text (version_digit (r_version r)) (dec_string (unat (word_of_int (r_status r) :: u32))) (response_reason r) @
     field_lines (response_fields r) @ CRLF @ r_body r"
  using assms
  by (auto simp: response_dump_def status_text_def response_reason_def response_fields_def field_lines_def header_lines_fields
      version_digit_def version_texts connection_field_def length_field_def field_line_def)

lemma cinit_reset:
  "creset (httpclient_parser_init raw) = httpclient_parser_init raw" "cp_cs (httpclient_parser_init raw) = 1"
  "cp_body_start (httpclient_parser_init raw) = 0"
  by (cases raw, simp_all add: creset_def httpclient_parser_init_def httpclient_parser_start_def)

text \<open>The parser on the head of a response: the machine's calls and what the callbacks make of them.\<close>

lemma response_head_parsed:
  assumes v: "v = 0x11 \<or> v = 0x10" and "n < 2 ^ 32" and "reason_well reason" and "list_all cfield_well kvs"
    and msg: "msg = status_text (version_digit v) (dec_string n) reason @ field_lines kvs @ CRLF @ body" and "length msg < 2 ^ 31"
  shows "\<exists>rp. response_execute (new_HttpResponseParser raw) (msg @ [CHR 0x00]) (length msg) =
      Inr (int (length msg - length body), rp, shift_left (msg @ [CHR 0x00]) (length msg) (length msg - length body)) \<and>
    rp_error rp = 0 \<and> cp_cs (rp_parser rp) \<in> {120, 121, 122, 123} \<and>
    (\<exists>cs m h es. cexec_loop (msg @ [CHR 0x00]) (length msg) 1 0 msg (httpclient_parser_init raw, []) = (cs, m, h, es) \<and>
       rp_parser rp = h\<lparr>cp_cs := cs, cp_nread := m\<rparr>) \<and>
    ((kvs = [] \<or> snd (last kvs) \<noteq> []) \<longrightarrow> cp_cs (rp_parser rp) = 120) \<and>
    rp_data rp = (new_HttpResponse 0x11 True)\<lparr>r_version := v, r_status := to_int (int n), r_reason := reason,
      r_headers := set_headers kvs []\<rparr>"
proof -
  let ?mem = "msg @ [CHR 0x00]" and ?len = "length msg" and ?p = "httpclient_parser_init raw"
  let ?head = "status_text (version_digit v) (dec_string n) reason"
  define m where "m = length ?head + length (field_lines kvs) + 2"
  have m: "m = ?len - length body" by (simp add: m_def msg CRLF_def)
  have d: "version_digit v = CHR ''0'' \<or> version_digit v = CHR ''1''" by (simp add: version_digit_def)
  obtain cs h where cs: "cs \<in> {120, 121, 122, 123}" "(kvs = [] \<or> snd (last kvs) \<noteq> []) \<longrightarrow> cs = 120"
    and run: "cexec_loop ?mem ?len 1 0 msg (?p, []) =
      (cs, m, h, status_events (dec_string n) reason @ cfield_events (length ?head) kvs @ [COnHeaderDone m (of_nat (?len - m))])"
    using run_head [OF d dec_string_not_Nil(1) digit_class_dec [of n] assms(3,4), of ?mem ?len body ?p] unfolding msg [symmetric] m_def by metis
  have "0 < ?len" by (simp add: msg CRLF_def)
  then have ex: "httpclient_parser_execute ?p ?mem ?len 0 = Inr (int m, h\<lparr>cp_cs := cs, cp_nread := m\<rparr>,
      status_events (dec_string n) reason @ cfield_events (length ?head) kvs @ [COnHeaderDone m (of_nat (?len - m))])"
    using httpclient_execute_run [where len = ?len and buffer = ?mem and parser = ?p] run assms(6) by (simp add: cinit_reset nth_append)
  have mem: "?mem = ?head @ field_lines kvs @ (CRLF @ body @ [CHR 0x00])" "length ?mem < 2 ^ 63"
    using assms(6) by (simp_all add: msg)
  have cb: "response_callbacks ?mem (status_events (dec_string n) reason @ cfield_events (length ?head) kvs @
      [COnHeaderDone m (of_nat (?len - m))]) rp =
    Inr (rp\<lparr>rp_data := (rp_data rp)\<lparr>r_version := v, r_status := to_int (int n), r_reason := reason,
      r_headers := set_headers kvs (r_headers (rp_data rp))\<rparr>\<rparr>)" for rp
    unfolding response_callbacks_append callbacks_status [OF mem v assms(2)] err_bind_Inr callbacks_cfields [OF assms(4) mem]
    by (simp add: on_response_header_done_def)
  show ?thesis
    using ex cb cs run by (simp add: response_execute_def new_HttpResponseParser_def new_HttpResponse_def m)
qed

subsection \<open>What the machine learns of the body\<close>

lemma close_kept:
  assumes "cp_close (fst st)" and "p + length rest = pe"
  shows "case cexec_loop buf pe cs p rest st of (_, _, st') \<Rightarrow> cp_close (fst st')"
proof -
  have act: "cp_close (fst st) \<Longrightarrow> cp_close (fst (do_caction buf p pe st a))" for p st a
    by (cases st; cases a) (simp_all add: Let_def)
  have acts: "cp_close (fst st) \<Longrightarrow> cp_close (fst (do_cactions buf p pe as st))" for p st as
    unfolding do_cactions_def by (induction as arbitrary: st) (simp_all add: act)
  have "case cexec_loop buf pe cs p rest st of (_, p', st') \<Rightarrow> p \<le> p' \<and> p' \<le> pe \<and> cp_close (fst st')"
    by (rule cli.loop_invariant [where I = "\<lambda>_ _ st. cp_close (fst st)", OF _ _ assms]) (simp_all add: acts)
  then show ?thesis by (auto split: prod.splits)
qed

lemma walk_close:
  "list_all (\<lambda>cs. map_option snd (walk cs (field_line (''connection'', ''close'') @ CRLF)) = Some 43) line_states"
  by (simp add: line_states_def field_line_def CRLF_def cdelta_words)

lemma run_close:
  assumes "cs \<in> set line_states" and "rest \<noteq> []" and "hd rest \<in> {CHR 0x0D, CHR ''c''}"
    and "p + length (field_line (connection_field True) @ CRLF @ rest) = pe"
  shows "case cexec_loop buf pe cs p (field_line (connection_field True) @ CRLF @ rest) st of (_, _, st') \<Rightarrow> cp_close (fst st')"
proof -
  let ?w = "field_line (connection_field True) @ CRLF"
  have "map_option snd (walk cs ?w) = Some 43" using walk_close assms(1) by (auto simp: list_all_iff connection_field_def)
  then obtain as where "walk cs ?w = Some (as, 43)" by auto
  then have w: "cexec_loop buf pe cs p (?w @ rest) st = cexec_loop buf pe 43 (p + length ?w) rest (walk_acts buf pe p as st)"
    by (rule walk_run)
  obtain c rest' where rest: "rest = c # rest'" "c \<in> set [CHR 0x0D, CHR ''c'']" using assms(2,3) by (cases rest) auto
  have "cdelta 43 CHR 0x0D = Some ([CWriteConnectionClose], 3)" "cdelta 43 CHR ''c'' = Some ([CWriteConnectionClose, CStartField], 25)"
    using cdelta_words by simp_all
  then obtain cs' acts where c: "cdelta 43 c = Some (acts, cs')" "acts = [CWriteConnectionClose] \<or> acts = [CWriteConnectionClose, CStartField]"
    using rest(2) by auto
  obtain h es where st: "walk_acts buf pe p as st = (h, es)" by (cases "walk_acts buf pe p as st")
  have "cexec_loop buf pe 43 (p + length ?w) rest (h, es) =
      cexec_loop buf pe cs' (p + length ?w + 1) rest' (do_cactions buf (p + length ?w) pe acts (h, es))"
    using c rest by (auto simp: cexec_loop.simps(2))
  moreover have "cp_close (fst (do_cactions buf (p + length ?w) pe acts (h, es)))" using c(2) by (auto simp: do_cactions_def)
  ultimately show ?thesis
    using close_kept [of "do_cactions buf (p + length ?w) pe acts (h, es)" "p + length ?w + 1" rest' pe buf cs'] assms(4) w rest(1)
    by (simp add: st)
qed

lemma walk_length: "list_all (\<lambda>cs. map_option snd (walk cs ''content-length: '') = Some 112) line_main"
  by (simp add: line_main_def cdelta_words)

lemma length_steps: "group_step [112] digit_class [[CStartValue]] [119]" "group_step [119] digit_class [[]] [119]"
  by code_simp+

lemma run_length:
  assumes "cs \<in> set line_main" and "n < 2 ^ 31" and buf: "drop (p + 16) buf = dec_string n @ CRLF @ rest'"
  shows "case cexec_loop buf pe cs p (''content-length: '' @ dec_string n @ CRLF @ CRLF @ rest) st of (_, _, st') \<Rightarrow>
    cp_content_len (fst st') = int n"
proof -
  have "map_option snd (walk cs ''content-length: '') = Some 112" using walk_length assms(1) by (auto simp: list_all_iff)
  then obtain as where as: "walk cs ''content-length: '' = Some (as, 112)" by auto
  have w: "cexec_loop buf pe cs p (''content-length: '' @ dec_string n @ CRLF @ CRLF @ rest) st =
      cexec_loop buf pe 112 (p + 16) (dec_string n @ CRLF @ CRLF @ rest) (walk_acts buf pe p as st)"
    using walk_run [OF as, of buf pe p "dec_string n @ CRLF @ CRLF @ rest" st] by (simp add: numeral_eq_Suc)
  obtain d ds where d: "dec_string n = d # ds" by (cases "dec_string n") auto
  have ds: "c \<in> set (dec_string n) \<Longrightarrow> in_class digit_class c" for c using digit_class_dec by (auto simp: list_all_iff)
  obtain h es where st: "walk_acts buf pe p as st = (h, es)" by (cases "walk_acts buf pe p as st")
  have "cdelta 112 d = Some ([CStartValue], 119)" using group_stepD [OF length_steps(1), of 112 d] ds [of d] d by auto
  then have "\<exists>cs' \<in> {119}. cexec_loop buf pe 112 (p + 16) ((d # ds) @ CRLF @ CRLF @ rest) (h, es) =
      cexec_loop buf pe cs' (p + 16 + 1 + length ds) (CRLF @ CRLF @ rest) (do_cactions buf (p + 16) pe [CStartValue] (h, es))"
    by (rule cli.loop_token [where P = "in_class digit_class"])
      (use group_stepD [OF length_steps(2)] ds d in auto)
  moreover have "to_int (strtol 10 (drop (p + 16) buf)) = int n"
    using strtol_dec [of "CHR 0x0D" n "CHR 0x0A # rest'"] to_int_small [of "int n"] assms(2)
    unfolding buf CRLF_def by (simp add: is_digit_def digit_code_def)
  ultimately show ?thesis
    using w by (simp add: d st CRLF_def cexec_loop.simps(2) cdelta_words do_cactions_def)
qed

lemma run_to_line:
  fixes n :: nat
  assumes "v = 0x11 \<or> v = 0x10" and "reason_well reason" and "list_all cfield_well kvs"
  defines "head \<equiv> status_text (version_digit v) (dec_string n) reason"
  obtains cs h es where "cs \<in> set line_states" "kvs \<noteq> [] \<Longrightarrow> snd (last kvs) \<noteq> [] \<Longrightarrow> cs \<in> set line_main"
    "cexec_loop buf pe 1 0 (head @ field_lines kvs @ rest) (h0, []) =
       cexec_loop buf pe cs (length head + length (field_lines kvs)) rest (h, es)"
proof -
  have d: "version_digit v = CHR ''0'' \<or> version_digit v = CHR ''1''" by (simp add: version_digit_def)
  obtain h1 where 1: "cexec_loop buf pe 1 0 (head @ field_lines kvs @ rest) (h0, []) =
      cexec_loop buf pe 20 (length head) (field_lines kvs @ rest) (h1, status_events (dec_string n) reason)"
    using run_status [OF d dec_string_not_Nil(1) digit_class_dec assms(2)] unfolding head_def by blast
  have "20 \<in> set line_states" by (simp add: line_states_def)
  then obtain cs h es where "cs \<in> set line_states" "(if kvs = [] then 20 \<in> set line_main else snd (last kvs) \<noteq> []) \<longrightarrow> cs \<in> set line_main"
    "cexec_loop buf pe 20 (length head) (field_lines kvs @ rest) (h1, status_events (dec_string n) reason) =
       cexec_loop buf pe cs (length head + length (field_lines kvs)) rest (h, es)"
    using run_cfields [OF _ assms(3), of 20 buf pe "length head" rest h1 "status_events (dec_string n) reason"] by blast
  then show thesis using that 1 by simp
qed

lemma response_framing:
  assumes v: "r_version r = 0x11 \<or> r_version r = 0x10" and "reason_well (response_reason r)"
    and plain: "list_all cfield_well (plain_fields (r_headers r))" and "length (response_dump r) < 2 ^ 31"
    and run: "cexec_loop (response_dump r @ [CHR 0x00]) (length (response_dump r)) 1 0 (response_dump r) (h0, []) = (cs, m, h, es)"
  shows "r_close r \<Longrightarrow> cp_close h" "r_body r \<noteq> [] \<Longrightarrow> cp_content_len h = int (length (r_body r))"
proof -
  let ?buf = "response_dump r @ [CHR 0x00]" and ?pe = "length (response_dump r)"
  let ?n = "unat (word_of_int (r_status r) :: u32)"
  let ?head = "status_text (version_digit (r_version r)) (dec_string ?n) (response_reason r)"
  let ?tail = "(if r_body r = [] then [] else ''content-length: '' @ dec_string (length (r_body r)) @ CRLF) @ CRLF @ r_body r"
  let ?con = "field_line (connection_field (r_close r)) @ CRLF"
  have dump: "response_dump r = ?head @ field_lines (plain_fields (r_headers r)) @ ?con @ ?tail"
    using response_dump_parts [OF v] by (simp add: response_fields_def field_lines_def length_field_def field_line_def)
  show "cp_close h" if "r_close r"
  proof -
    obtain cs1 h1 es1 where 1: "cs1 \<in> set line_states"
      "cexec_loop ?buf ?pe 1 0 (?head @ field_lines (plain_fields (r_headers r)) @ ?con @ ?tail) (h0, []) =
         cexec_loop ?buf ?pe cs1 (length ?head + length (field_lines (plain_fields (r_headers r)))) (?con @ ?tail) (h1, es1)"
      using run_to_line [OF v assms(2) plain] by blast
    have "?tail \<noteq> []" "hd ?tail \<in> {CHR 0x0D, CHR ''c''}" by (simp_all add: CRLF_def)
    then show ?thesis
      using run_close [OF 1(1), of ?tail "length ?head + length (field_lines (plain_fields (r_headers r)))" ?pe ?buf "(h1, es1)"]
        1(2) run that unfolding dump [symmetric] by (simp add: dump)
  qed
  show "cp_content_len h = int (length (r_body r))" if body: "r_body r \<noteq> []"
  proof -
    let ?kvs = "plain_fields (r_headers r) @ [connection_field (r_close r)]"
    have kvs: "list_all cfield_well ?kvs" "?kvs \<noteq> []" "snd (last ?kvs) \<noteq> []"
      using plain own_cfields_well(1) by (simp_all add: connection_field_def)
    obtain cs1 h1 es1 where 1: "cs1 \<in> set line_main"
      "cexec_loop ?buf ?pe 1 0 (?head @ field_lines ?kvs @ ?tail) (h0, []) =
         cexec_loop ?buf ?pe cs1 (length ?head + length (field_lines ?kvs)) ?tail (h1, es1)"
      using run_to_line [OF v assms(2) kvs(1)] kvs(2,3) by blast
    have d: "response_dump r = ?head @ field_lines ?kvs @ ?tail" by (simp add: dump field_lines_def)
    have "length (r_body r) < 2 ^ 31" using assms(4) unfolding d by simp
    moreover have "drop (length ?head + length (field_lines ?kvs) + 16) ?buf =
        dec_string (length (r_body r)) @ CRLF @ (CRLF @ r_body r @ [CHR 0x00])"
      using body unfolding d by simp
    ultimately have "case cexec_loop ?buf ?pe cs1 (length ?head + length (field_lines ?kvs))
        (''content-length: '' @ dec_string (length (r_body r)) @ CRLF @ CRLF @ r_body r) (h1, es1) of (_, _, st') \<Rightarrow>
        cp_content_len (fst st') = int (length (r_body r))"
      by (intro run_length [OF 1(1)])
    moreover have "cexec_loop ?buf ?pe cs1 (length ?head + length (field_lines ?kvs))
        (''content-length: '' @ dec_string (length (r_body r)) @ CRLF @ CRLF @ r_body r) (h1, es1) = (cs, m, h, es)"
      using 1(2) run body unfolding d [symmetric] by simp
    ultimately show ?thesis by (simp only: prod.case fst_conv)
  qed
qed

subsection \<open>Chunk headers\<close>

definition hex_class :: "(int \<times> int) list" where "hex_class = [(48, 57), (97, 102)]"

lemma chunk_steps: "group_step [1] hex_class [[CMark]] [2]" "group_step [2] hex_class [[]] [2]"
  "group_step [2] [(13, 13)] [[CChunkSize]] [3]"
  by code_simp+

lemma hex_class_digits: "c \<in> set (hex_string n) \<Longrightarrow> in_class hex_class c"
proof -
  assume "c \<in> set (hex_string n)"
  then obtain k where k: "k < 16" "c = digit k" using base_string_chars [of c 16 n] by (auto simp: hex_string_def)
  have "(of_char c :: int) = int (of_char c :: nat)" using of_nat_of_char [of c, where 'a = int] by (rule sym)
  also have "\<dots> = (if k < 10 then 48 + int k else 87 + int k)" using of_char_digit [OF k(1)] k(2) by simp
  finally show "in_class hex_class c" using k(1) by (auto simp: in_class_def hex_class_def schar_def)
qed

lemma run_chunk:
  assumes buf: "buf = hex_string n @ CRLF @ rest" and "n < 2 ^ 63"
  defines "len \<equiv> length (hex_string n)"
  defines "e \<equiv> (if to_int (int n) \<le> 0 then COnLastChunk else COnChunk)"
  shows "cexec_loop buf pe 1 0 (hex_string n @ CRLF @ xs) (h, []) =
    (120, len + 2, h\<lparr>cp_mark := 0, cp_chunked := True, cp_content_len := to_int (int n), cp_chunks_done := (to_int (int n) \<le> 0),
       cp_body_start := len + 2\<rparr>, [e 0 (of_nat len), COnHeaderDone (len + 2) (of_nat (pe - len - 2))])"
proof -
  obtain d ds where d: "hex_string n = d # ds" by (cases "hex_string n") auto
  have cls: "in_class hex_class d" "\<forall>c \<in> set ds. in_class hex_class c" using hex_class_digits [of _ n] d by auto
  have "cdelta 1 d = Some ([CMark], 2)" using group_stepD [OF chunk_steps(1), of 1 d] cls by auto
  then have "\<exists>cs' \<in> {2}. cexec_loop buf pe 1 0 ((d # ds) @ CRLF @ xs) (h, []) =
      cexec_loop buf pe cs' (0 + 1 + length ds) (CRLF @ xs) (do_cactions buf 0 pe [CMark] (h, []))"
    by (rule cli.loop_token [where P = "in_class hex_class"]) (use group_stepD [OF chunk_steps(2)] cls in auto)
  then have 1: "cexec_loop buf pe 1 0 (hex_string n @ CRLF @ xs) (h, []) = cexec_loop buf pe 2 len (CRLF @ xs) (h\<lparr>cp_mark := 0\<rparr>, [])"
    by (simp add: d len_def do_cactions_def)
  have "strtol 16 buf = int n"
    using strtol_base [of 16 "CHR 0x0D" n "CHR 0x0A # rest"] assms(2)
    by (simp add: buf hex_string_def CRLF_def is_digit_def digit_code_def)
  moreover have "cdelta 2 CHR 0x0D = Some ([CChunkSize], 3)" "cdelta 3 CHR 0x0A = Some ([CDone], 120)"
    using group_stepD [OF chunk_steps(3), of 2 "CHR 0x0D"] cdelta_words by (auto simp: in_class_single)
  ultimately show ?thesis
    unfolding 1 by (simp add: CRLF_def cexec_loop.simps(2) do_cactions_def LEN_def e_def Let_def del: of_nat_diff)
qed

subsection \<open>Properties\<close>

text \<open>C13. What a response writes, the response parser reads back: given the text in memory with a terminator
  after it, one call consumes exactly the head and moves the body to the front; the parser is finished
  without an error, and its response has the version, the status (also one without a name), the reason
  and every header of the text. The machine itself has learned that the connection is to be closed,
  and the length of the body.\<close>

theorem response_parse_roundtrip:
  assumes "r_version r = 0x11 \<or> r_version r = 0x10" and "- (2 ^ 31) \<le> r_status r" and "r_status r < 2 ^ 31"
    and "r_reason r = [] \<or> reason_well (r_reason r)" and "list_all cfield_well (plain_fields (r_headers r))"
    and "length (response_dump r) < 2 ^ 31"
  shows "\<exists>rp mem. response_execute (new_HttpResponseParser raw) (response_dump r @ [CHR 0x00]) (length (response_dump r)) =
       Inr (int (length (response_dump r) - length (r_body r)), rp, mem) \<and>
     take (length (r_body r)) mem = r_body r \<and> response_isFinished rp \<and> \<not> response_hasError rp \<and>
     rp_data rp = \<lparr>r_status = r_status r, r_version = r_version r, r_close = True, r_body = [],
       r_reason = (if r_reason r = [] then HttpStatusToString (r_status r) else r_reason r),
       r_headers = set_headers (plain_fields (r_headers r) @ connection_field (r_close r) # length_field (r_body r)) []\<rparr> \<and>
     (r_close r \<longrightarrow> cp_close (rp_parser rp)) \<and> (r_body r \<noteq> [] \<longrightarrow> cp_content_len (rp_parser rp) = int (length (r_body r)))"
proof -
  let ?n = "unat (word_of_int (r_status r) :: u32)" and ?msg = "response_dump r" and ?fs = "response_fields r"
  have reason: "reason_well (response_reason r)" using assms(4) status_reason_well by (auto simp: response_reason_def)
  have fields: "list_all cfield_well ?fs" "snd (last ?fs) \<noteq> []"
    using assms(5) own_cfields_well by (simp_all add: response_fields_def connection_field_def length_field_def)
  have n: "?n < 2 ^ 32" using unsigned_less [of "word_of_int (r_status r) :: u32", where 'a = nat] by simp
  have status: "to_int (int ?n) = r_status r" using to_int_u32 [of "r_status r"] to_int_small assms(2,3) by simp
  obtain rp where rp: "response_execute (new_HttpResponseParser raw) (?msg @ [CHR 0x00]) (length ?msg) =
      Inr (int (length ?msg - length (r_body r)), rp, shift_left (?msg @ [CHR 0x00]) (length ?msg) (length ?msg - length (r_body r)))"
    "rp_error rp = 0" "cp_cs (rp_parser rp) = 120"
    "rp_data rp = (new_HttpResponse 0x11 True)\<lparr>r_version := r_version r, r_status := r_status r, r_reason := response_reason r,
      r_headers := set_headers ?fs []\<rparr>"
    and run: "\<exists>cs m h es. cexec_loop (?msg @ [CHR 0x00]) (length ?msg) 1 0 ?msg (httpclient_parser_init raw, []) = (cs, m, h, es) \<and>
       rp_parser rp = h\<lparr>cp_cs := cs, cp_nread := m\<rparr>"
    using response_head_parsed [OF assms(1) n reason fields(1) response_dump_parts [OF assms(1)] assms(6), of raw] fields(2) status
    by auto
  have frame: "r_close r \<Longrightarrow> cp_close (rp_parser rp)" "r_body r \<noteq> [] \<Longrightarrow> cp_content_len (rp_parser rp) = int (length (r_body r))"
    using run response_framing [OF assms(1) reason assms(5,6)] by auto
  have "drop (length ?msg - length (r_body r)) ?msg = r_body r"
    using response_dump_parts [OF assms(1)] by simp
  then have "take (length (r_body r)) (shift_left (?msg @ [CHR 0x00]) (length ?msg) (length ?msg - length (r_body r))) = r_body r"
    using response_dump_parts [OF assms(1)] by (simp add: shift_left_def memcpy_at_def)
  then show ?thesis
    using rp frame
    by (auto simp: response_isFinished_def response_hasError_def httpclient_parser_is_finished_def httpclient_parser_has_error_def
        httpclient_parser_first_final_def httpclient_parser_error_def new_HttpResponse_def response_reason_def response_fields_def)
qed

definition blank_client :: httpclient_parser where
  "blank_client = \<lparr>cp_cs = 0, cp_body_start = 0, cp_content_len = 0, cp_status = 0, cp_chunked = False, cp_chunks_done = False,
     cp_close = False, cp_nread = 0, cp_mark = 0, cp_field_start = 0, cp_field_len = 0\<rparr>"

definition hello_response :: http_response where
  "hello_response = (new_HttpResponse 0x11 False)\<lparr>r_status := 404, r_body := ''Hello'', r_headers := [(''server'', ''cxs'')]\<rparr>"

lemma hello_response_ok:
  "length (response_dump hello_response) = 87" "list_all cfield_well (plain_fields (r_headers hello_response))"
  "HttpStatusToString 404 = ''Not Found''"
  by code_simp+

theorem response_parse_roundtrip_witness:
  "\<exists>rp mem. response_execute (new_HttpResponseParser blank_client) (response_dump hello_response @ [CHR 0x00]) 87 = Inr (82, rp, mem) \<and>
     take (length ''Hello'') mem = ''Hello'' \<and> response_isFinished rp \<and> r_status (rp_data rp) = 404 \<and> r_reason (rp_data rp) = ''Not Found'' \<and>
     cp_content_len (rp_parser rp) = 5"
  using response_parse_roundtrip [of hello_response blank_client] hello_response_ok
  by (auto simp: hello_response_def new_HttpResponse_def)

lemma walk_empty_header:
  "list_all (\<lambda>k. list_all (\<lambda>cs. map_option snd (walk cs (field_line (k, []) @ CRLF @ [CHR 0x0D])) \<in> Some ` {72, 89, 116}) line_states)
     [''connection'', ''content-length'', ''transfer-encoding'']"
  by (simp add: line_states_def field_line_def CRLF_def cdelta_words)

lemma special_fields_well: "list_all (\<lambda>k. cfield_well (k, [])) [''connection'', ''content-length'', ''transfer-encoding'']"
  by code_simp

text \<open>C28. A chunk header is read as its size: a call that starts anew on the hexadecimal digits of a number and
  a line end consumes them, is finished, and reports a chunk of that size, the last one for zero. The
  size is kept in 32 bits, so a size whose low 32 bits are zero or have the top bit set is reported
  as the last chunk too.\<close>

theorem chunk_header_parsed:
  assumes "n < 2 ^ 63" and "length (hex_string n @ CRLF @ xs) < 2 ^ 31"
  shows "\<exists>h. httpclient_parser_execute (httpclient_parser_init raw) (hex_string n @ CRLF @ xs @ [CHR 0x00]) (length (hex_string n @ CRLF @ xs)) 0 =
      Inr (int (length (hex_string n)) + 2, h,
        [if to_int (int n) \<le> 0 then COnLastChunk 0 (of_nat (length (hex_string n))) else COnChunk 0 (of_nat (length (hex_string n))),
         COnHeaderDone (length (hex_string n) + 2) (of_nat (length xs))]) \<and>
    httpclient_parser_is_finished h \<and> cp_chunked h \<and> cp_content_len h = to_int (int n) \<and> cp_chunks_done h = (to_int (int n) \<le> 0) \<and>
    (n < 2 ^ 31 \<longrightarrow> cp_content_len h = int n \<and> cp_chunks_done h = (n = 0))"
proof -
  let ?buf = "hex_string n @ CRLF @ xs @ [CHR 0x00]" and ?len = "length (hex_string n @ CRLF @ xs)" and ?p = "httpclient_parser_init raw"
  have t: "take ?len ?buf = hex_string n @ CRLF @ xs" "?buf ! ?len = CHR 0x00" by (simp_all add: nth_append)
  have run: "cexec_loop ?buf ?len (cp_cs ?p) 0 (take ?len ?buf) (creset ?p, []) =
    (120, length (hex_string n) + 2, ?p\<lparr>cp_mark := 0, cp_chunked := True, cp_content_len := to_int (int n), cp_chunks_done := (to_int (int n) \<le> 0),
       cp_body_start := length (hex_string n) + 2\<rparr>,
     [if to_int (int n) \<le> 0 then COnLastChunk 0 (of_nat (length (hex_string n))) else COnChunk 0 (of_nat (length (hex_string n))),
      COnHeaderDone (length (hex_string n) + 2) (of_nat (?len - length (hex_string n) - 2))])"
    unfolding t cinit_reset by (subst run_chunk [OF refl assms(1)]) (simp add: CRLF_def)
  have "0 < ?len" by (simp add: CRLF_def)
  note ex = httpclient_execute_run [OF this assms(2) _ t(2) _ run]
  have "n < 2 ^ 31 \<Longrightarrow> to_int (int n) = int n" by (simp add: to_int_small)
  then show ?thesis
    using ex by (auto simp: cinit_reset CRLF_def httpclient_parser_is_finished_def httpclient_parser_first_final_def)
qed

theorem chunk_header_parsed_witness:
  "\<exists>h es. httpclient_parser_execute (httpclient_parser_init blank_client) (hex_string 26 @ CRLF @ ''abc'' @ [CHR 0x00])
     (length (hex_string 26 @ CRLF @ ''abc'')) 0 = Inr (4, h, es) \<and> cp_content_len h = 26 \<and> \<not> cp_chunks_done h"
proof -
  have "length (hex_string 26) = 2" by code_simp
  then show ?thesis using chunk_header_parsed [of 26 "''abc''" blank_client] by (auto simp: CRLF_def)
qed

text \<open>The response parser never reports the end of a head whose last header is a \<^verbatim>\<open>connection\<close>, \<^verbatim>\<open>content-length\<close> or
  \<^verbatim>\<open>transfer-encoding\<close> without a value: the call consumes the whole head without an error and the response is
  complete, but the machine stands in another of its final states than the one \<^verbatim>\<open>isFinished\<close> asks for.\<close>

theorem empty_last_header_unfinished:
  assumes "v = 0x11 \<or> v = 0x10" and "n < 2 ^ 32" and "reason_well reason" and "list_all cfield_well kvs"
    and k: "k \<in> set [''connection'', ''content-length'', ''transfer-encoding'']"
    and msg: "msg = status_text (version_digit v) (dec_string n) reason @ field_lines (kvs @ [(k, [])]) @ CRLF @ body" and "length msg < 2 ^ 31"
  shows "\<exists>rp mem. response_execute (new_HttpResponseParser raw) (msg @ [CHR 0x00]) (length msg) = Inr (int (length msg - length body), rp, mem) \<and>
     \<not> response_hasError rp \<and> r_headers (rp_data rp) = set_headers (kvs @ [(k, [])]) [] \<and> \<not> response_isFinished rp"
proof -
  let ?head = "status_text (version_digit v) (dec_string n) reason" and ?w = "field_line (k, []) @ CRLF @ [CHR 0x0D]"
  let ?buf = "msg @ [CHR 0x00]" and ?pe = "length msg"
  have "list_all cfield_well (kvs @ [(k, [])])" using assms(4) special_fields_well k unfolding list_all_iff by auto
  then obtain rp where rp: "response_execute (new_HttpResponseParser raw) ?buf ?pe = Inr (int (?pe - length body), rp, shift_left ?buf ?pe (?pe - length body))"
    "rp_error rp = 0" "cp_cs (rp_parser rp) \<in> {120, 121, 122, 123}" "r_headers (rp_data rp) = set_headers (kvs @ [(k, [])]) []"
    and run: "\<exists>cs m h es. cexec_loop ?buf ?pe 1 0 msg (httpclient_parser_init raw, []) = (cs, m, h, es) \<and> rp_parser rp = h\<lparr>cp_cs := cs, cp_nread := m\<rparr>"
    using response_head_parsed [OF assms(1-3) _ msg assms(7), of raw] by auto
  have msg': "msg = ?head @ field_lines kvs @ ?w @ CHR 0x0A # body" by (simp add: msg field_lines_def CRLF_def)
  obtain cs h es where cs: "cs \<in> set line_states" and
    1: "cexec_loop ?buf ?pe 1 0 (?head @ field_lines kvs @ ?w @ CHR 0x0A # body) (httpclient_parser_init raw, []) =
      cexec_loop ?buf ?pe cs (length ?head + length (field_lines kvs)) (?w @ CHR 0x0A # body) (h, es)"
    using run_to_line [OF assms(1,3,4)] by blast
  have "map_option snd (walk cs ?w) \<in> Some ` {72, 89, 116}" using walk_empty_header k cs unfolding list_all_iff by blast
  then obtain as cs1 where "walk cs ?w = Some (as, cs1)" and cs1: "cs1 \<in> {72, 89, 116}" by auto
  note w = walk_run [OF this(1)]
  have "\<exists>cs2 \<in> {121, 122, 123}. cdelta cs1 CHR 0x0A = Some ([CDone], cs2)" using cs1 cdelta_words by auto
  then have "\<exists>cs2 \<in> {121, 122, 123}. fst (cexec_loop ?buf ?pe cs1 p (CHR 0x0A # body) st) = cs2" for p st
    by (auto simp: cexec_loop.simps(2))
  then have "fst (cexec_loop ?buf ?pe 1 0 msg (httpclient_parser_init raw, [])) \<in> {121, 122, 123}"
    unfolding 1 [folded msg'] w by blast
  then have "cp_cs (rp_parser rp) \<in> {121, 122, 123}" using run by auto
  then show ?thesis
    using rp
    by (auto simp: response_isFinished_def response_hasError_def httpclient_parser_is_finished_def httpclient_parser_has_error_def
        httpclient_parser_first_final_def httpclient_parser_error_def)
qed

theorem empty_last_header_unfinished_witness:
  "\<exists>rp mem. response_execute (new_HttpResponseParser blank_client)
      (''HTTP/1.1 200 OK'' @ CRLF @ ''content-length: '' @ CRLF @ CRLF @ [CHR 0x00])
      (length (''HTTP/1.1 200 OK'' @ CRLF @ ''content-length: '' @ CRLF @ CRLF)) = Inr (37, rp, mem) \<and> \<not> response_isFinished rp"
proof -
  have "reason_well ''OK''" "dec_string 200 = ''200''" "version_digit 0x11 = CHR ''1''" by code_simp+
  then show ?thesis
    using empty_last_header_unfinished [where v = "0x11" and n = 200 and reason = "''OK''" and kvs = "[]" and k = "''content-length''" and body = "[]"
      and raw = blank_client, OF _ _ _ _ _ refl]
    by (auto simp: status_text_def field_lines_def field_line_def CRLF_def)
qed

text \<open>C27. Two inputs make the response parser read outside its buffer. A call without any character fails
  the machine's check, and the result -1 makes the following move start before the buffer. And a
  \<^verbatim>\<open>content-length\<close> whose number stands on the next line is reported with a name of 14 characters that
  starts at that number: at the end of the received text the name reaches past the memory.\<close>

theorem response_parser_overreads:
  assumes "cp_body_start (rp_parser rp) = 0" and "v = 0x11 \<or> v = 0x10" and "n < 2 ^ 32" and "reason_well reason"
    and msg: "msg = status_text (version_digit v) (dec_string n) reason @ ''content-length:'' @ CRLF @ ''7'' @ [CHR 0x0D]" and "length msg < 2 ^ 31"
  shows "response_execute rp (CHR 0x00 # mem) 0 = Inl BadRange \<and>
         response_execute (new_HttpResponseParser raw) (msg @ [CHR 0x00]) (length msg) = Inl BadRange"
proof
  have "to_int 0 = 0" by (simp add: to_int_def)
  then show "response_execute rp (CHR 0x00 # mem) 0 = Inl BadRange"
    using assms(1) by (simp add: response_execute_def httpclient_parser_execute_def cp_assert_def)
next
  let ?head = "status_text (version_digit v) (dec_string n) reason" and ?w = "''content-length:'' @ CRLF @ ''7'' @ [CHR 0x0D]"
  let ?buf = "msg @ [CHR 0x00]" and ?pe = "length msg" and ?p = "httpclient_parser_init raw"
  define q where "q = length ?head"
  have d: "version_digit v = CHR ''0'' \<or> version_digit v = CHR ''1''" by (simp add: version_digit_def)
  obtain h where h: "cexec_loop ?buf ?pe 1 0 (?head @ ?w) (?p, []) = cexec_loop ?buf ?pe 20 q ?w (h, status_events (dec_string n) reason)"
    using run_status [OF d dec_string_not_Nil(1) digit_class_dec assms(4)] unfolding q_def by blast
  have "\<exists>cs p h' vl. cexec_loop ?buf ?pe 20 q ?w (h, es) = (cs, p, h', es @ [COnField q 14 (q + 15) 0, COnField (q + 17) 14 (q + 17) vl])" for es
    by (simp add: CRLF_def cexec_loop.simps(2) cdelta_words do_cactions_def LEN_def)
  then obtain cs p h' vl where run: "cexec_loop ?buf ?pe 1 0 msg (?p, []) =
      (cs, p, h', status_events (dec_string n) reason @ [COnField q 14 (q + 15) 0, COnField (q + 17) 14 (q + 17) vl])"
    using h unfolding msg [symmetric] by metis
  have "0 < ?pe" by (simp add: msg)
  then have ex: "httpclient_parser_execute ?p ?buf ?pe 0 = Inr (int p, h'\<lparr>cp_cs := cs, cp_nread := p\<rparr>,
      status_events (dec_string n) reason @ [COnField q 14 (q + 15) 0, COnField (q + 17) 14 (q + 17) vl])"
    using httpclient_execute_run [where len = ?pe and buffer = ?buf and parser = ?p] run assms(6) by (simp add: cinit_reset nth_append)
  have mem: "?buf = ?head @ (?w @ [CHR 0x00])" "length ?buf < 2 ^ 63" "length ?buf = q + 20"
    using assms(6) by (simp_all add: msg q_def CRLF_def)
  have "mem_string ?buf (q + 17) 14 = Inl BadRange" "\<exists>s. mem_string ?buf q 14 = Inr s" "\<exists>s. mem_string ?buf (q + 15) 0 = Inr s"
    using mem(3) by (simp_all add: mem_string_def)
  then show "response_execute (new_HttpResponseParser raw) ?buf ?pe = Inl BadRange"
    using ex callbacks_status [OF mem(1,2) assms(2,3)]
    by (auto simp: response_execute_def new_HttpResponseParser_def response_callbacks_append on_response_http_field_def)
qed

theorem response_parser_overreads_witness:
  "response_execute (new_HttpResponseParser blank_client) [CHR 0x00] 0 = Inl BadRange \<and>
   response_execute (new_HttpResponseParser blank_client)
     (''HTTP/1.1 200 OK'' @ CRLF @ ''content-length:'' @ CRLF @ ''7'' @ [CHR 0x0D] @ [CHR 0x00])
     (length (''HTTP/1.1 200 OK'' @ CRLF @ ''content-length:'' @ CRLF @ ''7'' @ [CHR 0x0D])) = Inl BadRange"
proof -
  have "reason_well ''OK''" "dec_string 200 = ''200''" "version_digit 0x11 = CHR ''1''" by code_simp+
  then show ?thesis
    using response_parser_overreads [where rp = "new_HttpResponseParser blank_client" and v = "0x11" and n = 200 and reason = "''OK''" and mem = "[]"
      and raw = blank_client, OF _ _ _ _ refl]
    by (simp add: status_text_def CRLF_def new_HttpResponseParser_def cinit_reset)
qed

end
