(* ===== verification/Log.thy ===== *)
theory Log
  imports StdMap Text
begin

text \<open>
  \<^verbatim>\<open>code/log.h\<close> and \<^verbatim>\<open>code/log.cc\<close>: levels, events and the formatter with its pattern. A level is an integer,
  since 100 is stored in the level of a logger too. What \<^verbatim>\<open>localtime_r\<close> and \<^verbatim>\<open>strftime\<close> print for a format and a
  time is an argument. The function \<^verbatim>\<open>init\<close> of the formatter is an outer loop over the pattern
  (\<open>init_loop\<close>) with an inner loop over one directive (\<open>fmt_scan\<close>); both end because the position grows.
\<close>

subsection \<open>Levels\<close>

definition UNKNOW :: int where "UNKNOW = 0"
definition DEBUG :: int where "DEBUG = 1"
definition INFO :: int where "INFO = 2"
definition WARN :: int where "WARN = 3"
definition ERROR :: int where "ERROR = 4"
definition FATAL :: int where "FATAL = 5"

definition LogLevelToString :: "int \<Rightarrow> string" where
  "LogLevelToString level =
     (if level = DEBUG then ''DEBUG'' else if level = INFO then ''INFO'' else if level = WARN then ''WARN''
      else if level = ERROR then ''ERROR'' else if level = FATAL then ''FATAL'' else ''UNKNOW'')"

definition fromsStringToLevel :: "string \<Rightarrow> int" where
  "fromsStringToLevel str =
     (if str = ''debug'' then DEBUG else if str = ''info'' then INFO else if str = ''warn'' then WARN
      else if str = ''error'' then ERROR else if str = ''fatal'' then FATAL
      else if str = ''DEBUG'' then DEBUG else if str = ''INFO'' then INFO else if str = ''WARN'' then WARN
      else if str = ''ERROR'' then ERROR else if str = ''FATAL'' then FATAL else UNKNOW)"

subsection \<open>Events and format items\<close>

record log_event =
  ev_file :: string
  ev_line :: u32
  ev_elapse :: u32
  ev_threadId :: u32
  ev_fiberId :: u32
  ev_time :: u32
  ev_content :: string
  ev_logger :: string
  ev_level :: int
  ev_threadName :: string

definition new_LogEvent :: "string \<Rightarrow> u32 \<Rightarrow> u32 \<Rightarrow> u32 \<Rightarrow> u32 \<Rightarrow> u32 \<Rightarrow> string \<Rightarrow> int \<Rightarrow> string \<Rightarrow> log_event" where
  "new_LogEvent filename line elapse threadId FiberId time logger level threadName =
     \<lparr>ev_file = filename, ev_line = line, ev_elapse = elapse, ev_threadId = threadId, ev_fiberId = FiberId, ev_time = time,
      ev_content = [], ev_logger = logger, ev_level = level, ev_threadName = threadName\<rparr>"

text \<open>Formatting into an event: the text \<^verbatim>\<open>vasprintf\<close> produces, if it succeeds, is appended to the content.\<close>

definition event_format :: "string option \<Rightarrow> log_event \<Rightarrow> log_event" where
  "event_format vasprintf e = (case vasprintf of Some s \<Rightarrow> e\<lparr>ev_content := ev_content e @ s\<rparr> | None \<Rightarrow> e)"

datatype format_item =
    MessageFormatItem
  | LevelFormatItem
  | ElapseFormatItem
  | NameFormatItem
  | ThreadIdFormatItem
  | FiberIdFormatItem
  | ThreadNameFormatItem
  | DateTimeFormatItem string
  | FilenameFormatItem
  | LineFormatItem
  | NewLineFormatItem
  | StringFormatItem string
  | TabFormatItem

definition new_DateTimeFormatItem :: "string \<Rightarrow> format_item" where
  "new_DateTimeFormatItem format = DateTimeFormatItem (if format = [] then ''%Y-%m-%d %H:%M:%S'' else format)"

text \<open>\<open>strftime\<close> stands for what the library call leaves in the buffer of 64 characters.\<close>

fun format_one :: "(string \<Rightarrow> u32 \<Rightarrow> string) \<Rightarrow> int \<Rightarrow> log_event \<Rightarrow> format_item \<Rightarrow> string" where
  "format_one strftime level e MessageFormatItem = ev_content e"
| "format_one strftime level e LevelFormatItem = LogLevelToString level"
| "format_one strftime level e ElapseFormatItem = dec_string (unat (ev_elapse e))"
| "format_one strftime level e NameFormatItem = ev_logger e"
| "format_one strftime level e ThreadIdFormatItem = dec_string (unat (ev_threadId e))"
| "format_one strftime level e FiberIdFormatItem = dec_string (unat (ev_fiberId e))"
| "format_one strftime level e ThreadNameFormatItem = ev_threadName e"
| "format_one strftime level e (DateTimeFormatItem format) = strftime format (ev_time e)"
| "format_one strftime level e FilenameFormatItem = ev_file e"
| "format_one strftime level e LineFormatItem = dec_string (unat (ev_line e))"
| "format_one strftime level e NewLineFormatItem = [CHR 0x0A]"
| "format_one strftime level e (StringFormatItem s) = s"
| "format_one strftime level e TabFormatItem = [CHR 0x09]"

definition s_format_items :: "(string \<times> (string \<Rightarrow> format_item)) list" where
  "s_format_items =
     [(''m'', \<lambda>_. MessageFormatItem), (''c'', \<lambda>_. NameFormatItem), (''p'', \<lambda>_. LevelFormatItem), (''r'', \<lambda>_. ElapseFormatItem),
      (''t'', \<lambda>_. ThreadIdFormatItem), (''n'', \<lambda>_. NewLineFormatItem), (''d'', new_DateTimeFormatItem), (''f'', \<lambda>_. FilenameFormatItem),
      (''l'', \<lambda>_. LineFormatItem), (''T'', \<lambda>_. TabFormatItem), (''F'', \<lambda>_. FiberIdFormatItem), (''N'', \<lambda>_. ThreadNameFormatItem)]"

subsection \<open>The pattern\<close>

definition isalpha :: "char \<Rightarrow> bool" where
  "isalpha c = (let n = of_char c :: nat in 65 \<le> n \<and> n \<le> 90 \<or> 97 \<le> n \<and> n \<le> 122)"

definition substr :: "string \<Rightarrow> nat \<Rightarrow> nat \<Rightarrow> string" where
  "substr s pos n = take n (drop pos s)"

text \<open>
  The inner loop from position \<open>n\<close> for the directive that starts at \<open>i\<close>. The result is the name, the
  format, the status and the position at which the loop ends.
\<close>

function fmt_scan :: "string \<Rightarrow> nat \<Rightarrow> nat \<Rightarrow> bool \<Rightarrow> nat \<Rightarrow> string \<Rightarrow> string \<times> string \<times> bool \<times> nat" where
  "fmt_scan pat i n status start str =
     (if length pat \<le> n then (str, [], status, n)
      else let c = pat ! n; step = (\<lambda>str. if n + 1 = length pat \<and> str = [] then drop (i + 1) pat else str) in
        if \<not> status \<and> \<not> isalpha c \<and> c \<noteq> CHR ''{'' \<and> c \<noteq> CHR ''}'' then (substr pat (i + 1) (n - i - 1), [], status, n)
        else if \<not> status \<and> c = CHR ''{'' then fmt_scan pat i (n + 1) True n (substr pat (i + 1) (n - i - 1))
        else if status \<and> c = CHR ''}'' then (str, substr pat (start + 1) (n - start - 1), False, n + 1)
        else fmt_scan pat i (n + 1) status start (step str))"
  by pat_completeness auto
termination
  by (relation "measure (\<lambda>(pat, i, n, _). length pat - n)") auto

declare fmt_scan.simps [simp del]

lemma fmt_scan_end: "n \<le> snd (snd (snd (fmt_scan pat i n status start str)))"
proof (induction "length pat - n" arbitrary: n status start str rule: less_induct)
  case less
  have rec: "n \<le> snd (snd (snd (fmt_scan pat i (Suc n) st b t)))" if "n < length pat" for st b t
    using less.hyps [of "Suc n" st b t] that by (meson Suc_leD diff_less_mono2 lessI)
  show ?case
    by (subst fmt_scan.simps) (simp add: Let_def rec del: length_greater_0_conv)
qed

lemma fmt_scan_advances: "(str', fmt, st, n') = fmt_scan pat i n status start str \<Longrightarrow> n \<le> n'"
  using fmt_scan_end [of n pat i status start str] by (metis snd_conv)

text \<open>
  The outer loop: the text collected so far, and the pieces found (the text or the name, the format, and
  whether it is a directive), with the error flag.
\<close>

function init_loop :: "string \<Rightarrow> nat \<Rightarrow> string \<Rightarrow> (string \<times> string \<times> bool) list \<Rightarrow> bool \<Rightarrow> (string \<times> string \<times> bool) list \<times> bool" where
  "init_loop pat i nstr fmtVec err =
     (if length pat \<le> i then (if nstr \<noteq> [] then fmtVec @ [(nstr, [], False)] else fmtVec, err)
      else if pat ! i \<noteq> CHR ''%'' then init_loop pat (i + 1) (nstr @ [pat ! i]) fmtVec err
      else if i + 1 < length pat \<and> pat ! (i + 1) = CHR ''%'' then init_loop pat (i + 1) (nstr @ ''%'') fmtVec err
      else let (str, fmt, status, n) = fmt_scan pat i (i + 1) False 0 [] in
        if \<not> status then
          init_loop pat n [] ((if nstr \<noteq> [] then fmtVec @ [(nstr, [], False)] else fmtVec) @ [(str, fmt, True)]) err
        else init_loop pat (i + 1) nstr (fmtVec @ [(''<<pattern error>>'', fmt, False)]) True)"
  by pat_completeness auto
termination
  by (relation "measure (\<lambda>(pat, i, _). length pat - i)") (auto dest!: fmt_scan_advances)

declare init_loop.simps [simp del]

definition make_item :: "string \<times> string \<times> bool \<Rightarrow> format_item \<times> bool" where
  "make_item p = (case p of (str, fmt, directive) \<Rightarrow>
     if \<not> directive then (StringFormatItem str, False)
     else case map_of s_format_items str of
            None \<Rightarrow> (StringFormatItem (''<<ERROR FORMAT %'' @ str @ ''>>''), True)
          | Some mk \<Rightarrow> (mk fmt, False))"

record log_formatter =
  lf_pattern :: string
  lf_item :: "format_item list"
  lf_error :: bool

definition new_LogFormatter :: "string \<Rightarrow> log_formatter" where
  "new_LogFormatter pattern =
     (let (fmtVec, err) = init_loop pattern 0 [] [] False; items = map make_item fmtVec in
      \<lparr>lf_pattern = pattern, lf_item = map fst items, lf_error = err \<or> list_ex snd items\<rparr>)"

definition formatter_format :: "(string \<Rightarrow> u32 \<Rightarrow> string) \<Rightarrow> log_formatter \<Rightarrow> int \<Rightarrow> log_event \<Rightarrow> string" where
  "formatter_format strftime f level e = concat (map (format_one strftime level e) (lf_item f))"

end
