(* ===== verification/Log_Pattern.thy ===== *)
theory Log_Pattern
  imports Log
begin

text \<open>
  The parser of the log pattern reads back every pattern that is put together from plain text and
  directives.
\<close>

subsection \<open>Patterns as lists of pieces\<close>

datatype piece = Plain string | Directive string string

fun piece_text :: "piece \<Rightarrow> string" where
  "piece_text (Plain s) = s"
| "piece_text (Directive name fmt) = ''%'' @ name @ (if fmt = [] then [] else ''{'' @ fmt @ ''}'')"

fun piece_entry :: "piece \<Rightarrow> string \<times> string \<times> bool" where
  "piece_entry (Plain s) = (s, [], False)"
| "piece_entry (Directive name fmt) = (name, fmt, True)"

definition pattern_text :: "piece list \<Rightarrow> string" where
  "pattern_text ps = concat (map piece_text ps)"

definition name_end :: "string \<Rightarrow> bool" where
  "name_end s \<longleftrightarrow> s = [] \<or> \<not> isalpha (hd s) \<and> hd s \<noteq> CHR ''{'' \<and> hd s \<noteq> CHR ''}''"

fun starts_plain :: "piece list \<Rightarrow> bool" where
  "starts_plain (Plain s # ps) = True"
| "starts_plain ps = False"

text \<open>
  Plain text is not empty, contains no percent sign and is not followed by plain text; a name consists of
  letters; a format contains no closing brace; and a directive without a format is not followed by a
  letter or a brace.
\<close>

fun pieces_ok :: "piece list \<Rightarrow> bool" where
  "pieces_ok [] = True"
| "pieces_ok (Plain s # ps) \<longleftrightarrow> s \<noteq> [] \<and> CHR ''%'' \<notin> set s \<and> \<not> starts_plain ps \<and> pieces_ok ps"
| "pieces_ok (Directive name fmt # ps) \<longleftrightarrow>
     name \<noteq> [] \<and> list_all isalpha name \<and> CHR ''}'' \<notin> set fmt \<and> (fmt = [] \<longrightarrow> name_end (pattern_text ps)) \<and> pieces_ok ps"

subsection \<open>One directive\<close>

lemma isalpha_special: "isalpha c \<Longrightarrow> c \<noteq> CHR ''{'' \<and> c \<noteq> CHR ''}'' \<and> c \<noteq> CHR ''%''"
  by (auto simp: isalpha_def)

lemma nth_middle: "length xs = n \<Longrightarrow> (xs @ c # ys) ! n = c"
  by (simp add: nth_append)

lemma scan_name:
  assumes "list_all isalpha name" and "name \<noteq> []"
  shows "pat = pre @ ''%'' @ done1 @ name @ rest \<Longrightarrow> i = length pre \<Longrightarrow> n = i + 1 + length done1 \<Longrightarrow>
    fmt_scan pat i n False start [] =
      fmt_scan pat i (n + length name) False start (if rest = [] then done1 @ name else [])"
  using assms
proof (induction name arbitrary: done1 n)
  case (Cons c name)
  have c: "pat ! n = c" "n < length pat" using Cons.prems by (auto simp: nth_append)
  have a: "isalpha c" "c \<noteq> CHR ''{''" "c \<noteq> CHR ''}''" using Cons.prems isalpha_special [of c] by auto
  have step: "fmt_scan pat i n False start [] = fmt_scan pat i (n + 1) False start (if name = [] \<and> rest = [] then done1 @ [c] else [])"
    using c a Cons.prems by (subst fmt_scan.simps) (auto simp: Let_def)
  show ?case
  proof (cases "name = []")
    case True
    then show ?thesis using step by simp
  next
    case False
    then show ?thesis using step Cons.IH [of "done1 @ [c]" "n + 1"] Cons.prems by simp
  qed
qed simp

lemma scan_format:
  "CHR ''}'' \<notin> set fmt \<Longrightarrow> pat = pre @ done1 @ fmt @ ''}'' @ rest \<Longrightarrow> start + 1 = length pre \<Longrightarrow> n = length pre + length done1 \<Longrightarrow> str \<noteq> [] \<Longrightarrow>
   fmt_scan pat i n True start str = (str, done1 @ fmt, False, n + length fmt + 1)"
proof (induction fmt arbitrary: done1 n)
  case Nil
  then have "pat ! n = CHR ''}''" "n < length pat" by (auto simp: nth_append)
  then show ?case using Nil by (subst fmt_scan.simps) (simp add: Let_def substr_def)
next
  case (Cons c fmt)
  then have "pat ! n = c" "n < length pat" "c \<noteq> CHR ''}''" by (auto simp: nth_append)
  then have "fmt_scan pat i n True start str = fmt_scan pat i (n + 1) True start str"
    using Cons.prems by (subst fmt_scan.simps) (auto simp: Let_def)
  then show ?case using Cons.IH [of "done1 @ [c]" "n + 1"] Cons.prems by simp
qed

lemma scan_directive:
  assumes "pat = pre @ piece_text (Directive name fmt) @ rest" and "name \<noteq> []" and "list_all isalpha name"
    and "CHR ''}'' \<notin> set fmt" and "fmt = [] \<longrightarrow> name_end rest"
  shows "fmt_scan pat (length pre) (length pre + 1) False 0 [] = (name, fmt, False, length pre + length (piece_text (Directive name fmt)))"
proof (cases "fmt = []")
  case True
  let ?n = "length pre + 1 + length name"
  have run: "fmt_scan pat (length pre) (length pre + 1) False 0 [] = fmt_scan pat (length pre) ?n False 0 (if rest = [] then name else [])"
    using scan_name [OF assms(3,2), of pat pre "[]" rest "length pre" "length pre + 1" 0] assms(1) True by simp
  show ?thesis
  proof (cases rest)
    case Nil
    then show ?thesis unfolding run using assms(1) True by (subst fmt_scan.simps) simp
  next
    case (Cons c rest')
    then have "pat ! ?n = c" "?n < length pat" using assms(1) True by (auto simp: nth_append)
    then show ?thesis unfolding run using assms(1,5) True Cons
      by (subst fmt_scan.simps) (simp add: Let_def name_end_def substr_def)
  qed
next
  case False
  let ?n = "length pre + 1 + length name"
  have "fmt_scan pat (length pre) (length pre + 1) False 0 [] = fmt_scan pat (length pre) ?n False 0 []"
    using scan_name [OF assms(3,2), of pat pre "[]" "''{'' @ fmt @ ''}'' @ rest" "length pre" "length pre + 1" 0] assms(1) False by simp
  also have "\<dots> = fmt_scan pat (length pre) (?n + 1) True ?n name"
  proof -
    have "pat ! ?n = CHR ''{''" "?n < length pat" using assms(1) False by (auto simp: nth_append)
    then show ?thesis using assms(1) False by (subst fmt_scan.simps) (simp add: Let_def substr_def isalpha_def)
  qed
  also have "\<dots> = (name, fmt, False, ?n + 1 + length fmt + 1)"
    using scan_format [OF assms(4), of pat "pre @ ''%'' @ name @ ''{''" "[]" rest ?n "?n + 1" name "length pre"] assms(1,2) False by simp
  finally show ?thesis using False by simp
qed

subsection \<open>A whole pattern\<close>

lemma init_plain:
  "CHR ''%'' \<notin> set s \<Longrightarrow> pat = pre @ s @ rest \<Longrightarrow> i = length pre \<Longrightarrow>
   init_loop pat i nstr vec err = init_loop pat (i + length s) (nstr @ s) vec err"
proof (induction s arbitrary: pre i nstr)
  case (Cons c s)
  then have "pat ! i = c" "i < length pat" "c \<noteq> CHR ''%''" by (auto simp: nth_append)
  then have "init_loop pat i nstr vec err = init_loop pat (i + 1) (nstr @ [c]) vec err" by (subst init_loop.simps) simp
  then show ?case using Cons.IH [of "pre @ [c]" "i + 1" "nstr @ [c]"] Cons.prems by simp
qed simp

definition flush :: "string \<Rightarrow> (string \<times> string \<times> bool) list" where
  "flush nstr = (if nstr = [] then [] else [(nstr, [], False)])"

lemma init_pieces:
  "pieces_ok ps \<Longrightarrow> pat = pre @ pattern_text ps \<Longrightarrow> (starts_plain ps \<longrightarrow> nstr = []) \<Longrightarrow>
   init_loop pat (length pre) nstr vec err = (vec @ flush nstr @ map piece_entry ps, err)"
proof (induction ps arbitrary: pre nstr vec rule: pieces_ok.induct)
  case 1
  then show ?case by (subst init_loop.simps) (simp add: pattern_text_def flush_def)
next
  case (2 s ps)
  then have "init_loop pat (length pre) [] vec err = init_loop pat (length (pre @ s)) s vec err"
    using init_plain [of s pat pre "pattern_text ps" "length pre" "[]" vec err] by (simp add: pattern_text_def)
  then show ?case using 2(1) [of "pre @ s" s vec] 2(2-4) by (simp add: pattern_text_def flush_def)
next
  case (3 name fmt ps)
  let ?d = "piece_text (Directive name fmt)"
  have pat: "pat = pre @ ?d @ pattern_text ps" using 3(3) by (simp add: pattern_text_def)
  have "pat ! length pre = CHR ''%''" "length pre < length pat" "pat ! (length pre + 1) \<noteq> CHR ''%''"
    using 3(2) pat isalpha_special [of "hd name"] by (auto simp: nth_append neq_Nil_conv)
  moreover have "fmt_scan pat (length pre) (length pre + 1) False 0 [] = (name, fmt, False, length pre + length ?d)"
    using 3(2) by (intro scan_directive [OF pat]) simp_all
  ultimately have "init_loop pat (length pre) nstr vec err = init_loop pat (length (pre @ ?d)) [] (vec @ flush nstr @ [(name, fmt, True)]) err"
    by (subst init_loop.simps) (simp add: flush_def)
  then show ?case using 3(1) [of "pre @ ?d" "[]" "vec @ flush nstr @ [(name, fmt, True)]"] 3(2) pat by (simp add: flush_def)
qed

lemma init_pattern: "pieces_ok ps \<Longrightarrow> init_loop (pattern_text ps) 0 [] [] False = (map piece_entry ps, False)"
  using init_pieces [of ps "pattern_text ps" "[]" "[]" "[]" False] by (simp add: flush_def)

subsection \<open>What a pattern prints\<close>

fun directive_output :: "(string \<Rightarrow> u32 \<Rightarrow> string) \<Rightarrow> int \<Rightarrow> log_event \<Rightarrow> string \<Rightarrow> string \<Rightarrow> string option" where
  "directive_output strftime level e name fmt =
     (if name = ''m'' then Some (ev_content e) else if name = ''c'' then Some (ev_logger e)
      else if name = ''p'' then Some (LogLevelToString level) else if name = ''r'' then Some (dec_string (unat (ev_elapse e)))
      else if name = ''t'' then Some (dec_string (unat (ev_threadId e))) else if name = ''n'' then Some [CHR 0x0A]
      else if name = ''d'' then Some (strftime (if fmt = [] then ''%Y-%m-%d %H:%M:%S'' else fmt) (ev_time e))
      else if name = ''f'' then Some (ev_file e) else if name = ''l'' then Some (dec_string (unat (ev_line e)))
      else if name = ''T'' then Some [CHR 0x09] else if name = ''F'' then Some (dec_string (unat (ev_fiberId e)))
      else if name = ''N'' then Some (ev_threadName e) else None)"

fun piece_output :: "(string \<Rightarrow> u32 \<Rightarrow> string) \<Rightarrow> int \<Rightarrow> log_event \<Rightarrow> piece \<Rightarrow> string" where
  "piece_output strftime level e (Plain s) = s"
| "piece_output strftime level e (Directive name fmt) =
     (case directive_output strftime level e name fmt of Some s \<Rightarrow> s | None \<Rightarrow> ''<<ERROR FORMAT %'' @ name @ ''>>'')"

definition known_names :: "string set" where
  "known_names = {''m'', ''c'', ''p'', ''r'', ''t'', ''n'', ''d'', ''f'', ''l'', ''T'', ''F'', ''N''}"

fun unknown_directive :: "piece \<Rightarrow> bool" where
  "unknown_directive (Plain s) = False"
| "unknown_directive (Directive name fmt) \<longleftrightarrow> name \<notin> known_names"

lemma make_item_output: "format_one strftime level e (fst (make_item (piece_entry p))) = piece_output strftime level e p"
  by (cases p) (auto simp: make_item_def s_format_items_def new_DateTimeFormatItem_def)

lemma make_item_error: "snd (make_item (piece_entry p)) = unknown_directive p"
  by (cases p) (auto simp: make_item_def s_format_items_def known_names_def)

lemma map_output: "map (format_one strftime level e) (map (fst \<circ> make_item \<circ> piece_entry) ps) = map (piece_output strftime level e) ps"
  by (simp add: make_item_output)

text \<open>C19. For every pattern put together from plain text and directives, the parser of the formatter finds exactly
  these pieces: what the formatter prints for an event is the concatenation of what its pieces stand for, in order
  (the content for \<^verbatim>\<open>%m\<close>, the date in the given format for \<^verbatim>\<open>%d{...}\<close>, and so on), and the formatter is marked as
  erroneous exactly when a directive has an unknown name, which is then printed as an error text.\<close>

theorem pattern_roundtrip:
  assumes "pieces_ok ps"
  shows "formatter_format strftime (new_LogFormatter (pattern_text ps)) level e = concat (map (piece_output strftime level e) ps) \<and>
    lf_error (new_LogFormatter (pattern_text ps)) = list_ex unknown_directive ps \<and>
    lf_pattern (new_LogFormatter (pattern_text ps)) = pattern_text ps"
  by (simp add: formatter_format_def new_LogFormatter_def init_pattern [OF assms] make_item_output make_item_error
      list_ex_iff comp_def)

text \<open>The pattern of a new logger, \<^verbatim>\<open>%d{%Y-%m-%d %H:%M:%S}%T%t%T%N%T%F%T[%p]%T[%c]%T%f:%l%T%m%n\<close>.\<close>

definition default_pieces :: "piece list" where
  "default_pieces =
     [Directive ''d'' ''%Y-%m-%d %H:%M:%S'', Directive ''T'' [], Directive ''t'' [], Directive ''T'' [], Directive ''N'' [],
      Directive ''T'' [], Directive ''F'' [], Directive ''T'' [], Plain ''['', Directive ''p'' [], Plain '']'', Directive ''T'' [],
      Plain ''['', Directive ''c'' [], Plain '']'', Directive ''T'' [], Directive ''f'' [], Plain '':'', Directive ''l'' [],
      Directive ''T'' [], Directive ''m'' [], Directive ''n'' []]"

lemma default_pieces_text: "pattern_text default_pieces = ''%d{%Y-%m-%d %H:%M:%S}%T%t%T%N%T%F%T[%p]%T[%c]%T%f:%l%T%m%n''"
  by (simp add: pattern_text_def default_pieces_def)

lemma default_pieces_ok: "pieces_ok default_pieces" "\<not> list_ex unknown_directive default_pieces"
  by (simp_all add: default_pieces_def pattern_text_def name_end_def isalpha_def known_names_def)

theorem pattern_roundtrip_witness:
  "lf_error (new_LogFormatter ''%d{%Y-%m-%d %H:%M:%S}%T%t%T%N%T%F%T[%p]%T[%c]%T%f:%l%T%m%n'') = False"
  using pattern_roundtrip [OF default_pieces_ok(1)] default_pieces_ok(2) by (simp only: default_pieces_text simp_thms)

end
