(* ===== verification/Logger.thy ===== *)
theory Logger
  imports Log_Pattern
begin

text \<open>
  The loggers, appenders and the manager of \<^verbatim>\<open>code/log.h\<close> and \<^verbatim>\<open>code/log.cc\<close>. Loggers and appenders are shared
  objects: they live in two stores, and a pointer is a number in its store. What is written to the
  standard output and to the log files is a list of chunks in the order of the writes. Whether a file can
  be opened is an argument of the constructor of a file appender. Dereferencing a null pointer is the
  error \<open>NullPointer\<close>, and taking a spin lock that the same call already holds is \<open>Deadlock\<close>.
\<close>

subsection \<open>State\<close>

datatype sink = Stdout | LogFile string

datatype appender_kind = StdoutAppender | FileLogAppender string bool

record log_appender =
  ap_kind :: appender_kind
  ap_level :: int
  ap_formatter :: "log_formatter option"
  ap_hasFormatter :: bool

record logger =
  lg_name :: string
  lg_level :: int
  lg_appenders :: "nat list"
  lg_formatter :: "log_formatter option"
  lg_root :: "nat option"

record log_world =
  lw_appender :: "log_appender list"
  lw_logger :: "logger list"
  lm_loggers :: "string \<rightharpoonup> nat"
  lm_root :: nat
  lw_out :: "(sink \<times> string) list"

datatype log_error = NullPointer | Deadlock

type_synonym 'a logres = "log_error + 'a"

abbreviation upd_logger :: "nat \<Rightarrow> (logger \<Rightarrow> logger) \<Rightarrow> log_world \<Rightarrow> log_world" where
  "upd_logger l f w \<equiv> w\<lparr>lw_logger := (lw_logger w)[l := f (lw_logger w ! l)]\<rparr>"

abbreviation upd_appender :: "nat \<Rightarrow> (log_appender \<Rightarrow> log_appender) \<Rightarrow> log_world \<Rightarrow> log_world" where
  "upd_appender a f w \<equiv> w\<lparr>lw_appender := (lw_appender w)[a := f (lw_appender w ! a)]\<rparr>"

subsection \<open>Appenders\<close>

definition new_StdoutAppender :: log_appender where
  "new_StdoutAppender = \<lparr>ap_kind = StdoutAppender, ap_level = DEBUG, ap_formatter = None, ap_hasFormatter = False\<rparr>"

definition new_FileLogAppender :: "(string \<Rightarrow> bool) \<Rightarrow> string \<Rightarrow> log_appender" where
  "new_FileLogAppender can_open filename =
     \<lparr>ap_kind = FileLogAppender filename (can_open filename), ap_level = DEBUG, ap_formatter = None, ap_hasFormatter = False\<rparr>"

definition reopen :: "(string \<Rightarrow> bool) \<Rightarrow> nat \<Rightarrow> log_world \<Rightarrow> bool \<times> log_world" where
  "reopen can_open a w = (case ap_kind (lw_appender w ! a) of
       FileLogAppender filename _ \<Rightarrow>
         (can_open filename, upd_appender a (ap_kind_update (\<lambda>_. FileLogAppender filename (can_open filename))) w)
     | StdoutAppender \<Rightarrow> (False, w))"

definition make_appender :: "log_appender \<Rightarrow> log_world \<Rightarrow> nat \<times> log_world" where
  "make_appender ap w = (length (lw_appender w), w\<lparr>lw_appender := lw_appender w @ [ap]\<rparr>)"

definition appender_setLevel :: "nat \<Rightarrow> int \<Rightarrow> log_world \<Rightarrow> log_world" where
  "appender_setLevel a val w = upd_appender a (ap_level_update (\<lambda>_. val)) w"

definition appender_setFormatter :: "nat \<Rightarrow> log_formatter option \<Rightarrow> log_world \<Rightarrow> log_world" where
  "appender_setFormatter a formatter w =
     upd_appender a (\<lambda>x. x\<lparr>ap_formatter := formatter, ap_hasFormatter := (formatter \<noteq> None)\<rparr>) w"

definition emit :: "appender_kind \<Rightarrow> string \<Rightarrow> log_world \<Rightarrow> log_world" where
  "emit k s w = (case k of
       StdoutAppender \<Rightarrow> w\<lparr>lw_out := lw_out w @ [(Stdout, s)]\<rparr>
     | FileLogAppender filename opened \<Rightarrow> if opened then w\<lparr>lw_out := lw_out w @ [(LogFile filename, s)]\<rparr> else w)"

definition appender_log :: "(string \<Rightarrow> u32 \<Rightarrow> string) \<Rightarrow> int \<Rightarrow> log_event \<Rightarrow> nat \<Rightarrow> log_world \<Rightarrow> log_world logres" where
  "appender_log strftime level e a w = (let ap = lw_appender w ! a in
     if ap_level ap \<le> level then
       case ap_formatter ap of None \<Rightarrow> Inl NullPointer
       | Some f \<Rightarrow> Inr (emit (ap_kind ap) (formatter_format strftime f level e) w)
     else Inr w)"

fun appenders_log :: "(string \<Rightarrow> u32 \<Rightarrow> string) \<Rightarrow> int \<Rightarrow> log_event \<Rightarrow> nat list \<Rightarrow> log_world \<Rightarrow> log_world logres" where
  "appenders_log strftime level e [] w = Inr w"
| "appenders_log strftime level e (a # as) w = (case appender_log strftime level e a w of
       Inl x \<Rightarrow> Inl x | Inr w' \<Rightarrow> appenders_log strftime level e as w')"

subsection \<open>Loggers\<close>

definition default_pattern :: string where
  "default_pattern = ''%d{%Y-%m-%d %H:%M:%S}%T%t%T%N%T%F%T[%p]%T[%c]%T%f:%l%T%m%n''"

definition new_Logger :: "string \<Rightarrow> logger" where
  "new_Logger name = \<lparr>lg_name = name, lg_level = DEBUG, lg_appenders = [],
     lg_formatter = Some (new_LogFormatter default_pattern), lg_root = None\<rparr>"

text \<open>\<open>held\<close> are the loggers whose lock the call holds: a logger keeps its lock while it calls the root logger.\<close>

function logger_log :: "(string \<Rightarrow> u32 \<Rightarrow> string) \<Rightarrow> nat set \<Rightarrow> nat \<Rightarrow> int \<Rightarrow> log_event \<Rightarrow> log_world \<Rightarrow> log_world logres" where
  "logger_log strftime held l level e w =
     (if length (lw_logger w) \<le> l then Inl NullPointer
      else let lg = lw_logger w ! l in
        if lg_level lg \<le> level then
          if l \<in> held then Inl Deadlock
          else if lg_appenders lg \<noteq> [] then appenders_log strftime level e (lg_appenders lg) w
          else case lg_root lg of Some r \<Rightarrow> logger_log strftime (insert l held) r level e w | None \<Rightarrow> Inr w
        else Inr w)"
  by pat_completeness auto
termination
proof (relation "measure (\<lambda>(_, held, _, _, _, w). card ({..<length (lw_logger w)} - held))", goal_cases)
  case (2 strftime held l level e w lg r)
  from 2(1) have "l \<in> {..<length (lw_logger w)}" by simp
  with 2(4) have "{..<length (lw_logger w)} - insert l held \<subset> {..<length (lw_logger w)} - held" by blast
  then show ?case by (simp add: psubset_card_mono)
qed simp

declare logger_log.simps [simp del]

definition logger_setLevel :: "nat \<Rightarrow> int \<Rightarrow> log_world \<Rightarrow> log_world" where
  "logger_setLevel l level w = upd_logger l (lg_level_update (\<lambda>_. level)) w"

definition addAppender :: "nat \<Rightarrow> nat \<Rightarrow> log_world \<Rightarrow> log_world" where
  "addAppender l a w =
     (let w1 = if ap_formatter (lw_appender w ! a) = None
               then upd_appender a (ap_formatter_update (\<lambda>_. lg_formatter (lw_logger w ! l))) w else w
      in upd_logger l (lg_appenders_update (\<lambda>as. as @ [a])) w1)"

definition delAppender :: "nat \<Rightarrow> nat \<Rightarrow> log_world \<Rightarrow> log_world" where
  "delAppender l a w = upd_logger l (lg_appenders_update (remove1 a)) w"

definition clearAppenders :: "nat \<Rightarrow> log_world \<Rightarrow> log_world" where
  "clearAppenders l w = upd_logger l (lg_appenders_update (\<lambda>_. [])) w"

definition inherit_formatter :: "log_formatter option \<Rightarrow> log_appender \<Rightarrow> log_appender" where
  "inherit_formatter val ap = (if ap_hasFormatter ap then ap else ap\<lparr>ap_formatter := val\<rparr>)"

definition logger_setFormatter :: "nat \<Rightarrow> log_formatter option \<Rightarrow> log_world \<Rightarrow> log_world" where
  "logger_setFormatter l val w =
     foldl (\<lambda>w a. upd_appender a (inherit_formatter val) w) (upd_logger l (lg_formatter_update (\<lambda>_. val)) w)
       (lg_appenders (lw_logger w ! l))"

definition logger_setFormatter_string :: "nat \<Rightarrow> string \<Rightarrow> log_world \<Rightarrow> log_world" where
  "logger_setFormatter_string l val w =
     (let new_val = new_LogFormatter val in if lf_error new_val then w else logger_setFormatter l (Some new_val) w)"

subsection \<open>The manager\<close>

definition getLogger :: "string \<Rightarrow> log_world \<Rightarrow> nat \<times> log_world" where
  "getLogger name w = (case lm_loggers w name of
       Some l \<Rightarrow> (l, w)
     | None \<Rightarrow> let l = length (lw_logger w) in
         (l, w\<lparr>lw_logger := lw_logger w @ [(new_Logger name)\<lparr>lg_root := Some (lm_root w)\<rparr>], lm_loggers := (lm_loggers w)(name \<mapsto> l)\<rparr>))"

definition new_LoggerManager :: log_world where
  "new_LoggerManager =
     (let w = \<lparr>lw_appender = [new_StdoutAppender], lw_logger = [new_Logger ''root''], lm_loggers = Map.empty, lm_root = 0, lw_out = []\<rparr>
      in (addAppender 0 0 w)\<lparr>lm_loggers := [''root'' \<mapsto> 0]\<rparr>)"

subsection \<open>Logging through the macros\<close>

definition logger_debug where "logger_debug strftime l e w = logger_log strftime {} l DEBUG e w"
definition logger_info where "logger_info strftime l e w = logger_log strftime {} l INFO e w"
definition logger_warn where "logger_warn strftime l e w = logger_log strftime {} l WARN e w"
definition logger_error where "logger_error strftime l e w = logger_log strftime {} l ERROR e w"
definition logger_fatal where "logger_fatal strftime l e w = logger_log strftime {} l FATAL e w"

definition LogEventWrap_dtor :: "(string \<Rightarrow> u32 \<Rightarrow> string) \<Rightarrow> nat \<Rightarrow> log_event \<Rightarrow> log_world \<Rightarrow> log_world logres" where
  "LogEventWrap_dtor strftime l e w = logger_log strftime {} l (ev_level e) e w"

text \<open>
  The macro: the event is built only if the level of the logger allows it; \<open>content\<close> is what the statement
  writes to the stream of the event, which is logged when the wrapper is destroyed.
\<close>

definition CXS_LOG_LEVEL ::
  "(string \<Rightarrow> u32 \<Rightarrow> string) \<Rightarrow> string \<times> u32 \<times> u32 \<times> u32 \<times> u32 \<times> string \<Rightarrow> string \<Rightarrow> nat \<Rightarrow> int \<Rightarrow> log_world \<Rightarrow> log_world logres" where
  "CXS_LOG_LEVEL strftime ctx content l level w = (case ctx of (file, line, threadId, fiberId, time, threadName) \<Rightarrow>
     if lg_level (lw_logger w ! l) \<le> level
     then LogEventWrap_dtor strftime l
            (event_format (Some content) (new_LogEvent file line 0 threadId fiberId time (lg_name (lw_logger w ! l)) level threadName)) w
     else Inr w)"

end
