(* ===== verification/Logger_Props.thy ===== *)
theory Logger_Props
  imports Logger
begin

text \<open>
  The invariant of the logging world, that every operation keeps it, and what follows: logging always
  returns, and writes exactly to the appenders it should.
\<close>

subsection \<open>Invariant\<close>

definition appender_ready :: "log_world \<Rightarrow> nat \<Rightarrow> bool" where
  "appender_ready w a \<longleftrightarrow> a < length (lw_appender w) \<and> ap_formatter (lw_appender w ! a) \<noteq> None"

definition logger_ok :: "log_world \<Rightarrow> logger \<Rightarrow> bool" where
  "logger_ok w lg \<longleftrightarrow> (\<forall>a\<in>set (lg_appenders lg). appender_ready w a) \<and> lg_formatter lg \<noteq> None \<and>
     (lg_root lg = None \<or> lg_root lg = Some (lm_root w))"

definition log_inv :: "log_world \<Rightarrow> bool" where
  "log_inv w \<longleftrightarrow> lm_root w < length (lw_logger w) \<and> lg_root (lw_logger w ! lm_root w) = None \<and>
     (\<forall>lg\<in>set (lw_logger w). logger_ok w lg) \<and>
     (\<forall>name l. lm_loggers w name = Some l \<longrightarrow> l < length (lw_logger w) \<and> lg_name (lw_logger w ! l) = name)"

inductive log_step :: "log_world \<Rightarrow> log_world \<Rightarrow> bool" where
  step_getLogger: "log_step w (snd (getLogger name w))"
| step_make_appender: "log_step w (snd (make_appender ap w))"
| step_reopen: "log_step w (snd (reopen can_open a w))"
| step_appender_setLevel: "log_step w (appender_setLevel a val w)"
| step_appender_setFormatter: "log_step w (appender_setFormatter a (Some f) w)"
| step_logger_setLevel: "log_step w (logger_setLevel l level w)"
| step_addAppender: "l < length (lw_logger w) \<Longrightarrow> a < length (lw_appender w) \<Longrightarrow> log_step w (addAppender l a w)"
| step_delAppender: "log_step w (delAppender l a w)"
| step_clearAppenders: "log_step w (clearAppenders l w)"
| step_logger_setFormatter: "log_step w (logger_setFormatter l (Some f) w)"
| step_logger_setFormatter_string: "log_step w (logger_setFormatter_string l val w)"
| step_logger_log: "logger_log strftime {} l level e w = Inr w' \<Longrightarrow> log_step w w'"

definition log_reachable :: "log_world \<Rightarrow> bool" where
  "log_reachable w \<longleftrightarrow> log_step\<^sup>*\<^sup>* new_LoggerManager w"

lemma set_list_update_cases: "x \<in> set (xs[i := y]) \<Longrightarrow> x \<in> set xs \<or> x = y \<and> i < length xs"
  by (metis list_update_beyond linorder_not_less set_update_subset_insert insertE subsetD)

text \<open>Changes of the appenders and of one logger that keep the invariant.\<close>

lemma inv_upd_appender:
  assumes "log_inv w" and "ap_formatter (lw_appender w ! a) \<noteq> None \<Longrightarrow> ap_formatter (f (lw_appender w ! a)) \<noteq> None"
  shows "log_inv (upd_appender a f w)"
proof -
  have "appender_ready w b \<Longrightarrow> appender_ready (upd_appender a f w) b" for b
    using assms(2) by (cases "a = b") (simp_all add: appender_ready_def)
  then show ?thesis using assms(1) by (auto simp: log_inv_def logger_ok_def)
qed

lemma inv_upd_logger:
  assumes "log_inv w" and "l < length (lw_logger w) \<Longrightarrow> logger_ok w (f (lw_logger w ! l))"
    and "lg_root (f (lw_logger w ! l)) = lg_root (lw_logger w ! l)" and "lg_name (f (lw_logger w ! l)) = lg_name (lw_logger w ! l)"
  shows "log_inv (upd_logger l f w)"
proof -
  have ok: "logger_ok (upd_logger l f w) lg = logger_ok w lg" for lg by (simp add: logger_ok_def appender_ready_def)
  have "logger_ok w lg" if "lg \<in> set ((lw_logger w)[l := f (lw_logger w ! l)])" for lg
    using set_list_update_cases [OF that] assms(1,2) by (auto simp: log_inv_def)
  moreover have "lg_name ((lw_logger w)[l := f (lw_logger w ! l)] ! k) = lg_name (lw_logger w ! k)"
    and "lg_root ((lw_logger w)[l := f (lw_logger w ! l)] ! k) = lg_root (lw_logger w ! k)" for k
    using assms(3,4) by (metis list_update_beyond linorder_not_less nth_list_update_eq nth_list_update_neq)+
  ultimately show ?thesis using assms(1) unfolding log_inv_def ok by simp
qed

lemma inv_logger: "log_inv w \<Longrightarrow> l < length (lw_logger w) \<Longrightarrow> logger_ok w (lw_logger w ! l)"
  by (simp add: log_inv_def)

lemma logger_ok_level: "logger_ok w lg \<Longrightarrow> logger_ok w (lg_level_update f lg)"
  by (simp add: logger_ok_def)

lemma logger_ok_fewer: "logger_ok w lg \<Longrightarrow> (\<And>as. set (f as) \<subseteq> set as) \<Longrightarrow> logger_ok w (lg_appenders_update f lg)"
  by (auto simp: logger_ok_def)

lemma foldl_appenders_fields [simp]:
  "lw_logger (foldl (\<lambda>w a. upd_appender a f w) w as) = lw_logger w"
  "lm_loggers (foldl (\<lambda>w a. upd_appender a f w) w as) = lm_loggers w"
  "lm_root (foldl (\<lambda>w a. upd_appender a f w) w as) = lm_root w"
  "lw_out (foldl (\<lambda>w a. upd_appender a f w) w as) = lw_out w"
  "length (lw_appender (foldl (\<lambda>w a. upd_appender a f w) w as)) = length (lw_appender w)"
  by (induction as arbitrary: w) simp_all

lemma foldl_appenders_nth:
  assumes "\<And>x. f (f x) = f x" and "b < length (lw_appender w)"
  shows "lw_appender (foldl (\<lambda>w a. upd_appender a f w) w as) ! b = (if b \<in> set as then f (lw_appender w ! b) else lw_appender w ! b)"
  using assms(2)
proof (induction as arbitrary: w)
  case (Cons a as)
  then show ?case by (cases "a = b") (auto simp: assms(1))
qed simp

lemma inherit_formatter_idem: "inherit_formatter val (inherit_formatter val x) = inherit_formatter val x"
  by (simp add: inherit_formatter_def)

lemma inv_foldl_appenders:
  "log_inv w \<Longrightarrow> (\<And>x. ap_formatter x \<noteq> None \<Longrightarrow> ap_formatter (f x) \<noteq> None) \<Longrightarrow> log_inv (foldl (\<lambda>w a. upd_appender a f w) w as)"
proof (induction as arbitrary: w)
  case (Cons a as)
  then have "log_inv (upd_appender a f w)" by (intro inv_upd_appender)
  then show ?case using Cons.IH [OF _ Cons.prems(2)] by simp
qed simp

lemma emit_fields [simp]:
  "lw_appender (emit k s w) = lw_appender w" "lw_logger (emit k s w) = lw_logger w"
  "lm_loggers (emit k s w) = lm_loggers w" "lm_root (emit k s w) = lm_root w"
  by (simp_all add: emit_def split: appender_kind.split)

subsection \<open>What is delivered\<close>

definition sent :: "(string \<Rightarrow> u32 \<Rightarrow> string) \<Rightarrow> int \<Rightarrow> log_event \<Rightarrow> log_appender \<Rightarrow> (sink \<times> string) list" where
  "sent strftime level e ap =
     (if level < ap_level ap then []
      else let s = formatter_format strftime (the (ap_formatter ap)) level e in
        case ap_kind ap of StdoutAppender \<Rightarrow> [(Stdout, s)] | FileLogAppender name opened \<Rightarrow> if opened then [(LogFile name, s)] else [])"

definition appenders_of :: "log_world \<Rightarrow> nat \<Rightarrow> log_appender list" where
  "appenders_of w l = map ((!) (lw_appender w)) (lg_appenders (lw_logger w ! l))"

text \<open>The logger whose appenders receive an event: the logger itself, or the root if it has none, as far as the levels allow.\<close>

definition receivers :: "log_world \<Rightarrow> nat \<Rightarrow> int \<Rightarrow> log_appender list" where
  "receivers w l level =
     (if level < lg_level (lw_logger w ! l) then []
      else if lg_appenders (lw_logger w ! l) \<noteq> [] then appenders_of w l
      else if lg_root (lw_logger w ! l) = None \<or> level < lg_level (lw_logger w ! lm_root w) then []
      else appenders_of w (lm_root w))"

definition delivered :: "(string \<Rightarrow> u32 \<Rightarrow> string) \<Rightarrow> log_world \<Rightarrow> nat \<Rightarrow> int \<Rightarrow> log_event \<Rightarrow> (sink \<times> string) list" where
  "delivered strftime w l level e = concat (map (sent strftime level e) (receivers w l level))"

lemma appender_log_sent:
  "appender_ready w a \<Longrightarrow> appender_log strftime level e a w = Inr (w\<lparr>lw_out := lw_out w @ sent strftime level e (lw_appender w ! a)\<rparr>)"
  by (auto simp: appender_ready_def appender_log_def sent_def Let_def emit_def split: appender_kind.split)

lemma appenders_log_sent:
  "\<forall>a\<in>set as. appender_ready w a \<Longrightarrow>
   appenders_log strftime level e as w = Inr (w\<lparr>lw_out := lw_out w @ concat (map (sent strftime level e) (map ((!) (lw_appender w)) as))\<rparr>)"
proof (induction as arbitrary: w)
  case (Cons a as)
  let ?w = "w\<lparr>lw_out := lw_out w @ sent strftime level e (lw_appender w ! a)\<rparr>"
  have "\<forall>a\<in>set as. appender_ready ?w a" using Cons.prems by (simp add: appender_ready_def)
  from Cons.IH [OF this] Cons.prems show ?case by (simp add: appender_log_sent)
qed simp

lemma logger_log_delivered:
  assumes inv: "log_inv w" and l: "l < length (lw_logger w)"
  shows "logger_log strftime {} l level e w = Inr (w\<lparr>lw_out := lw_out w @ delivered strftime w l level e\<rparr>)"
proof -
  have own: "logger_log strftime held k level e w =
      Inr (w\<lparr>lw_out := lw_out w @ concat (map (sent strftime level e) (appenders_of w k))\<rparr>)"
    if "k < length (lw_logger w)" "k \<notin> held" "lg_level (lw_logger w ! k) \<le> level"
      "lg_appenders (lw_logger w ! k) = [] \<Longrightarrow> lg_root (lw_logger w ! k) = None" for k held
    using that appenders_log_sent [of "lg_appenders (lw_logger w ! k)" w] inv_logger [OF inv that(1)]
    by (subst logger_log.simps) (auto simp: Let_def appenders_of_def logger_ok_def)
  let ?lg = "lw_logger w ! l" and ?r = "lm_root w"
  have r: "?r < length (lw_logger w)" "lg_root (lw_logger w ! ?r) = None" using inv by (simp_all add: log_inv_def)
  consider (low) "level < lg_level ?lg" | (self) "lg_level ?lg \<le> level" "lg_appenders ?lg = [] \<Longrightarrow> lg_root ?lg = None"
    | (up) "lg_level ?lg \<le> level" "lg_appenders ?lg = []" "lg_root ?lg = Some ?r" "l \<noteq> ?r"
    using inv_logger [OF inv l] r(2) by (metis linorder_not_less logger_ok_def option.distinct(1))
  then show ?thesis
  proof cases
    case low
    then show ?thesis using l by (subst logger_log.simps) (simp add: delivered_def receivers_def)
  next
    case self
    then show ?thesis using own [OF l _ self(1), of "{}"] by (auto simp: delivered_def receivers_def appenders_of_def)
  next
    case up
    then have "logger_log strftime {} l level e w = logger_log strftime {l} ?r level e w"
      using l by (subst logger_log.simps) simp
    also have "\<dots> = Inr (w\<lparr>lw_out := lw_out w @ delivered strftime w l level e\<rparr>)"
    proof (cases "lg_level (lw_logger w ! ?r) \<le> level")
      case True
      then show ?thesis using own [OF r(1) _ True, of "{l}"] r(2) up by (simp add: delivered_def receivers_def)
    next
      case False
      then show ?thesis using r up by (subst logger_log.simps) (simp add: delivered_def receivers_def)
    qed
    finally show ?thesis .
  qed
qed

subsection \<open>Every operation keeps the invariant\<close>

lemma inv_getLogger:
  assumes "log_inv w"
  shows "log_inv (snd (getLogger name w))"
proof (cases "lm_loggers w name")
  case None
  have ok: "logger_ok (snd (getLogger name w)) lg = logger_ok w lg" for lg
    using None by (simp add: getLogger_def logger_ok_def appender_ready_def Let_def)
  show ?thesis using assms unfolding log_inv_def ok
    using None by (auto simp: getLogger_def nth_append logger_ok_def new_Logger_def Let_def less_Suc_eq)
qed (use assms in \<open>simp add: getLogger_def\<close>)

lemma inv_make_appender: "log_inv w \<Longrightarrow> log_inv (snd (make_appender ap w))"
  by (auto simp: make_appender_def log_inv_def logger_ok_def appender_ready_def nth_append less_Suc_eq)

lemma inv_addAppender:
  assumes "log_inv w" and "l < length (lw_logger w)" and "a < length (lw_appender w)"
  shows "log_inv (addAppender l a w)"
proof -
  let ?w = "if ap_formatter (lw_appender w ! a) = None
            then upd_appender a (ap_formatter_update (\<lambda>_. lg_formatter (lw_logger w ! l))) w else w"
  have inv: "log_inv ?w" using assms(1) by (auto intro!: inv_upd_appender)
  have lg: "lw_logger ?w = lw_logger w" by simp
  have f: "lg_formatter (lw_logger w ! l) \<noteq> None" using inv_logger [OF assms(1,2)] by (simp add: logger_ok_def)
  have "appender_ready ?w a" using assms(3) f by (auto simp: appender_ready_def)
  then have "logger_ok ?w (lg_appenders_update (\<lambda>as. as @ [a]) (lw_logger ?w ! l))"
    using inv_logger [OF inv, of l] assms(2) unfolding lg by (auto simp: logger_ok_def)
  then show ?thesis unfolding addAppender_def Let_def by (intro inv_upd_logger [OF inv]) simp_all
qed

lemma inv_logger_setFormatter: "log_inv w \<Longrightarrow> log_inv (logger_setFormatter l (Some f) w)"
  unfolding logger_setFormatter_def
  by (rule inv_foldl_appenders, rule inv_upd_logger) (auto simp: logger_ok_def inherit_formatter_def dest: inv_logger)

lemma inv_log_step: "log_step w w' \<Longrightarrow> log_inv w \<Longrightarrow> log_inv w'"
proof (induction rule: log_step.induct)
  case (step_reopen w can_open a)
  then show ?case by (auto simp: reopen_def intro!: inv_upd_appender split: appender_kind.split)
next
  case (step_logger_log strftime l level e w w')
  show ?case
  proof (cases "l < length (lw_logger w)")
    case True
    then show ?thesis using step_logger_log logger_log_delivered [OF step_logger_log(2) True]
      by (auto simp: log_inv_def logger_ok_def appender_ready_def)
  next
    case False
    then show ?thesis using step_logger_log by (subst (asm) logger_log.simps) simp
  qed
qed (auto simp: appender_setLevel_def appender_setFormatter_def logger_setLevel_def delAppender_def clearAppenders_def
    logger_setFormatter_string_def Let_def dest!: set_remove1_subset [THEN subsetD]
    intro!: inv_getLogger inv_make_appender inv_addAppender inv_logger_setFormatter inv_upd_appender inv_upd_logger
    logger_ok_fewer [OF inv_logger] logger_ok_level [OF inv_logger])

lemma log_reachable_inv: "log_reachable w \<Longrightarrow> log_inv w"
  unfolding log_reachable_def
proof (induction rule: rtranclp_induct)
  case base
  show ?case
    by (simp add: new_LoggerManager_def addAppender_def log_inv_def logger_ok_def appender_ready_def new_Logger_def new_StdoutAppender_def)
qed (rule inv_log_step)

text \<open>C18. Whatever loggers, appenders, levels and formatters a program has set up through the operations of the library
  (no null formatter is installed), logging an event returns: no null formatter is dereferenced, and no lock is taken twice
  although a logger keeps its lock while it calls the root logger. It writes the formatted event exactly once to each
  appender of the logger whose level allows it, in their order, or to those of the root logger if the logger has no
  appender; and to nothing if the level of the logger, or then of the root, is higher.\<close>

theorem logging_total:
  assumes "log_reachable w" and "l < length (lw_logger w)"
  shows "logger_log strftime {} l level e w = Inr (w\<lparr>lw_out := lw_out w @ delivered strftime w l level e\<rparr>)"
  using assms by (simp add: logger_log_delivered log_reachable_inv)

definition sample_event :: log_event where
  "sample_event = \<lparr>ev_file = ''main.cc'', ev_line = 7, ev_elapse = 0, ev_threadId = 1, ev_fiberId = 2, ev_time = 0,
     ev_content = ''hello'', ev_logger = ''system'', ev_level = INFO, ev_threadName = ''main''\<rparr>"

definition sample_world :: log_world where
  "sample_world = snd (getLogger ''system'' (logger_setFormatter_string 0 ''[%p] %c: %m%n'' new_LoggerManager))"

lemma sample_world_reachable: "log_reachable sample_world"
  unfolding log_reachable_def sample_world_def
  by (meson log_step.step_getLogger log_step.step_logger_setFormatter_string rtranclp.rtrancl_into_rtrancl rtranclp.rtrancl_refl)

lemma sample_world_logger: "1 < length (lw_logger sample_world)"
  by code_simp

lemma sample_world_output:
  "delivered (\<lambda>f t. f) sample_world 1 INFO sample_event = [(Stdout, ''[INFO] system: hello'' @ [CHR 0x0A])]"
  by code_simp

theorem logging_total_witness:
  "logger_log (\<lambda>f t. f) {} 1 INFO sample_event sample_world =
     Inr (sample_world\<lparr>lw_out := lw_out sample_world @ delivered (\<lambda>f t. f) sample_world 1 INFO sample_event\<rparr>) \<and>
   delivered (\<lambda>f t. f) sample_world 1 INFO sample_event = [(Stdout, ''[INFO] system: hello'' @ [CHR 0x0A])]"
  using logging_total [OF sample_world_reachable sample_world_logger] sample_world_output by simp

subsection \<open>Formatters of the appenders\<close>

text \<open>Giving a logger a pattern: an invalid pattern changes nothing. A valid one becomes the formatter of the logger and
  of exactly those of its appenders that have no formatter of their own; every other appender and every level keeps its
  state, and nothing is written.\<close>

theorem setFormatter_scope:
  assumes "l < length (lw_logger w)" and "w' = logger_setFormatter_string l pat w"
  shows "lf_error (new_LogFormatter pat) \<and> w' = w \<or>
    \<not> lf_error (new_LogFormatter pat) \<and> lw_out w' = lw_out w \<and> lm_loggers w' = lm_loggers w \<and>
    lw_logger w' = (lw_logger w)[l := (lw_logger w ! l)\<lparr>lg_formatter := Some (new_LogFormatter pat)\<rparr>] \<and>
    length (lw_appender w') = length (lw_appender w) \<and>
    (\<forall>a < length (lw_appender w). lw_appender w' ! a =
      (if a \<in> set (lg_appenders (lw_logger w ! l)) \<and> \<not> ap_hasFormatter (lw_appender w ! a)
       then (lw_appender w ! a)\<lparr>ap_formatter := Some (new_LogFormatter pat)\<rparr> else lw_appender w ! a))"
  using assms
  by (simp add: logger_setFormatter_string_def logger_setFormatter_def Let_def foldl_appenders_nth inherit_formatter_idem)
    (simp add: inherit_formatter_def)

theorem setFormatter_scope_witness:
  "lg_formatter (lw_logger (logger_setFormatter_string 0 ''%m%n'' new_LoggerManager) ! 0) = Some (new_LogFormatter ''%m%n'')"
proof -
  have "0 < length (lw_logger new_LoggerManager)" and valid: "\<not> lf_error (new_LogFormatter ''%m%n'')" by code_simp+
  from setFormatter_scope [OF this(1) refl, of "''%m%n''"] valid this(1) show ?thesis by auto
qed

end
