(* ===== verification/Yaml.thy ===== *)
theory Yaml
  imports Prelude
begin

text \<open>
  YAML documents as the configuration uses them. \<open>yaml\<close> is the data of a \<^verbatim>\<open>YAML::Node\<close>: null, a scalar, a sequence, or
  a map with scalar keys in the order of the document. The library yaml-cpp itself is an argument \<open>yaml_lib\<close>: \<^verbatim>\<open>YAML::Load\<close>
  (\<open>None\<close>: it throws), printing a node to a stream, \<^verbatim>\<open>node["key"]\<close> (\<open>None\<close>: it throws, \<open>Some None\<close>: not defined),
  \<^verbatim>\<open>as<std::string>()\<close>, the elements \<^verbatim>\<open>node[0]\<close> to \<^verbatim>\<open>node[size - 1]\<close>, and the entries that an iteration visits.
  \<open>yaml_ok\<close> says what is documented of them on nodes of the right kind, and \<open>yaml_reads\<close> that a printed node is
  loaded as it was. \<open>plain_yaml\<close> is an instance, with a text format of its own.
\<close>

subsection \<open>Nodes and the library\<close>

datatype yaml = YNull | YScalar string | YSeq "yaml list" | YMap "(string \<times> yaml) list"

record yaml_lib =
  y_load :: "string \<Rightarrow> yaml option"
  y_dump :: "yaml \<Rightarrow> string"
  y_get :: "yaml \<Rightarrow> string \<Rightarrow> yaml option option"
  y_string :: "yaml \<Rightarrow> string option"
  y_items :: "yaml \<Rightarrow> yaml list"
  y_pairs :: "yaml \<Rightarrow> (string \<times> yaml) list"

definition yaml_ok :: "yaml_lib \<Rightarrow> bool" where
  "yaml_ok Y \<longleftrightarrow> (\<forall>m k. y_get Y (YMap m) k = Some (map_of m k)) \<and> (\<forall>s. y_string Y (YScalar s) = Some s) \<and>
     (\<forall>ns. y_items Y (YSeq ns) = ns) \<and> (\<forall>m. y_pairs Y (YMap m) = m)"

definition yaml_reads :: "yaml_lib \<Rightarrow> bool" where
  "yaml_reads Y \<longleftrightarrow> (\<forall>n. y_load Y (y_dump Y n) = Some n)"

lemma yaml_okD [simp]:
  assumes "yaml_ok Y"
  shows "y_get Y (YMap m) k = Some (map_of m k)" and "y_string Y (YScalar s) = Some s"
    and "y_items Y (YSeq ns) = ns" and "y_pairs Y (YMap m) = m"
  using assms by (simp_all add: yaml_ok_def)

lemma yaml_readsD [simp]: "yaml_reads Y \<Longrightarrow> y_load Y (y_dump Y n) = Some n"
  by (simp add: yaml_reads_def)

subsection \<open>An instance\<close>

text \<open>
  A document that is a number is printed as it is. Any other scalar is printed with a dot before every character and a
  semicolon behind it, a sequence in brackets, a map in braces with its keys printed as scalars.
\<close>

fun print_text :: "string \<Rightarrow> string" where
  "print_text [] = '';''"
| "print_text (c # s) = CHR ''.'' # c # print_text s"

fun print_yaml :: "yaml \<Rightarrow> string" where
  "print_yaml YNull = ''~''"
| "print_yaml (YScalar s) = CHR ''='' # print_text s"
| "print_yaml (YSeq ns) = CHR ''['' # concat (map print_yaml ns) @ '']''"
| "print_yaml (YMap m) = CHR ''{'' # concat (map (\<lambda>(k, n). print_text k @ print_yaml n) m) @ ''}''"

fun scan_text :: "string \<Rightarrow> (string \<times> string) option" where
  "scan_text (CHR '';'' # s) = Some ([], s)"
| "scan_text (CHR ''.'' # c # s) = map_option (\<lambda>(t, r). (c # t, r)) (scan_text s)"
| "scan_text s = None"

fun scan_yaml :: "nat \<Rightarrow> string \<Rightarrow> (yaml \<times> string) option"
  and scan_seq :: "nat \<Rightarrow> string \<Rightarrow> (yaml list \<times> string) option"
  and scan_map :: "nat \<Rightarrow> string \<Rightarrow> ((string \<times> yaml) list \<times> string) option" where
  "scan_yaml 0 s = None"
| "scan_yaml (Suc f) [] = None"
| "scan_yaml (Suc f) (c # s) =
     (if c = CHR ''~'' then Some (YNull, s)
      else if c = CHR ''='' then map_option (\<lambda>(t, r). (YScalar t, r)) (scan_text s)
      else if c = CHR ''['' then map_option (\<lambda>(ns, r). (YSeq ns, r)) (scan_seq f s)
      else if c = CHR ''{'' then map_option (\<lambda>(m, r). (YMap m, r)) (scan_map f s) else None)"
| "scan_seq 0 s = None"
| "scan_seq (Suc f) s =
     (if s \<noteq> [] \<and> hd s = CHR '']'' then Some ([], tl s)
      else Option.bind (scan_yaml f s) (\<lambda>(n, r). map_option (\<lambda>(ns, r'). (n # ns, r')) (scan_seq f r)))"
| "scan_map 0 s = None"
| "scan_map (Suc f) s =
     (if s \<noteq> [] \<and> hd s = CHR ''}'' then Some ([], tl s)
      else Option.bind (scan_text s) (\<lambda>(k, r). Option.bind (scan_yaml f r) (\<lambda>(n, r').
        map_option (\<lambda>(m, r''). ((k, n) # m, r'')) (scan_map f r'))))"

definition number_text :: "string \<Rightarrow> bool" where
  "number_text s \<longleftrightarrow> s \<noteq> [] \<and> list_all (\<lambda>c. 48 \<le> (of_char c :: nat) \<and> (of_char c :: nat) \<le> 57) s"

definition plain_dump :: "yaml \<Rightarrow> string" where
  "plain_dump n = (case n of YScalar s \<Rightarrow> if number_text s then s else print_yaml n | _ \<Rightarrow> print_yaml n)"

definition plain_load :: "string \<Rightarrow> yaml option" where
  "plain_load s = (if number_text s then Some (YScalar s) else case scan_yaml (2 * length s) s of Some (n, []) \<Rightarrow> Some n | _ \<Rightarrow> None)"

definition plain_get :: "yaml \<Rightarrow> string \<Rightarrow> yaml option option" where
  "plain_get n k = (case n of YMap m \<Rightarrow> Some (map_of m k) | YScalar s \<Rightarrow> None | _ \<Rightarrow> Some None)"

definition plain_yaml :: yaml_lib where
  "plain_yaml = \<lparr>y_load = plain_load, y_dump = plain_dump, y_get = plain_get,
     y_string = (\<lambda>n. case n of YScalar s \<Rightarrow> Some s | _ \<Rightarrow> None),
     y_items = (\<lambda>n. case n of YSeq ns \<Rightarrow> ns | _ \<Rightarrow> []), y_pairs = (\<lambda>n. case n of YMap m \<Rightarrow> m | _ \<Rightarrow> [])\<rparr>"

lemma scan_print_text: "scan_text (print_text s @ r) = Some (s, r)"
  by (induction s) simp_all

lemma print_yaml_start: "\<exists>c s. print_yaml n = c # s \<and> c \<noteq> CHR '']'' \<and> c \<noteq> CHR ''}''"
  by (cases n) simp_all

lemma print_yaml_no_number: "\<not> number_text (print_yaml n)"
  by (cases n) (simp_all add: number_text_def)

lemma print_text_start: "\<exists>c s. print_text k = c # s \<and> c \<noteq> CHR ''}''"
  by (cases k) simp_all

lemma scan_print_seq:
  assumes "\<And>n f r. n \<in> set ns \<Longrightarrow> 2 * length (print_yaml n) \<le> f \<Longrightarrow> scan_yaml f (print_yaml n @ r) = Some (n, r)"
    and "2 * length (concat (map print_yaml ns)) < f"
  shows "scan_seq f (concat (map print_yaml ns) @ CHR '']'' # r) = Some (ns, r)"
  using assms
proof (induction ns arbitrary: f)
  case Nil
  then obtain g where "f = Suc g" by (auto simp: less_imp_Suc_add gr0_conv_Suc)
  then show ?case by simp
next
  case (Cons n ns)
  obtain g where f: "f = Suc g" using Cons.prems(2) by (cases f) auto
  obtain c s where c: "print_yaml n = c # s" "c \<noteq> CHR '']''" using print_yaml_start [of n] by blast
  have n: "scan_yaml g (print_yaml n @ r') = Some (n, r')" for r'
    using Cons.prems(1) [of n g r'] Cons.prems(2) f by simp
  have ns: "scan_seq g (concat (map print_yaml ns) @ CHR '']'' # r) = Some (ns, r)"
    by (rule Cons.IH) (use Cons.prems f c(1) in auto)
  have "scan_seq f (print_yaml n @ r') = Option.bind (scan_yaml g (print_yaml n @ r')) (\<lambda>(n, r). map_option (\<lambda>(ns, r'). (n # ns, r')) (scan_seq g r))"
    for r' using c f by simp
  then show ?case by (simp add: n ns)
qed

lemma scan_print_map:
  assumes "\<And>k n f r. (k, n) \<in> set m \<Longrightarrow> 2 * length (print_yaml n) \<le> f \<Longrightarrow> scan_yaml f (print_yaml n @ r) = Some (n, r)"
    and "2 * length (concat (map (\<lambda>(k, n). print_text k @ print_yaml n) m)) < f"
  shows "scan_map f (concat (map (\<lambda>(k, n). print_text k @ print_yaml n) m) @ CHR ''}'' # r) = Some (m, r)"
  using assms
proof (induction m arbitrary: f)
  case Nil
  then obtain g where "f = Suc g" by (auto simp: less_imp_Suc_add gr0_conv_Suc)
  then show ?case by simp
next
  case (Cons e m)
  obtain k n where e: "e = (k, n)" by fastforce
  obtain g where f: "f = Suc g" using Cons.prems(2) by (cases f) auto
  obtain c s where c: "print_text k = c # s" "c \<noteq> CHR ''}''" using print_text_start [of k] by blast
  have n: "scan_yaml g (print_yaml n @ r') = Some (n, r')" for r'
    using Cons.prems(1) [of k n g r'] Cons.prems(2) f e by simp
  have m: "scan_map g (concat (map (\<lambda>(k, n). print_text k @ print_yaml n) m) @ CHR ''}'' # r) = Some (m, r)"
    by (rule Cons.IH) (use Cons.prems f c(1) e in auto)
  have "scan_map f (print_text k @ r') = Option.bind (scan_text (print_text k @ r')) (\<lambda>(k, r). Option.bind (scan_yaml g r) (\<lambda>(n, r').
        map_option (\<lambda>(m, r''). ((k, n) # m, r'')) (scan_map g r')))" for r'
    using c f by simp
  then show ?case by (simp add: n m e scan_print_text)
qed

lemma scan_print_yaml: "2 * length (print_yaml n) \<le> f \<Longrightarrow> scan_yaml f (print_yaml n @ r) = Some (n, r)"
proof (induction n arbitrary: f r rule: print_yaml.induct)
  case (3 ns)
  then obtain g where "f = Suc g" by (cases f) auto
  then show ?case using scan_print_seq [of ns g r] 3 by simp
next
  case (4 m)
  then obtain g where "f = Suc g" by (cases f) auto
  then show ?case using scan_print_map [of m g r] 4 by fastforce
qed (case_tac f; simp add: scan_print_text)+

lemma plain_yaml_ok: "yaml_ok plain_yaml" "yaml_reads plain_yaml"
proof -
  show "yaml_ok plain_yaml" by (simp add: yaml_ok_def plain_yaml_def plain_get_def)
  have "plain_load (print_yaml n) = Some n" for n
    using scan_print_yaml [of n "2 * length (print_yaml n)" "[]"] print_yaml_no_number [of n] by (simp add: plain_load_def)
  moreover have "number_text s \<Longrightarrow> plain_load s = Some (YScalar s)" for s by (simp add: plain_load_def)
  ultimately have "plain_load (plain_dump n) = Some n" for n by (auto simp: plain_dump_def simp del: print_yaml.simps split: yaml.split)
  then show "yaml_reads plain_yaml" by (simp add: yaml_reads_def plain_yaml_def)
qed

end
