(* ===== verification/Config_Cast.thy ===== *)
theory Config_Cast
  imports Yaml StdMap Text "HOL-Library.Char_ord" "HOL-Library.Multiset"
begin

text \<open>
  The \<^verbatim>\<open>LexicalCast\<close> templates of \<^verbatim>\<open>code/config.hpp\<close>, which convert the values of configuration variables from and to
  text. \<open>None\<close>: the conversion throws. The conversion of a single value (\<^verbatim>\<open>boost::lexical_cast\<close>, or a specialisation
  of a class) is an argument, and so is the place an unordered container puts a new element at. The theorem
  at the end says that containers are read back as they were printed, however they are nested.
\<close>

subsection \<open>The templates\<close>

record 'v cast =
  c_from :: "string \<Rightarrow> 'v option"
  c_to :: "'v \<Rightarrow> string option"

definition elems_from :: "yaml_lib \<Rightarrow> 'v cast \<Rightarrow> string \<Rightarrow> 'v list option" where
  "elems_from Y c v = Option.bind (y_load Y v) (\<lambda>node. those (map (\<lambda>n. c_from c (y_dump Y n)) (y_items Y node)))"

definition elems_to :: "yaml_lib \<Rightarrow> 'v cast \<Rightarrow> 'v list \<Rightarrow> string option" where
  "elems_to Y c vs = map_option (\<lambda>ns. y_dump Y (YSeq ns)) (those (map (\<lambda>v. Option.bind (c_to c v) (y_load Y)) vs))"

definition vector_cast :: "yaml_lib \<Rightarrow> 'v cast \<Rightarrow> 'v list cast" where
  "vector_cast Y c = \<lparr>c_from = elems_from Y c, c_to = elems_to Y c\<rparr>"

definition list_cast :: "yaml_lib \<Rightarrow> 'v cast \<Rightarrow> 'v list cast" where
  "list_cast Y c = \<lparr>c_from = elems_from Y c, c_to = elems_to Y c\<rparr>"

definition set_cast :: "('v \<Rightarrow> 'v \<Rightarrow> bool) \<Rightarrow> yaml_lib \<Rightarrow> 'v cast \<Rightarrow> 'v list cast" where
  "set_cast lt Y c = \<lparr>c_from = (\<lambda>v. map_option (foldl (\<lambda>st x. fst (set_insert lt x st)) []) (elems_from Y c v)), c_to = elems_to Y c\<rparr>"

text \<open>
  An unordered container is the list of its elements in the order of an iteration. \<open>place\<close> says where the
  container puts a new element; it is used only for an element that is not there yet. The template for unordered
  sets collects the elements in a set of \<^verbatim>\<open>int\<close>, so this is the only element type it can be used with.
\<close>

definition unordered_insert :: "('e \<Rightarrow> 'k) \<Rightarrow> ('e \<Rightarrow> 'e list \<Rightarrow> 'e list) \<Rightarrow> 'e \<Rightarrow> 'e list \<Rightarrow> 'e list" where
  "unordered_insert key place x xs = (if key x \<in> key ` set xs then xs else place x xs)"

definition unordered_set_cast :: "(int \<Rightarrow> int list \<Rightarrow> int list) \<Rightarrow> yaml_lib \<Rightarrow> int cast \<Rightarrow> int list cast" where
  "unordered_set_cast place Y c =
     \<lparr>c_from = (\<lambda>v. map_option (foldl (\<lambda>st x. unordered_insert id place x st) []) (elems_from Y c v)), c_to = elems_to Y c\<rparr>"

definition entries_from :: "yaml_lib \<Rightarrow> 'v cast \<Rightarrow> string \<Rightarrow> (string \<times> 'v) list option" where
  "entries_from Y c v = Option.bind (y_load Y v) (\<lambda>node.
     those (map (\<lambda>(k, n). map_option (Pair k) (c_from c (y_dump Y n))) (y_pairs Y node)))"

definition entries_to :: "yaml_lib \<Rightarrow> 'v cast \<Rightarrow> (string \<times> 'v) list \<Rightarrow> string option" where
  "entries_to Y c m = map_option (\<lambda>ns. y_dump Y (YMap ns))
     (those (map (\<lambda>(k, v). map_option (Pair k) (Option.bind (c_to c v) (y_load Y))) m))"

text \<open>\<^verbatim>\<open>insert\<close> of a map keeps an entry that is already there.\<close>

definition map_insert :: "('k \<Rightarrow> 'k \<Rightarrow> bool) \<Rightarrow> 'k \<times> 'v \<Rightarrow> ('k \<times> 'v) list \<Rightarrow> ('k \<times> 'v) list" where
  "map_insert lt e m = (if map_get lt m (fst e) = None then map_put lt (fst e) (snd e) m else m)"

definition map_cast :: "yaml_lib \<Rightarrow> 'v cast \<Rightarrow> (string \<times> 'v) list cast" where
  "map_cast Y c = \<lparr>c_from = (\<lambda>v. map_option (foldl (\<lambda>mp e. map_insert lex_less e mp) []) (entries_from Y c v)), c_to = entries_to Y c\<rparr>"

definition unordered_map_cast ::
  "(string \<times> 'v \<Rightarrow> (string \<times> 'v) list \<Rightarrow> (string \<times> 'v) list) \<Rightarrow> yaml_lib \<Rightarrow> 'v cast \<Rightarrow> (string \<times> 'v) list cast" where
  "unordered_map_cast place Y c =
     \<lparr>c_from = (\<lambda>v. map_option (foldl (\<lambda>mp e. unordered_insert fst place e mp) []) (entries_from Y c v)), c_to = entries_to Y c\<rparr>"

subsection \<open>Round trips\<close>

text \<open>A conversion that YAML carries: the text of a value loads as a node whose text converts back.\<close>

definition cast_ok :: "yaml_lib \<Rightarrow> 'v cast \<Rightarrow> ('v \<Rightarrow> bool) \<Rightarrow> bool" where
  "cast_ok Y c P \<longleftrightarrow> (\<forall>v. P v \<longrightarrow> (\<exists>s n. c_to c v = Some s \<and> y_load Y s = Some n \<and> c_from c (y_dump Y n) = Some v \<and> c_from c s = Some v))"

definition place_ok :: "('e \<Rightarrow> 'e list \<Rightarrow> 'e list) \<Rightarrow> bool" where
  "place_ok place \<longleftrightarrow> (\<forall>x xs. \<exists>i. place x xs = take i xs @ x # drop i xs)"

lemma those_Some_iff: "those xs = Some ys \<longleftrightarrow> xs = map Some ys"
  by (induction xs arbitrary: ys) (auto split: option.splits)

lemma cast_nodes:
  assumes "cast_ok Y c P" and "list_all P vs"
  obtains ns where "map (\<lambda>v. Option.bind (c_to c v) (y_load Y)) vs = map Some ns"
    and "map (\<lambda>n. c_from c (y_dump Y n)) ns = map Some vs"
  using assms(2)
proof (induction vs arbitrary: thesis)
  case (Cons v vs)
  from assms(1) Cons.prems(2) obtain s n where "c_to c v = Some s" "y_load Y s = Some n" "c_from c (y_dump Y n) = Some v"
    unfolding cast_ok_def by (metis list.pred_inject(2))
  moreover from Cons.IH Cons.prems(2) obtain ns where "map (\<lambda>v. Option.bind (c_to c v) (y_load Y)) vs = map Some ns"
    "map (\<lambda>n. c_from c (y_dump Y n)) ns = map Some vs" by auto
  ultimately show ?case by (intro Cons.prems(1) [of "n # ns"]) simp_all
qed simp

lemma elems_cast:
  assumes "yaml_ok Y" and "yaml_reads Y" and "cast_ok Y c P" and "list_all P vs"
  obtains n where "elems_to Y c vs = Some (y_dump Y n)" and "elems_from Y c (y_dump Y n) = Some vs"
proof -
  obtain ns where "map (\<lambda>v. Option.bind (c_to c v) (y_load Y)) vs = map Some ns" "map (\<lambda>n. c_from c (y_dump Y n)) ns = map Some vs"
    using cast_nodes [OF assms(3,4)] .
  then show ?thesis using assms(1,2)
    by (intro that [of "YSeq ns"]) (simp_all add: elems_to_def elems_from_def those_Some_iff [THEN iffD2])
qed

lemma entries_cast:
  assumes "yaml_ok Y" and "yaml_reads Y" and "cast_ok Y c P" and "list_all (\<lambda>(k, v). P v) m"
  obtains n where "entries_to Y c m = Some (y_dump Y n)" and "entries_from Y c (y_dump Y n) = Some m"
proof -
  have "list_all P (map snd m)" using assms(4) by (simp add: list_all_iff case_prod_beta)
  then obtain ns where ns: "map (\<lambda>v. Option.bind (c_to c v) (y_load Y)) (map snd m) = map Some ns"
    "map (\<lambda>n. c_from c (y_dump Y n)) ns = map Some (map snd m)"
    using cast_nodes [OF assms(3)] by blast
  then have len: "length ns = length m" by (metis length_map)
  have "map (\<lambda>(k, v). map_option (Pair k) (Option.bind (c_to c v) (y_load Y))) m = map Some (zip (map fst m) ns)"
    using ns(1) len by (intro nth_equalityI) (auto simp: list_eq_iff_nth_eq case_prod_beta)
  moreover have "map (\<lambda>(k, n). map_option (Pair k) (c_from c (y_dump Y n))) (zip (map fst m) ns) = map Some m"
    using ns(2) len by (intro nth_equalityI) (auto simp: list_eq_iff_nth_eq)
  ultimately show ?thesis using assms(1,2)
    by (intro that [of "YMap (zip (map fst m) ns)"]) (simp_all add: entries_to_def entries_from_def those_Some_iff [THEN iffD2])
qed

text \<open>Inserting the elements in their order rebuilds an ordered container.\<close>

lemma set_insert_last: "list_all (\<lambda>y. lt y x) xs \<Longrightarrow> set_insert lt x xs = (xs @ [x], length xs)"
  by (simp add: set_insert_def lower_bound_def list_all_iff takeWhile_eq_all_conv [THEN iffD2])

lemma set_rebuild: "sorted_wrt lt (ys @ xs) \<Longrightarrow> foldl (\<lambda>st x. fst (set_insert lt x st)) ys xs = ys @ xs"
proof (induction xs arbitrary: ys)
  case (Cons x xs)
  then have "list_all (\<lambda>y. lt y x) ys" by (auto simp: sorted_wrt_append list_all_iff)
  then show ?case using Cons.IH [of "ys @ [x]"] Cons.prems by (simp add: set_insert_last)
qed simp

lemma map_insert_last:
  assumes "\<And>a b. lt a b \<Longrightarrow> \<not> lt b a" and "list_all (\<lambda>d. lt (fst d) (fst e)) m"
  shows "map_insert lt e m = m @ [e]"
proof -
  have "map_get lt m (fst e) = None \<and> map_put lt (fst e) (snd e) m = m @ [e]" using assms(2) by (induction m) auto
  then show ?thesis by (simp add: map_insert_def)
qed

lemma map_rebuild: "map_ok lex_less (ys @ xs) \<Longrightarrow> foldl (\<lambda>mp e. map_insert lex_less e mp) ys xs = ys @ xs"
proof (induction xs arbitrary: ys)
  case (Cons x xs)
  then have "list_all (\<lambda>d. lex_less (fst d) (fst x)) ys" by (auto simp: map_ok_def sorted_wrt_append list_all_iff)
  then have "map_insert lex_less x ys = ys @ [x]" by (rule map_insert_last [rotated]) (metis lex_less_irrefl lex_less_trans)
  then show ?case using Cons.IH [of "ys @ [x]"] Cons.prems by simp
qed simp

text \<open>Inserting distinct elements into an unordered container gives a container with the same elements.\<close>

lemma unordered_rebuild:
  assumes "place_ok place"
  shows "distinct (map key (ys @ xs)) \<Longrightarrow> mset (foldl (\<lambda>st x. unordered_insert key place x st) ys xs) = mset ys + mset xs"
proof (induction xs arbitrary: ys)
  case (Cons x xs)
  from assms obtain i where "place x ys = take i ys @ x # drop i ys" by (auto simp: place_ok_def)
  then have ins: "unordered_insert key place x ys = take i ys @ x # drop i ys"
    using Cons.prems by (auto simp: unordered_insert_def)
  have m: "mset (take i ys @ x # drop i ys) = add_mset x (mset ys)"
    by (metis append_take_drop_id mset_append mset.simps(2) union_mset_add_mset_right)
  then have "mset (map key ((take i ys @ x # drop i ys) @ xs)) = mset (map key (ys @ x # xs))"
    by (metis append.assoc append_Cons mset_append mset_map union_mset_add_mset_left union_mset_add_mset_right mset.simps(2))
  with Cons.prems have "distinct (map key ((take i ys @ x # drop i ys) @ xs))" by (metis mset_eq_imp_distinct_iff)
  from Cons.IH [OF this] show ?case unfolding m by (simp add: ins)
qed simp

lemma cast_okI:
  assumes "\<And>v. P v \<Longrightarrow> \<exists>n. c_to c v = Some (y_dump Y n) \<and> c_from c (y_dump Y n) = Some v" and "yaml_reads Y"
  shows "cast_ok Y c P"
  unfolding cast_ok_def using assms(1) assms(2) [THEN yaml_readsD] by metis

text \<open>C24. The conversions of containers read back what they print: if every element of a container converts to a text and back
  through YAML, then so does the vector, the list, the ordered set and the ordered map of such elements, and
  therefore every nesting of them; an unordered map, and an unordered set of numbers, come back with the same
  elements, in some order.\<close>

theorem containers_roundtrip:
  assumes "yaml_ok Y" and "yaml_reads Y" and "cast_ok Y c P" and "cast_ok Y d Q" and "place_ok place" and "place_ok place'"
  shows "cast_ok Y (vector_cast Y c) (list_all P) \<and> cast_ok Y (list_cast Y c) (list_all P) \<and>
    cast_ok Y (set_cast lt Y c) (\<lambda>vs. list_all P vs \<and> sorted_wrt lt vs) \<and>
    cast_ok Y (map_cast Y c) (\<lambda>m. list_all (\<lambda>(k, v). P v) m \<and> map_ok lex_less m) \<and>
    (\<forall>vs. list_all Q vs \<and> distinct vs \<longrightarrow>
      (\<exists>s ws. c_to (unordered_set_cast place' Y d) vs = Some s \<and> c_from (unordered_set_cast place' Y d) s = Some ws \<and> mset ws = mset vs)) \<and>
    (\<forall>m. list_all (\<lambda>(k, v). P v) m \<and> distinct (map fst m) \<longrightarrow>
      (\<exists>s m'. c_to (unordered_map_cast place Y c) m = Some s \<and> c_from (unordered_map_cast place Y c) s = Some m' \<and> mset m' = mset m))"
proof (intro conjI allI impI; (elim conjE)?)
  note e = elems_cast [OF assms(1-3)]
  show "cast_ok Y (vector_cast Y c) (list_all P)" "cast_ok Y (list_cast Y c) (list_all P)"
    by (rule cast_okI [OF _ assms(2)]; auto simp: vector_cast_def list_cast_def elim: e)+
  show "cast_ok Y (set_cast lt Y c) (\<lambda>vs. list_all P vs \<and> sorted_wrt lt vs)"
    by (rule cast_okI [OF _ assms(2)]) (use set_rebuild [of lt "[]"] in \<open>auto simp: set_cast_def elim!: e\<close>)
  note f = entries_cast [OF assms(1-3)]
  show "cast_ok Y (map_cast Y c) (\<lambda>m. list_all (\<lambda>(k, v). P v) m \<and> map_ok lex_less m)"
    by (rule cast_okI [OF _ assms(2)]) (use map_rebuild [of "[]"] in \<open>auto simp: map_cast_def elim!: f\<close>)
next
  fix vs
  assume vs: "list_all Q vs" "distinct vs"
  obtain n where "elems_to Y d vs = Some (y_dump Y n)" "elems_from Y d (y_dump Y n) = Some vs"
    using elems_cast [OF assms(1,2,4) vs(1)] .
  with unordered_rebuild [OF assms(6), of id "[]" vs] vs(2)
  show "\<exists>s ws. c_to (unordered_set_cast place' Y d) vs = Some s \<and> c_from (unordered_set_cast place' Y d) s = Some ws \<and> mset ws = mset vs"
    by (simp add: unordered_set_cast_def)
next
  fix m :: "(string \<times> 'a) list"
  assume m: "list_all (\<lambda>(k, v). P v) m" "distinct (map fst m)"
  obtain n where "entries_to Y c m = Some (y_dump Y n)" "entries_from Y c (y_dump Y n) = Some m"
    using entries_cast [OF assms(1-3) m(1)] .
  with unordered_rebuild [OF assms(5), of fst "[]" m] m(2)
  show "\<exists>s m'. c_to (unordered_map_cast place Y c) m = Some s \<and> c_from (unordered_map_cast place Y c) s = Some m' \<and> mset m' = mset m"
    by (simp add: unordered_map_cast_def)
qed

text \<open>Numbers in decimal.\<close>

definition nat_cast :: "int cast" where
  "nat_cast = \<lparr>c_from = (\<lambda>s. if number_text s then Some (int (base_val 10 s)) else None), c_to = (\<lambda>i. Some (dec_string (nat i)))\<rparr>"

lemma base_string_number: "number_text (base_string 10 n)"
proof (induction n rule: less_induct)
  case (less n)
  have "number_text [digit (n mod 10)]" by (simp add: number_text_def digit_def)
  moreover have "number_text (base_string 10 (n div 10))" if "10 \<le> n" using less that by simp
  ultimately show ?case by (subst base_string.simps) (auto simp: number_text_def)
qed

lemma nat_cast_ok: "cast_ok plain_yaml nat_cast (\<lambda>i. 0 \<le> i)"
  using base_string_number base_val_numbers(1)
  by (simp add: cast_ok_def nat_cast_def plain_yaml_def plain_load_def plain_dump_def dec_string_def)

theorem containers_roundtrip_witness: "cast_ok plain_yaml (vector_cast plain_yaml (map_cast plain_yaml nat_cast))
   (list_all (\<lambda>m. list_all (\<lambda>(k, v). 0 \<le> v) m \<and> map_ok lex_less m))"
proof -
  have place: "place_ok (\<lambda>x xs. xs @ [x])" by (metis (no_types) place_ok_def append_Nil2 drop_all order_refl take_all)
  have "cast_ok plain_yaml (map_cast plain_yaml nat_cast) (\<lambda>m. list_all (\<lambda>(k, v). 0 \<le> v) m \<and> map_ok lex_less m)"
    using containers_roundtrip [OF plain_yaml_ok nat_cast_ok nat_cast_ok place place] by blast
  from containers_roundtrip [OF plain_yaml_ok this nat_cast_ok place place] show ?thesis by blast
qed

end
