(* ===== verification/Config.thy ===== *)
theory Config
  imports Config_Cast
begin

text \<open>
  The configuration of \<^verbatim>\<open>code/config.hpp\<close> and \<^verbatim>\<open>code/config.cc\<close>. The variables of all types live in one store; \<open>'v\<close> is a
  type that holds the values of all of them, and the template parameters of a variable (the name of its type,
  its conversions, its equality) are a field of it. A listener acts on the rest of the program, a state \<open>'w\<close>: it returns,
  throws, or crashes. What the configuration itself writes to the root logger is not part of the model. An
  operation under the lock of a variable is one step; \<^verbatim>\<open>setValue\<close> takes the lock twice and is the composition of two, one that calls the listeners
  under the read lock and one that stores the value under the write lock. The order in which an unordered map
  visits the listeners is an argument of the operation that adds one.
\<close>

subsection \<open>Variables\<close>

datatype 'w outcome = Done 'w | Threw 'w | Crashed

type_synonym ('v, 'w) on_change_callback = "'v \<Rightarrow> 'v \<Rightarrow> 'w \<Rightarrow> 'w outcome"

record 'v config_type =
  ct_name :: string
  ct_cast :: "'v cast"
  ct_eq :: "'v \<Rightarrow> 'v \<Rightarrow> bool"

record ('v, 'w) config_var =
  cv_name :: string
  cv_description :: string
  cv_type :: "'v config_type"
  cv_value :: 'v
  cv_cbs :: "(u64 \<times> ('v, 'w) on_change_callback) list"

definition tolower_char :: "char \<Rightarrow> char" where
  "tolower_char c = (let n = of_char c :: nat in if 65 \<le> n \<and> n \<le> 90 then char_of (n + 32) else c)"

definition new_ConfigVar :: "'v config_type \<Rightarrow> string \<Rightarrow> 'v \<Rightarrow> string \<Rightarrow> ('v, 'w) config_var" where
  "new_ConfigVar T name default_value description =
     \<lparr>cv_name = map tolower_char name, cv_description = description, cv_type = T, cv_value = default_value, cv_cbs = []\<rparr>"

definition var_toString :: "('v, 'w) config_var \<Rightarrow> string" where
  "var_toString v = (case c_to (ct_cast (cv_type v)) (cv_value v) of Some s \<Rightarrow> s | None \<Rightarrow> [])"

fun run_cbs :: "(u64 \<times> ('v, 'w) on_change_callback) list \<Rightarrow> 'v \<Rightarrow> 'v \<Rightarrow> 'w \<Rightarrow> 'w outcome" where
  "run_cbs [] old new w = Done w"
| "run_cbs ((key, cb) # cbs) old new w = (case cb old new w of Done w' \<Rightarrow> run_cbs cbs old new w' | r \<Rightarrow> r)"

text \<open>The two parts of \<^verbatim>\<open>setValue\<close>: \<open>None\<close> means that the value is the present one and the function returns. Between the parts
  no lock is held.\<close>

definition setValue_notify :: "'v \<Rightarrow> ('v, 'w) config_var \<Rightarrow> 'w \<Rightarrow> 'w outcome option" where
  "setValue_notify value v w =
     (if ct_eq (cv_type v) value (cv_value v) then None else Some (run_cbs (cv_cbs v) (cv_value v) value w))"

definition setValue_store :: "'v \<Rightarrow> ('v, 'w) config_var \<Rightarrow> ('v, 'w) config_var" where
  "setValue_store value v = v\<lparr>cv_value := value\<rparr>"

definition setValue :: "'v \<Rightarrow> ('v, 'w) config_var \<Rightarrow> 'w \<Rightarrow> ('v, 'w) config_var \<times> 'w outcome" where
  "setValue value v w = (case setValue_notify value v w of
       None \<Rightarrow> (v, Done w)
     | Some (Done w') \<Rightarrow> (setValue_store value v, Done w')
     | Some r \<Rightarrow> (v, r))"

text \<open>The result is whether the value was set; \<open>None\<close>: the program crashed in a listener.\<close>

definition fromString :: "string \<Rightarrow> ('v, 'w) config_var \<Rightarrow> 'w \<Rightarrow> (bool \<times> ('v, 'w) config_var \<times> 'w) option" where
  "fromString val v w = (case c_from (ct_cast (cv_type v)) val of
       None \<Rightarrow> Some (False, v, w)
     | Some value \<Rightarrow> (case setValue value v w of
           (v', Done w') \<Rightarrow> Some (True, v', w')
         | (v', Threw w') \<Rightarrow> Some (False, v', w')
         | (v', Crashed) \<Rightarrow> None))"

text \<open>\<open>s_fun_id\<close> is the counter that the variables of one type share.\<close>

definition addListener ::
  "((u64 \<times> ('v, 'w) on_change_callback) list \<Rightarrow> (u64 \<times> ('v, 'w) on_change_callback) list) \<Rightarrow> ('v, 'w) on_change_callback \<Rightarrow>
   u64 \<Rightarrow> ('v, 'w) config_var \<Rightarrow> u64 \<times> u64 \<times> ('v, 'w) config_var" where
  "addListener arrange cb s_fun_id v =
     (let key = s_fun_id + 1 in (key, key, v\<lparr>cv_cbs := arrange ((key, cb) # filter (\<lambda>e. fst e \<noteq> key) (cv_cbs v))\<rparr>))"

definition delListener :: "u64 \<Rightarrow> ('v, 'w) config_var \<Rightarrow> ('v, 'w) config_var" where
  "delListener key v = v\<lparr>cv_cbs := filter (\<lambda>e. fst e \<noteq> key) (cv_cbs v)\<rparr>"

definition clearListener :: "('v, 'w) config_var \<Rightarrow> ('v, 'w) config_var" where
  "clearListener v = v\<lparr>cv_cbs := []\<rparr>"

definition getListener :: "u64 \<Rightarrow> ('v, 'w) config_var \<Rightarrow> ('v, 'w) on_change_callback option" where
  "getListener key v = map_of (cv_cbs v) key"

subsection \<open>The registry\<close>

record ('v, 'w) config =
  cfg_vars :: "('v, 'w) config_var list"
  cfg_datas :: "string \<rightharpoonup> nat"

datatype cfg_error = InvalidArgument string

definition valid_name :: "string \<Rightarrow> bool" where
  "valid_name name \<longleftrightarrow> list_all (\<lambda>c. c \<in> set ''abcdefghijklmnopqrstuvwxyz._12345678'') name"

definition Lookup_typed :: "'v config_type \<Rightarrow> string \<Rightarrow> ('v, 'w) config \<Rightarrow> nat option" where
  "Lookup_typed T name cfg = (case cfg_datas cfg name of
       None \<Rightarrow> None
     | Some i \<Rightarrow> if ct_name (cv_type (cfg_vars cfg ! i)) = ct_name T then Some i else None)"

definition Lookup_default ::
  "'v config_type \<Rightarrow> string \<Rightarrow> 'v \<Rightarrow> string \<Rightarrow> ('v, 'w) config \<Rightarrow> cfg_error + nat \<times> ('v, 'w) config" where
  "Lookup_default T name default_value description cfg = (case Lookup_typed T name cfg of
       Some i \<Rightarrow> Inr (i, cfg)
     | None \<Rightarrow>
         if \<not> valid_name name then Inl (InvalidArgument name)
         else let i = length (cfg_vars cfg) in
           Inr (i, cfg\<lparr>cfg_vars := cfg_vars cfg @ [new_ConfigVar T name default_value description],
                       cfg_datas := (cfg_datas cfg)(name \<mapsto> i)\<rparr>))"

definition LookupBase :: "string \<Rightarrow> ('v, 'w) config \<Rightarrow> nat option" where
  "LookupBase name cfg = cfg_datas cfg name"

subsection \<open>Loading a document\<close>

definition member_name :: "string \<Rightarrow> string \<Rightarrow> string" where
  "member_name prefix k = (if prefix = [] then k else prefix @ ''.'' @ k)"

fun ListAllMember :: "string \<Rightarrow> yaml \<Rightarrow> (string \<times> yaml) list" where
  "ListAllMember prefix (YMap m) =
     (if \<not> valid_name prefix then []
      else (prefix, YMap m) # concat (map (\<lambda>(k, n). ListAllMember (member_name prefix k) n) m))"
| "ListAllMember prefix node = (if \<not> valid_name prefix then [] else [(prefix, node)])"

definition node_text :: "yaml_lib \<Rightarrow> yaml \<Rightarrow> string" where
  "node_text Y node = (case node of YScalar s \<Rightarrow> s | _ \<Rightarrow> y_dump Y node)"

definition load_member :: "yaml_lib \<Rightarrow> string \<times> yaml \<Rightarrow> ('v, 'w) config \<times> 'w \<Rightarrow> (('v, 'w) config \<times> 'w) option" where
  "load_member Y e s = (case (e, s) of ((key, node), (cfg, w)) \<Rightarrow>
     if key = [] then Some (cfg, w)
     else case LookupBase (map tolower_char key) cfg of
            None \<Rightarrow> Some (cfg, w)
          | Some i \<Rightarrow> (case fromString (node_text Y node) (cfg_vars cfg ! i) w of
                None \<Rightarrow> None
              | Some (_, v, w') \<Rightarrow> Some (cfg\<lparr>cfg_vars := (cfg_vars cfg)[i := v]\<rparr>, w')))"

fun load_members :: "yaml_lib \<Rightarrow> (string \<times> yaml) list \<Rightarrow> ('v, 'w) config \<times> 'w \<Rightarrow> (('v, 'w) config \<times> 'w) option" where
  "load_members Y [] s = Some s"
| "load_members Y (e # es) s = Option.bind (load_member Y e s) (load_members Y es)"

definition LoadFromYaml :: "yaml_lib \<Rightarrow> yaml \<Rightarrow> ('v, 'w) config \<times> 'w \<Rightarrow> (('v, 'w) config \<times> 'w) option" where
  "LoadFromYaml Y root s = load_members Y (ListAllMember [] root) s"

text \<open>\<^verbatim>\<open>Visit\<close> calls a function on every variable, in the order \<open>names\<close> of the unordered map.\<close>

definition Visit :: "string list \<Rightarrow> (('v, 'w) config_var \<Rightarrow> 'a \<Rightarrow> 'a) \<Rightarrow> ('v, 'w) config \<Rightarrow> 'a \<Rightarrow> 'a" where
  "Visit names cb cfg a = foldl (\<lambda>a name. case cfg_datas cfg name of Some i \<Rightarrow> cb (cfg_vars cfg ! i) a | None \<Rightarrow> a) a names"

subsection \<open>A change of a value\<close>

lemma setValue_eq:
  "setValue value v w =
     (if ct_eq (cv_type v) value (cv_value v) then (v, Done w)
      else case run_cbs (cv_cbs v) (cv_value v) value w of
             Done w' \<Rightarrow> (v\<lparr>cv_value := value\<rparr>, Done w')
           | r \<Rightarrow> (v, r))"
  by (simp add: setValue_def setValue_notify_def setValue_store_def split: outcome.split)

end
