(* ===== verification/Log_Config.thy ===== *)
theory Log_Config
  imports Logger_Props Config
begin

text \<open>
  The configuration of the loggers in \<^verbatim>\<open>code/log.cc\<close>: the definitions of loggers and appenders with their conversions from and
  to YAML, the YAML text of the loggers themselves, and the listener of the variable \<^verbatim>\<open>logs\<close>, which makes the loggers
  follow its value. \<open>None\<close> in a conversion: it throws.
\<close>

subsection \<open>Definitions\<close>

record log_appender_define =
  lad_type :: int
  lad_level :: int
  lad_file :: string
  lad_formatter :: string

record log_define =
  ld_name :: string
  ld_level :: int
  ld_formatter :: string
  ld_appenders :: "log_appender_define list"

definition new_LogAppenderDefine :: log_appender_define where
  "new_LogAppenderDefine = \<lparr>lad_type = 0, lad_level = UNKNOW, lad_file = [], lad_formatter = []\<rparr>"

definition lad_eq :: "log_appender_define \<Rightarrow> log_appender_define \<Rightarrow> bool" where
  "lad_eq a b \<longleftrightarrow> lad_type a = lad_type b \<and> lad_level a = lad_level b \<and> lad_file a = lad_file b"

definition ld_eq :: "log_define \<Rightarrow> log_define \<Rightarrow> bool" where
  "ld_eq a b \<longleftrightarrow> ld_name a = ld_name b \<and> ld_level a = ld_level b \<and> ld_formatter a = ld_formatter b \<and>
     list_all2 lad_eq (ld_appenders a) (ld_appenders b)"

definition ld_less :: "log_define \<Rightarrow> log_define \<Rightarrow> bool" where
  "ld_less a b = lex_less (ld_name a) (ld_name b)"

definition ld_isValid :: "log_define \<Rightarrow> bool" where
  "ld_isValid a \<longleftrightarrow> ld_name a \<noteq> []"

subsection \<open>Conversions\<close>

text \<open>\<^verbatim>\<open>node[key].IsDefined() ? node[key].as<std::string>() : ...\<close>\<close>

definition field_or :: "yaml_lib \<Rightarrow> yaml \<Rightarrow> string \<Rightarrow> string \<Rightarrow> string option" where
  "field_or Y node key dflt = Option.bind (y_get Y node key) (\<lambda>f. case f of None \<Rightarrow> Some dflt | Some n \<Rightarrow> y_string Y n)"

text \<open>One element of the list of appenders; \<open>Some None\<close>: it is skipped.\<close>

definition appender_define_from :: "yaml_lib \<Rightarrow> yaml \<Rightarrow> log_appender_define option option" where
  "appender_define_from Y ap = Option.bind (y_get Y ap ''type'') (\<lambda>t. case t of
       None \<Rightarrow> Some None
     | Some tn \<Rightarrow> Option.bind (y_string Y tn) (\<lambda>type.
         if type = ''FileLogAppender'' then
           Option.bind (y_get Y ap ''file'') (\<lambda>f. case f of
               None \<Rightarrow> Some None
             | Some n \<Rightarrow> Option.bind (y_string Y n) (\<lambda>file. Option.bind (field_or Y ap ''formatter'' []) (\<lambda>fmt.
                 Some (Some (new_LogAppenderDefine\<lparr>lad_type := 1, lad_file := file, lad_formatter := fmt\<rparr>)))))
         else if type = ''StdoutLogAppender'' then
           Option.bind (field_or Y ap ''formatter'' []) (\<lambda>fmt. Some (Some (new_LogAppenderDefine\<lparr>lad_type := 2, lad_formatter := fmt\<rparr>)))
         else Some None))"

definition log_define_from :: "yaml_lib \<Rightarrow> string \<Rightarrow> log_define option" where
  "log_define_from Y v = Option.bind (y_load Y v) (\<lambda>node. Option.bind (y_get Y node ''name'') (\<lambda>nm. case nm of
       None \<Rightarrow> None
     | Some n \<Rightarrow> Option.bind (y_string Y n) (\<lambda>name. Option.bind (field_or Y node ''level'' []) (\<lambda>level.
         Option.bind (field_or Y node ''formatter'' []) (\<lambda>fmt. Option.bind (y_get Y node ''appenders'') (\<lambda>aps.
           Option.bind (case aps of None \<Rightarrow> Some [] | Some apn \<Rightarrow> those (map (appender_define_from Y) (y_items Y apn))) (\<lambda>ads.
             Some \<lparr>ld_name = name, ld_level = fromsStringToLevel level, ld_formatter = fmt,
                   ld_appenders = map the (filter (\<lambda>a. a \<noteq> None) ads)\<rparr>)))))))"

definition opt_field :: "bool \<Rightarrow> string \<Rightarrow> string \<Rightarrow> (string \<times> yaml) list" where
  "opt_field b key s = (if b then [(key, YScalar s)] else [])"

definition appender_define_node :: "log_appender_define \<Rightarrow> yaml" where
  "appender_define_node ap =
     (let fields = (if lad_type ap = 1 then [(''type'', YScalar ''FileLogAppender''), (''file'', YScalar (lad_file ap))]
                    else opt_field (lad_type ap = 2) ''type'' ''StdoutLogAppender'') @
                   opt_field (lad_level ap \<noteq> UNKNOW) ''level'' (LogLevelToString (lad_level ap)) @
                   opt_field (lad_formatter ap \<noteq> []) ''formatter'' (lad_formatter ap)
      in if fields = [] then YNull else YMap fields)"

definition log_define_node :: "log_define \<Rightarrow> yaml" where
  "log_define_node i =
     YMap ([(''name'', YScalar (ld_name i))] @
           opt_field (ld_level i \<noteq> UNKNOW) ''level'' (LogLevelToString (ld_level i)) @
           opt_field (ld_formatter i \<noteq> []) ''formatter'' (ld_formatter i) @
           (if ld_appenders i = [] then [] else [(''appenders'', YSeq (map appender_define_node (ld_appenders i)))]))"

definition log_define_cast :: "yaml_lib \<Rightarrow> log_define cast" where
  "log_define_cast Y = \<lparr>c_from = log_define_from Y, c_to = (\<lambda>i. Some (y_dump Y (log_define_node i)))\<rparr>"

subsection \<open>The text of the loggers\<close>

definition appender_node :: "log_appender \<Rightarrow> yaml" where
  "appender_node ap =
     YMap ((case ap_kind ap of
              StdoutAppender \<Rightarrow> [(''type'', YScalar ''StdoutLogAppender'')]
            | FileLogAppender filename _ \<Rightarrow> [(''type'', YScalar ''FileLogAppender''), (''file'', YScalar filename)]) @
           [(''level'', YScalar (LogLevelToString (ap_level ap)))] @
           (case ap_formatter ap of Some f \<Rightarrow> opt_field (ap_hasFormatter ap) ''formatter'' (lf_pattern f) | None \<Rightarrow> []))"

definition appender_toYamlString :: "yaml_lib \<Rightarrow> log_appender \<Rightarrow> string" where
  "appender_toYamlString Y ap = y_dump Y (appender_node ap)"

definition logger_toYamlString :: "yaml_lib \<Rightarrow> log_world \<Rightarrow> nat \<Rightarrow> string option" where
  "logger_toYamlString Y w l = (let lg = lw_logger w ! l in
     map_option (\<lambda>aps. y_dump Y (YMap ([(''name'', YScalar (lg_name lg)), (''level'', YScalar (LogLevelToString (lg_level lg)))] @
        (case lg_formatter lg of Some f \<Rightarrow> [(''formatter'', YScalar (lf_pattern f))] | None \<Rightarrow> []) @
        (if aps = [] then [] else [(''appenders'', YSeq aps)]))))
       (those (map (\<lambda>a. y_load Y (appender_toYamlString Y (lw_appender w ! a))) (lg_appenders lg))))"

text \<open>\<open>names\<close> are the keys of the unordered map of the manager in the order of an iteration.\<close>

definition manager_toYamlString :: "yaml_lib \<Rightarrow> string list \<Rightarrow> log_world \<Rightarrow> string option" where
  "manager_toYamlString Y names w =
     map_option (\<lambda>ns. y_dump Y (if ns = [] then YNull else YSeq ns))
       (those (map (\<lambda>l. Option.bind (logger_toYamlString Y w l) (y_load Y)) (List.map_filter (lm_loggers w) names)))"

subsection \<open>The listener\<close>

definition configure_appender :: "(string \<Rightarrow> bool) \<Rightarrow> nat \<Rightarrow> log_appender_define \<Rightarrow> log_world \<Rightarrow> log_world logres" where
  "configure_appender can_open l a w =
     (if lad_type a \<noteq> 1 \<and> lad_type a \<noteq> 2 then Inl NullPointer
      else let (p, w1) = make_appender (if lad_type a = 1 then new_FileLogAppender can_open (lad_file a) else new_StdoutAppender) w;
               w2 = appender_setLevel p (lad_level a) w1;
               fmt = new_LogFormatter (lad_formatter a);
               w3 = if lad_formatter a \<noteq> [] \<and> \<not> lf_error fmt then appender_setFormatter p (Some fmt) w2 else w2
           in Inr (addAppender l p w3))"

fun configure_appenders :: "(string \<Rightarrow> bool) \<Rightarrow> nat \<Rightarrow> log_appender_define list \<Rightarrow> log_world \<Rightarrow> log_world logres" where
  "configure_appenders can_open l [] w = Inr w"
| "configure_appenders can_open l (a # as) w = err_bind (configure_appender can_open l a w) (configure_appenders can_open l as)"

definition configure_logger :: "(string \<Rightarrow> bool) \<Rightarrow> nat \<Rightarrow> log_define \<Rightarrow> log_world \<Rightarrow> log_world logres" where
  "configure_logger can_open l i w =
     (let w1 = logger_setLevel l (ld_level i) w;
          w2 = if ld_formatter i \<noteq> [] then logger_setFormatter_string l (ld_formatter i) w1 else w1
      in configure_appenders can_open l (ld_appenders i) (clearAppenders l w2))"

text \<open>The logger stays a null pointer for a definition that is equal to the old one.\<close>

fun apply_new :: "(string \<Rightarrow> bool) \<Rightarrow> log_define list \<Rightarrow> log_define list \<Rightarrow> log_world \<Rightarrow> log_world logres" where
  "apply_new can_open old [] w = Inr w"
| "apply_new can_open old (i # is) w =
     (if (case set_find ld_less i old of Some k \<Rightarrow> ld_eq i (old ! k) | None \<Rightarrow> False) then Inl NullPointer
      else let (l, w1) = getLogger (ld_name i) w in err_bind (configure_logger can_open l i w1) (apply_new can_open old is))"

definition disable_logger :: "string \<Rightarrow> log_world \<Rightarrow> log_world" where
  "disable_logger name w = (let (l, w1) = getLogger name w in clearAppenders l (logger_setLevel l 100 w1))"

definition remove_old :: "log_define list \<Rightarrow> log_define list \<Rightarrow> log_world \<Rightarrow> log_world" where
  "remove_old old new w = foldl (\<lambda>w i. if set_find ld_less i new = None then disable_logger (ld_name i) w else w) w old"

definition logger_conf_changed ::
  "(string \<Rightarrow> u32 \<Rightarrow> string) \<Rightarrow> string \<times> u32 \<times> u32 \<times> u32 \<times> u32 \<times> string \<Rightarrow> (string \<Rightarrow> bool) \<Rightarrow>
   log_define list \<Rightarrow> log_define list \<Rightarrow> log_world \<Rightarrow> log_world logres" where
  "logger_conf_changed strftime ctx can_open old new w =
     err_bind (CXS_LOG_LEVEL strftime ctx ''on logger_conf_changed'' (lm_root w) INFO w) (\<lambda>w1.
     err_bind (apply_new can_open old new w1) (\<lambda>w2. Inr (remove_old old new w2)))"

definition LogIniter ::
  "(string \<Rightarrow> u32 \<Rightarrow> string) \<Rightarrow> string \<times> u32 \<times> u32 \<times> u32 \<times> u32 \<times> string \<Rightarrow> (string \<Rightarrow> bool) \<Rightarrow> (log_define list, log_world) on_change_callback" where
  "LogIniter strftime ctx can_open old new w =
     (case logger_conf_changed strftime ctx can_open old new w of Inr w' \<Rightarrow> Done w' | Inl e \<Rightarrow> Crashed)"

definition log_defines_type :: "yaml_lib \<Rightarrow> log_define list config_type" where
  "log_defines_type Y = \<lparr>ct_name = ''set<LogDefine>'', ct_cast = set_cast ld_less Y (log_define_cast Y), ct_eq = list_all2 ld_eq\<rparr>"

definition g_log_defines ::
  "yaml_lib \<Rightarrow> (string \<Rightarrow> u32 \<Rightarrow> string) \<Rightarrow> string \<times> u32 \<times> u32 \<times> u32 \<times> u32 \<times> string \<Rightarrow> (string \<Rightarrow> bool) \<Rightarrow> (log_define list, log_world) config_var" where
  "g_log_defines Y strftime ctx can_open =
     (case addListener id (LogIniter strftime ctx can_open) 0 (new_ConfigVar (log_defines_type Y) ''logs'' [] ''logs config'') of (_, _, v) \<Rightarrow> v)"

end
