(* ===== verification/Config_Props.thy ===== *)
theory Config_Props
  imports Config
begin

text \<open>
  What the configuration guarantees: when the listeners of a variable are called and what an exception leaves behind, what
  a lookup returns, and that loading a document gives every variable the value at its path.
\<close>

subsection \<open>Setting a value\<close>

definition cb_returns :: "('v, 'w) on_change_callback \<Rightarrow> bool" where
  "cb_returns cb \<longleftrightarrow> (\<forall>old new w. \<exists>w'. cb old new w = Done w')"

definition after_cb :: "'v \<Rightarrow> 'v \<Rightarrow> 'w \<Rightarrow> u64 \<times> ('v, 'w) on_change_callback \<Rightarrow> 'w" where
  "after_cb old new w e = (case snd e old new w of Done w' \<Rightarrow> w' | Threw w' \<Rightarrow> w' | Crashed \<Rightarrow> w)"

lemma run_cbs_append:
  assumes "\<forall>e\<in>set cbs. cb_returns (snd e)"
  shows "run_cbs (cbs @ rest) old new w = run_cbs rest old new (foldl (after_cb old new) w cbs)"
  using assms
proof (induction cbs arbitrary: w)
  case (Cons e cbs)
  obtain w' where "snd e old new w = Done w'" using Cons.prems unfolding cb_returns_def by (meson list.set_intros(1))
  then show ?case using Cons by (cases e) (simp add: after_cb_def)
qed simp

text \<open>Giving a variable a text: a text that does not convert changes nothing and calls no listener, and so does one with
  a value equal to the present one. Otherwise every listener is called once, with the old and the new value, in the order of
  the map, and then the value is stored. A listener that throws stops this: the listeners behind it are not called, what
  the ones before it did remains, the variable keeps its old value, and the exception does not leave the call.\<close>

theorem fromString_outcome:
  assumes "cv_cbs v = cbs @ rest" and "\<forall>e\<in>set cbs. cb_returns (snd e)"
  shows "case c_from (ct_cast (cv_type v)) val of
      None \<Rightarrow> fromString val v w = Some (False, v, w)
    | Some value \<Rightarrow>
        if ct_eq (cv_type v) value (cv_value v) then fromString val v w = Some (True, v, w)
        else let w1 = foldl (after_cb (cv_value v) value) w cbs in
          (case rest of
             [] \<Rightarrow> fromString val v w = Some (True, v\<lparr>cv_value := value\<rparr>, w1)
           | (k, cb) # _ \<Rightarrow> (\<forall>w'. cb (cv_value v) value w1 = Threw w' \<longrightarrow> fromString val v w = Some (False, v, w')))"
  using run_cbs_append [OF assms(2), of "[]"] run_cbs_append [OF assms(2), of rest] assms(1)
  by (auto simp: fromString_def setValue_eq Let_def split: option.split list.split)

definition int_type :: "int config_type" where
  "int_type = \<lparr>ct_name = ''i'', ct_cast = nat_cast, ct_eq = (=)\<rparr>"

text \<open>A port number with a listener that records what it is told, and one that throws.\<close>

definition record_cb :: "(int, (int \<times> int) list) on_change_callback" where
  "record_cb old new w = Done (w @ [(old, new)])"

definition throw_cb :: "(int, (int \<times> int) list) on_change_callback" where
  "throw_cb old new w = Threw w"

definition port_var :: "(int, (int \<times> int) list) config_var" where
  "port_var = (new_ConfigVar int_type ''tcp.port'' 80 ''port'')\<lparr>cv_cbs := [(1, record_cb), (2, throw_cb)]\<rparr>"

lemma nat_cast_8181: "c_from nat_cast ''8181'' = Some 8181"
  by (simp add: nat_cast_def number_text_def base_val_def digit_val_def)

theorem fromString_outcome_witness: "fromString ''8181'' port_var [] = Some (False, port_var, [(80, 8181)])"
proof -
  have "cv_cbs port_var = [(1, record_cb)] @ [(2, throw_cb)]" by (simp add: port_var_def)
  moreover have "\<forall>e\<in>set [(1 :: u64, record_cb)]. cb_returns (snd e)" by (simp add: cb_returns_def record_cb_def)
  moreover have "cv_value port_var = 80" "cv_type port_var = int_type" by (simp_all add: port_var_def new_ConfigVar_def)
  ultimately show ?thesis using fromString_outcome [of port_var "[(1, record_cb)]" "[(2, throw_cb)]" "''8181''" "[]"]
    by (simp add: nat_cast_8181 int_type_def after_cb_def record_cb_def throw_cb_def)
qed

subsection \<open>The registry\<close>

definition cfg_inv :: "('v, 'w) config \<Rightarrow> bool" where
  "cfg_inv cfg \<longleftrightarrow>
     (\<forall>name i. cfg_datas cfg name = Some i \<longrightarrow> i < length (cfg_vars cfg) \<and> valid_name name \<and> cv_name (cfg_vars cfg ! i) = name)"

lemma valid_name_lower: "valid_name s \<Longrightarrow> map tolower_char s = s"
  by (induction s) (auto simp: valid_name_def tolower_char_def)

text \<open>A lookup with a default value, in a registry in which every variable is filed under its own valid name: a variable of that
  name and type is returned and nothing changes. Otherwise a name with a character other than small letters, the dot, the
  underscore and the digits from 1 to 8 is refused; and any other name is bound to a new variable with the default value,
  also if a variable of another type had the name until then. The registry keeps its invariant, other names their
  variables, and the next lookup of the name and the type finds the variable returned.\<close>

theorem lookup_registers:
  assumes "cfg_inv cfg"
  shows "case Lookup_default T name d desc cfg of
      Inl e \<Rightarrow> e = InvalidArgument name \<and> \<not> valid_name name
    | Inr (i, cfg') \<Rightarrow> cfg_inv cfg' \<and> Lookup_typed T name cfg' = Some i \<and> cv_name (cfg_vars cfg' ! i) = name \<and>
        (\<forall>other. other \<noteq> name \<longrightarrow> cfg_datas cfg' other = cfg_datas cfg other) \<and>
        (\<forall>j < length (cfg_vars cfg). cfg_vars cfg' ! j = cfg_vars cfg ! j) \<and>
        (if Lookup_typed T name cfg = None then i = length (cfg_vars cfg) \<and> cv_value (cfg_vars cfg' ! i) = d
         else cfg' = cfg \<and> Lookup_typed T name cfg = Some i)"
proof (cases "Lookup_typed T name cfg")
  case None
  show ?thesis
  proof (cases "valid_name name")
    case True
    have bound: "cfg_datas cfg n = Some i \<Longrightarrow> i < length (cfg_vars cfg)" for n i using assms by (auto simp: cfg_inv_def)
    then show ?thesis using assms None True bound
      by (auto simp: Lookup_default_def Let_def cfg_inv_def nth_append Lookup_typed_def new_ConfigVar_def valid_name_lower less_Suc_eq)
  qed (simp add: Lookup_default_def None)
next
  case (Some i)
  then have "cfg_datas cfg name = Some i" by (auto simp: Lookup_typed_def split: option.splits if_splits)
  then show ?thesis using assms Some by (simp add: Lookup_default_def cfg_inv_def)
qed

definition empty_config :: "(int, unit) config" where
  "empty_config = \<lparr>cfg_vars = [], cfg_datas = Map.empty\<rparr>"

lemma empty_config_inv: "cfg_inv empty_config"
  by (simp add: cfg_inv_def empty_config_def)

definition port_config :: "(int, unit) config" where
  "port_config = \<lparr>cfg_vars = [new_ConfigVar int_type ''tcp.port'' 80 ''port''], cfg_datas = [''tcp.port'' \<mapsto> 0]\<rparr>"

lemma Lookup_port: "Lookup_default int_type ''tcp.port'' 80 ''port'' empty_config = Inr (0, port_config)"
  by (simp add: Lookup_default_def Lookup_typed_def empty_config_def port_config_def valid_name_def)

theorem lookup_registers_witness: "cfg_inv port_config \<and> Lookup_typed int_type ''tcp.port'' port_config = Some 0"
  using lookup_registers [OF empty_config_inv, where T = int_type and name = "''tcp.port''" and d = 80 and desc = "''port''"] by (simp add: Lookup_port)

subsection \<open>Documents\<close>

text \<open>The node at a path, and the path that a dotted name stands for.\<close>

fun yaml_at :: "yaml \<Rightarrow> string list \<Rightarrow> yaml option" where
  "yaml_at n [] = Some n"
| "yaml_at (YMap m) (k # path) = Option.bind (map_of m k) (\<lambda>n. yaml_at n path)"
| "yaml_at n (k # path) = None"

fun split_name :: "string \<Rightarrow> string list" where
  "split_name [] = [[]]"
| "split_name (c # s) = (if c = CHR ''.'' then [] # split_name s else (c # hd (split_name s)) # tl (split_name s))"

definition simple_key :: "string \<Rightarrow> bool" where
  "simple_key k \<longleftrightarrow> k \<noteq> [] \<and> valid_name k \<and> CHR ''.'' \<notin> set k"

fun simple_doc :: "yaml \<Rightarrow> bool" where
  "simple_doc (YMap m) \<longleftrightarrow> distinct (map fst m) \<and> (\<forall>e\<in>set m. simple_key (fst e) \<and> simple_doc (snd e))"
| "simple_doc n = True"

lemma valid_name_append [simp]: "valid_name (s @ t) \<longleftrightarrow> valid_name s \<and> valid_name t" "valid_name []" "valid_name (CHR ''.'' # s) \<longleftrightarrow> valid_name s"
  by (simp_all add: valid_name_def)

lemma valid_member_name: "valid_name prefix \<Longrightarrow> simple_key k \<Longrightarrow> valid_name (member_name prefix k)"
  by (simp add: member_name_def simple_key_def)

lemma mem_ListAllMember:
  "simple_doc n \<Longrightarrow> valid_name prefix \<Longrightarrow>
   (q, x) \<in> set (ListAllMember prefix n) \<longleftrightarrow> (\<exists>path. q = foldl member_name prefix path \<and> yaml_at n path = Some x)"
proof (induction prefix n arbitrary: q x rule: ListAllMember.induct)
  case (1 prefix m)
  have IH: "(q, x) \<in> set (ListAllMember (member_name prefix k) n) \<longleftrightarrow>
      (\<exists>path. q = foldl member_name (member_name prefix k) path \<and> yaml_at n path = Some x)" if "(k, n) \<in> set m" for k n
    using 1(1) [of "(k, n)" k n] 1(2,3) that valid_member_name by (metis fst_conv simple_doc.simps(1) snd_conv)
  have look: "map_of m k = Some n \<longleftrightarrow> (k, n) \<in> set m" for k n using 1(2) by (simp add: map_of_eq_Some_iff)
  have "(q, x) \<in> set (ListAllMember prefix (YMap m)) \<longleftrightarrow>
      q = prefix \<and> x = YMap m \<or> (\<exists>(k, n)\<in>set m. (q, x) \<in> set (ListAllMember (member_name prefix k) n))"
    using 1(3) by auto
  also have "\<dots> \<longleftrightarrow> q = prefix \<and> x = YMap m \<or>
      (\<exists>k n path. map_of m k = Some n \<and> q = foldl member_name (member_name prefix k) path \<and> yaml_at n path = Some x)"
    using IH look by blast
  also have "\<dots> \<longleftrightarrow> (\<exists>path. q = foldl member_name prefix path \<and> yaml_at (YMap m) path = Some x)" (is "_ \<longleftrightarrow> ?P")
  proof
    assume ?P
    then obtain path where path: "q = foldl member_name prefix path" "yaml_at (YMap m) path = Some x" by blast
    show "q = prefix \<and> x = YMap m \<or>
      (\<exists>k n path. map_of m k = Some n \<and> q = foldl member_name (member_name prefix k) path \<and> yaml_at n path = Some x)"
      using path by (cases path) (auto simp: bind_eq_Some_conv)
  next
    assume "q = prefix \<and> x = YMap m \<or>
      (\<exists>k n path. map_of m k = Some n \<and> q = foldl member_name (member_name prefix k) path \<and> yaml_at n path = Some x)"
    then show ?P
    proof (elim disjE exE conjE)
      assume "q = prefix" "x = YMap m"
      then show ?P by (intro exI [of _ "[]"]) simp
    next
      fix k n path
      assume "map_of m k = Some n" "q = foldl member_name (member_name prefix k) path" "yaml_at n path = Some x"
      then show ?P by (intro exI [of _ "k # path"]) simp
    qed
  qed
  finally show ?case .
qed (auto simp: neq_Nil_conv intro: exI [of _ "[]"] elim: yaml_at.elims)

lemma foldl_member_name: "k \<noteq> [] \<Longrightarrow> foldl member_name k path = k @ concat (map (Cons CHR ''.'') path)"
  by (induction path arbitrary: k) (simp_all add: member_name_def)

lemma split_name_append: "CHR ''.'' \<notin> set k \<Longrightarrow> split_name (k @ CHR ''.'' # s) = k # split_name s"
  by (induction k) auto

lemma split_name_plain: "CHR ''.'' \<notin> set k \<Longrightarrow> split_name k = [k]"
  by (induction k) auto

lemma split_dotted:
  "\<forall>k\<in>set (k # path). CHR ''.'' \<notin> set k \<Longrightarrow> split_name (k @ concat (map (Cons CHR ''.'') path)) = k # path"
  by (induction path arbitrary: k) (simp_all add: split_name_plain split_name_append)

lemma yaml_at_keys: "simple_doc n \<Longrightarrow> yaml_at n path = Some x \<Longrightarrow> list_all simple_key path"
proof (induction n path rule: yaml_at.induct)
  case (2 m k path)
  then obtain n where "map_of m k = Some n" "yaml_at n path = Some x" by (auto simp: bind_eq_Some_conv)
  then show ?case using 2 map_of_SomeD [of m k n] by fastforce
qed simp_all

lemma join_split: "\<exists>k path. split_name s = k # path \<and> s = k @ concat (map (Cons CHR ''.'') path)"
proof (induction s)
  case (Cons c s)
  then obtain k path where s: "split_name s = k # path" "s = k @ concat (map (Cons CHR ''.'') path)" by blast
  show ?case
  proof (cases "c = CHR ''.''")
    case True
    then show ?thesis using s by (intro exI [of _ "[]"] exI [of _ "k # path"]) simp
  next
    case False
    then show ?thesis using s by (intro exI [of _ "c # k"] exI [of _ path]) simp
  qed
qed simp

text \<open>Of the members of a document with simple keys, the name decides the node.\<close>

lemma ListAllMember_name:
  assumes "simple_doc root" and "name \<noteq> []"
  shows "(name, x) \<in> set (ListAllMember [] root) \<longleftrightarrow> yaml_at root (split_name name) = Some x"
proof -
  have to_name: "split_name (foldl member_name [] path) = path" if keys: "list_all simple_key path" and ne: "path \<noteq> []" for path
  proof -
    obtain k p where "path = k # p" using ne by (cases path) auto
    then show ?thesis using keys split_dotted [of k p] by (auto simp: foldl_member_name member_name_def simple_key_def list_all_iff)
  qed
  have from_name: "foldl member_name [] (split_name name) = name" if keys: "list_all simple_key (split_name name)"
  proof -
    obtain k p where kp: "split_name name = k # p" "name = k @ concat (map (Cons CHR ''.'') p)" using join_split by blast
    then show ?thesis using keys by (simp add: foldl_member_name member_name_def simple_key_def)
  qed
  have "(name, x) \<in> set (ListAllMember [] root) \<longleftrightarrow> (\<exists>path. name = foldl member_name [] path \<and> yaml_at root path = Some x)"
    using mem_ListAllMember [OF assms(1)] by simp
  then show ?thesis using to_name from_name yaml_at_keys [OF assms(1)] assms(2) by (metis foldl_Nil)
qed

subsection \<open>Loading a document\<close>

definition loaded :: "yaml_lib \<Rightarrow> yaml \<Rightarrow> ('v, 'w) config_var \<Rightarrow> ('v, 'w) config_var" where
  "loaded Y node v = (case c_from (ct_cast (cv_type v)) (node_text Y node) of
       None \<Rightarrow> v
     | Some value \<Rightarrow> if ct_eq (cv_type v) value (cv_value v) then v else v\<lparr>cv_value := value\<rparr>)"

definition listeners_return :: "('v, 'w) config \<Rightarrow> bool" where
  "listeners_return cfg \<longleftrightarrow> (\<forall>v\<in>set (cfg_vars cfg). \<forall>e\<in>set (cv_cbs v). cb_returns (snd e))"

lemma loaded_fields [simp]:
  "cv_cbs (loaded Y node v) = cv_cbs v" "cv_name (loaded Y node v) = cv_name v" "cv_type (loaded Y node v) = cv_type v"
  by (simp_all add: loaded_def split: option.split)

lemma loaded_again [simp]: "loaded Y node (loaded Y node v) = loaded Y node v"
  by (auto simp: loaded_def split: option.split)

lemma fromString_loaded:
  assumes "\<forall>e\<in>set (cv_cbs v). cb_returns (snd e)"
  obtains b w' where "fromString (node_text Y node) v w = Some (b, loaded Y node v, w')"
proof -
  have "\<exists>b w'. fromString (node_text Y node) v w = Some (b, loaded Y node v, w')"
    using run_cbs_append [OF assms, of "[]"] by (auto simp: fromString_def setValue_eq loaded_def split: option.split)
  then show ?thesis using that by blast
qed

lemma load_member_loaded:
  assumes "cfg_inv cfg" and "listeners_return cfg" and "valid_name key"
  obtains cfg' w' where "load_member Y (key, node) (cfg, w) = Some (cfg', w')" and "cfg_datas cfg' = cfg_datas cfg"
    and "cfg_inv cfg'" and "listeners_return cfg'"
    and "\<And>name i. cfg_datas cfg name = Some i \<Longrightarrow> name \<noteq> [] \<Longrightarrow>
           cfg_vars cfg' ! i = (if key = name then loaded Y node (cfg_vars cfg ! i) else cfg_vars cfg ! i)"
proof (cases "key = [] \<or> cfg_datas cfg key = None")
  case True
  then show ?thesis using assms
    by (intro that [of cfg w]) (auto simp: load_member_def LookupBase_def valid_name_lower)
next
  case False
  then obtain i where i: "cfg_datas cfg key = Some i" "key \<noteq> []" by auto
  with assms(1) have len: "i < length (cfg_vars cfg)" by (auto simp: cfg_inv_def)
  then obtain b w' where f: "fromString (node_text Y node) (cfg_vars cfg ! i) w = Some (b, loaded Y node (cfg_vars cfg ! i), w')"
    using fromString_loaded [of "cfg_vars cfg ! i" Y node w] assms(2) nth_mem unfolding listeners_return_def by blast
  let ?cfg = "cfg\<lparr>cfg_vars := (cfg_vars cfg)[i := loaded Y node (cfg_vars cfg ! i)]\<rparr>"
  have other: "j = i \<longleftrightarrow> name = key" if "cfg_datas cfg name = Some j" for name j
    using assms(1) i(1) that unfolding cfg_inv_def by (metis option.inject)
  show ?thesis
  proof (rule that [of ?cfg w'])
    show "load_member Y (key, node) (cfg, w) = Some (?cfg, w')"
      using f i assms(3) by (simp add: load_member_def LookupBase_def valid_name_lower)
    show "cfg_inv ?cfg" using assms(1) len by (auto simp: cfg_inv_def nth_list_update)
    have "\<forall>e\<in>set (cv_cbs (cfg_vars cfg ! i)). cb_returns (snd e)" using assms(2) nth_mem [OF len] unfolding listeners_return_def by blast
    then show "listeners_return ?cfg" using assms(2)
      by (auto simp: listeners_return_def dest!: set_update_subset_insert [THEN subsetD])
    show "cfg_vars ?cfg ! j = (if key = name then loaded Y node (cfg_vars cfg ! j) else cfg_vars cfg ! j)"
      if "cfg_datas cfg name = Some j" "name \<noteq> []" for name j
      using other [OF that(1)] len by (auto simp: nth_list_update)
  qed simp
qed

lemma load_members_loaded:
  assumes "cfg_inv cfg" and "listeners_return cfg" and "\<forall>e\<in>set es. valid_name (fst e)"
  shows "\<exists>cfg' w'. load_members Y es (cfg, w) = Some (cfg', w') \<and> cfg_datas cfg' = cfg_datas cfg \<and>
     (\<forall>name i. cfg_datas cfg name = Some i \<longrightarrow> name \<noteq> [] \<longrightarrow>
        cfg_vars cfg' ! i = foldl (\<lambda>v e. if fst e = name then loaded Y (snd e) v else v) (cfg_vars cfg ! i) es)"
  using assms
proof (induction es arbitrary: cfg w)
  case (Cons e es)
  obtain key node where e: "e = (key, node)" by fastforce
  obtain cfg1 w1 where 1: "load_member Y (key, node) (cfg, w) = Some (cfg1, w1)" "cfg_datas cfg1 = cfg_datas cfg" "cfg_inv cfg1"
    "listeners_return cfg1" "\<And>name i. cfg_datas cfg name = Some i \<Longrightarrow> name \<noteq> [] \<Longrightarrow>
           cfg_vars cfg1 ! i = (if key = name then loaded Y node (cfg_vars cfg ! i) else cfg_vars cfg ! i)"
    using load_member_loaded [OF Cons.prems(1,2), of key Y node w] Cons.prems(3) e by auto
  obtain cfg' w' where 2: "load_members Y es (cfg1, w1) = Some (cfg', w')" "cfg_datas cfg' = cfg_datas cfg"
    "\<And>name i. cfg_datas cfg name = Some i \<Longrightarrow> name \<noteq> [] \<Longrightarrow>
        cfg_vars cfg' ! i = foldl (\<lambda>v e. if fst e = name then loaded Y (snd e) v else v) (cfg_vars cfg1 ! i) es"
    using Cons.IH [OF 1(3,4), of w1] Cons.prems(3) 1(2) by auto
  have "cfg_vars cfg' ! i = foldl (\<lambda>v e. if fst e = name then loaded Y (snd e) v else v) (cfg_vars cfg ! i) (e # es)"
    if "cfg_datas cfg name = Some i" "name \<noteq> []" for name i
    using 1(5) [OF that] 2(3) [OF that] by (simp add: e)
  then show ?case using 1(1) 2(1,2) by (auto simp: e)
qed simp

lemma foldl_loaded:
  assumes "\<And>x. (name, x) \<in> set es \<Longrightarrow> x = node"
  shows "foldl (\<lambda>v e. if fst e = name then loaded Y (snd e) v else v) v es = (if name \<in> fst ` set es then loaded Y node v else v)"
  using assms
proof (induction es arbitrary: v)
  case (Cons e es)
  show ?case
  proof (cases "fst e = name")
    case True
    then have "snd e = node" using Cons.prems [of "snd e"] by (cases e) simp
    then show ?thesis using Cons True by simp
  next
    case False
    then show ?thesis using Cons by simp
  qed
qed simp

lemma ListAllMember_valid: "e \<in> set (ListAllMember prefix n) \<Longrightarrow> valid_name (fst e)"
  by (induction prefix n rule: ListAllMember.induct) (auto split: if_splits)

text \<open>C21. Loading a document whose keys are simple (not empty, valid as a name, without a dot, no key twice in a map), in a registry
  with its invariant and listeners that return: every variable gets the value that the node at its path, the parts
  of its name between the dots, converts to; a scalar is converted from its text, any other node from its printed
  form. A variable whose path is not in the document, or whose node does not convert, keeps its value. The call returns.\<close>

theorem load_by_path:
  assumes "cfg_inv cfg" and "listeners_return cfg" and "simple_doc root"
  shows "\<exists>cfg' w'. LoadFromYaml Y root (cfg, w) = Some (cfg', w') \<and> cfg_datas cfg' = cfg_datas cfg \<and>
     (\<forall>name i. cfg_datas cfg name = Some i \<longrightarrow> name \<noteq> [] \<longrightarrow>
        cfg_vars cfg' ! i = (case yaml_at root (split_name name) of
            Some node \<Rightarrow> loaded Y node (cfg_vars cfg ! i)
          | None \<Rightarrow> cfg_vars cfg ! i))"
proof -
  let ?es = "ListAllMember [] root"
  obtain cfg' w' where r: "load_members Y ?es (cfg, w) = Some (cfg', w')" "cfg_datas cfg' = cfg_datas cfg"
    and v: "\<And>name i. cfg_datas cfg name = Some i \<Longrightarrow> name \<noteq> [] \<Longrightarrow>
        cfg_vars cfg' ! i = foldl (\<lambda>v e. if fst e = name then loaded Y (snd e) v else v) (cfg_vars cfg ! i) ?es"
    using load_members_loaded [OF assms(1,2), of ?es Y w] ListAllMember_valid by blast
  have "cfg_vars cfg' ! i = (case yaml_at root (split_name name) of Some node \<Rightarrow> loaded Y node (cfg_vars cfg ! i) | None \<Rightarrow> cfg_vars cfg ! i)"
    if "cfg_datas cfg name = Some i" "name \<noteq> []" for name i
  proof (cases "yaml_at root (split_name name)")
    case None
    then have "name \<notin> fst ` set ?es" using ListAllMember_name [OF assms(3) that(2)] by force
    moreover from this have "foldl (\<lambda>v e. if fst e = name then loaded Y (snd e) v else v) u ?es = u" for u
      by (subst foldl_loaded [where node = YNull]) force+
    ultimately show ?thesis using v [OF that] None by simp
  next
    case (Some node)
    then have mem: "name \<in> fst ` set ?es" and only: "(name, x) \<in> set ?es \<Longrightarrow> x = node" for x
      using ListAllMember_name [OF assms(3) that(2)] by force+
    have "foldl (\<lambda>v e. if fst e = name then loaded Y (snd e) v else v) u ?es = loaded Y node u" for u
      using foldl_loaded [of name ?es node Y u, OF only] mem by simp
    then show ?thesis using v [OF that] Some by simp
  qed
  then show ?thesis using r unfolding LoadFromYaml_def by (intro exI [of _ cfg'] exI [of _ w']) simp
qed

lemma port_config_ok: "cfg_inv port_config" "listeners_return port_config"
  by (simp_all add: cfg_inv_def port_config_def new_ConfigVar_def valid_name_def tolower_char_def listeners_return_def)

definition port_document :: yaml where
  "port_document = YMap [(''tcp'', YMap [(''port'', YScalar ''8181''), (''host'', YNull)])]"

theorem load_by_path_witness:
  "\<exists>cfg' w'. LoadFromYaml plain_yaml port_document (port_config, ()) = Some (cfg', w') \<and> cv_value (cfg_vars cfg' ! 0) = 8181"
proof -
  have "simple_doc port_document" by (simp add: port_document_def simple_key_def valid_name_def)
  from load_by_path [OF port_config_ok this, of plain_yaml "()"] obtain cfg' w' where
    r: "LoadFromYaml plain_yaml port_document (port_config, ()) = Some (cfg', w')"
    and "cfg_vars cfg' ! 0 = loaded plain_yaml (YScalar ''8181'') (cfg_vars port_config ! 0)"
    by (auto simp: port_config_def port_document_def)
  then have "cv_value (cfg_vars cfg' ! 0) = 8181"
    by (simp add: loaded_def node_text_def port_config_def new_ConfigVar_def int_type_def nat_cast_8181)
  with r show ?thesis by blast
qed

end
