(* ===== verification/Log_Config_Props.thy ===== *)
theory Log_Config_Props
  imports Log_Config Config_Props
begin

text \<open>
  The configuration of the loggers: what the conversions of a definition keep, and that the loggers follow the variable
  \<^verbatim>\<open>logs\<close>, as long as no definition stays as it was.
\<close>

subsection \<open>Round trip of the definitions\<close>

definition kept_appender :: "log_appender_define \<Rightarrow> log_appender_define" where
  "kept_appender a = a\<lparr>lad_level := UNKNOW, lad_file := (if lad_type a = 1 then lad_file a else [])\<rparr>"

definition kept_define :: "log_define \<Rightarrow> log_define" where
  "kept_define i = i\<lparr>ld_level := (if ld_level i \<in> {DEBUG..FATAL} then ld_level i else UNKNOW), ld_appenders := map kept_appender (ld_appenders i)\<rparr>"

definition known_types :: "log_define \<Rightarrow> bool" where
  "known_types i \<longleftrightarrow> (\<forall>a\<in>set (ld_appenders i). lad_type a = 1 \<or> lad_type a = 2)"

lemmas level_defs = UNKNOW_def DEBUG_def INFO_def WARN_def ERROR_def FATAL_def

lemma level_roundtrip: "fromsStringToLevel (LogLevelToString l) = (if l \<in> {DEBUG..FATAL} then l else UNKNOW)"
  by (auto simp: fromsStringToLevel_def LogLevelToString_def level_defs)

lemma level_empty: "fromsStringToLevel [] = UNKNOW"
  by (simp add: fromsStringToLevel_def)

lemma appender_define_roundtrip:
  assumes "yaml_ok Y" and "lad_type a = 1 \<or> lad_type a = 2"
  shows "appender_define_from Y (appender_define_node a) = Some (Some (kept_appender a))"
  using assms
  by (cases a) (auto simp: appender_define_from_def appender_define_node_def field_or_def opt_field_def kept_appender_def
      new_LogAppenderDefine_def Let_def)

lemma those_map_Some: "(\<And>x. x \<in> set xs \<Longrightarrow> f x = Some (g x)) \<Longrightarrow> those (map f xs) = Some (map g xs)"
  by (simp add: those_Some_iff)

lemma log_define_node_roundtrip:
  assumes "yaml_ok Y" and "yaml_reads Y" and "known_types i"
  shows "log_define_from Y (y_dump Y (log_define_node i)) = Some (kept_define i)"
proof -
  have "those (map (appender_define_from Y) (map appender_define_node (ld_appenders i))) =
      Some (map (\<lambda>a. Some (kept_appender a)) (ld_appenders i))"
    unfolding map_map using assms by (intro those_map_Some) (auto simp: known_types_def appender_define_roundtrip)
  then show ?thesis using assms(1,2)
    by (cases i) (auto simp: log_define_from_def log_define_node_def field_or_def opt_field_def kept_define_def level_roundtrip
        level_empty comp_def filter_map level_defs)
qed

subsection \<open>One definition\<close>

interpretation logdefs: comparator ld_less
  by unfold_locales (auto simp: ld_less_def lex_less_irrefl intro: lex_less_trans dest: lex_less_incomparable)

lemma find_none: "sorted_wrt ld_less ds \<Longrightarrow> set_find ld_less i ds = None \<longleftrightarrow> ld_name i \<notin> ld_name ` set ds"
  using logdefs.set_find_iff [of ds i] lex_less_total by (fastforce simp: ld_less_def lex_less_irrefl)

lemma find_some:
  assumes "sorted_wrt ld_less ds" and "set_find ld_less i ds = Some k"
  shows "k < length ds" and "ld_name (ds ! k) = ld_name i"
proof -
  note f = logdefs.set_find_Some [OF assms(2)]
  show "k < length ds" by (rule f(1))
  have "ds ! k \<in> set (drop (lower_bound ld_less i ds) ds)" using f(1,3) by (metis Cons_nth_drop_Suc list.set_intros(1))
  from logdefs.drop_lower_bound [OF assms(1) this] f(2) show "ld_name (ds ! k) = ld_name i"
    using lex_less_total by (auto simp: ld_less_def)
qed

definition own_formatter :: "string \<Rightarrow> bool" where
  "own_formatter pat \<longleftrightarrow> pat \<noteq> [] \<and> \<not> lf_error (new_LogFormatter pat)"

text \<open>The appender that a definition describes, for a logger with the given formatter.\<close>

definition configured :: "(string \<Rightarrow> bool) \<Rightarrow> log_formatter option \<Rightarrow> log_appender_define \<Rightarrow> log_appender" where
  "configured can_open f a =
     \<lparr>ap_kind = if lad_type a = 1 then FileLogAppender (lad_file a) (can_open (lad_file a)) else StdoutAppender, ap_level = lad_level a,
      ap_formatter = if own_formatter (lad_formatter a) then Some (new_LogFormatter (lad_formatter a)) else f,
      ap_hasFormatter = own_formatter (lad_formatter a)\<rparr>"

lemma configure_appender_result:
  assumes "l < length (lw_logger w)" and "lad_type a = 1 \<or> lad_type a = 2"
  shows "configure_appender can_open l a w =
    Inr (w\<lparr>lw_appender := lw_appender w @ [configured can_open (lg_formatter (lw_logger w ! l)) a],
           lw_logger := (lw_logger w)[l := lg_appenders_update (\<lambda>as. as @ [length (lw_appender w)]) (lw_logger w ! l)]\<rparr>)"
  using assms
  by (auto simp: configure_appender_def make_appender_def appender_setLevel_def appender_setFormatter_def addAppender_def configured_def
      own_formatter_def new_FileLogAppender_def new_StdoutAppender_def Let_def nth_append)

lemma no_appenders_added: "lg_appenders_update (\<lambda>as. as) lg = lg" "w = w\<lparr>lw_logger := lw_logger w\<rparr>"
  by (cases lg; simp)+

lemma configure_appenders_result:
  assumes "l < length (lw_logger w)" and "\<forall>a\<in>set as. lad_type a = 1 \<or> lad_type a = 2"
  shows "configure_appenders can_open l as w =
    Inr (w\<lparr>lw_appender := lw_appender w @ map (configured can_open (lg_formatter (lw_logger w ! l))) as,
           lw_logger := (lw_logger w)[l := lg_appenders_update (\<lambda>as'. as' @ [length (lw_appender w)..<length (lw_appender w) + length as]) (lw_logger w ! l)]\<rparr>)"
  using assms
proof (induction as arbitrary: w)
  case (Cons a as)
  then show ?case by (simp add: configure_appender_result comp_def upt_conv_Cons [symmetric] del: upt_Suc)
qed (simp add: no_appenders_added)

definition new_formatter :: "log_define \<Rightarrow> logger \<Rightarrow> log_formatter option" where
  "new_formatter i lg = (if own_formatter (ld_formatter i) then Some (new_LogFormatter (ld_formatter i)) else lg_formatter lg)"

lemma configure_logger_result:
  assumes l: "l < length (lw_logger w)" and types: "known_types i"
  obtains w' aps where "configure_logger can_open l i w = Inr w'"
    and "lw_appender w' = aps @ map (configured can_open (new_formatter i (lw_logger w ! l))) (ld_appenders i)"
    and "length aps = length (lw_appender w)"
    and "\<And>a. a < length (lw_appender w) \<Longrightarrow> a \<notin> set (lg_appenders (lw_logger w ! l)) \<Longrightarrow> aps ! a = lw_appender w ! a"
    and "lw_logger w' = (lw_logger w)[l := (lw_logger w ! l)\<lparr>lg_level := ld_level i, lg_formatter := new_formatter i (lw_logger w ! l),
           lg_appenders := [length (lw_appender w)..<length (lw_appender w) + length (ld_appenders i)]\<rparr>]"
    and "lm_loggers w' = lm_loggers w" and "lm_root w' = lm_root w"
proof -
  define w1 where "w1 = logger_setLevel l (ld_level i) w"
  define w2 where "w2 = (if ld_formatter i \<noteq> [] then logger_setFormatter_string l (ld_formatter i) w1 else w1)"
  define w3 where "w3 = clearAppenders l w2"
  have 1: "lw_appender w1 = lw_appender w" "lw_logger w1 = (lw_logger w)[l := (lw_logger w ! l)\<lparr>lg_level := ld_level i\<rparr>]"
    "lm_loggers w1 = lm_loggers w" "lm_root w1 = lm_root w" by (simp_all add: w1_def logger_setLevel_def)
  have 2: "length (lw_appender w2) = length (lw_appender w)"
    "lw_logger w2 = (lw_logger w)[l := (lw_logger w ! l)\<lparr>lg_level := ld_level i, lg_formatter := new_formatter i (lw_logger w ! l)\<rparr>]"
    "lm_loggers w2 = lm_loggers w" "lm_root w2 = lm_root w"
    "\<And>a. a < length (lw_appender w) \<Longrightarrow> a \<notin> set (lg_appenders (lw_logger w ! l)) \<Longrightarrow> lw_appender w2 ! a = lw_appender w ! a"
    using l by (auto simp: w2_def logger_setFormatter_string_def logger_setFormatter_def Let_def 1 new_formatter_def own_formatter_def
        foldl_appenders_nth inherit_formatter_idem)
  have 3: "lw_appender w3 = lw_appender w2" "lm_loggers w3 = lm_loggers w" "lm_root w3 = lm_root w"
    "lw_logger w3 = (lw_logger w)[l := (lw_logger w ! l)\<lparr>lg_level := ld_level i, lg_formatter := new_formatter i (lw_logger w ! l), lg_appenders := []\<rparr>]"
    using l by (simp_all add: w3_def clearAppenders_def 2)
  have "configure_logger can_open l i w = configure_appenders can_open l (ld_appenders i) w3"
    by (simp add: configure_logger_def w1_def w2_def w3_def Let_def)
  also have "\<dots> = Inr (w3\<lparr>lw_appender := lw_appender w2 @ map (configured can_open (new_formatter i (lw_logger w ! l))) (ld_appenders i),
      lw_logger := (lw_logger w)[l := (lw_logger w ! l)\<lparr>lg_level := ld_level i, lg_formatter := new_formatter i (lw_logger w ! l),
        lg_appenders := [length (lw_appender w)..<length (lw_appender w) + length (ld_appenders i)]\<rparr>]\<rparr>)" (is "_ = Inr ?w")
    using configure_appenders_result [of l w3 "ld_appenders i" can_open] l types by (simp add: 2 3 known_types_def comp_def)
  finally show ?thesis by (rule that [of ?w "lw_appender w2"]) (auto simp: 2 3)
qed

subsection \<open>The invariant\<close>

lemma inv_configure_appender:
  assumes "log_inv w" and "l < length (lw_logger w)" and "configure_appender can_open l a w = Inr w'"
  shows "log_inv w' \<and> length (lw_logger w') = length (lw_logger w)"
proof -
  let ?ap = "if lad_type a = 1 then new_FileLogAppender can_open (lad_file a) else new_StdoutAppender"
  let ?p = "length (lw_appender w)" and ?w1 = "snd (make_appender ?ap w)"
  let ?w2 = "appender_setLevel ?p (lad_level a) ?w1"
  let ?w3 = "if own_formatter (lad_formatter a) then appender_setFormatter ?p (Some (new_LogFormatter (lad_formatter a))) ?w2 else ?w2"
  have w': "w' = addAppender l ?p ?w3"
    using assms(3) by (auto simp: configure_appender_def make_appender_def Let_def own_formatter_def split: if_splits)
  have "log_inv ?w2" by (rule inv_log_step [OF log_step.step_appender_setLevel inv_make_appender [OF assms(1)]])
  then have "log_inv ?w3" using inv_log_step [OF log_step.step_appender_setFormatter] by simp
  then show ?thesis unfolding w' using assms(2)
    by (auto simp: make_appender_def appender_setLevel_def appender_setFormatter_def intro!: inv_addAppender) (simp_all add: addAppender_def)
qed

lemma inv_configure_appenders:
  "log_inv w \<Longrightarrow> l < length (lw_logger w) \<Longrightarrow> configure_appenders can_open l as w = Inr w' \<Longrightarrow> log_inv w'"
proof (induction as arbitrary: w)
  case (Cons a as)
  then obtain w1 where w1: "configure_appender can_open l a w = Inr w1" "configure_appenders can_open l as w1 = Inr w'"
    by (auto simp: err_bind_eq_Inr)
  from inv_configure_appender [OF Cons.prems(1,2) w1(1)] Cons.prems(2) show ?case by (intro Cons.IH [OF _ _ w1(2)]) simp_all
qed simp

lemma inv_configure_logger:
  assumes "log_inv w" and "l < length (lw_logger w)" and "configure_logger can_open l i w = Inr w'"
  shows "log_inv w'"
proof -
  define w1 where "w1 = logger_setLevel l (ld_level i) w"
  define w2 where "w2 = (if ld_formatter i \<noteq> [] then logger_setFormatter_string l (ld_formatter i) w1 else w1)"
  have "log_inv w1" unfolding w1_def by (rule inv_log_step [OF log_step.step_logger_setLevel assms(1)])
  then have "log_inv w2" unfolding w2_def using inv_log_step [OF log_step.step_logger_setFormatter_string] by simp
  then have inv: "log_inv (clearAppenders l w2)" by (rule inv_log_step [OF log_step.step_clearAppenders])
  have len: "l < length (lw_logger (clearAppenders l w2))" using assms(2)
    by (simp add: clearAppenders_def w1_def w2_def logger_setFormatter_string_def logger_setFormatter_def logger_setLevel_def Let_def)
  have "configure_appenders can_open l (ld_appenders i) (clearAppenders l w2) = Inr w'"
    using assms(3) unfolding configure_logger_def w1_def w2_def Let_def .
  then show ?thesis by (rule inv_configure_appenders [OF inv len])
qed

subsection \<open>All definitions\<close>

text \<open>The logger of a definition is as the definition says.\<close>

definition follows :: "(string \<Rightarrow> bool) \<Rightarrow> log_world \<Rightarrow> log_define \<Rightarrow> bool" where
  "follows can_open w i \<longleftrightarrow> (\<exists>l lg. lm_loggers w (ld_name i) = Some l \<and> lg = lw_logger w ! l \<and> lg_level lg = ld_level i \<and>
     (own_formatter (ld_formatter i) \<longrightarrow> lg_formatter lg = Some (new_LogFormatter (ld_formatter i))) \<and>
     appenders_of w l = map (configured can_open (lg_formatter lg)) (ld_appenders i))"

abbreviation apps :: "log_world \<Rightarrow> nat \<Rightarrow> nat set" where
  "apps w l \<equiv> set (lg_appenders (lw_logger w ! l))"

text \<open>What a change for the loggers with some names leaves alone: the loggers with other names, and the appenders of these.\<close>

definition frame :: "string set \<Rightarrow> log_world \<Rightarrow> log_world \<Rightarrow> bool" where
  "frame names w w' \<longleftrightarrow> length (lw_logger w) \<le> length (lw_logger w') \<and> length (lw_appender w) \<le> length (lw_appender w') \<and>
     (\<forall>name. name \<notin> names \<or> lm_loggers w name \<noteq> None \<longrightarrow> lm_loggers w' name = lm_loggers w name) \<and>
     (\<forall>name l. lm_loggers w name = None \<longrightarrow> lm_loggers w' name = Some l \<longrightarrow> length (lw_logger w) \<le> l) \<and>
     (\<forall>l < length (lw_logger w). (\<forall>name\<in>names. lm_loggers w name \<noteq> Some l) \<longrightarrow> lw_logger w' ! l = lw_logger w ! l) \<and>
     (\<forall>a < length (lw_appender w). (\<forall>name\<in>names. \<forall>l. lm_loggers w name = Some l \<longrightarrow> a \<notin> apps w l) \<longrightarrow>
        lw_appender w' ! a = lw_appender w ! a) \<and>
     (\<forall>l < length (lw_logger w'). \<forall>a\<in>apps w' l. a < length (lw_appender w) \<longrightarrow> l < length (lw_logger w) \<and> a \<in> apps w l)"

lemma frame_refl: "frame names w w"
  by (simp add: frame_def)

lemma getLogger_facts:
  assumes "log_inv w" and "getLogger name w = (l, w1)"
  shows "log_inv w1" and "l < length (lw_logger w1)" and "lm_loggers w1 = (lm_loggers w)(name \<mapsto> l)" and "lw_appender w1 = lw_appender w"
    and "length (lw_logger w) \<le> length (lw_logger w1)" and "\<And>k. k < length (lw_logger w) \<Longrightarrow> lw_logger w1 ! k = lw_logger w ! k"
    and "lm_loggers w name = None \<Longrightarrow> lg_appenders (lw_logger w1 ! l) = [] \<and> length (lw_logger w) \<le> l" and "lm_loggers w name \<noteq> None \<Longrightarrow> lm_loggers w name = Some l \<and> w1 = w"
  using assms inv_getLogger [OF assms(1), of name]
  by (auto simp: getLogger_def Let_def log_inv_def nth_append new_Logger_def split: option.splits)

lemma frame_trans:
  assumes 1: "frame A w w1" and 2: "frame B w1 w2" and "log_inv w1"
  shows "frame (A \<union> B) w w2"
proof -
  have lm1: "lm_loggers w1 name = lm_loggers w name" if "name \<notin> A \<or> lm_loggers w name \<noteq> None" for name using 1 that by (simp add: frame_def)
  have lm2: "lm_loggers w2 name = lm_loggers w1 name" if "name \<notin> B \<or> lm_loggers w1 name \<noteq> None" for name using 2 that by (simp add: frame_def)
  have new1: "length (lw_logger w) \<le> l" if "lm_loggers w name = None" "lm_loggers w1 name = Some l" for name l
    using 1 that by (simp add: frame_def)
  have new2: "length (lw_logger w1) \<le> l" if "lm_loggers w1 name = None" "lm_loggers w2 name = Some l" for name l
    using 2 that by (simp add: frame_def)
  have len: "length (lw_logger w) \<le> length (lw_logger w1)" "length (lw_appender w) \<le> length (lw_appender w1)"
    "length (lw_logger w1) \<le> length (lw_logger w2)" "length (lw_appender w1) \<le> length (lw_appender w2)" using 1 2 by (simp_all add: frame_def)
  have old1: "l < length (lw_logger w) \<and> a \<in> apps w l" if "l < length (lw_logger w1)" "a \<in> apps w1 l" "a < length (lw_appender w)" for l a
    using 1 that by (simp add: frame_def)
  have old2: "l < length (lw_logger w1) \<and> a \<in> apps w1 l" if "l < length (lw_logger w2)" "a \<in> apps w2 l" "a < length (lw_appender w1)" for l a
    using 2 that by (simp add: frame_def)
  have target: "lm_loggers w name = Some l" if "lm_loggers w1 name = Some l" "l < length (lw_logger w)" for name l
    using that lm1 [of name] new1 [of name l] by (cases "lm_loggers w name") auto
  have "lw_logger w2 ! l = lw_logger w ! l" if l: "l < length (lw_logger w)" and no: "\<forall>name\<in>A \<union> B. lm_loggers w name \<noteq> Some l" for l
  proof -
    have "lw_logger w1 ! l = lw_logger w ! l" using 1 l no by (simp add: frame_def)
    moreover have "\<forall>name\<in>B. lm_loggers w1 name \<noteq> Some l" using target [OF _ l] no by blast
    ultimately show ?thesis using 2 l len by (simp add: frame_def)
  qed
  moreover have "lw_appender w2 ! a = lw_appender w ! a" if a: "a < length (lw_appender w)"
    and no: "\<forall>name\<in>A \<union> B. \<forall>l. lm_loggers w name = Some l \<longrightarrow> a \<notin> apps w l" for a
  proof -
    have "\<forall>name\<in>A. \<forall>l. lm_loggers w name = Some l \<longrightarrow> a \<notin> apps w l" using no by blast
    then have "lw_appender w1 ! a = lw_appender w ! a" using 1 a by (simp add: frame_def)
    moreover have "\<forall>name\<in>B. \<forall>l. lm_loggers w1 name = Some l \<longrightarrow> a \<notin> apps w1 l"
      using old1 [OF _ _ a] target no assms(3) unfolding log_inv_def by (metis UnI2)
    ultimately show ?thesis using 2 a len by (simp add: frame_def)
  qed
  moreover have "lm_loggers w2 name = lm_loggers w name" if "name \<notin> A \<union> B \<or> lm_loggers w name \<noteq> None" for name
    using lm1 [of name] lm2 [of name] that by auto
  moreover have "length (lw_logger w) \<le> l" if "lm_loggers w name = None" "lm_loggers w2 name = Some l" for name l
  proof (cases "lm_loggers w1 name")
    case None
    from new2 [OF None that(2)] len(1) show ?thesis by simp
  next
    case (Some k)
    then show ?thesis using new1 [OF that(1)] lm2 [of name] that(2) by simp
  qed
  ultimately show ?thesis using len old1 old2 unfolding frame_def by (meson order_trans less_le_trans)
qed

lemma follows_frame:
  assumes "follows can_open w i" and fr: "frame names w w'" and "ld_name i \<notin> names" and inv: "log_inv w"
    and disj: "\<And>name k l. name \<in> names \<Longrightarrow> lm_loggers w name = Some k \<Longrightarrow> lm_loggers w (ld_name i) = Some l \<Longrightarrow> apps w l \<inter> apps w k = {}"
  shows "follows can_open w' i"
proof -
  from assms(1) obtain l where l: "lm_loggers w (ld_name i) = Some l" "lg_level (lw_logger w ! l) = ld_level i"
    "own_formatter (ld_formatter i) \<longrightarrow> lg_formatter (lw_logger w ! l) = Some (new_LogFormatter (ld_formatter i))"
    "appenders_of w l = map (configured can_open (lg_formatter (lw_logger w ! l))) (ld_appenders i)"
    by (auto simp: follows_def)
  have len: "l < length (lw_logger w)" using inv l(1) by (auto simp: log_inv_def)
  have "\<forall>name\<in>names. lm_loggers w name \<noteq> Some l" using inv l(1) assms(3) unfolding log_inv_def by metis
  then have same: "lw_logger w' ! l = lw_logger w ! l" using fr len by (simp add: frame_def)
  have "lw_appender w' ! a = lw_appender w ! a" if "a \<in> apps w l" for a
  proof -
    have "a < length (lw_appender w)" using inv_logger [OF inv len] that by (auto simp: logger_ok_def appender_ready_def)
    moreover have "\<forall>name\<in>names. \<forall>k. lm_loggers w name = Some k \<longrightarrow> a \<notin> apps w k" using disj [OF _ _ l(1)] that by blast
    ultimately show ?thesis using fr by (simp add: frame_def)
  qed
  then have "appenders_of w' l = appenders_of w l" by (simp add: appenders_of_def same)
  moreover have "lm_loggers w' (ld_name i) = Some l" using fr l(1) by (simp add: frame_def)
  ultimately show ?thesis using l same by (auto simp: follows_def)
qed

lemma define_applied:
  assumes inv: "log_inv w" and types: "known_types i" and get: "getLogger (ld_name i) w = (l, w1)"
  obtains w' where "configure_logger can_open l i w1 = Inr w'" and "log_inv w'" and "frame {ld_name i} w w'" and "follows can_open w' i"
    and "\<And>name k m. name \<noteq> ld_name i \<Longrightarrow> lm_loggers w' name = Some k \<Longrightarrow> lm_loggers w' (ld_name i) = Some m \<Longrightarrow> apps w' m \<inter> apps w' k = {}"
proof -
  note g = getLogger_facts [OF inv get]
  let ?n = "length (lw_appender w)" and ?m = "length (ld_appenders i)"
  obtain w' aps where c: "configure_logger can_open l i w1 = Inr w'"
    "lw_appender w' = aps @ map (configured can_open (new_formatter i (lw_logger w1 ! l))) (ld_appenders i)" "length aps = ?n"
    and keep: "\<And>a. a < ?n \<Longrightarrow> a \<notin> apps w1 l \<Longrightarrow> aps ! a = lw_appender w ! a"
    and lg: "lw_logger w' = (lw_logger w1)[l := (lw_logger w1 ! l)\<lparr>lg_level := ld_level i, lg_formatter := new_formatter i (lw_logger w1 ! l),
           lg_appenders := [?n..<?n + ?m]\<rparr>]" and lm: "lm_loggers w' = lm_loggers w1"
    by (rule configure_logger_result [OF g(2) types, of can_open, unfolded g(4)]) blast
  have inv': "log_inv w'" by (rule inv_configure_logger [OF g(1,2) c(1)])
  have old: "a < ?n" if "k < length (lw_logger w1)" "a \<in> apps w1 k" for k a
    using inv_logger [OF g(1) that(1)] that(2) g(4) by (auto simp: logger_ok_def appender_ready_def)
  have appsl: "apps w' l = {?n..<?n + ?m}" and others: "k \<noteq> l \<Longrightarrow> lw_logger w' ! k = lw_logger w1 ! k" for k
    using g(2) by (simp_all add: lg)
  have lml: "lm_loggers w' (ld_name i) = Some l" using lm g(3) by simp
  have created: "l < length (lw_logger w) \<longleftrightarrow> lm_loggers w (ld_name i) = Some l"
    using g(7,8) inv by (cases "lm_loggers w (ld_name i)") (auto simp: log_inv_def)
  have appw: "apps w1 k = (if k < length (lw_logger w) then apps w k else {})" if "k < length (lw_logger w1)" for k
  proof (cases "lm_loggers w (ld_name i)")
    case None
    then show ?thesis using get that by (auto simp: getLogger_def Let_def nth_append new_Logger_def)
  next
    case (Some m)
    then show ?thesis using g(8) that by simp
  qed
  have disj: "apps w' l \<inter> apps w' k = {}" if "k \<noteq> l" "k < length (lw_logger w1)" for k
    using old [OF that(2)] unfolding appsl others [OF that(1)] by fastforce
  have "lg_appenders (lw_logger w' ! l) = [?n..<?n + ?m]" using g(2) by (simp add: lg)
  then have "appenders_of w' l = map (configured can_open (new_formatter i (lw_logger w1 ! l))) (ld_appenders i)"
    by (intro nth_equalityI) (simp_all add: appenders_of_def c(2,3) nth_append)
  then have fol: "follows can_open w' i" using lml g(2) by (auto simp: follows_def lg new_formatter_def)
  have "frame {ld_name i} w w'"
    unfolding frame_def
  proof (intro conjI allI impI ballI)
    show "length (lw_logger w) \<le> length (lw_logger w')" "length (lw_appender w) \<le> length (lw_appender w')" using g(5) c by (simp_all add: lg)
    show "lm_loggers w' name = lm_loggers w name" if "name \<notin> {ld_name i} \<or> lm_loggers w name \<noteq> None" for name
      using that g(3,8) lm by auto
    show "length (lw_logger w) \<le> k" if "lm_loggers w name = None" "lm_loggers w' name = Some k" for name k
      using that g(3,7) lm by (auto split: if_splits)
    show "lw_logger w' ! k = lw_logger w ! k" if "k < length (lw_logger w)" "\<forall>name\<in>{ld_name i}. lm_loggers w name \<noteq> Some k" for k
      using that others [of k] g(6) created by (cases "k = l") auto
    show "lw_appender w' ! a = lw_appender w ! a"
      if "a < ?n" "\<forall>name\<in>{ld_name i}. \<forall>k. lm_loggers w name = Some k \<longrightarrow> a \<notin> apps w k" for a
      using that keep [of a] c created appw [OF g(2)] by (auto simp: nth_append split: if_splits)
    fix k a
    assume ka: "k < length (lw_logger w')" "a \<in> apps w' k" "a < ?n"
    then have "k \<noteq> l" using appsl by auto
    then show "k < length (lw_logger w)" "a \<in> apps w k" using ka others appw [of k] by (auto simp: lg split: if_splits)
  qed
  moreover have "apps w' m \<inter> apps w' k = {}"
    if "name \<noteq> ld_name i" "lm_loggers w' name = Some k" "lm_loggers w' (ld_name i) = Some m" for name k m
  proof -
    have "m = l" using that(3) lml by simp
    moreover have "k \<noteq> l" "k < length (lw_logger w1)" using inv' that(1,2) lml unfolding log_inv_def by (metis, simp add: lg)
    ultimately show ?thesis using disj by simp
  qed
  ultimately show ?thesis using that c(1) inv' fol by blast
qed

definition unchanged :: "log_define list \<Rightarrow> log_define \<Rightarrow> bool" where
  "unchanged old i \<longleftrightarrow> (case set_find ld_less i old of Some k \<Rightarrow> ld_eq i (old ! k) | None \<Rightarrow> False)"

lemma apply_new_Cons:
  "apply_new can_open old (i # ds) w =
     (if unchanged old i then Inl NullPointer
      else let (l, w1) = getLogger (ld_name i) w in err_bind (configure_logger can_open l i w1) (apply_new can_open old ds))"
  by (simp add: unchanged_def)

lemma apply_new_follows:
  assumes "log_inv w" and "distinct (map ld_name ds)" and "\<forall>i\<in>set ds. known_types i \<and> \<not> unchanged old i"
  obtains w' where "apply_new can_open old ds w = Inr w'" and "log_inv w'" and "frame (ld_name ` set ds) w w'" and "\<forall>i\<in>set ds. follows can_open w' i"
  using assms
proof (induction ds arbitrary: w thesis)
  case Nil
  then show ?case using frame_refl by simp
next
  case (Cons i ds)
  obtain l w1 where g: "getLogger (ld_name i) w = (l, w1)" by fastforce
  obtain w2 where 2: "configure_logger can_open l i w1 = Inr w2" "log_inv w2" "frame {ld_name i} w w2" "follows can_open w2 i"
    and disj: "\<And>name k m. name \<noteq> ld_name i \<Longrightarrow> lm_loggers w2 name = Some k \<Longrightarrow> lm_loggers w2 (ld_name i) = Some m \<Longrightarrow> apps w2 m \<inter> apps w2 k = {}"
    using define_applied [OF Cons.prems(2) _ g, of can_open] Cons.prems(4) by auto
  obtain w3 where 3: "apply_new can_open old ds w2 = Inr w3" "log_inv w3" "frame (ld_name ` set ds) w2 w3" "\<forall>i\<in>set ds. follows can_open w3 i"
    using Cons.IH [OF _ 2(2)] Cons.prems(3,4) by auto
  have "follows can_open w3 i"
  proof (rule follows_frame [OF 2(4) 3(3) _ 2(2)])
    show "ld_name i \<notin> ld_name ` set ds" using Cons.prems(3) by simp
    then show "apps w2 m \<inter> apps w2 k = {}"
      if "name \<in> ld_name ` set ds" "lm_loggers w2 name = Some k" "lm_loggers w2 (ld_name i) = Some m" for name k m
      using disj [OF _ that(2,3)] that(1) by blast
  qed
  moreover have "frame (ld_name ` set (i # ds)) w w3" using frame_trans [OF 2(3) 3(3) 2(2)] by simp
  moreover have "apply_new can_open old (i # ds) w = Inr w3"
    unfolding apply_new_Cons using Cons.prems(4) g 2(1) 3(1) by simp
  ultimately show ?case using Cons.prems(1) 3(2,4) by simp
qed

lemma apply_new_crash:
  assumes "i \<in> set ds" and "unchanged old i"
  shows "apply_new can_open old ds w = Inl NullPointer"
  using assms
proof (induction ds arbitrary: w)
  case (Cons d ds)
  obtain l w1 where g: "getLogger (ld_name d) w = (l, w1)" by fastforce
  show ?case
  proof (cases "unchanged old d")
    case True
    then show ?thesis by (simp only: apply_new_Cons if_True)
  next
    case False
    then have "i \<in> set ds" using Cons.prems by auto
    then have "apply_new can_open old ds w2 = Inl NullPointer" for w2 using Cons by blast
    moreover have "configure_appenders can_open l as w2 = Inl NullPointer \<or> (\<exists>w3. configure_appenders can_open l as w2 = Inr w3)" for as w2
      by (induction as arbitrary: w2) (auto simp: configure_appender_def Let_def split: prod.split)
    ultimately show ?thesis unfolding apply_new_Cons configure_logger_def Let_def using False g
      by (metis (no_types, lifting) case_prod_conv err_bind_Inl err_bind_Inr)
  qed
qed simp

subsection \<open>Removed definitions\<close>

definition disabled :: "log_world \<Rightarrow> string \<Rightarrow> bool" where
  "disabled w name \<longleftrightarrow> (\<exists>l. lm_loggers w name = Some l \<and> lg_level (lw_logger w ! l) = 100 \<and> lg_appenders (lw_logger w ! l) = [])"

lemma disable_facts:
  assumes "log_inv w"
  shows "log_inv (disable_logger m w)" and "lw_appender (disable_logger m w) = lw_appender w" and "disabled (disable_logger m w) m"
    and "lm_loggers w name = Some l \<Longrightarrow> lm_loggers (disable_logger m w) name = Some l"
    and "lm_loggers w name = Some l \<Longrightarrow> name \<noteq> m \<Longrightarrow> lw_logger (disable_logger m w) ! l = lw_logger w ! l"
proof -
  obtain k w1 where g: "getLogger m w = (k, w1)" by fastforce
  note f = getLogger_facts [OF assms g]
  have d: "disable_logger m w = clearAppenders k (logger_setLevel k 100 w1)" by (simp add: disable_logger_def g)
  show "log_inv (disable_logger m w)" unfolding d
    by (intro inv_log_step [OF log_step.step_clearAppenders] inv_log_step [OF log_step.step_logger_setLevel] f(1))
  show "lw_appender (disable_logger m w) = lw_appender w" "disabled (disable_logger m w) m" using f(2-4)
    by (simp_all add: d clearAppenders_def logger_setLevel_def disabled_def)
  show lm: "lm_loggers (disable_logger m w) name = Some l" if "lm_loggers w name = Some l" using that f(3,8)
    by (auto simp: d clearAppenders_def logger_setLevel_def)
  show "lw_logger (disable_logger m w) ! l = lw_logger w ! l" if "lm_loggers w name = Some l" "name \<noteq> m"
  proof -
    have "l < length (lw_logger w)" using assms that(1) by (auto simp: log_inv_def)
    moreover have "l \<noteq> k"
    proof
      assume "l = k"
      then have "lm_loggers w1 m = Some l" "lm_loggers w1 name = Some l" using f(3) that by simp_all
      then show False using f(1) that(2) unfolding log_inv_def by metis
    qed
    ultimately show ?thesis using f(6) by (simp add: d clearAppenders_def logger_setLevel_def)
  qed
qed

lemma follows_disable:
  assumes "log_inv w" and "follows can_open w i" and "m \<noteq> ld_name i"
  shows "follows can_open (disable_logger m w) i"
proof -
  from assms(2) obtain l where l: "lm_loggers w (ld_name i) = Some l" by (auto simp: follows_def)
  note f = disable_facts(2) [OF assms(1)] disable_facts(4,5) [OF assms(1) l]
  show ?thesis using assms(2,3) l f by (simp add: follows_def appenders_of_def)
qed

lemma disabled_disable:
  assumes "log_inv w" and "disabled w n"
  shows "disabled (disable_logger m w) n"
proof (cases "n = m")
  case True
  then show ?thesis using disable_facts(3) [OF assms(1)] by simp
next
  case False
  from assms(2) obtain l where l: "lm_loggers w n = Some l" by (auto simp: disabled_def)
  then show ?thesis using disable_facts(4,5) [OF assms(1) l] assms(2) False by (simp add: disabled_def)
qed

abbreviation disable_all :: "(log_define \<Rightarrow> bool) \<Rightarrow> log_world \<Rightarrow> log_define list \<Rightarrow> log_world" where
  "disable_all P \<equiv> foldl (\<lambda>w i. if P i then disable_logger (ld_name i) w else w)"

lemma disable_one:
  assumes "log_inv w"
  shows "log_inv (if b then disable_logger m w else w)" and "disabled w n \<Longrightarrow> disabled (if b then disable_logger m w else w) n"
    and "b \<Longrightarrow> disabled (if b then disable_logger m w else w) m"
    and "follows can_open w i \<Longrightarrow> (b \<longrightarrow> m \<noteq> ld_name i) \<Longrightarrow> follows can_open (if b then disable_logger m w else w) i"
  using assms disable_facts(1,3) disabled_disable follows_disable by simp_all

lemma disable_all_inv: "log_inv w \<Longrightarrow> log_inv (disable_all P w ds)"
  by (induction ds arbitrary: w) (simp_all add: disable_one(1) del: if_split)

lemma disable_all_keeps: "log_inv w \<Longrightarrow> disabled w n \<Longrightarrow> disabled (disable_all P w ds) n"
  by (induction ds arbitrary: w) (auto simp: disable_one(1,2) simp del: if_split split del: if_split)

lemma disable_all_disabled: "log_inv w \<Longrightarrow> i \<in> set ds \<Longrightarrow> P i \<Longrightarrow> disabled (disable_all P w ds) (ld_name i)"
proof (induction ds arbitrary: w)
  case (Cons d ds)
  let ?w = "if P d then disable_logger (ld_name d) w else w"
  have inv: "log_inv ?w" by (rule disable_one(1) [OF Cons.prems(1)])
  show ?case
  proof (cases "i = d")
    case True
    then have "disabled ?w (ld_name i)" using disable_one(3) [OF Cons.prems(1)] Cons.prems(3) by simp
    from disable_all_keeps [OF inv this] show ?thesis by simp
  next
    case False
    then show ?thesis using Cons.IH [OF inv] Cons.prems(2,3) by simp
  qed
qed simp

lemma disable_all_follows:
  "log_inv w \<Longrightarrow> follows can_open w i \<Longrightarrow> \<forall>d\<in>set ds. P d \<longrightarrow> ld_name d \<noteq> ld_name i \<Longrightarrow> follows can_open (disable_all P w ds) i"
proof (induction ds arbitrary: w)
  case (Cons d ds)
  let ?w = "if P d then disable_logger (ld_name d) w else w"
  have "log_inv ?w" "follows can_open ?w i"
    using disable_one(1) [OF Cons.prems(1)] disable_one(4) [OF Cons.prems(1,2)] Cons.prems(3) by simp_all
  from Cons.IH [OF this] Cons.prems(3) show ?case by simp
qed simp

subsection \<open>The variable\<close>

lemma sorted_names: "sorted_wrt ld_less ds \<Longrightarrow> distinct (map ld_name ds)"
  by (induction ds) (auto simp: ld_less_def lex_less_irrefl)

lemma CXS_LOG_returns:
  assumes "log_inv w" and "l < length (lw_logger w)"
  shows "\<exists>out. CXS_LOG_LEVEL strftime ctx content l level w = Inr (w\<lparr>lw_out := out\<rparr>)"
proof -
  have "\<exists>out. w = w\<lparr>lw_out := out\<rparr>" by (rule exI [of _ "lw_out w"]) simp
  then show ?thesis using logger_log_delivered [OF assms]
    by (auto simp: CXS_LOG_LEVEL_def LogEventWrap_dtor_def split: prod.split)
qed

lemma listener_follows:
  assumes "log_inv w" and "sorted_wrt ld_less old" and "sorted_wrt ld_less new" and "\<forall>i\<in>set new. known_types i"
    and "\<forall>i\<in>set new. \<forall>j\<in>set old. \<not> ld_eq i j"
  obtains w' where "LogIniter strftime ctx can_open old new w = Done w'" and "log_inv w'" and "\<forall>i\<in>set new. follows can_open w' i"
    and "\<forall>i\<in>set old. ld_name i \<notin> ld_name ` set new \<longrightarrow> disabled w' (ld_name i)"
proof -
  have root: "lm_root w < length (lw_logger w)" using assms(1) by (simp add: log_inv_def)
  obtain out where 1: "CXS_LOG_LEVEL strftime ctx ''on logger_conf_changed'' (lm_root w) INFO w = Inr (w\<lparr>lw_out := out\<rparr>)"
    using CXS_LOG_returns [OF assms(1) root] by metis
  have inv: "log_inv (w\<lparr>lw_out := out\<rparr>)" using assms(1) by (simp add: log_inv_def logger_ok_def appender_ready_def)
  have "\<not> unchanged old i" if "i \<in> set new" for i
    using assms(5) that find_some(1) [OF assms(2)] by (auto simp: unchanged_def split: option.split)
  then have all: "\<forall>i\<in>set new. known_types i \<and> \<not> unchanged old i" using assms(4) by blast
  obtain w2 where 2: "apply_new can_open old new (w\<lparr>lw_out := out\<rparr>) = Inr w2" "log_inv w2" "\<forall>i\<in>set new. follows can_open w2 i"
    using apply_new_follows [OF inv sorted_names [OF assms(3)] all] by metis
  let ?P = "\<lambda>i. set_find ld_less i new = None"
  show ?thesis
  proof (rule that)
    show "LogIniter strftime ctx can_open old new w = Done (remove_old old new w2)"
      by (simp add: LogIniter_def logger_conf_changed_def 1 2)
    show "log_inv (remove_old old new w2)" unfolding remove_old_def by (rule disable_all_inv [OF 2(2)])
    show "\<forall>i\<in>set new. follows can_open (remove_old old new w2) i"
    proof
      fix i
      assume "i \<in> set new"
      then have "follows can_open w2 i" "\<forall>d\<in>set old. ?P d \<longrightarrow> ld_name d \<noteq> ld_name i" using 2(3) find_none [OF assms(3)] by force+
      then show "follows can_open (remove_old old new w2) i" unfolding remove_old_def by (rule disable_all_follows [OF 2(2)])
    qed
    show "\<forall>i\<in>set old. ld_name i \<notin> ld_name ` set new \<longrightarrow> disabled (remove_old old new w2) (ld_name i)"
      using disable_all_disabled [OF 2(2), of _ old ?P] find_none [OF assms(3)] unfolding remove_old_def by blast
  qed
qed

lemma kept_fields [simp]: "ld_name (kept_define i) = ld_name i"
  by (simp add: kept_define_def)

lemma kept_types: "known_types i \<Longrightarrow> known_types (kept_define i)"
  by (auto simp: known_types_def kept_define_def kept_appender_def)

lemma kept_sorted: "sorted_wrt ld_less ds \<Longrightarrow> sorted_wrt ld_less (map kept_define ds)"
  by (simp add: sorted_wrt_map ld_less_def [abs_def])

definition defines_text :: "yaml_lib \<Rightarrow> log_define list \<Rightarrow> string" where
  "defines_text Y ds = y_dump Y (YSeq (map log_define_node ds))"

lemma defines_text_to: "yaml_reads Y \<Longrightarrow> c_to (set_cast ld_less Y (log_define_cast Y)) ds = Some (defines_text Y ds)"
  by (simp add: set_cast_def elems_to_def log_define_cast_def defines_text_def those_map_Some [where g = log_define_node])

lemma defines_text_from:
  assumes "yaml_ok Y" and "yaml_reads Y" and "\<forall>i\<in>set ds. known_types i" and "sorted_wrt ld_less ds"
  shows "c_from (set_cast ld_less Y (log_define_cast Y)) (defines_text Y ds) = Some (map kept_define ds)"
proof -
  have "those (map (log_define_from Y \<circ> (y_dump Y \<circ> log_define_node)) ds) = Some (map kept_define ds)"
    using assms(1-3) by (intro those_map_Some) (simp add: log_define_node_roundtrip)
  then show ?thesis using assms(1,2) set_rebuild [of ld_less "[]" "map kept_define ds"] kept_sorted [OF assms(4)]
    by (simp add: set_cast_def elems_from_def log_define_cast_def defines_text_def comp_def)
qed

text \<open>The definitions of loggers printed as YAML, as a set, are read back with the same names, formatters and appenders, but the
  level of every appender is lost; a level of a logger that is not one of the five comes back as unknown.\<close>

theorem log_defines_roundtrip:
  assumes "yaml_ok Y" and "yaml_reads Y" and "\<forall>i\<in>set ds. known_types i" and "sorted_wrt ld_less ds"
  shows "\<exists>s. c_to (set_cast ld_less Y (log_define_cast Y)) ds = Some s \<and>
    c_from (set_cast ld_less Y (log_define_cast Y)) s = Some (map kept_define ds)"
  using assms by (simp add: defines_text_to defines_text_from)

definition sample_define :: log_define where
  "sample_define = \<lparr>ld_name = ''system'', ld_level = INFO, ld_formatter = ''%m%n'',
     ld_appenders = [\<lparr>lad_type = 1, lad_level = ERROR, lad_file = ''/tmp/system.log'', lad_formatter = []\<rparr>,
                     \<lparr>lad_type = 2, lad_level = UNKNOW, lad_file = [], lad_formatter = ''%p %m%n''\<rparr>]\<rparr>"

lemma sample_define_types: "\<forall>i\<in>set [sample_define]. known_types i"
  by (simp add: sample_define_def known_types_def)

theorem log_defines_roundtrip_witness:
  "\<exists>s. c_to (set_cast ld_less plain_yaml (log_define_cast plain_yaml)) [sample_define] = Some s \<and>
    c_from (set_cast ld_less plain_yaml (log_define_cast plain_yaml)) s = Some [kept_define sample_define] \<and>
    lad_level (hd (ld_appenders (kept_define sample_define))) = UNKNOW"
  using log_defines_roundtrip [OF plain_yaml_ok sample_define_types] by (simp add: kept_define_def kept_appender_def sample_define_def)

definition other_define :: log_define where
  "other_define = \<lparr>ld_name = ''access'', ld_level = DEBUG, ld_formatter = [], ld_appenders = []\<rparr>"

lemma sample_names: "ld_name sample_define = ''system''" "ld_name other_define = ''access''"
  by (simp_all add: sample_define_def other_define_def)

text \<open>A change of the variable \<^verbatim>\<open>logs\<close> that keeps one of the definitions as it is crashes the program: the listener looks up
  no logger for such a definition and uses the null pointer.\<close>

theorem kept_definition_crashes:
  assumes "log_reachable w" and "sorted_wrt ld_less old" and "i \<in> set new" and "j \<in> set old" and "ld_eq i j"
    and "\<not> list_all2 ld_eq new old" and "v = (g_log_defines Y strftime ctx can_open)\<lparr>cv_value := old\<rparr>"
  shows "setValue new v w = (v, Crashed)"
proof -
  have "unchanged old i"
  proof -
    have name: "ld_name i = ld_name j" using assms(5) by (simp add: ld_eq_def)
    then have "set_find ld_less i old \<noteq> None" using find_none [OF assms(2), of i] assms(4) by auto
    then obtain k where k: "set_find ld_less i old = Some k" by auto
    have "old ! k = j" using sorted_names [OF assms(2)] find_some [OF assms(2) k] assms(4) name
      by (metis distinct_map inj_onD nth_mem)
    then show ?thesis using k assms(5) by (simp add: unchanged_def)
  qed
  moreover have "lm_root w < length (lw_logger w)" using log_reachable_inv [OF assms(1)] by (simp add: log_inv_def)
  then obtain out where "CXS_LOG_LEVEL strftime ctx ''on logger_conf_changed'' (lm_root w) INFO w = Inr (w\<lparr>lw_out := out\<rparr>)"
    using CXS_LOG_returns [OF log_reachable_inv [OF assms(1)]] by metis
  ultimately have "LogIniter strftime ctx can_open old new w = Crashed"
    using apply_new_crash [OF assms(3)] by (simp add: LogIniter_def logger_conf_changed_def)
  then show ?thesis using assms(6)
    by (simp add: assms(7) setValue_eq g_log_defines_def addListener_def Let_def new_ConfigVar_def log_defines_type_def)
qed

theorem kept_definition_crashes_witness:
  "snd (setValue [other_define, sample_define] ((g_log_defines plain_yaml (\<lambda>f t. f) (''log.cc'', 1, 1, 0, 0, ''main'') (\<lambda>_. True))
     \<lparr>cv_value := [sample_define]\<rparr>) sample_world) = Crashed"
proof -
  have "ld_eq sample_define sample_define" by (simp add: ld_eq_def lad_eq_def list_all2_same)
  then show ?thesis
    using kept_definition_crashes [OF sample_world_reachable, of "[sample_define]" sample_define "[other_define, sample_define]" sample_define]
    by simp
qed

text \<open>C20. The loggers follow the variable \<^verbatim>\<open>logs\<close>: giving it the text of a set of definitions whose appenders are of the two known types, none of which is
  read back as equal to a present one, stores what the conversion keeps of them (\<open>kept_define\<close>): the levels of all appenders are
  lost and become \<^verbatim>\<open>UNKNOW\<close>, a level of the logger outside the known ones becomes \<^verbatim>\<open>UNKNOW\<close>, and a file name is kept for a file
  appender only. Every logger is then left with the level of that, with its formatter if that is valid, and with
  exactly its appenders, in their order, each with its own formatter or else the logger's. Every logger whose definition
  is gone is disabled, with a level above all others and without appenders. The logging state keeps its invariant. A change to definitions
  of which one is equal to a present one, while others are not, crashes.\<close>

theorem loggers_follow_config:
  assumes "yaml_ok Y" and "yaml_reads Y" and "log_reachable w" and "\<forall>i\<in>set new. known_types i" and "sorted_wrt ld_less new"
    and "sorted_wrt ld_less old" and "\<forall>i\<in>set new. \<forall>j\<in>set old. \<not> ld_eq (kept_define i) j" and "new \<noteq> old"
    and "v = (g_log_defines Y strftime ctx can_open)\<lparr>cv_value := old\<rparr>"
  shows "\<exists>w'. fromString (defines_text Y new) v w = Some (True, v\<lparr>cv_value := map kept_define new\<rparr>, w') \<and> log_inv w' \<and>
    (\<forall>i\<in>set new. follows can_open w' (kept_define i) \<and> (\<forall>a\<in>set (ld_appenders (kept_define i)). lad_level a = UNKNOW)) \<and>
    (\<forall>i\<in>set old. ld_name i \<notin> ld_name ` set new \<longrightarrow> disabled w' (ld_name i)) \<and>
    (\<forall>ds i j. i \<in> set ds \<and> j \<in> set old \<and> ld_eq i j \<and> \<not> list_all2 ld_eq ds old \<longrightarrow> setValue ds v w = (v, Crashed))"
proof -
  obtain w' where 1: "LogIniter strftime ctx can_open old (map kept_define new) w = Done w'" "log_inv w'"
    "\<forall>i\<in>set (map kept_define new). follows can_open w' i"
    "\<forall>i\<in>set old. ld_name i \<notin> ld_name ` set (map kept_define new) \<longrightarrow> disabled w' (ld_name i)"
  proof (rule listener_follows [OF log_reachable_inv [OF assms(3)] assms(6) kept_sorted [OF assms(5)], of strftime ctx can_open])
    show "\<forall>i\<in>set (map kept_define new). known_types i" using assms(4) kept_types by auto
    show "\<forall>i\<in>set (map kept_define new). \<forall>j\<in>set old. \<not> ld_eq i j" using assms(7) by auto
  qed
  have "\<not> list_all2 ld_eq (map kept_define new) old"
    using assms(7,8) by (cases new; cases old) auto
  then have "fromString (defines_text Y new) v w = Some (True, v\<lparr>cv_value := map kept_define new\<rparr>, w')"
    using defines_text_from [OF assms(1,2,4,5)] 1(1)
    by (simp add: assms(9) fromString_def setValue_eq g_log_defines_def addListener_def Let_def new_ConfigVar_def log_defines_type_def)
  moreover have "\<forall>i\<in>set new. \<forall>a\<in>set (ld_appenders (kept_define i)). lad_level a = UNKNOW"
    by (auto simp: kept_define_def kept_appender_def)
  moreover have "setValue ds v w = (v, Crashed)" if "i \<in> set ds \<and> j \<in> set old \<and> ld_eq i j \<and> \<not> list_all2 ld_eq ds old" for ds i j
    using that kept_definition_crashes [OF assms(3,6) _ _ _ _ assms(9)] by blast
  ultimately show ?thesis using 1(2-4) by (intro exI [of _ w']) (auto simp: image_image)
qed

theorem loggers_follow_config_witness:
  "\<exists>w'. fromString (defines_text plain_yaml [sample_define])
      ((g_log_defines plain_yaml (\<lambda>f t. f) (''log.cc'', 1, 1, 0, 0, ''main'') (\<lambda>_. True))\<lparr>cv_value := [other_define]\<rparr>) sample_world =
    Some (True, (g_log_defines plain_yaml (\<lambda>f t. f) (''log.cc'', 1, 1, 0, 0, ''main'') (\<lambda>_. True))\<lparr>cv_value := [kept_define sample_define]\<rparr>, w') \<and>
    follows (\<lambda>_. True) w' (kept_define sample_define) \<and> disabled w' ''access''"
proof -
  have 1: "\<forall>i\<in>set [sample_define]. \<forall>j\<in>set [other_define]. \<not> ld_eq (kept_define i) j" by (simp add: ld_eq_def sample_names)
  have 2: "[sample_define] \<noteq> [other_define]" by (simp add: sample_define_def other_define_def)
  show ?thesis
    using loggers_follow_config [OF plain_yaml_ok sample_world_reachable sample_define_types _ _ 1 2 refl,
        where strftime = "\<lambda>f t. f" and ctx = "(''log.cc'', 1, 1, 0, 0, ''main'')" and can_open = "\<lambda>_. True"]
    by (auto simp: sample_names)
qed

end
