(* ===== verification/Locks.thy ===== *)
theory Locks
  imports Prelude
begin

text \<open>
  The locks of \<^verbatim>\<open>code/thread.h\<close>: the raw locks, and the scoped locks that take them in the constructor and give them back in the
  destructor. Any number of threads, each with its scoped lock, run against one raw lock in any interleaving (\<open>scoped_step\<close>). A
  thread that finds the lock taken stays in the call, which is a loop for \<^verbatim>\<open>CASLock\<close> and waits in the library for the
  others. The interface \<open>raw_lock\<close> is what the scoped locks rely on; mutual exclusion is proved from it once, and
  the locks of the code are interpretations. The pthread locks are modelled by their documented states.
\<close>

subsection \<open>Raw locks\<close>

datatype lock_mode = Shared | Exclusive

text \<open>\<^verbatim>\<open>CASLock\<close>: a flag; one round of the loop tests and sets it.\<close>

definition test_and_set :: "bool \<Rightarrow> bool \<times> bool" where
  "test_and_set flag = (flag, True)"

definition CASLock_lock_round :: "lock_mode \<Rightarrow> bool \<Rightarrow> bool option" where
  "CASLock_lock_round md flag = (case test_and_set flag of (was_set, flag') \<Rightarrow> if was_set then None else Some flag')"

definition CASLock_unlock :: "bool \<Rightarrow> bool" where
  "CASLock_unlock flag = False"

text \<open>\<^verbatim>\<open>Mutex\<close> and \<^verbatim>\<open>Spinlock\<close>: held or not.\<close>

definition Mutex_lock :: "lock_mode \<Rightarrow> bool \<Rightarrow> bool option" where
  "Mutex_lock md held = (if held then None else Some True)"

definition Mutex_unlock :: "bool \<Rightarrow> bool" where
  "Mutex_unlock held = False"

text \<open>\<^verbatim>\<open>RWMutex\<close>: the number of readers, or a writer. Both kinds of scoped lock call the same \<^verbatim>\<open>unlock\<close>. The results
  of \<^verbatim>\<open>pthread_rwlock_rdlock\<close> and \<^verbatim>\<open>pthread_rwlock_wrlock\<close> are ignored by the code; their errors (too many readers, a thread that locks twice) are taken as waiting.\<close>

datatype rwlock = Readers nat | Writer

definition RWMutex_lock :: "lock_mode \<Rightarrow> rwlock \<Rightarrow> rwlock option" where
  "RWMutex_lock md l = (case (md, l) of
       (Shared, Readers n) \<Rightarrow> Some (Readers (n + 1))
     | (Exclusive, Readers 0) \<Rightarrow> Some Writer
     | _ \<Rightarrow> None)"

definition RWMutex_unlock :: "rwlock \<Rightarrow> rwlock" where
  "RWMutex_unlock l = (case l of Writer \<Rightarrow> Readers 0 | Readers n \<Rightarrow> Readers (n - 1))"

subsection \<open>Scoped locks\<close>

text \<open>\<open>Free\<close>: the thread runs; \<open>Locking\<close>: it is inside the \<^verbatim>\<open>lock\<close> of the raw lock.\<close>

datatype lock_pc = Free | Locking

record scoped_lock =
  sl_mode :: lock_mode
  sl_locked :: bool
  sl_pc :: lock_pc

record 'l lock_sys =
  ls_raw :: 'l
  ls_scoped :: "scoped_lock list"

definition scoped_lock_call :: "scoped_lock \<Rightarrow> scoped_lock" where
  "scoped_lock_call s = (if sl_locked s then s else s\<lparr>sl_pc := Locking\<rparr>)"

definition scoped_lock_round :: "(lock_mode \<Rightarrow> 'l \<Rightarrow> 'l option) \<Rightarrow> scoped_lock \<Rightarrow> 'l \<Rightarrow> scoped_lock \<times> 'l" where
  "scoped_lock_round try_lock s raw = (case try_lock (sl_mode s) raw of
       None \<Rightarrow> (s, raw)
     | Some raw' \<Rightarrow> (s\<lparr>sl_locked := True, sl_pc := Free\<rparr>, raw'))"

definition scoped_unlock :: "('l \<Rightarrow> 'l) \<Rightarrow> scoped_lock \<Rightarrow> 'l \<Rightarrow> scoped_lock \<times> 'l" where
  "scoped_unlock unlock s raw = (if sl_locked s then (s\<lparr>sl_locked := False\<rparr>, unlock raw) else (s, raw))"

text \<open>
  The constructor starts with \<open>sl_locked\<close> unset and calls \<^verbatim>\<open>lock\<close>; the destructor calls \<^verbatim>\<open>unlock\<close>. So both are calls
  of the relation below, like the explicit ones.
\<close>

inductive scoped_step :: "(lock_mode \<Rightarrow> 'l \<Rightarrow> 'l option) \<Rightarrow> ('l \<Rightarrow> 'l) \<Rightarrow> 'l lock_sys \<Rightarrow> 'l lock_sys \<Rightarrow> bool"
  for try_lock unlock where
  step_lock: "t < length (ls_scoped s) \<Longrightarrow> sl_pc (ls_scoped s ! t) = Free \<Longrightarrow>
     scoped_step try_lock unlock s (s\<lparr>ls_scoped := (ls_scoped s)[t := scoped_lock_call (ls_scoped s ! t)]\<rparr>)"
| step_round: "t < length (ls_scoped s) \<Longrightarrow> sl_pc (ls_scoped s ! t) = Locking \<Longrightarrow>
     scoped_lock_round try_lock (ls_scoped s ! t) (ls_raw s) = (x, raw) \<Longrightarrow>
     scoped_step try_lock unlock s (s\<lparr>ls_raw := raw, ls_scoped := (ls_scoped s)[t := x]\<rparr>)"
| step_unlock: "t < length (ls_scoped s) \<Longrightarrow> sl_pc (ls_scoped s ! t) = Free \<Longrightarrow>
     scoped_unlock unlock (ls_scoped s ! t) (ls_raw s) = (x, raw) \<Longrightarrow>
     scoped_step try_lock unlock s (s\<lparr>ls_raw := raw, ls_scoped := (ls_scoped s)[t := x]\<rparr>)"

definition lock_start :: "'l \<Rightarrow> lock_mode list \<Rightarrow> 'l lock_sys" where
  "lock_start raw modes = \<lparr>ls_raw = raw, ls_scoped = map (\<lambda>md. \<lparr>sl_mode = md, sl_locked = False, sl_pc = Free\<rparr>) modes\<rparr>"

definition holders :: "lock_mode \<Rightarrow> 'l lock_sys \<Rightarrow> nat" where
  "holders md s = length (filter (\<lambda>x. sl_locked x \<and> sl_mode x = md) (ls_scoped s))"

subsection \<open>The interface\<close>

locale raw_lock =
  fixes modes :: "lock_mode set" and raw0 :: 'l and try_lock :: "lock_mode \<Rightarrow> 'l \<Rightarrow> 'l option" and unlock :: "'l \<Rightarrow> 'l"
    and readers :: "'l \<Rightarrow> nat" and writers :: "'l \<Rightarrow> nat"
  assumes start: "readers raw0 = 0" "writers raw0 = 0"
    and exclusive: "Exclusive \<in> modes \<Longrightarrow>
      (case try_lock Exclusive l of None \<Rightarrow> 0 < readers l + writers l | Some l' \<Rightarrow> readers l + writers l = 0 \<and> readers l' = 0 \<and> writers l' = 1)"
    and shared: "Shared \<in> modes \<Longrightarrow>
      (case try_lock Shared l of None \<Rightarrow> 0 < writers l | Some l' \<Rightarrow> writers l = 0 \<and> writers l' = 0 \<and> readers l' = readers l + 1)"
    and unlock_writer: "writers l = 1 \<Longrightarrow> readers l = 0 \<Longrightarrow> writers (unlock l) = 0 \<and> readers (unlock l) = 0"
    and unlock_reader: "writers l = 0 \<Longrightarrow> 0 < readers l \<Longrightarrow> writers (unlock l) = 0 \<and> readers (unlock l) = readers l - 1"
begin

definition lock_inv :: "'l lock_sys \<Rightarrow> bool" where
  "lock_inv s \<longleftrightarrow> holders Shared s = readers (ls_raw s) \<and> holders Exclusive s = writers (ls_raw s) \<and>
     (writers (ls_raw s) = 0 \<or> writers (ls_raw s) = 1 \<and> readers (ls_raw s) = 0) \<and>
     (\<forall>x\<in>set (ls_scoped s). sl_mode x \<in> modes \<and> (sl_pc x = Locking \<longrightarrow> \<not> sl_locked x))"

end

text \<open>Replacing the state of one thread changes the counts by that thread.\<close>

lemma length_filter_update:
  assumes "t < length xs"
  shows "length (filter P (xs[t := y])) + of_bool (P (xs ! t)) = length (filter P xs) + of_bool (P y)"
proof -
  have xs: "xs = take t xs @ xs ! t # drop (Suc t) xs" using assms by (simp add: id_take_nth_drop)
  have "length (filter P (xs[t := y])) = length (filter P (take t xs)) + of_bool (P y) + length (filter P (drop (Suc t) xs))"
    using assms by (simp add: upd_conv_take_nth_drop)
  moreover have "length (filter P xs) = length (filter P (take t xs)) + of_bool (P (xs ! t)) + length (filter P (drop (Suc t) xs))"
    by (subst xs) simp
  ultimately show ?thesis by simp
qed

context raw_lock
begin

lemma inv_start: "set md \<subseteq> modes \<Longrightarrow> lock_inv (lock_start raw0 md)"
  by (auto simp: lock_inv_def lock_start_def holders_def start filter_map comp_def)

lemma holders_update:
  "t < length (ls_scoped s) \<Longrightarrow> holders md (s\<lparr>ls_raw := raw, ls_scoped := (ls_scoped s)[t := x]\<rparr>) +
     of_bool (sl_locked (ls_scoped s ! t) \<and> sl_mode (ls_scoped s ! t) = md) = holders md s + of_bool (sl_locked x \<and> sl_mode x = md)"
  using length_filter_update [of t "ls_scoped s" "\<lambda>y. sl_locked y \<and> sl_mode y = md" x] by (simp add: holders_def)

lemma inv_step:
  assumes "scoped_step try_lock unlock s s'" and "lock_inv s"
  shows "lock_inv s'"
  using assms
proof (induction rule: scoped_step.induct)
  case (step_lock t s)
  let ?x = "scoped_lock_call (ls_scoped s ! t)"
  have x: "sl_mode ?x = sl_mode (ls_scoped s ! t)" "sl_locked ?x = sl_locked (ls_scoped s ! t)" "sl_pc ?x = Locking \<longrightarrow> \<not> sl_locked ?x"
    using step_lock(2) by (simp_all add: scoped_lock_call_def)
  have "holders md (s\<lparr>ls_scoped := (ls_scoped s)[t := ?x]\<rparr>) = holders md s" for md
    using holders_update [OF step_lock(1), where md = md and raw = "ls_raw s" and x = ?x] x by simp
  moreover have "sl_mode ?x \<in> modes" using step_lock x(1) by (simp add: lock_inv_def)
  ultimately show ?case using step_lock(3) x(3)
    by (auto simp: lock_inv_def dest!: set_update_subset_insert [THEN subsetD])
next
  case (step_round t s x raw)
  let ?x = "ls_scoped s ! t"
  have x: "sl_mode ?x \<in> modes" "\<not> sl_locked ?x" using step_round by (auto simp: lock_inv_def)
  note h = holders_update [OF step_round(1), where raw = raw and x = x]
  show ?case
  proof (cases "try_lock (sl_mode ?x) (ls_raw s)")
    case None
    then have "x = ?x" "raw = ls_raw s" using step_round(3) by (simp_all add: scoped_lock_round_def)
    then show ?thesis using step_round(4) by (simp add: lock_inv_def holders_def)
  next
    case (Some raw')
    then have new: "x = ?x\<lparr>sl_locked := True, sl_pc := Free\<rparr>" "raw = raw'" using step_round(3) by (simp_all add: scoped_lock_round_def)
    have "\<forall>y\<in>set ((ls_scoped s)[t := x]). sl_mode y \<in> modes \<and> (sl_pc y = Locking \<longrightarrow> \<not> sl_locked y)"
      using step_round(4) x(1) new(1) by (auto simp: lock_inv_def dest!: set_update_subset_insert [THEN subsetD])
    moreover have "holders Shared (s\<lparr>ls_raw := raw, ls_scoped := (ls_scoped s)[t := x]\<rparr>) = readers raw \<and>
        holders Exclusive (s\<lparr>ls_raw := raw, ls_scoped := (ls_scoped s)[t := x]\<rparr>) = writers raw \<and>
        (writers raw = 0 \<or> writers raw = 1 \<and> readers raw = 0)"
      using h [where md = Shared] h [where md = Exclusive] x step_round(4) Some new exclusive [of "ls_raw s"] shared [of "ls_raw s"]
      by (cases "sl_mode ?x") (auto simp: lock_inv_def)
    ultimately show ?thesis by (simp add: lock_inv_def)
  qed
next
  case (step_unlock t s x raw)
  let ?x = "ls_scoped s ! t"
  note h = holders_update [OF step_unlock(1), where raw = raw and x = x]
  show ?case
  proof (cases "sl_locked ?x")
    case False
    then have "x = ?x" "raw = ls_raw s" using step_unlock(3) by (simp_all add: scoped_unlock_def)
    then show ?thesis using step_unlock(4) by (simp add: lock_inv_def holders_def)
  next
    case True
    then have new: "x = ?x\<lparr>sl_locked := False\<rparr>" "raw = unlock (ls_raw s)" using step_unlock(3) by (simp_all add: scoped_unlock_def)
    have mem: "?x \<in> set (ls_scoped s)" using step_unlock(1) by simp
    have "\<forall>y\<in>set ((ls_scoped s)[t := x]). sl_mode y \<in> modes \<and> (sl_pc y = Locking \<longrightarrow> \<not> sl_locked y)"
      using step_unlock(2,4) mem new(1) by (auto simp: lock_inv_def dest!: set_update_subset_insert [THEN subsetD])
    moreover have "holders Shared (s\<lparr>ls_raw := raw, ls_scoped := (ls_scoped s)[t := x]\<rparr>) = readers raw \<and>
        holders Exclusive (s\<lparr>ls_raw := raw, ls_scoped := (ls_scoped s)[t := x]\<rparr>) = writers raw \<and>
        (writers raw = 0 \<or> writers raw = 1 \<and> readers raw = 0)"
      using h [where md = Shared] h [where md = Exclusive] True step_unlock(4) new unlock_writer [of "ls_raw s"] unlock_reader [of "ls_raw s"]
      by (cases "sl_mode ?x") (auto simp: lock_inv_def)
    ultimately show ?thesis by (simp add: lock_inv_def)
  qed
qed

lemma inv_reachable: "(scoped_step try_lock unlock)\<^sup>*\<^sup>* (lock_start raw0 md) s \<Longrightarrow> set md \<subseteq> modes \<Longrightarrow> lock_inv s"
  by (induction rule: rtranclp_induct) (simp_all add: inv_start inv_step)

lemma mutual_exclusion:
  assumes "(scoped_step try_lock unlock)\<^sup>*\<^sup>* (lock_start raw0 md) s" and "set md \<subseteq> modes"
  shows "holders Exclusive s = 0 \<or> holders Exclusive s = 1 \<and> holders Shared s = 0"
  using inv_reachable [OF assms] by (auto simp: lock_inv_def)

text \<open>When nobody holds the lock, any thread that waits for it gets it in its next round.\<close>

lemma free_lock_taken:
  assumes "(scoped_step try_lock unlock)\<^sup>*\<^sup>* (lock_start raw0 md) s" and "set md \<subseteq> modes"
    and "holders Exclusive s = 0" and "holders Shared s = 0" and "t < length (ls_scoped s)" and "sl_pc (ls_scoped s ! t) = Locking"
  shows "\<exists>s'. scoped_step try_lock unlock s s' \<and> sl_locked (ls_scoped s' ! t)"
proof -
  let ?x = "ls_scoped s ! t"
  have inv: "lock_inv s" by (rule inv_reachable [OF assms(1,2)])
  then have "sl_mode ?x \<in> modes" using assms(5) by (simp add: lock_inv_def)
  then obtain raw where "try_lock (sl_mode ?x) (ls_raw s) = Some raw"
    using inv assms(3,4) exclusive [of "ls_raw s"] shared [of "ls_raw s"]
    by (cases "sl_mode ?x"; cases "try_lock (sl_mode ?x) (ls_raw s)") (auto simp: lock_inv_def)
  then have "scoped_lock_round try_lock ?x (ls_raw s) = (?x\<lparr>sl_locked := True, sl_pc := Free\<rparr>, raw)" by (simp add: scoped_lock_round_def)
  from scoped_step.step_round [OF assms(5,6) this] have "scoped_step try_lock unlock s
      (s\<lparr>ls_raw := raw, ls_scoped := (ls_scoped s)[t := ?x\<lparr>sl_locked := True, sl_pc := Free\<rparr>]\<rparr>)" (is "scoped_step _ _ s ?s") .
  moreover have "sl_locked (ls_scoped ?s ! t)" using assms(5) by simp
  ultimately show ?thesis by blast
qed

end

subsection \<open>The locks of the code\<close>

interpretation cas: raw_lock "{Exclusive}" False CASLock_lock_round CASLock_unlock "\<lambda>_. 0" of_bool
  by unfold_locales (auto simp: CASLock_lock_round_def test_and_set_def CASLock_unlock_def)

interpretation mtx: raw_lock "{Exclusive}" False Mutex_lock Mutex_unlock "\<lambda>_. 0" of_bool
  by unfold_locales (auto simp: Mutex_lock_def Mutex_unlock_def)

fun rw_readers :: "rwlock \<Rightarrow> nat" where
  "rw_readers (Readers n) = n"
| "rw_readers Writer = 0"

fun rw_writers :: "rwlock \<Rightarrow> nat" where
  "rw_writers (Readers n) = 0"
| "rw_writers Writer = 1"

interpretation rw: raw_lock UNIV "Readers 0" RWMutex_lock RWMutex_unlock rw_readers rw_writers
proof unfold_locales
  fix l
  show "case RWMutex_lock Exclusive l of None \<Rightarrow> 0 < rw_readers l + rw_writers l
    | Some l' \<Rightarrow> rw_readers l + rw_writers l = 0 \<and> rw_readers l' = 0 \<and> rw_writers l' = 1"
    by (cases l) (auto simp: RWMutex_lock_def split: nat.split)
  show "case RWMutex_lock Shared l of None \<Rightarrow> 0 < rw_writers l
    | Some l' \<Rightarrow> rw_writers l = 0 \<and> rw_writers l' = 0 \<and> rw_readers l' = rw_readers l + 1"
    by (cases l) (auto simp: RWMutex_lock_def)
  show "rw_writers l = 1 \<Longrightarrow> rw_readers l = 0 \<Longrightarrow> rw_writers (RWMutex_unlock l) = 0 \<and> rw_readers (RWMutex_unlock l) = 0"
    and "rw_writers l = 0 \<Longrightarrow> 0 < rw_readers l \<Longrightarrow> rw_writers (RWMutex_unlock l) = 0 \<and> rw_readers (RWMutex_unlock l) = rw_readers l - 1"
    by (cases l; simp add: RWMutex_unlock_def)+
qed simp_all

text \<open>C23. The scoped locks exclude each other: in every interleaving of any number of threads that construct, lock, unlock and
  destroy scoped locks, at most one thread is inside a \<^verbatim>\<open>CASLock\<close>, at most one inside a \<^verbatim>\<open>Mutex\<close>, and while a thread is inside the write
  lock of a \<^verbatim>\<open>RWMutex\<close> no other thread is inside its read lock or its write lock. No lock stays taken when all have left: a
  thread that waits for a \<^verbatim>\<open>CASLock\<close> that nobody holds gets it with its next test.\<close>

theorem scoped_locks_exclude:
  shows "((scoped_step CASLock_lock_round CASLock_unlock)\<^sup>*\<^sup>* (lock_start False (replicate n Exclusive)) s \<longrightarrow> holders Exclusive s \<le> 1) \<and>
    ((scoped_step Mutex_lock Mutex_unlock)\<^sup>*\<^sup>* (lock_start False (replicate n Exclusive)) s \<longrightarrow> holders Exclusive s \<le> 1) \<and>
    ((scoped_step RWMutex_lock RWMutex_unlock)\<^sup>*\<^sup>* (lock_start (Readers 0) md) r \<longrightarrow>
       holders Exclusive r = 0 \<or> holders Exclusive r = 1 \<and> holders Shared r = 0) \<and>
    ((scoped_step CASLock_lock_round CASLock_unlock)\<^sup>*\<^sup>* (lock_start False (replicate n Exclusive)) s \<and> holders Exclusive s = 0 \<and>
       t < length (ls_scoped s) \<and> sl_pc (ls_scoped s ! t) = Locking \<longrightarrow>
       (\<exists>s'. scoped_step CASLock_lock_round CASLock_unlock s s' \<and> sl_locked (ls_scoped s' ! t)))"
proof -
  have md: "set (replicate n Exclusive) \<subseteq> {Exclusive}" by (simp add: set_replicate_conv_if)
  have "holders Shared s = 0" if "(scoped_step CASLock_lock_round CASLock_unlock)\<^sup>*\<^sup>* (lock_start False (replicate n Exclusive)) s"
    using cas.inv_reachable [OF that md] by (simp add: cas.lock_inv_def)
  then show ?thesis
    using cas.mutual_exclusion [OF _ md, of s] mtx.mutual_exclusion [OF _ md, of s] rw.mutual_exclusion [of md r] cas.free_lock_taken [OF _ md, of s t]
    by auto
qed

lemma lock_taken: "(scoped_step CASLock_lock_round CASLock_unlock)\<^sup>*\<^sup>* (lock_start False (replicate 2 Exclusive))
  \<lparr>ls_raw = True, ls_scoped = [\<lparr>sl_mode = Exclusive, sl_locked = True, sl_pc = Free\<rparr>, \<lparr>sl_mode = Exclusive, sl_locked = False, sl_pc = Free\<rparr>]\<rparr>"
proof -
  let ?u = "\<lparr>sl_mode = Exclusive, sl_locked = False, sl_pc = Free\<rparr>"
  let ?s1 = "\<lparr>ls_raw = False, ls_scoped = [\<lparr>sl_mode = Exclusive, sl_locked = False, sl_pc = Locking\<rparr>, ?u]\<rparr>"
  have "scoped_step CASLock_lock_round CASLock_unlock (lock_start False (replicate 2 Exclusive)) ?s1"
    using scoped_step.step_lock [of 0 "lock_start False (replicate 2 Exclusive)"] by (simp add: lock_start_def scoped_lock_call_def numeral_2_eq_2)
  moreover have "scoped_step CASLock_lock_round CASLock_unlock ?s1
      \<lparr>ls_raw = True, ls_scoped = [\<lparr>sl_mode = Exclusive, sl_locked = True, sl_pc = Free\<rparr>, ?u]\<rparr>"
    using scoped_step.step_round [of 0 ?s1 CASLock_lock_round _ _ CASLock_unlock] by (simp add: scoped_lock_round_def CASLock_lock_round_def test_and_set_def)
  ultimately show ?thesis by (meson rtranclp.rtrancl_into_rtrancl rtranclp.rtrancl_refl)
qed

theorem scoped_locks_exclude_witness:
  "holders Exclusive \<lparr>ls_raw = True, ls_scoped = [\<lparr>sl_mode = Exclusive, sl_locked = True, sl_pc = Free\<rparr>,
     \<lparr>sl_mode = Exclusive, sl_locked = False, sl_pc = Free\<rparr>]\<rparr> \<le> 1"
  using scoped_locks_exclude [of 2] lock_taken by blast

end
