(* ===== verification/Thread.thy ===== *)
theory Thread
  imports Prelude
begin

text \<open>
  \<^verbatim>\<open>Semaphore\<close> and \<^verbatim>\<open>Thread\<close> of \<^verbatim>\<open>code/thread.cc\<close>, and \<^verbatim>\<open>code/util.cc\<close>. The constructor of a thread runs in one thread and \<^verbatim>\<open>Thread::run\<close> in the
  new one; their steps interleave (\<open>thread_step\<close>). The function that the new thread calls may rename its thread, any
  number of times; the rest of what it does is not part of this state. The results of the pthread calls are free, a thread id is an
  argument. The thread that runs the constructor waits for the semaphore, so the constructor has to find what it promises
  whatever the order of the steps.
\<close>

subsection \<open>State\<close>

record 'cb thread_obj =
  th_id :: int
  th_thread :: nat
  th_cb :: "'cb option"
  th_name :: string
  th_sem :: nat

datatype ctor_pc = C_Create | C_Wait | C_Done | C_Threw

datatype run_pc = R_None | R_Start | R_Name | R_Id | R_Swap | R_Notify | R_Call | R_Done | R_Terminated

record 'cb thread_world =
  tw_obj :: "'cb thread_obj"
  tw_ctor :: ctor_pc
  tw_run :: run_pc
  t_thread :: bool
  t_thread_name :: string
  tw_cb :: "'cb option"

definition new_Thread :: "'cb \<Rightarrow> string \<Rightarrow> 'cb thread_world" where
  "new_Thread cb name =
     \<lparr>tw_obj = \<lparr>th_id = - 1, th_thread = 0, th_cb = Some cb, th_name = (if name = [] then ''UNKNOW'' else name), th_sem = 0\<rparr>,
      tw_ctor = C_Create, tw_run = R_None, t_thread = False, t_thread_name = ''UNKNOW'', tw_cb = None\<rparr>"

subsection \<open>Operations\<close>

text \<open>\<open>rt\<close> is the result of the library call; \<open>None\<close>: the operation throws.\<close>

definition sem_notify :: "int \<Rightarrow> 'cb thread_obj \<Rightarrow> 'cb thread_obj option" where
  "sem_notify rt o1 = (if rt \<noteq> 0 then None else Some (o1\<lparr>th_sem := th_sem o1 + 1\<rparr>))"

definition sem_wait :: "int \<Rightarrow> 'cb thread_obj \<Rightarrow> 'cb thread_obj option" where
  "sem_wait rt o1 = (if rt \<noteq> 0 then None else Some (o1\<lparr>th_sem := th_sem o1 - 1\<rparr>))"

definition Thread_create :: "int \<Rightarrow> nat \<Rightarrow> 'cb thread_world \<Rightarrow> 'cb thread_world" where
  "Thread_create rt handle w =
     (if rt \<noteq> 0 then w\<lparr>tw_ctor := C_Threw\<rparr>
      else w\<lparr>tw_obj := (tw_obj w)\<lparr>th_thread := handle\<rparr>, tw_ctor := C_Wait, tw_run := R_Start\<rparr>)"

definition Thread_wait :: "int \<Rightarrow> 'cb thread_world \<Rightarrow> 'cb thread_world" where
  "Thread_wait rt w = (case sem_wait rt (tw_obj w) of
       None \<Rightarrow> w\<lparr>tw_ctor := C_Threw\<rparr>
     | Some o1 \<Rightarrow> w\<lparr>tw_obj := o1, tw_ctor := C_Done\<rparr>)"

definition Thread_run :: "int \<Rightarrow> int \<Rightarrow> 'cb thread_world \<Rightarrow> 'cb thread_world" where
  "Thread_run tid rt w = (case tw_run w of
       R_Start \<Rightarrow> w\<lparr>t_thread := True, tw_run := R_Name\<rparr>
     | R_Name \<Rightarrow> w\<lparr>t_thread_name := th_name (tw_obj w), tw_run := R_Id\<rparr>
     | R_Id \<Rightarrow> w\<lparr>tw_obj := (tw_obj w)\<lparr>th_id := tid\<rparr>, tw_run := R_Swap\<rparr>
     | R_Swap \<Rightarrow> w\<lparr>tw_cb := th_cb (tw_obj w), tw_obj := (tw_obj w)\<lparr>th_cb := None\<rparr>, tw_run := R_Notify\<rparr>
     | R_Notify \<Rightarrow> (case sem_notify rt (tw_obj w) of
           None \<Rightarrow> w\<lparr>tw_run := R_Terminated\<rparr>
         | Some o1 \<Rightarrow> w\<lparr>tw_obj := o1, tw_run := R_Call\<rparr>)
     | R_Call \<Rightarrow> w\<lparr>tw_run := R_Done\<rparr>
     | _ \<Rightarrow> w)"

definition Thread_SetName :: "string \<Rightarrow> 'cb thread_world \<Rightarrow> 'cb thread_world" where
  "Thread_SetName name w =
     (let w1 = if t_thread w then w\<lparr>tw_obj := (tw_obj w)\<lparr>th_name := name\<rparr>\<rparr> else w in w1\<lparr>t_thread_name := name\<rparr>)"

definition Thread_GetName :: "'cb thread_world \<Rightarrow> string" where
  "Thread_GetName w = t_thread_name w"

definition Thread_join :: "int \<Rightarrow> 'cb thread_obj \<Rightarrow> 'cb thread_obj option" where
  "Thread_join rt o1 = (if th_thread o1 = 0 then Some o1 else if rt \<noteq> 0 then None else Some (o1\<lparr>th_thread := 0\<rparr>))"

text \<open>The destructor detaches a thread that was not joined.\<close>

definition Thread_dtor :: "'cb thread_obj \<Rightarrow> bool" where
  "Thread_dtor o1 \<longleftrightarrow> th_thread o1 \<noteq> 0"

inductive thread_step :: "int \<Rightarrow> 'cb thread_world \<Rightarrow> 'cb thread_world \<Rightarrow> bool" for tid where
  step_create: "tw_ctor w = C_Create \<Longrightarrow> handle \<noteq> 0 \<Longrightarrow> thread_step tid w (Thread_create rt handle w)"
| step_wait: "tw_ctor w = C_Wait \<Longrightarrow> 0 < th_sem (tw_obj w) \<or> rt \<noteq> 0 \<Longrightarrow> thread_step tid w (Thread_wait rt w)"
| step_run: "thread_step tid w (Thread_run tid rt w)"
| step_name: "tw_run w = R_Call \<Longrightarrow> thread_step tid w (Thread_SetName n w)"

subsection \<open>Utilities\<close>

text \<open>\<^verbatim>\<open>gettimeofday\<close> gives seconds and microseconds.\<close>

definition GetCurrentMS :: "u64 \<Rightarrow> u64 \<Rightarrow> u64" where
  "GetCurrentMS tv_sec tv_usec = tv_sec * 1000 + tv_usec div 1000"

definition GetCurrentUS :: "u64 \<Rightarrow> u64 \<Rightarrow> u64" where
  "GetCurrentUS tv_sec tv_usec = tv_sec * 1000 * 1000 + tv_usec"

text \<open>\<open>symbols\<close> is what \<^verbatim>\<open>backtrace_symbols\<close> returns for the frames; a negative number of frames to skip converts to a large one.\<close>

definition Backtrace :: "string list option \<Rightarrow> int \<Rightarrow> string list \<Rightarrow> string list" where
  "Backtrace symbols skip bt = (case symbols of
       None \<Rightarrow> bt
     | Some ss \<Rightarrow> bt @ drop (unat (word_of_int skip :: u64)) ss)"

definition BacktraceToString :: "string list option \<Rightarrow> int \<Rightarrow> string \<Rightarrow> string" where
  "BacktraceToString symbols skip prefix = concat (map (\<lambda>s. prefix @ s @ [CHR 0x0A]) (Backtrace symbols skip []))"

subsection \<open>The start of a thread\<close>

fun run_phase :: "run_pc \<Rightarrow> nat" where
  "run_phase R_None = 0"
| "run_phase R_Start = 1"
| "run_phase R_Name = 2"
| "run_phase R_Id = 3"
| "run_phase R_Swap = 4"
| "run_phase R_Notify = 5"
| "run_phase R_Terminated = 6"
| "run_phase R_Call = 7"
| "run_phase R_Done = 8"

text \<open>What the new thread has done so far, and that the constructor returns after the notification only.\<close>

definition thread_inv :: "int \<Rightarrow> 'cb \<Rightarrow> string \<Rightarrow> 'cb thread_world \<Rightarrow> bool" where
  "thread_inv tid cb name w \<longleftrightarrow> (let ph = run_phase (tw_run w) in
     (ph < 7 \<longrightarrow> th_name (tw_obj w) = name) \<and> (tw_ctor w = C_Done \<or> 0 < th_sem (tw_obj w) \<longrightarrow> 7 \<le> ph) \<and> (tw_ctor w = C_Create \<longrightarrow> ph = 0) \<and>
     (1 \<le> ph \<longrightarrow> th_thread (tw_obj w) \<noteq> 0) \<and> (2 \<le> ph \<longrightarrow> t_thread w) \<and> (3 \<le> ph \<longrightarrow> t_thread_name w = th_name (tw_obj w)) \<and>
     (4 \<le> ph \<longrightarrow> th_id (tw_obj w) = tid) \<and>
     (if 5 \<le> ph then th_cb (tw_obj w) = None \<and> tw_cb w = Some cb else th_cb (tw_obj w) = Some cb))"

lemma thread_inv_step: "thread_step tid w w' \<Longrightarrow> thread_inv tid cb name w \<Longrightarrow> thread_inv tid cb name w'"
proof (induction rule: thread_step.induct)
  case (step_create w handle rt)
  then show ?case by (auto simp: thread_inv_def Thread_create_def Let_def)
next
  case (step_wait w rt)
  then show ?case by (auto simp: thread_inv_def Thread_wait_def sem_wait_def Let_def split: if_split_asm)
next
  case (step_run w rt)
  then show ?case by (cases "tw_run w"; cases "rt = 0") (simp_all add: thread_inv_def Thread_run_def sem_notify_def)
next
  case (step_name w n)
  then show ?case by (simp add: thread_inv_def Thread_SetName_def Let_def)
qed

lemma thread_inv_reachable:
  "(thread_step tid)\<^sup>*\<^sup>* (new_Thread cb name) w \<Longrightarrow> thread_inv tid cb (if name = [] then ''UNKNOW'' else name) w"
proof (induction rule: rtranclp_induct)
  case base
  then show ?case by (simp add: thread_inv_def new_Thread_def)
qed (rule thread_inv_step)

text \<open>C25. Until the new thread calls its function the object has the name it was given. When the constructor of a thread has
  returned, in every interleaving with the new thread, the thread is running or has ended, its id is recorded in the object,
  it has the name of the object as its own, and it holds the function it will call; the object holds it no more. From then on
  the new thread leaves everything but the name of the object alone. The name it still writes: \<^verbatim>\<open>Thread::SetName\<close>, called by
  the function, goes through \<^verbatim>\<open>t_thread\<close> to the object, which must therefore not be destroyed before.\<close>

theorem thread_started:
  assumes "(thread_step tid)\<^sup>*\<^sup>* (new_Thread cb name) w"
  shows "(tw_run w \<notin> {R_Call, R_Done} \<longrightarrow> th_name (tw_obj w) = (if name = [] then ''UNKNOW'' else name)) \<and>
    (tw_ctor w = C_Done \<longrightarrow>
       tw_run w \<in> {R_Call, R_Done} \<and> th_id (tw_obj w) = tid \<and> Thread_GetName w = th_name (tw_obj w) \<and>
       tw_cb w = Some cb \<and> th_cb (tw_obj w) = None \<and> th_thread (tw_obj w) \<noteq> 0 \<and>
       (\<forall>w'. thread_step tid w w' \<longrightarrow> tw_ctor w' = C_Done \<and> tw_obj w' = (tw_obj w)\<lparr>th_name := th_name (tw_obj w')\<rparr>) \<and>
       (tw_run w = R_Call \<longrightarrow> thread_step tid w (Thread_SetName n w) \<and> th_name (tw_obj (Thread_SetName n w)) = n))"
proof (intro conjI impI)
  note inv = thread_inv_reachable [OF assms]
  show "th_name (tw_obj w) = (if name = [] then ''UNKNOW'' else name)" if "tw_run w \<notin> {R_Call, R_Done}"
    using inv that by (cases "tw_run w") (simp_all add: thread_inv_def Let_def)
  assume ctor: "tw_ctor w = C_Done"
  then have ph: "7 \<le> run_phase (tw_run w)" using inv by (simp add: thread_inv_def Let_def)
  then show run: "tw_run w \<in> {R_Call, R_Done}" by (cases "tw_run w") simp_all
  show "th_id (tw_obj w) = tid" "Thread_GetName w = th_name (tw_obj w)" "tw_cb w = Some cb" "th_cb (tw_obj w) = None"
    "th_thread (tw_obj w) \<noteq> 0"
    using inv ph by (simp_all add: thread_inv_def Thread_GetName_def Let_def)
  show "\<forall>w'. thread_step tid w w' \<longrightarrow> tw_ctor w' = C_Done \<and> tw_obj w' = (tw_obj w)\<lparr>th_name := th_name (tw_obj w')\<rparr>"
  proof (intro allI impI)
    fix w'
    assume "thread_step tid w w'"
    then show "tw_ctor w' = C_Done \<and> tw_obj w' = (tw_obj w)\<lparr>th_name := th_name (tw_obj w')\<rparr>"
    proof cases
      case (step_run rt)
      then show ?thesis using run ctor by (auto simp: Thread_run_def)
    next
      case (step_name m)
      then show ?thesis using ctor by (simp add: Thread_SetName_def Let_def)
    qed (use ctor in simp_all)
  qed
  assume "tw_run w = R_Call"
  then show "thread_step tid w (Thread_SetName n w)" by (rule step_name)
  show "th_name (tw_obj (Thread_SetName n w)) = n" using inv ph by (simp add: thread_inv_def Thread_SetName_def Let_def)
qed

definition started_world :: "nat thread_world" where
  "started_world = Thread_run 7 0 (Thread_run 7 0 (Thread_run 7 0 (Thread_run 7 0 (Thread_run 7 0 (Thread_create 0 1 (new_Thread 0 ''worker''))))))"

lemma started_world_reachable: "(thread_step 7)\<^sup>*\<^sup>* (new_Thread 0 ''worker'') (Thread_wait 0 started_world)"
proof -
  let ?r = "(thread_step 7)\<^sup>*\<^sup>* (new_Thread (0 :: nat) ''worker'')"
  have run: "?r w \<Longrightarrow> ?r (Thread_run 7 0 w)" for w using rtranclp.rtrancl_into_rtrancl step_run by metis
  have "?r (Thread_create 0 1 (new_Thread 0 ''worker''))" by (rule r_into_rtranclp, rule step_create) (simp_all add: new_Thread_def)
  then have "?r started_world" unfolding started_world_def by (intro run)
  moreover have "thread_step 7 started_world (Thread_wait 0 started_world)"
    by (rule step_wait) (simp_all add: started_world_def new_Thread_def Thread_create_def Thread_run_def sem_notify_def)
  ultimately show ?thesis by (rule rtranclp.rtrancl_into_rtrancl)
qed

theorem thread_started_witness: "th_id (tw_obj (Thread_wait 0 started_world)) = 7 \<and> tw_cb (Thread_wait 0 started_world) = Some 0"
proof -
  have "tw_ctor (Thread_wait 0 started_world) = C_Done" by (simp add: Thread_wait_def sem_wait_def)
  then show ?thesis using thread_started [OF started_world_reachable] by blast
qed

text \<open>The two clocks agree.\<close>

lemma clocks_agree:
  assumes "unat s * 1000000 + unat us < 2 ^ 64" and "unat us < 1000000"
  shows "unat (GetCurrentMS s us) = unat (GetCurrentUS s us) div 1000"
proof -
  have ms: "unat (s * 1000) = unat s * 1000" using assms by (subst unat_mult_lem [THEN iffD1]) simp_all
  have us: "unat (s * 1000 * 1000) = unat s * 1000 * 1000" using assms ms by (subst unat_mult_lem [THEN iffD1]) simp_all
  have "unat (GetCurrentMS s us) = unat s * 1000 + unat us div 1000" unfolding GetCurrentMS_def
    using assms ms by (subst unat_add_lem [THEN iffD1]) (simp_all add: unat_div_distrib)
  moreover have "unat (GetCurrentUS s us) = unat s * 1000 * 1000 + unat us" unfolding GetCurrentUS_def
    using assms us by (subst unat_add_lem [THEN iffD1]) simp_all
  ultimately show ?thesis by simp
qed

end
