(* ===== verification/ByteStream.thy ===== *)
theory ByteStream
  imports SocketStream ByteArray_RoundTrip
begin

text \<open>
  The operations of \<^verbatim>\<open>code/stream.cc\<close> and \<^verbatim>\<open>code/socket_stream.cc\<close> on a \<^verbatim>\<open>ByteArray\<close>: a read hands the nodes behind the
  position to \<^verbatim>\<open>recvmsg\<close> and then moves the position, a write does the same with \<^verbatim>\<open>sendmsg\<close>. \<^verbatim>\<open>recvmsg\<close> fills the
  buffers of its list one after the other (\<open>scatter\<close>), \<^verbatim>\<open>sendmsg\<close> sends them one after the other (\<open>gather\<close>); an
  empty list moves nothing.
\<close>

definition byte_of :: "char \<Rightarrow> byte" where
  "byte_of c = Some (of_nat (of_char c))"

definition char_of_byte :: "u8 \<Rightarrow> char" where
  "char_of_byte w = char_of (unat w)"

fun scatter :: "byte list list \<Rightarrow> iovec list \<Rightarrow> byte list \<Rightarrow> byte list list" where
  "scatter nodes [] d = nodes"
| "scatter nodes (v # vs) d =
     (let l = the (iov_len v) in
      scatter (nodes[iov_node v := memcpy_at (nodes ! iov_node v) (iov_off v) (take l d)]) vs (drop l d))"

definition gather :: "byte list list \<Rightarrow> iovec list \<Rightarrow> ba_error + string" where
  "gather nodes iovs =
     (if list_ex (\<lambda>v. iov_len v = None) iovs \<or> None \<in> set (iov_bytes nodes iovs) then Inl Indeterminate
      else Inr (map (\<lambda>b. char_of_byte (the b)) (iov_bytes nodes iovs)))"

definition stream_read_ba :: "nat \<Rightarrow> connection \<Rightarrow> bytearray \<Rightarrow> ba_error + int \<times> connection \<times> bytearray" where
  "stream_read_ba n c ba =
     (if \<not> cn_connected c then Inr (- 1, c, ba)
      else err_bind (getWriteBuffers ba [] n) (\<lambda>(_, iovs, ba).
        let (r, d, c) = stream_read (iov_total iovs) c;
            ba = ba\<lparr>m_nodes := scatter (m_nodes ba) iovs (map byte_of d)\<rparr>
        in if 0 < r then err_bind (setPosition ba (m_position ba + nat r)) (\<lambda>ba. Inr (r, c, ba))
           else Inr (r, c, ba)))"

definition stream_write_ba :: "nat \<Rightarrow> connection \<Rightarrow> bytearray \<Rightarrow> ba_error + int \<times> connection \<times> bytearray" where
  "stream_write_ba n c ba =
     (if \<not> cn_connected c then Inr (- 1, c, ba)
      else err_bind (getReadBuffers ba [] n) (\<lambda>(_, iovs).
        err_bind (gather (m_nodes ba) iovs) (\<lambda>data.
          let (r, c) = stream_write data c
          in if 0 < r then err_bind (setPosition ba (m_position ba + nat r)) (\<lambda>ba. Inr (r, c, ba))
             else Inr (r, c, ba))))"

text \<open>The loops compute with \<^verbatim>\<open>size_t\<close>, as those on plain buffers do; \<open>None\<close> means not ended after \<open>fuel\<close> rounds.\<close>

fun readFix_ba_loop ::
  "nat \<Rightarrow> connection \<Rightarrow> bytearray \<Rightarrow> u64 \<Rightarrow> u64 \<Rightarrow> (ba_error + int \<times> connection \<times> bytearray) option" where
  "readFix_ba_loop 0 c ba left sz = None"
| "readFix_ba_loop (Suc fuel) c ba left sz =
     (if left = 0 then Some (Inr (sint (ucast sz :: u32), c, ba))
      else case stream_read_ba (unat left) c ba of Inl e \<Rightarrow> Some (Inl e)
      | Inr (r, c, ba) \<Rightarrow>
          let len = word_of_int r :: u64 in
          if len = 0 then Some (Inr (0, c, ba)) else readFix_ba_loop fuel c ba (left - len) sz)"

definition readFixSize_ba :: "nat \<Rightarrow> connection \<Rightarrow> bytearray \<Rightarrow> u64 \<Rightarrow> (ba_error + int \<times> connection \<times> bytearray) option" where
  "readFixSize_ba fuel c ba sz = readFix_ba_loop fuel c ba sz sz"

fun writeFix_ba_loop ::
  "nat \<Rightarrow> connection \<Rightarrow> bytearray \<Rightarrow> u64 \<Rightarrow> u64 \<Rightarrow> (ba_error + int \<times> connection \<times> bytearray) option" where
  "writeFix_ba_loop 0 c ba left sz = None"
| "writeFix_ba_loop (Suc fuel) c ba left sz =
     (if left = 0 then Some (Inr (sint (ucast sz :: u32), c, ba))
      else case stream_write_ba (unat left) c ba of Inl e \<Rightarrow> Some (Inl e)
      | Inr (r, c, ba) \<Rightarrow>
          let len = word_of_int r :: u64 in
          if len = 0 then Some (Inr (0, c, ba)) else writeFix_ba_loop fuel c ba (left - len) sz)"

definition writeFixSize_ba :: "nat \<Rightarrow> connection \<Rightarrow> bytearray \<Rightarrow> u64 \<Rightarrow> (ba_error + int \<times> connection \<times> bytearray) option" where
  "writeFixSize_ba fuel c ba sz = writeFix_ba_loop fuel c ba sz sz"

subsection \<open>Scattering\<close>

lemma buffers_loop_scatter:
  assumes "blocks b nodes" and "0 < b" and "i < length nodes" and "npos < b" and "ncap = b - npos"
    and "b * i + npos + n \<le> b * length nodes"
  shows "\<exists>iovs. buffers_loop nodes (Some i) npos ncap n buffers = Inr (buffers @ iovs) \<and> iov_total iovs = n \<and>
    (\<forall>nodes' d. blocks b nodes' \<and> length nodes' = length nodes \<and> length d \<le> n \<longrightarrow>
       blocks b (scatter nodes' iovs d) \<and> length (scatter nodes' iovs d) = length nodes \<and>
       concat (scatter nodes' iovs d) = memcpy_at (concat nodes') (b * i + npos) d)"
  using assms
proof (induction nodes "Some i" npos ncap n buffers arbitrary: i rule: buffers_loop.induct)
  case (1 nodes npos ncap n buffers)
  note pre = "1.prems"
  have upd: "blocks b (nodes'[i := memcpy_at (nodes' ! i) npos s])"
    "concat (nodes'[i := memcpy_at (nodes' ! i) npos s]) = memcpy_at (concat nodes') (b * i + npos) s"
    if "blocks b nodes'" "length nodes' = length nodes" "npos + length s \<le> b" for nodes' s
    using that pre(3) blocks_nth [of b nodes' i] by (simp_all add: blocks_update concat_update_block)
  consider "n = 0" | (fits) "n \<noteq> 0" "ncap \<ge> n" | (cross) "\<not> ncap \<ge> n" by blast
  then show ?case
  proof cases
    case 1
    then show ?thesis by (simp add: buffers_loop.simps iov_total_def)
  next
    case fits
    let ?v = "\<lparr>iov_node = i, iov_off = npos, iov_len = Some n\<rparr>"
    have "buffers_loop nodes (Some i) npos ncap n buffers = Inr (buffers @ [?v])"
      using fits pre by (simp add: buffers_loop.simps)
    moreover have "blocks b (scatter nodes' [?v] d) \<and> length (scatter nodes' [?v] d) = length nodes \<and>
        concat (scatter nodes' [?v] d) = memcpy_at (concat nodes') (b * i + npos) d"
      if "blocks b nodes'" "length nodes' = length nodes" "length d \<le> n" for nodes' d
    proof -
      have "npos + length d \<le> b" using that(3) fits pre(4,5) by simp
      from upd [OF that(1,2) this] show ?thesis using that by simp
    qed
    moreover have "iov_total [?v] = n" by (simp add: iov_total_def)
    ultimately show ?thesis by blast
  next
    case cross
    let ?v = "\<lparr>iov_node = i, iov_off = npos, iov_len = Some ncap\<rparr>"
    note nx = next_node_exists [OF pre(2,3,4,5) _ pre(6)]
    have ne: "n \<noteq> 0" and lenj: "length (nodes ! Suc i) = b - 0"
      using cross pre(1) nx(2) by (simp_all add: blocks_nth)
    have fit: "b * Suc i + 0 + (n - ncap) \<le> b * length nodes" using nx(3) cross pre(6) by simp
    obtain iovs where rec: "buffers_loop nodes (Some (Suc i)) 0 (length (nodes ! Suc i)) (n - ncap)
          (buffers @ [?v]) = Inr ((buffers @ [?v]) @ iovs)" and tot: "iov_total iovs = n - ncap"
      and sc: "\<And>nodes' d. blocks b nodes' \<Longrightarrow> length nodes' = length nodes \<Longrightarrow> length d \<le> n - ncap \<Longrightarrow>
        blocks b (scatter nodes' iovs d) \<and> length (scatter nodes' iovs d) = length nodes \<and>
        concat (scatter nodes' iovs d) = memcpy_at (concat nodes') (b * Suc i) d"
      using "1.hyps" [OF ne refl _ cross _ pre(1,2) _ pre(2) lenj fit] cross nx(1,2) pre(3) by auto
    have "blocks b (scatter nodes' (?v # iovs) d) \<and> length (scatter nodes' (?v # iovs) d) = length nodes \<and>
        concat (scatter nodes' (?v # iovs) d) = memcpy_at (concat nodes') (b * i + npos) d"
      if n': "blocks b nodes'" "length nodes' = length nodes" "length d \<le> n" for nodes' d
    proof -
      let ?d1 = "take ncap d" and ?d2 = "drop ncap d"
      let ?nodes = "nodes'[i := memcpy_at (nodes' ! i) npos ?d1]"
      have u: "blocks b ?nodes" "concat ?nodes = memcpy_at (concat nodes') (b * i + npos) ?d1"
        using upd [OF n'(1,2), of ?d1] pre(4,5) by simp_all
      have s: "blocks b (scatter ?nodes iovs ?d2)" "length (scatter ?nodes iovs ?d2) = length nodes"
        "concat (scatter ?nodes iovs ?d2) = memcpy_at (concat ?nodes) (b * Suc i) ?d2"
        using sc [OF u(1), of ?d2] n' by simp_all
      have "memcpy_at (concat ?nodes) (b * Suc i) ?d2 = memcpy_at (concat nodes') (b * i + npos) (?d1 @ ?d2)"
      proof (cases "length d \<le> ncap")
        case True
        then show ?thesis using u(2) by simp
      next
        case False
        then have off: "b * Suc i = b * i + npos + length ?d1" using pre(4,5) by simp
        have "b * i + npos + length ?d1 + length ?d2 \<le> length (concat nodes')"
          using n' pre(6) by (simp add: length_concat_blocks)
        then show ?thesis unfolding u(2) off by (rule memcpy_at_append)
      qed
      then show ?thesis using s by simp
    qed
    moreover have "buffers_loop nodes (Some i) npos ncap n buffers = Inr (buffers @ ?v # iovs)"
      using rec ne cross pre(3) nx by (simp add: buffers_loop.simps [of nodes "Some i" npos ncap n buffers])
    moreover have "iov_total (?v # iovs) = n" using tot cross by (simp add: iov_total_def)
    ultimately show ?thesis by blast
  qed
qed

lemma write_buffers:
  assumes inv: "ba_inv ba" and add: "addCapacity ba n = Inr ba1" and room: "m_position ba + n \<le> m_capacity ba1" and n: "0 < n"
  obtains iovs where "getWriteBuffers ba [] n = Inr (n, iovs, ba1)" and "iov_total iovs = n"
    and "\<And>d. length d \<le> n \<Longrightarrow> blocks (m_baseSize ba) (scatter (m_nodes ba1) iovs d) \<and>
      length (scatter (m_nodes ba1) iovs d) = length (m_nodes ba1) \<and>
      concat (scatter (m_nodes ba1) iovs d) = memcpy_at (flat ba1) (m_position ba) d"
proof -
  note a = addCapacity_inv [OF inv add]
  note i1 = ba_invD [OF a(1)]
  let ?b = "m_baseSize ba1" and ?p = "m_position ba1"
  have lt: "?p < m_capacity ba1" using room n a(3) by simp
  have cur: "m_current ba1 = Some (?p div ?b)" using lt i1 by (simp add: cursor_def)
  have il: "?p div ?b < length (m_nodes ba1)" using lt i1(1,4) by (simp add: div_less_blocks)
  have leni: "length (m_nodes ba1 ! (?p div ?b)) - ?p mod ?b = ?b - ?p mod ?b"
    using il i1(3) by (simp add: blocks_nth)
  have fit: "?b * (?p div ?b) + ?p mod ?b + n \<le> ?b * length (m_nodes ba1)" using room i1(4) a(3) by simp
  obtain iovs where "buffers_loop (m_nodes ba1) (Some (?p div ?b)) (?p mod ?b)
      (length (m_nodes ba1 ! (?p div ?b)) - ?p mod ?b) n [] = Inr iovs" and "iov_total iovs = n"
    and "\<And>d. length d \<le> n \<Longrightarrow> blocks ?b (scatter (m_nodes ba1) iovs d) \<and> length (scatter (m_nodes ba1) iovs d) = length (m_nodes ba1) \<and>
      concat (scatter (m_nodes ba1) iovs d) = memcpy_at (flat ba1) ?p d"
    using buffers_loop_scatter [OF i1(3,1) il _ leni fit, of "[]"] i1(1,3) by (auto simp: flat_def)
  then show thesis
    using that [of iovs] n add cur i1(1) a by (simp add: getWriteBuffers_def Let_def)
qed

lemma buffers_loop_short:
  assumes "blocks b nodes" and "0 < b" and "i < length nodes" and "npos < b" and "ncap = b - npos"
    and "b * length nodes < b * i + npos + n"
  shows "buffers_loop nodes (Some i) npos ncap n buffers = Inl NullDeref"
  using assms
proof (induction nodes "Some i" npos ncap n buffers arbitrary: i rule: buffers_loop.induct)
  case (1 nodes npos ncap n buffers)
  note pre = "1.prems"
  have "b * Suc i \<le> b * length nodes" using pre(3) by (intro mult_le_mono2) simp
  then have cross: "\<not> ncap \<ge> n" and ne: "n \<noteq> 0" using pre(4-6) by auto
  show ?case
  proof (cases "Suc i < length nodes")
    case False
    then show ?thesis using ne cross pre(3) by (simp add: buffers_loop.simps next_node_def)
  next
    case True
    have lenj: "length (nodes ! Suc i) = b - 0" using pre(1) True by (simp add: blocks_nth)
    have "b * Suc i + 0 + (n - ncap) = b * i + npos + n" using pre(4,5) cross by simp
    then have short: "b * length nodes < b * Suc i + 0 + (n - ncap)" using pre(6) by simp
    have "buffers_loop nodes (Some (Suc i)) 0 (length (nodes ! Suc i)) (n - ncap)
        (buffers @ [\<lparr>iov_node = i, iov_off = npos, iov_len = Some ncap\<rparr>]) = Inl NullDeref"
      using "1.hyps" [OF ne refl _ cross _ pre(1,2) True pre(2) lenj short] True pre(3) by (simp add: next_node_def)
    then show ?thesis
      using ne cross pre(3) True by (simp add: buffers_loop.simps [of nodes "Some i" npos ncap n buffers] next_node_def)
  qed
qed

lemma write_buffers_short:
  assumes inv: "ba_inv ba" and add: "addCapacity ba n = Inr ba1" and short: "m_capacity ba1 < m_position ba + n" and n: "0 < n"
  shows "getWriteBuffers ba [] n = Inl NullDeref"
proof -
  note a = addCapacity_inv [OF inv add]
  note i1 = ba_invD [OF a(1)]
  let ?b = "m_baseSize ba1" and ?p = "m_position ba1"
  show ?thesis
  proof (cases "?p < m_capacity ba1")
    case False
    then show ?thesis using n add i1 by (simp add: getWriteBuffers_def Let_def cursor_def)
  next
    case True
    have il: "?p div ?b < length (m_nodes ba1)" using True i1(1,4) by (simp add: div_less_blocks)
    have leni: "length (m_nodes ba1 ! (?p div ?b)) - ?p mod ?b = ?b - ?p mod ?b" using il i1(3) by (simp add: blocks_nth)
    have "?b * length (m_nodes ba1) < ?b * (?p div ?b) + ?p mod ?b + n" using short i1(4) a(3) by simp
    from buffers_loop_short [OF i1(3,1) il _ leni this, of "[]"] i1(1)
    have "buffers_loop (m_nodes ba1) (Some (?p div ?b)) (?p mod ?b) (length (m_nodes ba1 ! (?p div ?b)) - ?p mod ?b) n [] = Inl NullDeref"
      by simp
    then show ?thesis using n add True i1 by (simp add: getWriteBuffers_def Let_def cursor_def)
  qed
qed

subsection \<open>Reading\<close>

definition after_read :: "bytearray \<Rightarrow> bytearray \<Rightarrow> string \<Rightarrow> bool" where
  "after_read ba ba' d \<longleftrightarrow> ba_inv ba' \<and> abs_ba ba' = buf_write (abs_ba ba) (map byte_of d)"

lemma stream_read_ba_round:
  assumes inv: "ba_inv ba" and add: "addCapacity ba n = Inr ba1" and room: "m_position ba + n \<le> m_capacity ba1" and n: "0 < n" "n < 2 ^ 31"
    and c: "cn_connected c" "stream_read n c = (int k, d, c')" and k: "0 < k" "length d = k" "k \<le> n"
  shows "if m_position ba + k = m_capacity ba1 then stream_read_ba n c ba = Inl NullDeref
         else \<exists>ba'. stream_read_ba n c ba = Inr (int k, c', ba') \<and> after_read ba ba' d \<and> m_capacity ba' = m_capacity ba1"
proof -
  note a = addCapacity_inv [OF inv add]
  note i1 = ba_invD [OF a(1)]
  obtain iovs where w: "getWriteBuffers ba [] n = Inr (n, iovs, ba1)" and tot: "iov_total iovs = n"
    and sc: "blocks (m_baseSize ba) (scatter (m_nodes ba1) iovs (map byte_of d))"
      "length (scatter (m_nodes ba1) iovs (map byte_of d)) = length (m_nodes ba1)"
      "concat (scatter (m_nodes ba1) iovs (map byte_of d)) = memcpy_at (flat ba1) (m_position ba) (map byte_of d)"
    using write_buffers [OF inv add room n(1)] k by (metis length_map)
  let ?ba = "ba1\<lparr>m_nodes := scatter (m_nodes ba1) iovs (map byte_of d)\<rparr>"
  have inv2: "ba_inv ?ba" using a(1) sc a(7) by (auto simp: ba_inv_def)
  have "stream_read_ba n c ba = err_bind (setPosition ?ba (m_position ba + k)) (\<lambda>ba. Inr (int k, c', ba))"
    using c w tot k(1) a(3) by (simp add: stream_read_ba_def)
  moreover have "setPosition ?ba (m_position ba + k) =
      (if m_position ba + k = m_capacity ba1 then Inl NullDeref
       else Inr (?ba\<lparr>m_position := m_position ba + k, m_size := max (m_size ba1) (m_position ba + k),
         m_current := Some ((m_position ba + k) div m_baseSize ba1)\<rparr>))" (is "_ = (if _ then _ else Inr ?ba2)")
    using setPosition_eq [OF inv2, of "m_position ba + k"] room k(3) by simp
  moreover have "after_read ba ?ba2 d" if ne: "m_position ba + k \<noteq> m_capacity ba1"
  proof -
    have "setPosition ?ba (m_position ba + k) = Inr ?ba2" using calculation(2) ne by simp
    then have "ba_inv ?ba2" by (rule setPosition_inv [OF inv2])
    moreover have "take (max (m_size ba1) (m_position ba + k)) (memcpy_at (flat ba1) (m_position ba) (map byte_of d)) =
        memcpy_at (take (m_size ba1) (flat ba1)) (m_position ba) (map byte_of d)"
      using take_max_memcpy_at [of "m_position ba" "m_size ba1" "flat ba1" "map byte_of d"] i1(5,6) a(3) k room length_flat [OF a(1)] by simp
    ultimately show ?thesis
      using sc(3) a(2,3) k by (simp add: after_read_def abs_ba_def content_def flat_def buf_write_def)
  qed
  ultimately show ?thesis by simp
qed

lemma addCapacity_enough: "m_position ba + n \<le> m_capacity ba \<Longrightarrow> addCapacity ba n = Inr ba"
  by (auto simp: addCapacity_def getCapacity_def Let_def)

lemma after_read_trans:
  assumes "ba_inv ba" and "after_read ba ba1 d1" and "after_read ba1 ba2 d2"
  shows "after_read ba ba2 (d1 @ d2)"
  using assms buf_write_append [of "m_position ba" "content ba" "map byte_of d1" "map byte_of d2"] length_content [OF assms(1)] ba_invD(5) [OF assms(1)]
  by (simp add: after_read_def) (simp add: abs_ba_def)

lemma readFix_ba_loop_ok:
  assumes "ba_inv ba" and "m_position ba + n \<le> m_capacity ba" and "n < 2 ^ 31" and "cn_connected c" and "n \<le> length (cn_incoming c)"
    and "list_all progress (cn_recv c)" and "n \<le> length (cn_recv c)" and "n < fuel" and "0 < n"
  shows "if m_position ba + n = m_capacity ba then readFix_ba_loop fuel c ba (of_nat n) sz = Some (Inl NullDeref)
         else \<exists>rs ba'. readFix_ba_loop fuel c ba (of_nat n) sz =
           Some (Inr (sint (ucast sz :: u32), c\<lparr>cn_incoming := drop n (cn_incoming c), cn_recv := rs\<rparr>, ba')) \<and>
           after_read ba ba' (take n (cn_incoming c))"
  using assms
proof (induction fuel arbitrary: c n ba)
  case (Suc fuel)
  note pre = Suc.prems
  obtain r rs where recv: "cn_recv c = r # rs" using pre(7,9) by (cases "cn_recv c") auto
  have "cn_incoming c \<noteq> []" using pre(5,9) by auto
  then obtain k where k: "0 < k" "k \<le> n" "k \<le> length (cn_incoming c)"
    "stream_read n c = (int k, take k (cn_incoming c), c\<lparr>cn_incoming := drop k (cn_incoming c), cn_recv := rs\<rparr>)" (is "_ = (_, _, ?c)")
    using stream_read_progress [OF pre(4) recv, of n] pre recv by auto
  have n: "unat (of_nat n :: u64) = n" "(of_nat n :: u64) \<noteq> 0" "(word_of_int (int k) :: u64) \<noteq> 0" "of_nat n - of_nat k = (of_nat (n - k) :: u64)"
    using pre(3,9) k of_nat_word_neq_0 [of n] of_nat_word_neq_0 [of k] by (auto simp: unat_of_nat)
  note round = stream_read_ba_round [OF pre(1) addCapacity_enough [OF pre(2)] pre(2,9,3,4) k(4,1) _ k(2)]
  show ?case
  proof (cases "m_position ba + k = m_capacity ba")
    case True
    then have "k = n" using pre(2) k(2) by simp
    then show ?thesis using True round k(3) n by simp
  next
    case False
    then obtain ba1 where r1: "stream_read_ba n c ba = Inr (int k, ?c, ba1)" and a1: "after_read ba ba1 (take k (cn_incoming c))"
      and cap: "m_capacity ba1 = m_capacity ba" using round k(3) by auto
    have pos: "m_position ba1 = m_position ba + k" using a1 k(3) by (simp add: after_read_def abs_ba_def buf_write_def)
    have step: "readFix_ba_loop (Suc fuel) c ba (of_nat n) sz = readFix_ba_loop fuel ?c ba1 (of_nat (n - k)) sz"
      using r1 n by simp
    show ?thesis
    proof (cases "n = k")
      case True
      then show ?thesis using False a1 step Suc.prems(8,9) by (cases fuel) auto
    next
      case ne: False
      have "if m_position ba1 + (n - k) = m_capacity ba1 then readFix_ba_loop fuel ?c ba1 (of_nat (n - k)) sz = Some (Inl NullDeref)
         else \<exists>rs ba'. readFix_ba_loop fuel ?c ba1 (of_nat (n - k)) sz =
           Some (Inr (sint (ucast sz :: u32), ?c\<lparr>cn_incoming := drop (n - k) (cn_incoming ?c), cn_recv := rs\<rparr>, ba')) \<and>
           after_read ba1 ba' (take (n - k) (cn_incoming ?c))"
        using pre k recv ne pos cap a1 by (intro Suc.IH) (auto simp: after_read_def)
      note ih = this
      have "take k (cn_incoming c) @ take (n - k) (drop k (cn_incoming c)) = take n (cn_incoming c)"
        using take_add [of k "n - k" "cn_incoming c"] k(2) by simp
      then have tr: "after_read ba ba' (take n (cn_incoming c))" if "after_read ba1 ba' (take (n - k) (drop k (cn_incoming c)))" for ba'
        using after_read_trans [OF pre(1) a1 that] by simp
      have cc: "?c\<lparr>cn_incoming := drop (n - k) (cn_incoming ?c), cn_recv := rs'\<rparr> =
          c\<lparr>cn_incoming := drop n (cn_incoming c), cn_recv := rs'\<rparr>" for rs' using k(2) by simp
      have pn: "m_position ba1 + (n - k) = m_position ba + n" using pos k(2) by simp
      show ?thesis
      proof (cases "m_position ba + n = m_capacity ba")
        case True
        then show ?thesis using ih unfolding step pn cap by simp
      next
        case notfull: False
        then show ?thesis using ih tr unfolding step pn cap cc by auto
      qed
    qed
  qed
qed simp

subsection \<open>Writing\<close>

text \<open>
  The scatter list of \<^verbatim>\<open>getReadBuffers\<close> has one entry only, the part of the bytes in the last node; \<open>last_part\<close> is its
  length when \<open>n\<close> bytes are wanted from the offset \<open>npos\<close> of a node on.
\<close>

definition last_part :: "nat \<Rightarrow> nat \<Rightarrow> nat \<Rightarrow> nat" where
  "last_part b npos n = (if npos + n \<le> b then n else Suc ((npos + n - 1) mod b))"

lemma last_part_next:
  assumes "npos < b" and "b - npos < n"
  shows "last_part b 0 (n - (b - npos)) = last_part b npos n"
proof -
  let ?m = "n - (b - npos)"
  have m: "npos + n - 1 = (?m - 1) + b" "0 < ?m" using assms by simp_all
  have "\<not> npos + n \<le> b" using assms by simp
  moreover have "(npos + n - 1) mod b = (?m - 1) mod b" unfolding m(1) by (rule mod_add_self2)
  ultimately have "last_part b npos n = Suc ((?m - 1) mod b)" by (simp add: last_part_def)
  moreover have "last_part b 0 ?m = Suc ((?m - 1) mod b)"
  proof (cases "?m \<le> b")
    case True
    then have "?m - 1 < b" using m(2) by linarith
    then have "Suc ((?m - 1) mod b) = ?m" using m(2) by (simp only: mod_less Suc_pred One_nat_def)
    then show ?thesis using True by (simp only: last_part_def add_0 if_True)
  next
    case False
    then show ?thesis by (simp only: last_part_def add_0 if_False)
  qed
  ultimately show ?thesis by simp
qed

lemma last_part_le: "0 < b \<Longrightarrow> 0 < n \<Longrightarrow> npos < b \<Longrightarrow> 0 < last_part b npos n \<and> last_part b npos n \<le> n"
proof -
  assume "0 < b" "0 < n" "npos < b"
  moreover have "Suc ((npos + n - 1) mod b) \<le> n" if "\<not> npos + n \<le> b"
  proof -
    have "(npos + n - 1) mod b = (npos + n - 1 - b) mod b" using that by (intro le_mod_geq) simp
    also have "\<dots> \<le> npos + n - 1 - b" by simp
    finally show ?thesis using that \<open>npos < b\<close> by simp
  qed
  ultimately show ?thesis by (simp add: last_part_def)
qed

lemma getReadBuffers_loop_ok:
  assumes "blocks b nodes" and "0 < b" and "i < length nodes" and "npos < b" and "ncap = b - npos" and "0 < n"
    and "b * i + npos + n \<le> b * length nodes"
  shows "\<exists>iov'. getReadBuffers_loop nodes (Some i) npos ncap n iov = Inr iov' \<and> iov_len iov' = Some (last_part b npos n) \<and>
    iov_bytes nodes [iov'] = drop (n - last_part b npos n) (take n (drop (b * i + npos) (concat nodes)))"
  using assms
proof (induction nodes "Some i" npos ncap n iov arbitrary: i rule: getReadBuffers_loop.induct)
  case (1 nodes npos ncap n iov)
  note pre = "1.prems"
  have leni: "length (nodes ! i) = b" using pre by (simp add: blocks_nth)
  have dr: "drop (b * i + npos) (concat nodes) = drop npos (nodes ! i) @ concat (drop (Suc i) nodes)"
    using pre by (simp add: drop_concat_block)
  show ?case
  proof (cases "ncap \<ge> n")
    case True
    then have "last_part b npos n = n" using pre by (simp add: last_part_def)
    then show ?thesis using True pre leni dr by (simp add: getReadBuffers_loop.simps iov_bytes_def)
  next
    case cross: False
    let ?v = "\<lparr>iov_node = i, iov_off = npos, iov_len = map_option (\<lambda>l. l + ncap) (iov_len iov)\<rparr>"
    note nx = next_node_exists [OF pre(2,3,4,5) _ pre(7)]
    have ne: "n \<noteq> 0" and lenj: "length (nodes ! Suc i) = b - 0"
      using cross pre(1) nx(2) by (simp_all add: blocks_nth)
    have fit: "b * Suc i + 0 + (n - ncap) \<le> b * length nodes" using nx(3) cross pre(7) by simp
    have lp: "last_part b 0 (n - ncap) = last_part b npos n" using last_part_next [OF pre(4)] cross pre(5) by simp
    obtain iov' where rec: "getReadBuffers_loop nodes (Some (Suc i)) 0 (length (nodes ! Suc i)) (n - ncap) ?v = Inr iov'"
      and len: "iov_len iov' = Some (last_part b npos n)"
      and by': "iov_bytes nodes [iov'] = drop (n - ncap - last_part b npos n) (take (n - ncap) (drop (b * Suc i) (concat nodes)))"
      using "1.hyps" [OF ne refl _ cross _ pre(1,2) _ pre(2) lenj _ fit] cross nx(1,2) pre(3) lp by auto
    have "drop (b * Suc i) (concat nodes) = drop ncap (drop (b * i + npos) (concat nodes))"
      using pre(4,5) by (simp add: add.commute add.assoc)
    then have "iov_bytes nodes [iov'] = drop (n - ncap - last_part b npos n) (drop ncap (take n (drop (b * i + npos) (concat nodes))))"
      using by' by (simp add: drop_take)
    moreover have "last_part b npos n \<le> n - ncap" using last_part_le [of b "n - ncap" 0] pre(2) cross lp by simp
    ultimately have "iov_bytes nodes [iov'] = drop (n - last_part b npos n) (take n (drop (b * i + npos) (concat nodes)))"
      using cross by simp
    then show ?thesis
      using rec len ne cross pre(3) nx by (simp add: getReadBuffers_loop.simps [of nodes "Some i" npos ncap n iov])
  qed
qed

lemma char_byte: "byte_of c = Some w \<Longrightarrow> char_of_byte w = c"
proof -
  assume "byte_of c = Some w"
  then have "unat w = of_char c" by (auto simp: byte_of_def unat_of_nat)
  then show ?thesis by (simp add: char_of_byte_def)
qed

lemma stream_write_ba_exact:
  assumes inv: "ba_inv ba" and n: "0 < n" "n \<le> getReadSize ba" "n < 2 ^ 31" and c: "cn_connected c" "cn_send c = Moved k # rs" "0 < k"
    and data: "take n (drop (m_position ba) (content ba)) = map byte_of data"
  defines "sent \<equiv> take k (drop (n - last_part (m_baseSize ba) (m_position ba mod m_baseSize ba) n) data)"
  shows "stream_write_ba n c ba =
    (if m_position ba + length sent = m_capacity ba then Inl NullDeref
     else Inr (int (length sent), c\<lparr>cn_outgoing := cn_outgoing c @ sent, cn_send := rs\<rparr>,
       ba\<lparr>m_position := m_position ba + length sent, m_current := Some ((m_position ba + length sent) div m_baseSize ba)\<rparr>))"
proof -
  note i = ba_invD [OF inv]
  let ?b = "m_baseSize ba" and ?p = "m_position ba"
  let ?l = "last_part ?b (?p mod ?b) n" and ?d = "drop (n - last_part ?b (?p mod ?b) n) data"
  have room: "?p + n \<le> m_size ba" "?p < m_capacity ba" using n i(5,6) by (simp_all add: getReadSize_def)
  have cur: "m_current ba = Some (?p div ?b)" using room i(7) by (simp add: cursor_def)
  have il: "?p div ?b < length (m_nodes ba)" using room i(1,4) by (simp add: div_less_blocks)
  have leni: "length (m_nodes ba ! (?p div ?b)) - ?p mod ?b = ?b - ?p mod ?b" using il i(3) by (simp add: blocks_nth)
  have fit: "?b * (?p div ?b) + ?p mod ?b + n \<le> ?b * length (m_nodes ba)" using room i(4,6) by simp
  obtain iov where iov: "getReadBuffers_loop (m_nodes ba) (Some (?p div ?b)) (?p mod ?b) (?b - ?p mod ?b) n
      \<lparr>iov_node = ?p div ?b, iov_off = ?p mod ?b, iov_len = None\<rparr> = Inr iov" "iov_len iov = Some ?l"
    "iov_bytes (m_nodes ba) [iov] = drop (n - ?l) (take n (drop ?p (flat ba)))"
    using getReadBuffers_loop_ok [OF i(3,1) il _ refl n(1) fit] i(1) by (auto simp: flat_def)
  have g: "getReadBuffers ba [] n = Inr (n, [iov])"
    using iov(1) n cur i(1) leni by (simp add: getReadBuffers_def Let_def)
  have "take n (drop ?p (flat ba)) = map byte_of data"
    using data n(2) by (simp add: content_def drop_take take_take min_def getReadSize_def)
  then have b: "iov_bytes (m_nodes ba) [iov] = map byte_of ?d" using iov(3) by (simp add: drop_map)
  have ga: "gather (m_nodes ba) [iov] = Inr ?d"
  proof -
    have "(\<lambda>c. char_of_byte (the (byte_of c))) = id" by (rule ext) (simp add: byte_of_def char_byte [unfolded byte_of_def])
    then have "map (\<lambda>b. char_of_byte (the b)) (map byte_of ?d) = ?d" by (simp add: comp_def)
    moreover have "None \<notin> set (map byte_of ?d)" by (auto simp: byte_of_def)
    ultimately show ?thesis using iov(2) unfolding gather_def b by simp
  qed
  have "length data = length (take n (drop ?p (content ba)))" unfolding data by simp
  then have ld: "length data = n" using room(1) length_content [OF inv] by simp
  have l: "0 < ?l" "?l \<le> n" using last_part_le [OF i(1) n(1)] i(1) by simp_all
  have sent: "0 < length sent" "length sent \<le> n" using l ld c(3) by (simp_all add: sent_def)
  then have "stream_write ?d c = (int (length sent), c\<lparr>cn_outgoing := cn_outgoing c @ sent, cn_send := rs\<rparr>)"
    using c n(3) to_int32_nat [of "length sent"] by (simp add: stream_write_def sent_def Let_def)
  then have "stream_write_ba n c ba = err_bind (setPosition ba (?p + length sent))
      (\<lambda>ba. Inr (int (length sent), c\<lparr>cn_outgoing := cn_outgoing c @ sent, cn_send := rs\<rparr>, ba))"
    using c(1) g ga sent(1) by (simp add: stream_write_ba_def)
  moreover have "max (m_size ba) (?p + length sent) = m_size ba" using sent(2) room(1) by simp
  ultimately show ?thesis
    using setPosition_eq [OF inv, of "?p + length sent"] sent(2) room(1) i(6) by simp
qed

subsection \<open>Properties\<close>

text \<open>C30. Reading a number of bytes from a socket into a byte buffer. \<^verbatim>\<open>addCapacity\<close> always returns, but it makes the room
  for the bytes only under the condition \<open>write_fits\<close>. When the room behind the position is larger than the number, the
  loop, however the network cuts the bytes into pieces, puts exactly the next bytes of the connection at the position of the
  buffer and moves it behind them, keeping the chunk invariant, and returns the number. In every other case a null pointer is followed: before
  the first byte is received when \<^verbatim>\<open>addCapacity\<close> allocated too little, and by the last move of the position when the
  bytes end exactly at the capacity. The connection delivers at least that many bytes, and none of the receives fails.\<close>

theorem read_into_bytearray:
  assumes inv: "ba_inv ba" and n: "0 < n" "n < 2 ^ 31" and "cn_connected c"
    and "n \<le> length (cn_incoming c)" and "list_all progress (cn_recv c)" and "n \<le> length (cn_recv c)"
  shows "\<exists>ba1. addCapacity ba n = Inr ba1 \<and> (m_position ba + n \<le> m_capacity ba1 \<longleftrightarrow> write_fits ba n) \<and>
    (if m_position ba + n < m_capacity ba1
     then \<exists>rs ba'. readFixSize_ba (Suc n) c ba (of_nat n) =
           Some (Inr (int n, c\<lparr>cn_incoming := drop n (cn_incoming c), cn_recv := rs\<rparr>, ba')) \<and>
           ba_inv ba' \<and> abs_ba ba' = buf_write (abs_ba ba) (map byte_of (take n (cn_incoming c)))
     else readFixSize_ba (Suc n) c ba (of_nat n) = Some (Inl NullDeref))"
proof -
  obtain ba1 where add: "addCapacity ba n = Inr ba1" using addCapacity_ok [OF inv] by blast
  note a = addCapacity_inv [OF inv add]
  have w: "unat (of_nat n :: u64) = n" "(of_nat n :: u64) \<noteq> 0"
    using n of_nat_word_neq_0 [of n] by (simp_all add: unat_of_nat)
  have ab: "abs_ba ba1 = abs_ba ba" using a(2,3) by (simp add: abs_ba_def)
  have "readFixSize_ba (Suc n) c ba (of_nat n) = Some (Inl NullDeref)" if "\<not> m_position ba + n \<le> m_capacity ba1"
    using write_buffers_short [OF inv add _ n(1)] that assms(4) w by (simp add: readFixSize_ba_def stream_read_ba_def)
  moreover have "readFixSize_ba (Suc n) c ba (of_nat n) = readFix_ba_loop (Suc n) c ba1 (of_nat n) (of_nat n)"
    if "m_position ba + n \<le> m_capacity ba1"
  proof -
    have "getWriteBuffers ba [] n = getWriteBuffers ba1 [] n"
      using add n(1) addCapacity_enough [of ba1 n] that a(3) by (simp add: getWriteBuffers_def)
    then show ?thesis using assms(4) w by (simp add: readFixSize_ba_def stream_read_ba_def)
  qed
  moreover note readFix_ba_loop_ok [OF a(1) _ n(2) assms(4-7) lessI n(1), of "of_nat n", unfolded sint_ucast_size [OF n(2)] a(3) after_read_def ab]
  ultimately show ?thesis using add addCapacity_room [OF inv add] by (cases "m_position ba + n" "m_capacity ba1" rule: linorder_cases) auto
qed

definition hello_connection :: connection where
  "hello_connection = \<lparr>cn_connected = True, cn_incoming = ''hello'', cn_recv = replicate 5 (Moved 2), cn_outgoing = [], cn_send = replicate 8 (Moved 9)\<rparr>"

theorem read_into_bytearray_witness:
  "(\<exists>c' ba'. readFixSize_ba (Suc 3) hello_connection (new_ByteArray 4) 3 = Some (Inr (3, c', ba')) \<and> content ba' = map byte_of ''hel'') \<and>
   readFixSize_ba (Suc 4) hello_connection (new_ByteArray 4) 4 = Some (Inl NullDeref) \<and>
   readFixSize_ba (Suc 5) hello_connection (new_ByteArray 4) 5 = Some (Inl NullDeref)"
proof -
  have add: "addCapacity (new_ByteArray 4) 3 = Inr (new_ByteArray 4)" "addCapacity (new_ByteArray 4) 4 = Inr (new_ByteArray 4)"
    "addCapacity (new_ByteArray 4) 5 = Inr (new_ByteArray 4)"
    by (simp_all add: addCapacity_def new_ByteArray_def getCapacity_def)
  have c: "cn_connected hello_connection" "list_all progress (cn_recv hello_connection)" "length (cn_recv hello_connection) = 5"
    "cn_incoming hello_connection = ''hello''"
    by (simp_all add: hello_connection_def progress_def list_all_iff)
  have ab: "abs_ba (new_ByteArray 4) = ([], 0)" by (simp add: abs_ba_def content_def new_ByteArray_def)
  note rd = read_into_bytearray [OF new_ByteArray_inv, of 4 _ hello_connection]
  show ?thesis
    using rd [of 3] rd [of 4] rd [of 5] c add ab
    by (auto simp: new_ByteArray_def abs_ba_def buf_write_def memcpy_at_def)
qed

text \<open>C31. Writing a byte buffer to a socket: one call offers the part of the bytes that lies in the last of
  their nodes only, and moves the position by what was taken of it. So bytes within one node are sent as
  they are, and of bytes that cross a node boundary the first ones are left out, while the position moves by
  the number sent. At the capacity the position cannot be moved and a null pointer is followed.\<close>

theorem write_from_bytearray:
  assumes "ba_inv ba" and "0 < n" and "n \<le> getReadSize ba" and "n < 2 ^ 31" and "cn_connected c" and "cn_send c = Moved k # rs" and "0 < k"
    and "take n (drop (m_position ba) (content ba)) = map byte_of data"
  shows "\<exists>l. (if m_position ba mod m_baseSize ba + n \<le> m_baseSize ba then l = n else l < n \<and> l = (m_position ba + n - 1) mod m_baseSize ba + 1) \<and>
    (let sent = take k (drop (n - l) data) in
     stream_write_ba n c ba =
      (if m_position ba + length sent = m_capacity ba then Inl NullDeref
       else Inr (int (length sent), c\<lparr>cn_outgoing := cn_outgoing c @ sent, cn_send := rs\<rparr>,
         ba\<lparr>m_position := m_position ba + length sent, m_current := Some ((m_position ba + length sent) div m_baseSize ba)\<rparr>)))"
proof -
  let ?b = "m_baseSize ba" and ?p = "m_position ba"
  note b = ba_invD(1) [OF assms(1)]
  have "(?p mod ?b + n - 1) mod ?b = (?p + n - 1) mod ?b"
    using mod_add_left_eq [of ?p ?b "n - 1"] assms(2) by simp
  moreover have "Suc ((?p mod ?b + n - 1) mod ?b) < n" if "\<not> ?p mod ?b + n \<le> ?b"
  proof -
    have "(?p mod ?b + n - 1) mod ?b = (?p mod ?b + n - 1 - ?b) mod ?b" using that by (intro le_mod_geq) simp
    also have "\<dots> \<le> ?p mod ?b + n - 1 - ?b" by simp
    finally show ?thesis using that mod_less_divisor [OF b, of ?p] by linarith
  qed
  ultimately show ?thesis
    using stream_write_ba_exact [OF assms(1-8)] unfolding Let_def
    by (intro exI [of _ "last_part ?b (?p mod ?b) n"]) (simp add: last_part_def)
qed

definition two_nodes :: bytearray where
  "two_nodes = \<lparr>m_position = 0, m_capacity = 8, m_baseSize = 4, m_size = 6, m_endian = CXS_BIG_ENDIAN,
     m_nodes = [map byte_of ''abcd'', map byte_of ''efgh''], m_current = Some 0, m_overread = 0\<rparr>"

theorem write_from_bytearray_witness:
  "\<exists>c' ba'. stream_write_ba 6 hello_connection two_nodes = Inr (2, c', ba') \<and> cn_outgoing c' = ''ef'' \<and> m_position ba' = 2"
proof -
  have i: "ba_inv two_nodes" by (simp add: ba_inv_def two_nodes_def cursor_def blocks_def)
  have d: "take 6 (drop (m_position two_nodes) (content two_nodes)) = map byte_of ''abcdef''" by code_simp
  have c: "cn_connected hello_connection" "cn_send hello_connection = Moved 9 # replicate 7 (Moved 9)" "cn_outgoing hello_connection = []"
    by (simp_all add: hello_connection_def numeral_eq_Suc)
  show ?thesis
    using write_from_bytearray [OF i _ _ _ c(1,2) _ d] c(3) by (auto simp: two_nodes_def getReadSize_def Let_def)
qed

end
