(* ===== verification/Settings.thy ===== *)
theory Settings
  imports Hook Config_Props
begin

text \<open>
  The settings that \<^verbatim>\<open>code/hook.cc\<close> and \<^verbatim>\<open>http/http_parser.cc\<close> keep beside the configuration: each file registers its
  variables, copies their values into static variables when the program starts, and adds listeners that copy every new
  value. The variables are a \<^verbatim>\<open>ConfigVar<int>\<close> and two \<^verbatim>\<open>ConfigVar<uint64_t>\<close>; the conversions of boost for the two types are
  the arguments \<open>I\<close> and \<open>U\<close>, and a value is its number; the values of the other variables of the program are coded
  as numbers too, with conversions and an equality of their own. The state is extended by what the
  listeners of the other variables act on, the type \<open>'r\<close>; what the listener of the timeout writes to the logger is not part of it.
\<close>

record settings =
  s_connect_timeout :: u64
  s_http_request_buffer_size :: u64
  s_http_request_body_size :: u64

type_synonym 'r settings_world = "'r settings_scheme"

type_synonym 'r settings_config = "(int, 'r settings_world) config"

definition settings_zero :: "'r \<Rightarrow> 'r settings_world" where
  "settings_zero r = \<lparr>s_connect_timeout = - 1, s_http_request_buffer_size = 0, s_http_request_body_size = 0, \<dots> = r\<rparr>"

definition config_int :: "int cast \<Rightarrow> int config_type" where
  "config_int I = \<lparr>ct_name = ''i'', ct_cast = I, ct_eq = (=)\<rparr>"

definition config_uint64 :: "int cast \<Rightarrow> int config_type" where
  "config_uint64 U = \<lparr>ct_name = ''m'', ct_cast = U, ct_eq = (=)\<rparr>"

text \<open>The listeners; an \<^verbatim>\<open>int\<close> that is assigned to a \<^verbatim>\<open>uint64_t\<close> wraps around.\<close>

definition connect_timeout_changed :: "(int, 'r settings_world) on_change_callback" where
  "connect_timeout_changed old new w = Done (w\<lparr>s_connect_timeout := word_of_int new\<rparr>)"

definition buffer_size_changed :: "(int, 'r settings_world) on_change_callback" where
  "buffer_size_changed ov nv w = Done (w\<lparr>s_http_request_buffer_size := word_of_int nv\<rparr>)"

definition body_size_changed :: "(int, 'r settings_world) on_change_callback" where
  "body_size_changed ov nv w = Done (w\<lparr>s_http_request_body_size := word_of_int nv\<rparr>)"

definition listen :: "(int, 'r settings_world) on_change_callback \<Rightarrow> u64 \<Rightarrow> nat \<Rightarrow> 'r settings_config \<Rightarrow> u64 \<times> 'r settings_config" where
  "listen cb s_fun_id i cfg = (case addListener id cb s_fun_id (cfg_vars cfg ! i) of
     (_, s_fun_id, v) \<Rightarrow> (s_fun_id, cfg\<lparr>cfg_vars := (cfg_vars cfg)[i := v]\<rparr>))"

text \<open>The initialisers; each type of variable has its own counter of listeners.\<close>

definition HookIniter :: "nat \<Rightarrow> 'r settings_config \<times> 'r settings_world \<Rightarrow> 'r settings_config \<times> 'r settings_world" where
  "HookIniter i s = (case s of (cfg, w) \<Rightarrow>
     let w = w\<lparr>s_connect_timeout := word_of_int (cv_value (cfg_vars cfg ! i))\<rparr>;
         (_, cfg) = listen connect_timeout_changed 0 i cfg
     in (cfg, w))"

definition ReqestSizeIniter :: "nat \<Rightarrow> nat \<Rightarrow> 'r settings_config \<times> 'r settings_world \<Rightarrow> 'r settings_config \<times> 'r settings_world" where
  "ReqestSizeIniter i j s = (case s of (cfg, w) \<Rightarrow>
     let w = w\<lparr>s_http_request_buffer_size := word_of_int (cv_value (cfg_vars cfg ! i))\<rparr>;
         w = w\<lparr>s_http_request_body_size := word_of_int (cv_value (cfg_vars cfg ! j))\<rparr>;
         (n, cfg) = listen buffer_size_changed 0 i cfg;
         (_, cfg) = listen body_size_changed n j cfg
     in (cfg, w))"

definition hook_statics :: "int cast \<Rightarrow> 'r settings_config \<times> 'r settings_world \<Rightarrow> cfg_error + nat \<times> 'r settings_config \<times> 'r settings_world" where
  "hook_statics I s = (case s of (cfg, w) \<Rightarrow>
     err_bind (Lookup_default (config_int I) ''tcp.connet.timeout'' 5000 ''tcp connect timeout'' cfg) (\<lambda>(i, cfg).
       Inr (i, HookIniter i (cfg, w))))"

definition parser_statics :: "int cast \<Rightarrow> 'r settings_config \<times> 'r settings_world \<Rightarrow> cfg_error + nat \<times> nat \<times> 'r settings_config \<times> 'r settings_world" where
  "parser_statics U s = (case s of (cfg, w) \<Rightarrow>
     err_bind (Lookup_default (config_uint64 U) ''http.request_buffer_size'' (4 * 1024) ''http request buffer size'' cfg) (\<lambda>(i, cfg).
     err_bind (Lookup_default (config_uint64 U) ''http.max_body_size'' (64 * 1024 * 1024) ''http max body size'' cfg) (\<lambda>(j, cfg).
       Inr (i, j, ReqestSizeIniter i j (cfg, w)))))"

definition GetHttpRequestBufferSize :: "'r settings_world \<Rightarrow> u64" where
  "GetHttpRequestBufferSize w = s_http_request_buffer_size w"

definition GetHttpRequestMaxBodySize :: "'r settings_world \<Rightarrow> u64" where
  "GetHttpRequestMaxBodySize w = s_http_request_body_size w"

text \<open>The hooked \<^verbatim>\<open>connect\<close> waits as long as the setting says; the hooked \<^verbatim>\<open>getsockopt\<close> is the original one.\<close>

definition hook_connect ::
  "bool \<Rightarrow> fd_ctx option \<Rightarrow> 'r settings_world \<Rightarrow> int \<times> int \<Rightarrow> wait_result list \<Rightarrow> int option \<Rightarrow> int \<Rightarrow> (int \<times> int \<times> io_call list) option" where
  "hook_connect hook_enable ctx w r ws sockopt opterr =
     connect_with_timeout hook_enable ctx (s_connect_timeout w) r ws sockopt opterr"

definition hook_getsockopt :: "(int \<Rightarrow> int \<Rightarrow> int \<Rightarrow> 'a) \<Rightarrow> int \<Rightarrow> int \<Rightarrow> int \<Rightarrow> 'a" where
  "hook_getsockopt getsockopt_f sockfd level optname = getsockopt_f sockfd level optname"

text \<open>
  The switch of the hooks is a variable of each thread, off at first. \<^verbatim>\<open>hook_init\<close> fills the table of the original functions from
  the dynamic linker, the argument \<open>dlsym\<close>; its flag is tested and never set, so that every call fills the table again.
\<close>

definition is_hook_enable :: "(nat \<Rightarrow> bool) \<Rightarrow> nat \<Rightarrow> bool" where
  "is_hook_enable t_hook_enable tid = t_hook_enable tid"

definition set_hook_enable :: "nat \<Rightarrow> bool \<Rightarrow> (nat \<Rightarrow> bool) \<Rightarrow> nat \<Rightarrow> bool" where
  "set_hook_enable tid flag t_hook_enable = t_hook_enable(tid := flag)"

definition hook_names :: "string list" where
  "hook_names = [''sleep'', ''usleep'', ''nanosleep'', ''socket'', ''connect'', ''accept'', ''read'', ''readv'', ''recv'', ''recvfrom'',
     ''recvmsg'', ''write'', ''writev'', ''send'', ''sendto'', ''sendmsg'', ''close'', ''fcntl'', ''ioctl'', ''getsockopt'', ''setsockopt'']"

definition hook_init :: "(string \<Rightarrow> 'f option) \<Rightarrow> (string \<rightharpoonup> 'f) \<times> bool \<Rightarrow> (string \<rightharpoonup> 'f) \<times> bool" where
  "hook_init dlsym st = (case st of (originals, is_inited) \<Rightarrow>
     if is_inited then st
     else (foldl (\<lambda>t name. t(name := dlsym name)) originals hook_names, is_inited))"

subsection \<open>What the program does with its configuration\<close>

datatype setting_op = LoadDocument yaml | SetValue nat int | SetText nat string

definition store_var :: "nat \<Rightarrow> 'r settings_config \<Rightarrow> (int, 'r settings_world) config_var \<Rightarrow> 'r settings_world \<Rightarrow> 'r settings_config \<times> 'r settings_world" where
  "store_var i cfg v w = (cfg\<lparr>cfg_vars := (cfg_vars cfg)[i := v]\<rparr>, w)"

definition set_at :: "nat \<Rightarrow> int \<Rightarrow> 'r settings_config \<times> 'r settings_world \<Rightarrow> ('r settings_config \<times> 'r settings_world) option" where
  "set_at i x s = (case s of (cfg, w) \<Rightarrow>
     if i < length (cfg_vars cfg) then
       (case setValue x (cfg_vars cfg ! i) w of
          (v, Done w') \<Rightarrow> Some (store_var i cfg v w') | (v, Threw w') \<Rightarrow> Some (store_var i cfg v w') | (v, Crashed) \<Rightarrow> None)
     else Some s)"

fun setting_step :: "yaml_lib \<Rightarrow> setting_op \<Rightarrow> 'r settings_config \<times> 'r settings_world \<Rightarrow> ('r settings_config \<times> 'r settings_world) option" where
  "setting_step Y (LoadDocument doc) s = LoadFromYaml Y doc s"
| "setting_step Y (SetValue i x) s = set_at i x s"
| "setting_step Y (SetText i t) (cfg, w) =
     (if i < length (cfg_vars cfg) then
        map_option (\<lambda>(_, v, w'). store_var i cfg v w') (fromString t (cfg_vars cfg ! i) w)
      else Some (cfg, w))"

fun setting_steps :: "yaml_lib \<Rightarrow> setting_op list \<Rightarrow> 'r settings_config \<times> 'r settings_world \<Rightarrow> ('r settings_config \<times> 'r settings_world) option" where
  "setting_steps Y [] s = Some s"
| "setting_steps Y (x # xs) s = Option.bind (setting_step Y x s) (setting_steps Y xs)"

subsection \<open>The copies agree with the variables\<close>

text \<open>The copies are the values of the variables \<open>a\<close>, \<open>b\<close> and \<open>c\<close>.\<close>

definition cached :: "nat \<Rightarrow> nat \<Rightarrow> nat \<Rightarrow> 'r settings_config \<Rightarrow> 'r settings_world \<Rightarrow> bool" where
  "cached a b c cfg w \<longleftrightarrow>
     s_connect_timeout w = word_of_int (cv_value (cfg_vars cfg ! a)) \<and>
     s_http_request_buffer_size w = word_of_int (cv_value (cfg_vars cfg ! b)) \<and>
     s_http_request_body_size w = word_of_int (cv_value (cfg_vars cfg ! c))"

text \<open>A listener of another variable: it may do anything, throw and crash included, but leaves the copies alone, which are static in their files.\<close>

definition same_copies :: "'r settings_world \<Rightarrow> 'r settings_world \<Rightarrow> bool" where
  "same_copies w w' \<longleftrightarrow> s_connect_timeout w' = s_connect_timeout w \<and>
     s_http_request_buffer_size w' = s_http_request_buffer_size w \<and> s_http_request_body_size w' = s_http_request_body_size w"

definition aside :: "(int, 'r settings_world) on_change_callback \<Rightarrow> bool" where
  "aside cb \<longleftrightarrow> (\<forall>old new w. case cb old new w of Done w' \<Rightarrow> same_copies w w' | Threw w' \<Rightarrow> same_copies w w' | Crashed \<Rightarrow> True)"

definition no_crash :: "(int, 'r settings_world) on_change_callback \<Rightarrow> bool" where
  "no_crash cb \<longleftrightarrow> (\<forall>old new w. cb old new w \<noteq> Crashed)"

definition wired :: "nat \<Rightarrow> nat \<Rightarrow> nat \<Rightarrow> 'r settings_config \<Rightarrow> bool" where
  "wired a b c cfg \<longleftrightarrow> distinct [a, b, c] \<and> (\<forall>i\<in>{a, b, c}. i < length (cfg_vars cfg) \<and> ct_eq (cv_type (cfg_vars cfg ! i)) = (=)) \<and>
     map snd (cv_cbs (cfg_vars cfg ! a)) = [connect_timeout_changed] \<and> map snd (cv_cbs (cfg_vars cfg ! b)) = [buffer_size_changed] \<and>
     map snd (cv_cbs (cfg_vars cfg ! c)) = [body_size_changed] \<and>
     (\<forall>i<length (cfg_vars cfg). i \<notin> {a, b, c} \<longrightarrow> (\<forall>e\<in>set (cv_cbs (cfg_vars cfg ! i)). aside (snd e)))"

definition crash_free :: "'r settings_config \<Rightarrow> bool" where
  "crash_free cfg \<longleftrightarrow> (\<forall>v\<in>set (cfg_vars cfg). \<forall>e\<in>set (cv_cbs v). no_crash (snd e))"

lemma run_one: "map snd cbs = [cb] \<Longrightarrow> run_cbs cbs old new w = cb old new w"
  by (cases cbs) (auto split: outcome.split)

lemma run_aside:
  "\<forall>e\<in>set cbs. aside (snd e) \<Longrightarrow>
     (case run_cbs cbs old new w of Done w' \<Rightarrow> same_copies w w' | Threw w' \<Rightarrow> same_copies w w' | Crashed \<Rightarrow> True)"
proof (induction cbs arbitrary: w)
  case (Cons e cbs)
  obtain k cb where e: "e = (k, cb)" by fastforce
  have "case cb old new w of Done w' \<Rightarrow> same_copies w w' | Threw w' \<Rightarrow> same_copies w w' | Crashed \<Rightarrow> True"
    using Cons.prems e by (simp add: aside_def)
  then show ?case using Cons.IH Cons.prems e by (fastforce simp: same_copies_def split: outcome.splits)
qed (simp add: same_copies_def)

lemma run_no_crash: "\<forall>e\<in>set cbs. no_crash (snd e) \<Longrightarrow> run_cbs cbs old new w \<noteq> Crashed"
  by (induction cbs arbitrary: w) (auto simp: no_crash_def split: outcome.splits)

definition synced :: "nat \<Rightarrow> nat \<Rightarrow> nat \<Rightarrow> 'r settings_config \<times> 'r settings_world \<Rightarrow> bool" where
  "synced a b c s \<longleftrightarrow> cfg_inv (fst s) \<and> wired a b c (fst s) \<and> cached a b c (fst s) (snd s)"

lemma store_synced:
  assumes "synced a b c (cfg, w)" and "i < length (cfg_vars cfg)" and "cached a b c (fst (store_var i cfg ((cfg_vars cfg ! i)\<lparr>cv_value := x\<rparr>) w)) w'"
  shows "synced a b c (store_var i cfg ((cfg_vars cfg ! i)\<lparr>cv_value := x\<rparr>) w')"
  using assms by (auto simp: synced_def wired_def cfg_inv_def store_var_def nth_list_update)

lemma listeners_cached:
  assumes "synced a b c (cfg, w)" and "i < length (cfg_vars cfg)"
  shows "case run_cbs (cv_cbs (cfg_vars cfg ! i)) old x w of
      Done w' \<Rightarrow> cached a b c (fst (store_var i cfg ((cfg_vars cfg ! i)\<lparr>cv_value := x\<rparr>) w)) w'
    | Threw w' \<Rightarrow> cached a b c cfg w' | Crashed \<Rightarrow> True"
proof (cases "i \<in> {a, b, c}")
  case True
  then show ?thesis
    using assms
    by (auto simp: synced_def wired_def cached_def store_var_def run_one connect_timeout_changed_def buffer_size_changed_def body_size_changed_def)
next
  case False
  then have "\<forall>e\<in>set (cv_cbs (cfg_vars cfg ! i)). aside (snd e)" using assms by (simp add: synced_def wired_def)
  from run_aside [OF this, where w = w and old = old and new = x] show ?thesis
    using assms False
    by (auto simp: same_copies_def synced_def cached_def store_var_def split: outcome.splits)
qed

lemma setValue_step:
  assumes "synced a b c (cfg, w)" and "i < length (cfg_vars cfg)" and "setValue x (cfg_vars cfg ! i) w = (v, r)"
  shows "case r of Done w' \<Rightarrow> synced a b c (store_var i cfg v w') | Threw w' \<Rightarrow> synced a b c (store_var i cfg v w') | Crashed \<Rightarrow> True"
proof -
  let ?v = "cfg_vars cfg ! i"
  have keep: "synced a b c (store_var i cfg ?v w')" if "cached a b c cfg w'" for w'
    using assms(1) that by (simp add: synced_def store_var_def)
  show ?thesis
  proof (cases "ct_eq (cv_type ?v) x (cv_value ?v)")
    case True
    then show ?thesis using assms keep [of w] by (auto simp: setValue_eq synced_def)
  next
    case False
    then show ?thesis
      using assms(3) listeners_cached [OF assms(1,2), where old = "cv_value ?v" and x = x] store_synced [OF assms(1,2)] keep
      by (auto simp: setValue_eq split: outcome.splits)
  qed
qed

lemma setValue_no_crash:
  assumes "crash_free cfg" and "i < length (cfg_vars cfg)" and "setValue x (cfg_vars cfg ! i) w = (v, r)"
  shows "r \<noteq> Crashed \<and> crash_free (fst (store_var i cfg v w'))"
proof -
  have cbs: "\<forall>e\<in>set (cv_cbs (cfg_vars cfg ! i)). no_crash (snd e)" using assms(1,2) by (auto simp: crash_free_def)
  have "cv_cbs v = cv_cbs (cfg_vars cfg ! i)" using assms(3) by (auto simp: setValue_eq split: if_splits outcome.splits)
  then have "crash_free (fst (store_var i cfg v w'))"
    using assms(1) cbs by (auto simp: crash_free_def store_var_def dest!: set_update_subset_insert [THEN subsetD])
  then show ?thesis using assms(3) run_no_crash [OF cbs] by (auto simp: setValue_eq split: if_splits outcome.splits)
qed

lemma fromString_cases:
  assumes "fromString t v w = r"
  obtains (bad) "r = Some (False, v, w)"
  | (ok) x v' o1 where "setValue x v w = (v', o1)"
      and "r = (case o1 of Done w' \<Rightarrow> Some (True, v', w') | Threw w' \<Rightarrow> Some (False, v', w') | Crashed \<Rightarrow> None)"
  using assms by (auto simp: fromString_def split: option.splits prod.splits)

text \<open>What every change of the configuration keeps.\<close>

definition step_ok :: "nat \<Rightarrow> nat \<Rightarrow> nat \<Rightarrow> 'r settings_config \<times> 'r settings_world \<Rightarrow> ('r settings_config \<times> 'r settings_world) option \<Rightarrow> bool" where
  "step_ok a b c s r \<longleftrightarrow> synced a b c s \<longrightarrow>
     (\<forall>s'. r = Some s' \<longrightarrow> synced a b c s') \<and> (crash_free (fst s) \<longrightarrow> (\<exists>s'. r = Some s' \<and> crash_free (fst s')))"

lemma step_ok_refl [simp]: "step_ok a b c s (Some s)"
  by (simp add: step_ok_def)

lemma step_ok_bind: "step_ok a b c s r \<Longrightarrow> (\<And>s'. step_ok a b c s' (f s')) \<Longrightarrow> step_ok a b c s (Option.bind r f)"
  by (cases r) (auto simp: step_ok_def)

lemma set_at_ok: "step_ok a b c s (set_at i x s)"
proof (cases "i < length (cfg_vars (fst s))")
  case True
  obtain cfg w v r where e: "s = (cfg, w)" "setValue x (cfg_vars cfg ! i) w = (v, r)" by (metis surj_pair)
  then show ?thesis
    using True setValue_step [of a b c cfg w i x v r] setValue_no_crash [of cfg i x w v r]
    by (auto simp: step_ok_def set_at_def simp del: split_paired_Ex split: outcome.splits)
qed (simp add: set_at_def case_prod_unfold)

lemma text_ok:
  assumes "i < length (cfg_vars cfg)"
  shows "step_ok a b c (cfg, w) (map_option (\<lambda>(_, v, w'). store_var i cfg v w') (fromString t (cfg_vars cfg ! i) w))"
proof (rule fromString_cases [of t "cfg_vars cfg ! i" w, OF refl], goal_cases bad ok)
  case bad
  then show ?thesis by (simp add: store_var_def)
next
  case (ok x v r)
  then show ?thesis
    using assms setValue_step [of a b c cfg w i x v r] setValue_no_crash [of cfg i x w v r]
    by (auto simp: step_ok_def simp del: split_paired_Ex split: outcome.splits)
qed

lemma load_member_ok: "step_ok a b c s (load_member Y e s)"
proof -
  obtain key node cfg w where e: "e = (key, node)" "s = (cfg, w)" by (metis surj_pair)
  consider "key = [] \<or> LookupBase (map tolower_char key) cfg = None" | (var) i where "key \<noteq> []" "LookupBase (map tolower_char key) cfg = Some i"
    by (cases "LookupBase (map tolower_char key) cfg") auto
  then show ?thesis
  proof cases
    case var
    have "load_member Y e s = map_option (\<lambda>(_, v, w'). store_var i cfg v w') (fromString (node_text Y node) (cfg_vars cfg ! i) w)"
      using var e by (simp add: load_member_def store_var_def split: option.split)
    moreover have "i < length (cfg_vars cfg)" if "cfg_inv cfg" using that var(2) by (auto simp: cfg_inv_def LookupBase_def)
    ultimately show ?thesis using text_ok [of i cfg a b c w] e(2) by (auto simp: step_ok_def synced_def)
  qed (auto simp: e load_member_def)
qed

lemma load_members_ok: "step_ok a b c s (load_members Y es s)"
  by (induction es arbitrary: s) (simp_all add: step_ok_bind load_member_ok)

lemma setting_step_ok: "step_ok a b c s (setting_step Y x s)"
proof (cases x)
  case (SetText i t)
  obtain cfg w where "s = (cfg, w)" by fastforce
  then show ?thesis using SetText text_ok by auto
qed (simp_all add: LoadFromYaml_def load_members_ok set_at_ok)

lemma setting_steps_ok: "step_ok a b c s (setting_steps Y ops s)"
  by (induction ops arbitrary: s) (simp_all add: step_ok_bind setting_step_ok)

subsection \<open>The start of the program\<close>

definition bystanders :: "'r settings_config \<Rightarrow> bool" where
  "bystanders cfg \<longleftrightarrow> (\<forall>v\<in>set (cfg_vars cfg). \<forall>e\<in>set (cv_cbs v). aside (snd e))"

definition program_statics ::
  "int cast \<Rightarrow> int cast \<Rightarrow> 'r settings_config \<Rightarrow> 'r \<Rightarrow> cfg_error + nat \<times> nat \<times> nat \<times> 'r settings_config \<times> 'r settings_world" where
  "program_statics I U cfg r =
     err_bind (hook_statics I (cfg, settings_zero r)) (\<lambda>(a, s). err_bind (parser_statics U s) (\<lambda>(b, c, s). Inr (a, b, c, s)))"

lemma Lookup_default_new:
  assumes "cfg_datas cfg name = None" and "valid_name name"
  shows "Lookup_default T name x d cfg =
      Inr (length (cfg_vars cfg), cfg\<lparr>cfg_vars := cfg_vars cfg @ [new_ConfigVar T name x d], cfg_datas := (cfg_datas cfg)(name \<mapsto> length (cfg_vars cfg))\<rparr>)"
  using assms by (simp add: Lookup_default_def Lookup_typed_def Let_def)

lemma program_statics_synced:
  assumes "cfg_inv cfg" and "bystanders cfg" and "cfg_datas cfg ''tcp.connet.timeout'' = None"
    and "cfg_datas cfg ''http.request_buffer_size'' = None" and "cfg_datas cfg ''http.max_body_size'' = None"
  defines "n \<equiv> length (cfg_vars cfg)"
  obtains s where "program_statics I U cfg rest = Inr (n, Suc n, Suc (Suc n), s)" and "synced n (Suc n) (Suc (Suc n)) s"
    and "crash_free cfg \<Longrightarrow> crash_free (fst s)"
    and "map (\<lambda>i. cv_value (cfg_vars (fst s) ! i)) [n, Suc n, Suc (Suc n)] = [5000, 4096, 67108864]"
proof -
  let ?t = "''tcp.connet.timeout''" and ?r = "''http.request_buffer_size''" and ?b = "''http.max_body_size''"
  have names: "valid_name ?t" "valid_name ?r" "valid_name ?b" by (simp_all add: valid_name_def)
  have lower: "map tolower_char ?t = ?t" "map tolower_char ?r = ?r" "map tolower_char ?b = ?b"
    using names by (simp_all only: valid_name_lower)
  let ?v1 = "new_ConfigVar (config_int I) ?t 5000 ''tcp connect timeout'' \<lparr>cv_cbs := [(1, connect_timeout_changed)]\<rparr>"
    and ?v2 = "new_ConfigVar (config_uint64 U) ?r 4096 ''http request buffer size'' \<lparr>cv_cbs := [(1, buffer_size_changed)]\<rparr>"
    and ?v3 = "new_ConfigVar (config_uint64 U) ?b 67108864 ''http max body size'' \<lparr>cv_cbs := [(2, body_size_changed)]\<rparr>"
  let ?cfg = "cfg\<lparr>cfg_vars := cfg_vars cfg @ [?v1, ?v2, ?v3], cfg_datas := (cfg_datas cfg)(?t \<mapsto> n, ?r \<mapsto> Suc n, ?b \<mapsto> Suc (Suc n))\<rparr>"
  let ?w = "\<lparr>s_connect_timeout = 5000, s_http_request_buffer_size = 4096, s_http_request_body_size = 67108864, \<dots> = rest\<rparr>"
  have hook: "hook_statics I (cfg, settings_zero rest) =
      Inr (n, cfg\<lparr>cfg_vars := cfg_vars cfg @ [?v1], cfg_datas := (cfg_datas cfg)(?t \<mapsto> n)\<rparr>, (settings_zero rest)\<lparr>s_connect_timeout := 5000\<rparr>)"
    unfolding hook_statics_def prod.case Lookup_default_new [OF assms(3) names(1)]
    by (simp add: HookIniter_def listen_def addListener_def n_def new_ConfigVar_def list_update_append)
  have start: "program_statics I U cfg rest = Inr (n, Suc n, Suc (Suc n), ?cfg, ?w)"
    unfolding program_statics_def hook
    by (simp add: parser_statics_def Lookup_default_new assms(4,5) names ReqestSizeIniter_def listen_def addListener_def n_def
        new_ConfigVar_def list_update_append nth_append settings_zero_def)
  have "cfg_inv ?cfg"
    using assms(1) names lower unfolding cfg_inv_def n_def by (auto simp: new_ConfigVar_def nth_append less_Suc_eq)
  moreover have "wired n (Suc n) (Suc (Suc n)) ?cfg"
    using assms(2) unfolding wired_def bystanders_def
    by (auto simp: nth_append new_ConfigVar_def config_int_def config_uint64_def n_def less_Suc_eq)
  moreover have "cached n (Suc n) (Suc (Suc n)) ?cfg ?w"
    by (simp add: cached_def n_def nth_append new_ConfigVar_def)
  moreover have "crash_free cfg \<Longrightarrow> crash_free ?cfg"
    by (auto simp: crash_free_def no_crash_def connect_timeout_changed_def buffer_size_changed_def body_size_changed_def)
  ultimately show ?thesis by (intro that [OF start]) (simp_all add: synced_def nth_append new_ConfigVar_def n_def)
qed

subsection \<open>Properties\<close>

text \<open>C22. The settings follow the configuration. The initialisers start the connect timeout with 5
  seconds and the two sizes of the HTTP parser with 4096 bytes and 64 MB. From then on, after any documents were loaded and any
  variables were set, one change after the other, the timeout with which the hooked \<^verbatim>\<open>connect\<close> waits and the two sizes are the
  values that their variables have, in 64 bits. The other variables may have listeners of their own, present from the start, that do anything to the
  rest of the program, throw or crash; if none of them crashes no step of this does. The changes must not overlap: \<^verbatim>\<open>setValue\<close>
  calls the listeners under the read lock and stores the value under the write lock, so that of two threads that set the
  timeout at the same time one can have the last word in the copy and the other in the variable (the last part).\<close>

theorem settings_follow_config:
  fixes cfg :: "'r settings_config"
  assumes "cfg_inv cfg" and "bystanders cfg" and "cfg_datas cfg ''tcp.connet.timeout'' = None"
    and "cfg_datas cfg ''http.request_buffer_size'' = None" and "cfg_datas cfg ''http.max_body_size'' = None"
  shows "\<exists>a b c cfg1 w1. program_statics I U cfg rest = Inr (a, b, c, cfg1, w1) \<and>
    map (\<lambda>i. cv_value (cfg_vars cfg1 ! i)) [a, b, c] = [5000, 4096, 67108864] \<and>
    (\<forall>Y ops cfg' w'. setting_steps Y ops (cfg1, w1) = Some (cfg', w') \<longrightarrow>
       hook_connect en ctx w' r ws so oe = connect_with_timeout en ctx (word_of_int (cv_value (cfg_vars cfg' ! a))) r ws so oe \<and>
       GetHttpRequestBufferSize w' = word_of_int (cv_value (cfg_vars cfg' ! b)) \<and>
       GetHttpRequestMaxBodySize w' = word_of_int (cv_value (cfg_vars cfg' ! c))) \<and>
    (crash_free cfg \<longrightarrow> (\<forall>Y ops. setting_steps Y ops (cfg1, w1) \<noteq> None)) \<and>
    (\<exists>x y w2 w3. setValue_notify x (cfg_vars cfg1 ! a) w1 = Some (Done w2) \<and> setValue_notify y (cfg_vars cfg1 ! a) w2 = Some (Done w3) \<and>
       s_connect_timeout w3 \<noteq> word_of_int (cv_value (setValue_store x (setValue_store y (cfg_vars cfg1 ! a)))))"
proof -
  let ?n = "length (cfg_vars cfg)"
  obtain cfg1 w1 where start: "program_statics I U cfg rest = Inr (?n, Suc ?n, Suc (Suc ?n), cfg1, w1)"
    and s: "synced ?n (Suc ?n) (Suc (Suc ?n)) (cfg1, w1)" and cf: "crash_free cfg \<Longrightarrow> crash_free cfg1"
    and vals: "map (\<lambda>i. cv_value (cfg_vars cfg1 ! i)) [?n, Suc ?n, Suc (Suc ?n)] = [5000, 4096, 67108864]"
    using program_statics_synced [OF assms] by (metis fst_conv surj_pair)
  have steps: "cached ?n (Suc ?n) (Suc (Suc ?n)) cfg' w'" if "setting_steps Y ops (cfg1, w1) = Some (cfg', w')" for Y ops cfg' w'
    using setting_steps_ok [of ?n "Suc ?n" "Suc (Suc ?n)" "(cfg1, w1)" Y ops] s that by (simp add: step_ok_def synced_def)
  have runs: "setting_steps Y ops (cfg1, w1) \<noteq> None" if "crash_free cfg" for Y ops
    using setting_steps_ok [of ?n "Suc ?n" "Suc (Suc ?n)" "(cfg1, w1)" Y ops] s cf that by (auto simp: step_ok_def)
  have "setValue_notify x (cfg_vars cfg1 ! ?n) w = Some (Done (w\<lparr>s_connect_timeout := word_of_int x\<rparr>))" if "x \<noteq> 5000" for x w
    using s vals that by (simp add: synced_def wired_def setValue_notify_def run_one connect_timeout_changed_def)
  then have race: "\<exists>x y w2 w3. setValue_notify x (cfg_vars cfg1 ! ?n) w1 = Some (Done w2) \<and> setValue_notify y (cfg_vars cfg1 ! ?n) w2 = Some (Done w3) \<and>
      s_connect_timeout w3 \<noteq> word_of_int (cv_value (setValue_store x (setValue_store y (cfg_vars cfg1 ! ?n))))"
    by (intro exI [of _ 1] exI [of _ 2]) (simp add: setValue_store_def)
  have agree: "hook_connect en ctx w' r ws so oe = connect_with_timeout en ctx (word_of_int (cv_value (cfg_vars cfg' ! ?n))) r ws so oe \<and>
       GetHttpRequestBufferSize w' = word_of_int (cv_value (cfg_vars cfg' ! Suc ?n)) \<and>
       GetHttpRequestMaxBodySize w' = word_of_int (cv_value (cfg_vars cfg' ! Suc (Suc ?n)))"
    if "setting_steps Y ops (cfg1, w1) = Some (cfg', w')" for Y ops cfg' w'
    using steps [OF that] by (simp add: hook_connect_def GetHttpRequestBufferSize_def GetHttpRequestMaxBodySize_def cached_def)
  show ?thesis
    by (rule exI [of _ ?n], rule exI [of _ "Suc ?n"], rule exI [of _ "Suc (Suc ?n)"], rule exI [of _ cfg1], rule exI [of _ w1])
      (use start vals agree runs race in blast)
qed

text \<open>A variable whose listener counts its calls and throws, beside the three.\<close>

definition counted_var :: "(int, nat settings_world) config_var" where
  "counted_var = (new_ConfigVar (config_int nat_cast) ''port'' 80 [])
     \<lparr>cv_cbs := [(7, \<lambda>old new w. Threw (settings.extend (settings.truncate w) (settings.more w + 1)))]\<rparr>"

theorem settings_follow_config_witness:
  "\<exists>a b c cfg1 w1 cfg' w'.
     program_statics nat_cast nat_cast \<lparr>cfg_vars = [counted_var], cfg_datas = [''port'' \<mapsto> 0]\<rparr> 0 = Inr (a, b, c, cfg1, w1) \<and>
     setting_steps plain_yaml [LoadDocument (YMap [(''http'', YMap [(''max_body_size'', YScalar ''10'')])]), SetValue 0 7] (cfg1, w1) = Some (cfg', w') \<and>
     GetHttpRequestMaxBodySize w' = word_of_int (cv_value (cfg_vars cfg' ! c))"
    (is "\<exists>a b c cfg1 w1 cfg' w'. program_statics _ _ ?e _ = _ \<and> setting_steps _ ?ops _ = _ \<and> _")
proof -
  have e: "cfg_inv ?e" "bystanders ?e" "crash_free ?e" "cfg_datas ?e ''tcp.connet.timeout'' = None"
    "cfg_datas ?e ''http.request_buffer_size'' = None" "cfg_datas ?e ''http.max_body_size'' = None"
    by (simp_all add: cfg_inv_def bystanders_def crash_free_def counted_var_def aside_def same_copies_def no_crash_def
        settings.defs new_ConfigVar_def valid_name_def tolower_char_def)
  note all = settings_follow_config [OF e(1,2,4-6), of nat_cast nat_cast 0 True None "(0, 0)" "[]" None 0]
  obtain a b c cfg1 w1 where start: "program_statics nat_cast nat_cast ?e 0 = Inr (a, b, c, cfg1, w1)"
    and agree: "\<forall>Y ops cfg' w'. setting_steps Y ops (cfg1, w1) = Some (cfg', w') \<longrightarrow>
      hook_connect True None w' (0, 0) [] None 0 = connect_with_timeout True None (word_of_int (cv_value (cfg_vars cfg' ! a))) (0, 0) [] None 0 \<and>
      GetHttpRequestBufferSize w' = word_of_int (cv_value (cfg_vars cfg' ! b)) \<and> GetHttpRequestMaxBodySize w' = word_of_int (cv_value (cfg_vars cfg' ! c))"
    and runs: "crash_free ?e \<longrightarrow> (\<forall>Y ops. setting_steps Y ops (cfg1, w1) \<noteq> None)"
    using all by (elim exE conjE)
  obtain cfg' w' where "setting_steps plain_yaml ?ops (cfg1, w1) = Some (cfg', w')" using runs e(3) by fast
  then show ?thesis using start agree by blast
qed

end
