(* ===== verification/Spec2Isabelle.thy ===== *)
theory Spec2Isabelle
  imports ByteArray_Spec Timer_Props Hook_Props Address_Props HttpServer TcpServer Http_Response_Props Log_Config_Props Locks Thread ByteStream Settings
begin

text \<open>
  A model of the CXS server framework, a C++ library of coroutine based network servers (the sources are
  under \<^verbatim>\<open>src/code\<close> and \<^verbatim>\<open>src/http\<close>), with the theorems that make its parts correct.

  \<^bold>\<open>The program.\<close> Fibers are coroutines that a pool of threads runs. A \<^verbatim>\<open>Scheduler\<close> keeps a queue of tasks (fibers or
  callbacks) and its worker threads take them in order. The \<^verbatim>\<open>IOManager\<close> is a scheduler whose idle fiber waits
  in \<^verbatim>\<open>epoll_wait\<close>, and it is a timer manager: a fiber that waits for a descriptor or for a deadline is
  registered there and handed back to its scheduler when the event arrives. The hooks replace the blocking
  system calls: a call that would block registers the fiber with the manager, arms a timer for the timeout
  of the descriptor, and yields. Sockets, streams, the TCP server and the HTTP server are written on top of
  the hooked calls. An HTTP session reads a request with a generated state machine, and the server
  answers it. \<^verbatim>\<open>ByteArray\<close> is a chunked byte buffer with typed operations. Loggers write events to their appenders.

  \<^bold>\<open>How it is modelled.\<close> A class is a record, an enumeration a datatype, an operation a function on the record. What
  is thrown, asserted or undefined is a value \<open>Inl\<close> of a sum, so that every theorem about a result also says that
  nothing of it happens. Machine integers are words of their width; where the code lets a signed integer overflow (the zigzag encodings of
  \<^verbatim>\<open>bytearray.cc\<close>) the result is taken to wrap. The operating system is not modelled:
  the results of system calls, the clock and the library functions that are not in the repository are arguments,
  and a loop over such results runs over a list of them. Objects shared by pointer live in stores under
  numbers. The threads of the scheduler are a step relation in which the steps of the workers interleave.

  \<^bold>\<open>Theories.\<close>
  \<^item> \<open>Prelude\<close>, \<open>StdSet\<close>, \<open>StdMap\<close>, \<open>Text\<close>: words, errors, memory copies, ordered sets and maps with a comparator
    (the locales \<open>comparator\<close> and \<open>keyed\<close>), printed numbers.
  \<^item> \<open>Endian\<close>, \<open>ByteArray\<close>, \<open>ByteArray_Codec\<close> model \<^verbatim>\<open>code/endian.h\<close> and \<^verbatim>\<open>code/bytearray.cc\<close>; \<open>ByteArray_Props\<close>,
    \<open>ByteArray_RoundTrip\<close> and \<open>ByteArray_Spec\<close> show that the chunks refine one sequence of bytes with a position
    and that integers and strings are read back as they were written, with the exceptions stated there (the locale \<open>ba_codec\<close>, interpreted for
    each of the encodings).
  \<^item> \<open>Timer\<close>, \<open>Timer_Props\<close>: \<^verbatim>\<open>code/timer.cpp\<close>. The set of timers is ordered by deadline; expiry returns exactly what is due,
    cancelling always finds its timer, a disarmed timer never fires again.
  \<^item> \<open>Fiber\<close>, \<open>Scheduler\<close>, \<open>Scheduler_Props\<close>: \<^verbatim>\<open>code/fiber.cc\<close> and \<^verbatim>\<open>code/scheduler.cc\<close>. The active count is exact in every interleaving,
    so that no task is queued or executed when a scheduler reports that it can stop; a run shows a fiber that is queued afterwards all the same. The idle
    count, a plain integer that all workers change, is arbitrary. A run shows two threads in one fiber that yields to hold.
  \<^item> \<open>IOManager\<close>, \<open>IOManager_Props\<close>: \<^verbatim>\<open>code/iomanager.cc\<close>. The pending count, the registrations with the kernel and the
    waiting fibers agree in every state that is reached without a resize that shortens the table, and a run shows the waiter that such a resize
    loses; a registered waiter whose event is reported is woken exactly once. The scheduler field of an event, which the code does not initialise, is arbitrary
    where the table grows.
  \<^item> \<open>FdManager\<close>, \<open>Hook\<close>, \<open>Hook_Props\<close>: \<^verbatim>\<open>code/fd_manager.cc\<close> and \<^verbatim>\<open>code/hook.cc\<close>. A hooked call returns what a blocking call
    would, with timeouts; some calls of \<^verbatim>\<open>fcntl\<close> and \<^verbatim>\<open>ioctl\<close> never return. A hooked call returns at the first attempt that is not an interruption or an empty buffer.
  \<^item> \<open>Address\<close>, \<open>Address_Props\<close>: \<^verbatim>\<open>code/address.cc\<close>. The order of addresses, masks, and the printed form.
  \<^item> \<open>Socket\<close>, \<open>Socket_Props\<close>, \<open>TcpServer\<close>: \<^verbatim>\<open>code/socket.cc\<close> and \<^verbatim>\<open>code/tcp_server.cc\<close>. The descriptors that the sockets of a program
    own and the accepted ones that nobody does, timeouts, binding and accepting.
  \<^item> \<open>SocketStream\<close>: \<^verbatim>\<open>code/stream.cc\<close> and \<^verbatim>\<open>code/socket_stream.cc\<close>. The loops for a fixed size, and what they do after a failed read.
    \<open>ByteStream\<close>: the same on byte arrays, composed with the theories of \<open>ByteArray\<close>: a read puts exactly the next bytes at the position when there is more room than that, and follows a null pointer otherwise;
    a write offers the bytes of the last node only.
  \<^item> \<open>Http\<close>, \<open>Http_Props\<close>: \<^verbatim>\<open>http/http.cc\<close>. Methods, headers, messages and their text.
  \<^item> \<open>Http11_Table\<close>, \<open>Http11_Parser\<close>: the transitions and actions of \<^verbatim>\<open>http/http11_paeser.rl.cc\<close>. \<open>Http11_Safety\<close> shows that
    the machine reports ranges of its buffer only, \<open>Http11_States\<close> and \<open>Http11_Run\<close> follow it over a request.
  \<^item> \<open>HttpClient_Table\<close>, \<open>HttpClient_Parser\<close>: the same for \<^verbatim>\<open>http/httpclient_paeser.rl.cc\<close>, the machine for responses and chunk
    headers. \<open>HttpClient_Safety\<close> bounds the ranges it reports, \<open>HttpClient_Run\<close> follows it over a response. Both machines
    interpret the locale \<open>goto_machine\<close> of \<open>Machine\<close>.
  \<^item> \<open>Http_Parser\<close>: \<^verbatim>\<open>HttpRequestParser\<close> and \<^verbatim>\<open>HttpResponseParser\<close> of \<^verbatim>\<open>http/http_parser.cc\<close>. \<open>Http_Parser_Props\<close> and
    \<open>Http_Response_Props\<close> show that the text of a request and of a response is parsed back, and which inputs are mishandled.
  \<^item> \<open>HttpSession\<close>, \<open>HttpServer\<close>: \<^verbatim>\<open>http/http_session.cc\<close> and \<^verbatim>\<open>http/http_server.cc\<close>, composed of the theories above: what a client
    that sends a request gets when the head of it comes in one piece.
  \<^item> \<open>Log\<close>, \<open>Log_Pattern\<close>, \<open>Logger\<close>, \<open>Logger_Props\<close>: \<^verbatim>\<open>code/log.cc\<close>. The pattern of a formatter is parsed as it is written,
    and an event reaches exactly the appenders that should receive it.
  \<^item> \<open>Yaml\<close>, \<open>Config_Cast\<close>, \<open>Config\<close>, \<open>Config_Props\<close>: \<^verbatim>\<open>code/config.hpp\<close> and \<^verbatim>\<open>code/config.cc\<close>. The YAML library is a record of functions
    (\<open>yaml_lib\<close>) with its documented behaviour as hypotheses and a plain instance that has it. Containers are read back as
    printed, variables are registered under their names, and a document gives each variable the value at its path.
  \<^item> \<open>Settings\<close>: the values that \<^verbatim>\<open>code/hook.cc\<close> and \<^verbatim>\<open>http/http_parser.cc\<close> copy from the configuration; the copies agree with the
    variables after any changes that do not overlap.
  \<^item> \<open>Log_Config\<close>, \<open>Log_Config_Props\<close>: the definitions of loggers in \<^verbatim>\<open>code/log.cc\<close>, their conversion, and the listener that
    applies them: configuration and logging composed. What the conversion loses of a definition is stated, and that a definition which stays
    as it was crashes the program.
  \<^item> \<open>Locks\<close>: the scoped locks of \<^verbatim>\<open>code/thread.h\<close> over a raw lock (the locale \<open>raw_lock\<close>, interpreted for the spin lock, the
    mutex and the read-write lock); they exclude each other in every interleaving. \<open>Thread\<close>: \<^verbatim>\<open>code/thread.cc\<close> and
    \<^verbatim>\<open>code/util.cc\<close>, the start of a thread and the clocks.

  \<^bold>\<open>Bounds and fuel.\<close> The loops of \<^verbatim>\<open>stream.cc\<close> may run forever on a connection that keeps failing; they have fuel, which
  is one more than the number of replies the connection has left (\<open>fix_fuel\<close>) or one more than the number of bytes asked for. For reads and writes that
  make progress the theorems show that this is enough for the loops to return; on a stream that is not connected they show that no fuel below about \<open>2 ^ 64\<close> is. The loops over the buffers, patterns and tables are total functions. Where
  the code computes with \<^verbatim>\<open>size_t\<close> the theorems ask for lengths below \<open>2 ^ 64\<close>, and below \<open>2 ^ 31\<close> where it converts them to \<^verbatim>\<open>int\<close>, as both parsers do; the buffer of a session has the
  100 bytes of the code. Hypotheses about functions outside the repository (the decimal conversion of boost,
  for example) are stated in the theorems that use them.

  \<^bold>\<open>Not modelled.\<close> The machine context behind a fiber, which is an identity here; the memory behind shared pointers,
  which live as long as the stores do; the dynamic linker, the YAML and boost
  libraries and the operating system, which are arguments. An operation under a lock is one step. An operation that
  takes several locks one after the other is composed of a step for each of them: \<^verbatim>\<open>IOManager::addEvent\<close>, \<^verbatim>\<open>FdManager::get\<close> and
  \<^verbatim>\<open>ConfigVar::setValue\<close>, and the parts of the scheduler. \<^verbatim>\<open>TimerManager::listExpiredTimer\<close> is taken as one step, although it releases the read
  lock after its test for emptiness. The locks of pthread are taken to wait where the code ignores an error they report, and what \<^verbatim>\<open>Address::Lookup\<close> and the
  configuration write to the loggers is left out.
\<close>

end
